(* ===== verification/Margot_Prelude.thy ===== *)
theory Margot_Prelude
  imports Complex_Main
begin

text \<open>
  Shared vocabulary of the development: the error values that stand for a failed
  \<^verbatim>\<open>assert\<close> or for undefined behaviour of the C++ sources, the collections of
  simplification rules used by the component theories, and the generic facts on lists
  that several components need: insertion into a key-sorted list (the behaviour of
  \<^verbatim>\<open>std::multimap\<close>), erasing one element, the first minimal element of a range
  (\<^verbatim>\<open>std::min_element\<close>), the last \<open>n\<close> elements of a list and association lists with
  a user supplied key equality (\<^verbatim>\<open>std::unordered_map\<close>).
\<close>

section \<open>Errors of the C++ program\<close>

text \<open>
  The sources signal misuse with \<^verbatim>\<open>assert\<close>; compiled in release mode the same calls
  run into undefined behaviour, which also comes without an \<^verbatim>\<open>assert\<close> (writing past the end
  of a vector). A few functions throw a \<^verbatim>\<open>std::runtime_error\<close>.
\<close>

datatype margot_error = Assertion_failed string | Undefined_behaviour string | Runtime_error string

type_synonym 'a result = "margot_error + 'a"

definition guard_assert :: "bool \<Rightarrow> string \<Rightarrow> 'a result \<Rightarrow> 'a result" where
  "guard_assert b msg r = (if b then r else Inl (Assertion_failed msg))"

fun bind_result :: "'a result \<Rightarrow> ('a \<Rightarrow> 'b result) \<Rightarrow> 'b result" where
  "bind_result (Inl e) f = Inl e"
| "bind_result (Inr a) f = f a"

lemma guard_assert_True [simp]: "guard_assert True msg r = r"
  by (simp add: guard_assert_def)

lemma guard_assert_False [simp]: "guard_assert False msg r = Inl (Assertion_failed msg)"
  by (simp add: guard_assert_def)

lemma guard_assert_eq_Inr [simp]: "guard_assert b msg r = Inr x \<longleftrightarrow> b \<and> r = Inr x"
  by (simp add: guard_assert_def)

lemma bind_result_eq_Inr [simp]: "bind_result r f = Inr y \<longleftrightarrow> (\<exists>x. r = Inr x \<and> f x = Inr y)"
  by (cases r) auto

lemma bind_result_cong [fundef_cong]:
  "r = r' \<Longrightarrow> (\<And>a. r' = Inr a \<Longrightarrow> f a = f' a) \<Longrightarrow> bind_result r f = bind_result r' f'"
  by (cases r') auto

text \<open>A loop whose body may throw, replacing every element by the result of the body.\<close>

fun traverse :: "('a \<Rightarrow> 'b result) \<Rightarrow> 'a list \<Rightarrow> 'b list result" where
  "traverse f [] = Inr []"
| "traverse f (x # xs) = bind_result (f x) (\<lambda>y. bind_result (traverse f xs) (\<lambda>ys. Inr (y # ys)))"

lemma traverse_eq_Inr: "traverse f xs = Inr ys \<longleftrightarrow> list_all2 (\<lambda>x y. f x = Inr y) xs ys"
proof (induction xs arbitrary: ys)
  case (Cons x xs)
  show ?case
    by (cases ys) (auto simp: Cons)
qed auto

lemma traverse_all:
  assumes "traverse f xs = Inr ys" and "\<And>x y. x \<in> set xs \<Longrightarrow> f x = Inr y \<Longrightarrow> P y"
  shows "\<forall>y \<in> set ys. P y"
proof
  fix y assume "y \<in> set ys"
  then obtain i where "i < length ys" "y = ys ! i" by (auto simp: in_set_conv_nth)
  with assms(1) have "i < length xs" "f (xs ! i) = Inr y"
    by (auto simp: traverse_eq_Inr list_all2_conv_all_nth)
  then show "P y" by (intro assms(2) [of "xs ! i"]) simp_all
qed

lemma traverse_map:
  assumes "traverse f xs = Inr ys" and "\<And>x y. x \<in> set xs \<Longrightarrow> f x = Inr y \<Longrightarrow> h y = g x"
  shows "map h ys = map g xs"
  using assms unfolding traverse_eq_Inr by (auto simp: list_all2_conv_all_nth intro!: nth_equalityI)

lemma traverse_cong [fundef_cong]:
  "xs = ys \<Longrightarrow> (\<And>x. x \<in> set ys \<Longrightarrow> f x = g x) \<Longrightarrow> traverse f xs = traverse g ys"
  by (induction xs arbitrary: ys) (auto intro!: bind_result_cong)

lemma traverse_Inr: "(\<And>x. x \<in> set xs \<Longrightarrow> f x = Inr (g x)) \<Longrightarrow> traverse f xs = Inr (map g xs)"
  by (induction xs) auto

section \<open>Collections of rules\<close>

named_theorems op_simps \<open>accessors of operating points and their segments\<close>
named_theorems view_simps \<open>contents of views and ranks after an operation\<close>
named_theorems stack_simps \<open>streams produced by the filtering operations of a constraint\<close>
named_theorems validate_iff \<open>when a validation succeeds and with which result\<close>
named_theorems tree_simps \<open>what the parsers read from a composed tree\<close>
named_theorems frame_simps \<open>what an operation leaves unchanged\<close>

section \<open>Lists kept sorted by a key (std::multimap)\<close>

text \<open>
  \<^verbatim>\<open>std::multimap::emplace\<close> inserts at the upper bound of the range of equal keys, so
  elements with equal keys stay in insertion order.
\<close>

fun mm_insert :: "'k::linorder \<Rightarrow> 'v \<Rightarrow> ('k \<times> 'v) list \<Rightarrow> ('k \<times> 'v) list" where
  "mm_insert k v [] = [(k, v)]"
| "mm_insert k v (e # es) = (if k < fst e then (k, v) # e # es else e # mm_insert k v es)"

text \<open>Erasing the first element with the given key and value.\<close>

fun mm_erase :: "'k \<Rightarrow> 'v \<Rightarrow> ('k \<times> 'v) list \<Rightarrow> ('k \<times> 'v) list" where
  "mm_erase k v [] = []"
| "mm_erase k v (e # es) = (if fst e = k \<and> snd e = v then es else e # mm_erase k v es)"

text \<open>The elements from \<^verbatim>\<open>lower_bound(lo)\<close> up to \<^verbatim>\<open>upper_bound(hi)\<close>.\<close>

definition mm_slice :: "'k::linorder \<Rightarrow> 'k \<Rightarrow> ('k \<times> 'v) list \<Rightarrow> ('k \<times> 'v) list" where
  "mm_slice lo hi es = takeWhile (\<lambda>e. fst e \<le> hi) (dropWhile (\<lambda>e. fst e < lo) es)"

abbreviation mm_sorted :: "('k::linorder \<times> 'v) list \<Rightarrow> bool" where
  "mm_sorted es \<equiv> sorted (map fst es)"

lemma set_mm_insert [simp]: "set (mm_insert k v es) = insert (k, v) (set es)"
  by (induction es) auto

lemma length_mm_insert [simp]: "length (mm_insert k v es) = Suc (length es)"
  by (induction es) auto

lemma mm_insert_neq_Nil [simp]: "mm_insert k v es \<noteq> []"
  by (cases es) auto

lemma sorted_mm_insert: "mm_sorted es \<Longrightarrow> mm_sorted (mm_insert k v es)"
proof (induction es)
  case Nil
  then show ?case by simp
next
  case (Cons e es)
  have IH: "mm_sorted (mm_insert k v es)" using Cons by simp
  have "fst e \<le> k" if "\<not> k < fst e" using that by simp
  then show ?case using Cons.prems IH by auto
qed

lemma distinct_mm_insert: "distinct (map snd (mm_insert k v es)) \<longleftrightarrow> v \<notin> snd ` set es \<and> distinct (map snd es)"
  by (induction es) auto

lemma mm_erase_notin: "(k, v) \<notin> set es \<Longrightarrow> mm_erase k v es = es"
  by (induction es) auto

lemma set_mm_erase_subset: "set (mm_erase k v es) \<subseteq> set es"
  by (induction es) auto

lemma set_mm_erase: "distinct es \<Longrightarrow> set (mm_erase k v es) = set es - {(k, v)}"
proof (induction es)
  case (Cons e es)
  have step: "fst e = k \<and> snd e = v \<longleftrightarrow> e = (k, v)" by (cases e) simp
  show ?case
  proof (cases "e = (k, v)")
    case True
    then have "set es - {e} = set es" using Cons.prems by simp
    then show ?thesis using True by (simp add: insert_Diff_if)
  next
    case False
    then have "mm_erase k v (e # es) = e # mm_erase k v es" by (simp only: mm_erase.simps step) simp
    then show ?thesis using Cons False by (simp add: insert_Diff_if del: mm_erase.simps)
  qed
qed simp

lemma sorted_mm_erase: "mm_sorted es \<Longrightarrow> mm_sorted (mm_erase k v es)"
proof (induction es)
  case (Cons e es)
  then show ?case using set_mm_erase_subset [of k v es] by auto
qed simp

lemma distinct_mm_erase: "distinct (map snd es) \<Longrightarrow> distinct (map snd (mm_erase k v es))"
proof (induction es)
  case (Cons e es)
  then show ?case using set_mm_erase_subset [of k v es] by auto
qed simp

lemma mm_slice_eq_filter:
  assumes "mm_sorted es"
  shows "mm_slice lo hi es = filter (\<lambda>e. lo \<le> fst e \<and> fst e \<le> hi) es"
proof -
  have drop: "dropWhile (\<lambda>e. fst e < lo) es = filter (\<lambda>e. lo \<le> fst e) es"
    using assms
  proof (induction es)
    case (Cons e es)
    show ?case
    proof (cases "fst e < lo")
      case False
      then have "\<forall>x \<in> set es. lo \<le> fst x" using Cons.prems by force
      then show ?thesis using False by simp
    qed (use Cons in simp)
  qed simp
  have take: "takeWhile (\<lambda>e. fst e \<le> hi) fs = filter (\<lambda>e. fst e \<le> hi) fs"
    if "mm_sorted fs" for fs :: "('a \<times> 'b) list"
    using that
  proof (induction fs)
    case (Cons e fs)
    show ?case
    proof (cases "fst e \<le> hi")
      case False
      then have "\<forall>x \<in> set fs. \<not> fst x \<le> hi" using Cons.prems by force
      then show ?thesis using False by simp
    qed (use Cons in simp)
  qed simp
  have "mm_sorted (filter (\<lambda>e. lo \<le> fst e) es)"
    using assms by (simp add: sorted_filter)
  then show ?thesis
    by (simp add: mm_slice_def drop take conj_commute)
qed

lemma set_mm_slice:
  "mm_sorted es \<Longrightarrow> set (mm_slice lo hi es) = {e \<in> set es. lo \<le> fst e \<and> fst e \<le> hi}"
  by (simp add: mm_slice_eq_filter)

lemma mm_sorted_hd_min: "mm_sorted es \<Longrightarrow> e \<in> set es \<Longrightarrow> fst (hd es) \<le> fst e"
  by (cases es) auto

lemma mm_sorted_last_max: "mm_sorted es \<Longrightarrow> e \<in> set es \<Longrightarrow> fst e \<le> fst (last es)"
proof (induction es)
  case (Cons a es)
  then show ?case by (cases es) auto
qed simp

section \<open>The first minimal element of a range (std::min_element)\<close>

fun min_element_from :: "('a \<Rightarrow> 'a \<Rightarrow> bool) \<Rightarrow> 'a \<Rightarrow> 'a list \<Rightarrow> 'a" where
  "min_element_from lt b [] = b"
| "min_element_from lt b (x # xs) = min_element_from lt (if lt x b then x else b) xs"

lemma min_element_from_mem: "min_element_from lt b xs \<in> insert b (set xs)"
  by (induction xs arbitrary: b) (auto split: if_splits)

lemma min_element_from_least:
  fixes f :: "'a \<Rightarrow> 'k::linorder"
  shows "y \<in> insert b (set xs) \<Longrightarrow> f (min_element_from (\<lambda>x y. f x < f y) b xs) \<le> f y"
proof (induction xs arbitrary: b y)
  case (Cons x xs)
  let ?b = "if f x < f b then x else b"
  have *: "f (min_element_from (\<lambda>x y. f x < f y) ?b xs) \<le> f z" if "z \<in> insert ?b (set xs)" for z
    by (rule Cons.IH [OF that])
  from * [of ?b] have "f (min_element_from (\<lambda>x y. f x < f y) ?b xs) \<le> min (f x) (f b)"
    by (auto simp: min_def split: if_splits)
  with * [of y] Cons.prems show ?case by auto
qed simp

section \<open>The last n elements of a list\<close>

definition last_n :: "nat \<Rightarrow> 'a list \<Rightarrow> 'a list" where
  "last_n n xs = drop (length xs - n) xs"

lemma length_last_n [simp]: "length (last_n n xs) = min n (length xs)"
  by (simp add: last_n_def)

lemma last_n_short [simp]: "length xs \<le> n \<Longrightarrow> last_n n xs = xs"
  by (simp add: last_n_def)

lemma last_n_snoc: "length xs = n \<Longrightarrow> 0 < n \<Longrightarrow> last_n n (xs @ [x]) = tl xs @ [x]"
  by (simp add: last_n_def drop_Suc)

lemma last_n_last_n_append: "last_n n (last_n n xs @ ys) = last_n n (xs @ ys)"
proof (cases "length xs \<le> n")
  case False
  then have "length xs + length ys - n = (length xs - n) + length ys" by simp
  then show ?thesis using False by (simp add: last_n_def min_def add.commute)
qed simp

section \<open>Association lists with a user supplied key equality (std::unordered_map)\<close>

fun al_find :: "('k \<Rightarrow> 'k \<Rightarrow> bool) \<Rightarrow> 'k \<Rightarrow> ('k \<times> 'v) list \<Rightarrow> 'v option" where
  "al_find eq k [] = None"
| "al_find eq k (e # es) = (if eq (fst e) k then Some (snd e) else al_find eq k es)"

fun al_erase :: "('k \<Rightarrow> 'k \<Rightarrow> bool) \<Rightarrow> 'k \<Rightarrow> ('k \<times> 'v) list \<Rightarrow> ('k \<times> 'v) list" where
  "al_erase eq k [] = []"
| "al_erase eq k (e # es) = (if eq (fst e) k then es else e # al_erase eq k es)"

lemma al_find_eq_None: "al_find eq k es = None \<longleftrightarrow> (\<forall>e \<in> set es. \<not> eq (fst e) k)"
  by (induction es) auto

lemma al_find_Some_mem: "al_find eq k es = Some v \<Longrightarrow> \<exists>e \<in> set es. eq (fst e) k \<and> snd e = v"
  by (induction es) (auto split: if_splits)

lemma set_al_erase_subset: "set (al_erase eq k es) \<subseteq> set es"
  by (induction es) auto

lemma al_erase_notin: "(\<forall>e \<in> set es. \<not> eq (fst e) k) \<Longrightarrow> al_erase eq k es = es"
  by (induction es) auto

end
