(* ===== verification/Std_Strings.thy ===== *)
theory Std_Strings
  imports Margot_Prelude
begin

text \<open>
  The functions of the C++ standard library on strings and numbers that the server and the
  generator use: classification of characters in the C locale, \<^verbatim>\<open>std::to_string\<close>, and the
  conversions \<^verbatim>\<open>std::stoi\<close> and \<^verbatim>\<open>std::stol\<close>, which skip leading white space, accept a sign, read
  the longest run of digits and throw when there is none or when the value does not fit.
\<close>

section \<open>Characters\<close>

definition is_digit :: "char \<Rightarrow> bool" where
  "is_digit c \<longleftrightarrow> c \<in> set ''0123456789''"

definition is_space :: "char \<Rightarrow> bool" where
  "is_space c \<longleftrightarrow> c \<in> {CHR 0x20, CHR 0x09, CHR 0x0A, CHR 0x0B, CHR 0x0C, CHR 0x0D}"

definition is_alpha :: "char \<Rightarrow> bool" where
  "is_alpha c \<longleftrightarrow> c \<in> set ''abcdefghijklmnopqrstuvwxyzABCDEFGHIJKLMNOPQRSTUVWXYZ''"

definition is_alnum :: "char \<Rightarrow> bool" where
  "is_alnum c \<longleftrightarrow> is_alpha c \<or> is_digit c"

section \<open>Ranges\<close>

text \<open>
  \<^verbatim>\<open>std::unique\<close> and \<^verbatim>\<open>std::unique_copy\<close>: an element is dropped when the predicate holds for the last
  element that was kept and for it.
\<close>

fun std_unique :: "('a \<Rightarrow> 'a \<Rightarrow> bool) \<Rightarrow> 'a list \<Rightarrow> 'a list" where
  "std_unique p [] = []"
| "std_unique p [x] = [x]"
| "std_unique p (x # y # zs) = (if p x y then std_unique p (x # zs) else x # std_unique p (y # zs))"

lemma length_std_unique: "length (std_unique p xs) \<le> length xs"
  by (induction p xs rule: std_unique.induct) auto

lemma hd_std_unique [simp]: "hd (std_unique p (x # xs)) = x"
  by (induction p "x # xs" arbitrary: xs rule: std_unique.induct) auto

lemma std_unique_id_iff: "length (std_unique p xs) = length xs \<longleftrightarrow> successively (\<lambda>x y. \<not> p x y) xs"
proof (induction p xs rule: std_unique.induct)
  case (3 p x y zs)
  then show ?case
    using length_std_unique [of p "x # zs"] by auto
qed simp_all

lemma std_unique_id: "successively (\<lambda>x y. \<not> p x y) xs \<Longrightarrow> std_unique p xs = xs"
  by (induction p xs rule: std_unique.induct) auto

section \<open>Splitting\<close>

text \<open>The pieces of a string between any of the given separators.\<close>

fun split_any_of :: "string \<Rightarrow> string \<Rightarrow> string list" where
  "split_any_of [] sep = [[]]"
| "split_any_of (c # s) sep =
     (if c \<in> set sep then [] # split_any_of s sep
      else case split_any_of s sep of [] \<Rightarrow> [[c]] | t # ts \<Rightarrow> (c # t) # ts)"

lemma split_any_of_none: "set s \<inter> set sep = {} \<Longrightarrow> split_any_of s sep = [s]"
  by (induction s) auto

lemma split_any_of_at: "set x \<inter> set sep = {} \<Longrightarrow> c \<in> set sep \<Longrightarrow> split_any_of (x @ c # y) sep = x # split_any_of y sep"
  by (induction x) auto

section \<open>Numbers\<close>

definition digit_char :: "nat \<Rightarrow> char" where
  "digit_char d = ''0123456789'' ! d"

definition digit_value :: "char \<Rightarrow> nat" where
  "digit_value c = of_char c - 48"

fun string_of_nat :: "nat \<Rightarrow> string" where
  "string_of_nat n = (if n < 10 then [digit_char n] else string_of_nat (n div 10) @ [digit_char (n mod 10)])"

declare string_of_nat.simps [simp del]

definition std_to_string :: "int \<Rightarrow> string" where
  "std_to_string i = (if i < 0 then CHR ''-'' # string_of_nat (nat (- i)) else string_of_nat (nat i))"

definition nat_of_string :: "string \<Rightarrow> nat" where
  "nat_of_string s = foldl (\<lambda>n c. 10 * n + digit_value c) 0 s"

text \<open>The value \<^verbatim>\<open>strtol\<close> would read if the type were unbounded; \<open>None\<close> without any digit.\<close>

definition read_integer :: "string \<Rightarrow> int option" where
  "read_integer s =
     (let t = dropWhile is_space s;
          negative = (t \<noteq> [] \<and> hd t = CHR ''-'');
          u = (if t \<noteq> [] \<and> (hd t = CHR ''-'' \<or> hd t = CHR ''+'') then tl t else t);
          ds = takeWhile is_digit u
      in if ds = [] then None
         else Some (if negative then - int (nat_of_string ds) else int (nat_of_string ds)))"

definition std_sto :: "nat \<Rightarrow> string \<Rightarrow> int result" where
  "std_sto w s =
     (case read_integer s of
        None \<Rightarrow> Inl (Runtime_error ''std::invalid_argument'')
      | Some i \<Rightarrow> if - (2 ^ (w - 1)) \<le> i \<and> i < 2 ^ (w - 1) then Inr i
                  else Inl (Runtime_error ''std::out_of_range''))"

abbreviation std_stoi :: "string \<Rightarrow> int result" where "std_stoi \<equiv> std_sto 32"

abbreviation std_stol :: "string \<Rightarrow> int result" where "std_stol \<equiv> std_sto 64"

subsection \<open>Reading back what was printed\<close>

lemma digit_cases: "d < 10 \<Longrightarrow> d \<in> {0, 1, 2, 3, 4, 5, 6, 7, 8, 9::nat}"
  by auto

lemma digit_char_value [simp]: "d < 10 \<Longrightarrow> digit_value (digit_char d) = d"
  by (drule digit_cases) (auto simp: digit_char_def digit_value_def)

lemma digit_char_is_digit [simp]: "d < 10 \<Longrightarrow> is_digit (digit_char d)"
  by (drule digit_cases) (auto simp: digit_char_def is_digit_def)

lemma string_of_nat_digits: "c \<in> set (string_of_nat n) \<Longrightarrow> is_digit c"
proof (induction n rule: string_of_nat.induct)
  case (1 n)
  then show ?case
    by (subst (asm) (2) string_of_nat.simps) (auto split: if_splits)
qed

lemma string_of_nat_not_Nil [simp]: "string_of_nat n \<noteq> []"
  by (subst string_of_nat.simps) auto

lemma nat_of_string_snoc: "nat_of_string (s @ [c]) = 10 * nat_of_string s + digit_value c"
  by (simp add: nat_of_string_def)

lemma nat_of_string_of_nat [simp]: "nat_of_string (string_of_nat n) = n"
proof (induction n rule: string_of_nat.induct)
  case (1 n)
  show ?case
  proof (cases "n < 10")
    case True
    then show ?thesis
      by (subst string_of_nat.simps) (simp add: nat_of_string_def)
  next
    case False
    with 1 show ?thesis
      by (subst string_of_nat.simps) (simp add: nat_of_string_snoc)
  qed
qed

lemma digit_not_special:
  assumes "is_digit c"
  shows "\<not> is_space c" and "c \<noteq> CHR ''-''" and "c \<noteq> CHR ''+''" and "c \<noteq> CHR ''@''" and "c \<noteq> CHR ''/''"
  using assms by (auto simp: is_digit_def is_space_def)

lemma string_of_nat_hd [simp]: "is_digit (hd (string_of_nat n))"
  by (rule string_of_nat_digits [of _ n]) simp

lemma takeWhile_string_of_nat [simp]: "takeWhile is_digit (string_of_nat n) = string_of_nat n"
  using string_of_nat_digits [of _ n] by (simp add: takeWhile_eq_all_conv)

lemma dropWhile_string_of_nat [simp]: "dropWhile is_space (string_of_nat n) = string_of_nat n"
  using string_of_nat_hd [of n] string_of_nat_not_Nil [of n]
  by (cases "string_of_nat n") (simp_all add: digit_not_special del: string_of_nat_hd)

lemma read_to_string [simp]: "read_integer (std_to_string i) = Some i"
  using digit_not_special(2,3) [OF string_of_nat_hd, of "nat i"]
  by (simp add: std_to_string_def read_integer_def is_space_def Let_def)

lemma sto_to_string [simp]:
  "- (2 ^ (w - 1)) \<le> i \<Longrightarrow> i < 2 ^ (w - 1) \<Longrightarrow> std_sto w (std_to_string i) = Inr i"
  by (simp add: std_sto_def)

lemma std_to_string_chars: "c \<in> set (std_to_string i) \<Longrightarrow> is_digit c \<or> c = CHR ''-''"
  using string_of_nat_digits by (auto simp: std_to_string_def split: if_splits)

end
