(* ===== verification/Heel_Data.thy ===== *)
theory Heel_Data
  imports Std_Strings
begin

text \<open>
  The description of an application that the generator reads and that a client sends to the
  server: the structures of \<^verbatim>\<open>heel/model_*.hpp\<close>, field by field, with the translation of their
  enumerations to strings.
\<close>

section \<open>Parameters\<close>

datatype parameter_types = IMMEDIATE | VARIABLE

record parameter =
  param_type :: parameter_types
  param_content :: string
  param_value_type :: string

record pair_property =
  prop_key :: string
  prop_value :: string

section \<open>Monitors, knobs, metrics and features\<close>

record monitor_spec =
  class_name :: string
  header_name :: string
  spec_value_type :: string
  start_method_name :: string
  stop_method_name :: string
  default_param_initialization :: "parameter list"
  default_param_start :: "parameter list"
  default_param_stop :: "parameter list"

record monitor_model =
  monitor_name :: string
  monitor_type :: string
  requested_statistics :: "string list"
  initialization_parameters :: "parameter list"
  start_parameters :: "parameter list"
  stop_parameters :: "parameter list"

record knob_model =
  knob_name :: string
  knob_type :: string
  knob_values :: "string list"

record metric_model =
  metric_name :: string
  metric_type :: string
  distribution :: bool
  prediction_plugin :: string
  observed_by :: string
  inertia :: nat
  prediction_parameters :: "pair_property list"

datatype features_distance_type = Features_EUCLIDEAN | Features_NORMALIZED | Features_NONE

datatype distance_comparison_type = Distance_LESS_OR_EQUAL | Distance_GREATER_OR_EQUAL | Distance_DONT_CARE

record feature_model =
  feature_name :: string
  feature_type :: string
  feature_comparison :: distance_comparison_type

record features_model =
  distance_type :: features_distance_type
  features_type :: string
  feature_fields :: "feature_model list"

fun features_distance_str :: "features_distance_type \<Rightarrow> string" where
  "features_distance_str Features_EUCLIDEAN = ''euclidean''"
| "features_distance_str Features_NORMALIZED = ''normalized''"
| "features_distance_str Features_NONE = ''none''"

fun distance_comparison_str :: "distance_comparison_type \<Rightarrow> string" where
  "distance_comparison_str Distance_LESS_OR_EQUAL = ''le''"
| "distance_comparison_str Distance_GREATER_OR_EQUAL = ''ge''"
| "distance_comparison_str Distance_DONT_CARE = ''-''"

section \<open>States\<close>

datatype goal_comparison = Goal_LESS_OR_EQUAL | Goal_GREATER_OR_EQUAL | Goal_LESS | Goal_GREATER

datatype rank_direction = Direction_MINIMIZE | Direction_MAXIMIZE | Direction_NONE

datatype rank_type = Rank_SIMPLE | Rank_GEOMETRIC | Rank_LINEAR | Rank_NONE

datatype subject_kind = METRIC | KNOB | UNKNOWN

record constraint_model =
  constraint_subject :: string
  cfun :: goal_comparison
  constraint_value :: string
  constraint_kind :: subject_kind
  confidence :: string

record rank_field_model =
  rank_field_name :: string
  rank_field_kind :: subject_kind
  rank_coefficient :: string

record state_model =
  state_name :: string
  direction :: rank_direction
  combination :: rank_type
  rank_fields :: "rank_field_model list"
  state_constraints :: "constraint_model list"

fun goal_comparison_str :: "goal_comparison \<Rightarrow> string" where
  "goal_comparison_str Goal_LESS_OR_EQUAL = ''le''"
| "goal_comparison_str Goal_GREATER_OR_EQUAL = ''ge''"
| "goal_comparison_str Goal_LESS = ''lt''"
| "goal_comparison_str Goal_GREATER = ''gt''"

fun rank_direction_str :: "rank_direction \<Rightarrow> string" where
  "rank_direction_str Direction_MINIMIZE = ''minimize''"
| "rank_direction_str Direction_MAXIMIZE = ''maximize''"
| "rank_direction_str Direction_NONE = ''none''"

fun rank_type_str :: "rank_type \<Rightarrow> string" where
  "rank_type_str Rank_SIMPLE = ''simple_mean''"
| "rank_type_str Rank_GEOMETRIC = ''geometric_mean''"
| "rank_type_str Rank_LINEAR = ''linear_mean''"
| "rank_type_str Rank_NONE = ''none''"

section \<open>Blocks and applications\<close>

record agora_model =
  url :: string
  username :: string
  password :: string
  qos :: string
  broker_ca :: string
  client_cert :: string
  client_key :: string
  number_configurations_per_iteration :: string
  number_observations_per_configuration :: string
  max_number_iteration :: string
  doe_plugin :: string
  clustering_plugin :: string
  doe_parameters :: "pair_property list"
  clustering_parameters :: "pair_property list"

definition agora_empty :: "agora_model \<Rightarrow> bool" where
  "agora_empty a \<longleftrightarrow> url a = []"

record operating_point_value =
  value_mean :: string
  value_standard_deviation :: string

record operating_point_model =
  op_features :: "operating_point_value list"
  op_knobs :: "operating_point_value list"
  op_metrics :: "operating_point_value list"

record block_model =
  block_id :: string
  block_monitors :: "monitor_model list"
  block_knobs :: "knob_model list"
  knobs_segment_type :: string
  block_metrics :: "metric_model list"
  metrics_segment_type :: string
  block_features :: features_model
  block_agora :: agora_model
  block_states :: "state_model list"
  block_ops :: "operating_point_model list"

record application_model =
  application_name :: string
  application_version :: string
  application_blocks :: "block_model list"

end
