(* ===== verification/Heel_Types.thy ===== *)
theory Heel_Types
  imports Heel_Data
begin

text \<open>
  The types of the knobs, metrics and features in the description of an application
  (\<^verbatim>\<open>heel/typer.hpp\<close>, \<^verbatim>\<open>typer.cpp\<close>). The fundamental types are those of the LP64 data model of
  the GNU C library, where \<^verbatim>\<open>int64_t\<close> is \<^verbatim>\<open>long int\<close> and the fast types of 16, 32 and 64 bits are
  \<^verbatim>\<open>long\<close>. The function \<^verbatim>\<open>boost::trim\<close> is an argument; the locale \<open>trimmer\<close> has its documented
  behaviour.
\<close>

section \<open>Fundamental types\<close>

datatype ctype = C_char | C_signed_char | C_unsigned_char | C_short | C_unsigned_short | C_int | C_unsigned_int
  | C_long | C_unsigned_long | C_long_long | C_unsigned_long_long | C_float | C_double | C_long_double

text \<open>
  The specialisations of the template \<^verbatim>\<open>typer\<close> are for the aliases of fixed width and the floating
  point types; \<^verbatim>\<open>char\<close>, \<^verbatim>\<open>long long\<close> and \<^verbatim>\<open>unsigned long long\<close> are none of them and get the empty
  string of the primary template.
\<close>

fun typer :: "ctype \<Rightarrow> string" where
  "typer C_signed_char = ''int8_t''"
| "typer C_unsigned_char = ''uint8_t''"
| "typer C_short = ''int16_t''"
| "typer C_unsigned_short = ''uint16_t''"
| "typer C_int = ''int32_t''"
| "typer C_unsigned_int = ''uint32_t''"
| "typer C_long = ''int64_t''"
| "typer C_unsigned_long = ''uint64_t''"
| "typer C_float = ''float''"
| "typer C_double = ''double''"
| "typer C_long_double = ''long double''"
| "typer C_char = ''''"
| "typer C_long_long = ''''"
| "typer C_unsigned_long_long = ''''"

section \<open>Identifiers\<close>

definition is_valid_identifier :: "string \<Rightarrow> bool" where
  "is_valid_identifier name \<longleftrightarrow>
     (case name of [] \<Rightarrow> False
      | c # cs \<Rightarrow> (is_alpha c \<or> c = CHR ''_'') \<and> \<not> list_ex (\<lambda>c. \<not> (is_alnum c \<or> c = CHR ''_'')) cs)"

lemma valid_identifier_chars:
  assumes "is_valid_identifier name"
  shows "name \<noteq> []" and "\<And>c. c \<in> set name \<Longrightarrow> is_alnum c \<or> c = CHR ''_''"
  using assms by (auto simp: is_valid_identifier_def is_alnum_def list_ex_iff split: list.splits)

section \<open>Names of types\<close>

definition type_names :: "(string \<times> ctype) list" where
  "type_names =
     [(''short int'', C_short), (''short'', C_short),
      (''int8_t'', C_signed_char), (''int16_t'', C_short), (''int32_t'', C_int), (''int64_t'', C_long),
      (''uint8_t'', C_unsigned_char), (''uint16_t'', C_unsigned_short), (''uint32_t'', C_unsigned_int),
      (''uint64_t'', C_unsigned_long),
      (''char'', C_char), (''int'', C_int), (''long int'', C_long), (''long'', C_long),
      (''long long int'', C_long_long), (''long long'', C_long_long),
      (''int_fast8_t'', C_signed_char), (''int_fast16_t'', C_long), (''int_fast32_t'', C_long), (''int_fast64_t'', C_long),
      (''int_least8_t'', C_signed_char), (''int_least16_t'', C_short), (''int_least32_t'', C_int), (''int_least64_t'', C_long),
      (''unsigned short int'', C_unsigned_short), (''unsigned short'', C_unsigned_short),
      (''short unsigned int'', C_unsigned_short), (''short unsigned'', C_unsigned_short),
      (''unsigned char'', C_unsigned_char), (''char unsigned'', C_unsigned_char),
      (''unsigned int'', C_unsigned_int), (''unsigned'', C_unsigned_int),
      (''unsigned long int'', C_unsigned_long), (''unsigned long'', C_unsigned_long),
      (''long unsigned int'', C_unsigned_long), (''long unsigned'', C_unsigned_long),
      (''unsigned long long int'', C_unsigned_long_long), (''unsigned long long'', C_unsigned_long_long),
      (''long long unsigned int'', C_unsigned_long_long), (''long long unsigned'', C_unsigned_long_long),
      (''long unsigned long'', C_unsigned_long_long), (''long unsigned long int'', C_unsigned_long_long),
      (''uint_fast8_t'', C_unsigned_char), (''uint_fast16_t'', C_unsigned_long), (''uint_fast32_t'', C_unsigned_long),
      (''uint_fast64_t'', C_unsigned_long),
      (''uint_least8_t'', C_unsigned_char), (''uint_least16_t'', C_unsigned_short), (''uint_least32_t'', C_unsigned_int),
      (''uint_least64_t'', C_unsigned_long),
      (''intmax_t'', C_long), (''intptr_t'', C_long), (''uintmax_t'', C_unsigned_long), (''uintptr_t'', C_unsigned_long),
      (''float'', C_float), (''double'', C_double), (''long double'', C_long_double), (''double long'', C_long_double)]"

definition strip_spaces :: "string \<Rightarrow> string" where
  "strip_spaces s = std_unique (\<lambda>a b. is_space a \<and> is_space b) s"

definition sanitize_type :: "(string \<Rightarrow> string) \<Rightarrow> string \<Rightarrow> string result" where
  "sanitize_type trim type_name =
     (let stripped_type_name = trim (strip_spaces type_name);
          t = (if take 5 stripped_type_name = ''std::'' then drop 5 stripped_type_name else stripped_type_name)
      in if t = ''string'' then Inr ''string''
         else case map_of type_names t of
                Some c \<Rightarrow> Inr (typer c)
              | None \<Rightarrow> Inl (Runtime_error ''type sanitizer: unknown type''))"

section \<open>Order of the types\<close>

definition ctype_promotions_signed :: "(string \<times> int) list" where
  "ctype_promotions_signed = [(''int8_t'', 0), (''int16_t'', 1), (''int32_t'', 2), (''int64_t'', 3)]"

definition ctype_promotions_unsigned :: "(string \<times> int) list" where
  "ctype_promotions_unsigned = [(''uint8_t'', 0), (''uint16_t'', 1), (''uint32_t'', 2), (''uint64_t'', 3)]"

definition ctype_promotions_fp :: "(string \<times> int) list" where
  "ctype_promotions_fp = [(''float'', 0), (''double'', 1), (''long double'', 2)]"

definition check_promotion :: "string \<Rightarrow> string \<Rightarrow> (string \<times> int) list \<Rightarrow> bool option" where
  "check_promotion a b m =
     (case (map_of m a, map_of m b) of (Some i, Some j) \<Rightarrow> Some (i < j) | _ \<Rightarrow> None)"

definition compare_types :: "string \<Rightarrow> string \<Rightarrow> bool option" where
  "compare_types a b =
     (case check_promotion a b ctype_promotions_signed of
        Some r \<Rightarrow> Some r
      | None \<Rightarrow>
          (case check_promotion a b ctype_promotions_unsigned of
             Some r \<Rightarrow> Some r
           | None \<Rightarrow> check_promotion a b ctype_promotions_fp))"

definition type_sorter :: "(string \<Rightarrow> string) \<Rightarrow> string \<Rightarrow> string \<Rightarrow> bool option result" where
  "type_sorter trim a b =
     bind_result (sanitize_type trim a) (\<lambda>unaliased_a.
       bind_result (sanitize_type trim b) (\<lambda>unaliased_b. Inr (compare_types unaliased_a unaliased_b)))"

section \<open>Facts about the sanitizer\<close>

definition trimmed :: "string \<Rightarrow> bool" where
  "trimmed s \<longleftrightarrow> s = [] \<or> \<not> is_space (hd s) \<and> \<not> is_space (last s)"

locale trimmer =
  fixes trim :: "string \<Rightarrow> string"
  assumes trim_spaces: "list_all is_space u \<Longrightarrow> list_all is_space v \<Longrightarrow> trimmed s \<Longrightarrow> trim (u @ s @ v) = s"
begin

lemma trim_id: "trimmed s \<Longrightarrow> trim s = s"
  using trim_spaces [of "[]" "[]" s] by simp

end

definition std_trim :: "string \<Rightarrow> string" where
  "std_trim s = rev (dropWhile is_space (rev (dropWhile is_space s)))"

lemma dropWhile_spaces: "list_all is_space u \<Longrightarrow> t \<noteq> [] \<Longrightarrow> \<not> is_space (hd t) \<Longrightarrow> dropWhile is_space (u @ t) = t"
  by (induction u) (auto simp: neq_Nil_conv)

interpretation bt: trimmer std_trim
proof
  fix u v s
  assume u: "list_all is_space u" and v: "list_all is_space v" and s: "trimmed s"
  show "std_trim (u @ s @ v) = s"
  proof (cases s rule: rev_cases)
    case Nil
    with u v show ?thesis
      by (simp add: std_trim_def list_all_iff dropWhile_eq_Nil_conv [THEN iffD2])
  next
    case (snoc xs x)
    with s have "\<not> is_space x" "\<not> is_space (hd s)" by (auto simp: trimmed_def)
    moreover have "dropWhile is_space (u @ s @ v) = s @ v"
      by (rule dropWhile_spaces) (use u snoc calculation(2) in \<open>auto simp: hd_append\<close>)
    moreover have "dropWhile is_space (rev v @ x # rev xs) = x # rev xs"
      by (rule dropWhile_spaces) (use v calculation(1) in \<open>auto simp: list_all_iff\<close>)
    ultimately show ?thesis by (simp add: std_trim_def snoc)
  qed
qed

definition numeric_types :: "string list" where
  "numeric_types = map fst ctype_promotions_signed @ map fst ctype_promotions_unsigned @ map fst ctype_promotions_fp"

lemma typer_numeric: "typer c \<in> insert [] (set numeric_types)"
  by (cases c)
     (simp_all add: numeric_types_def ctype_promotions_signed_def ctype_promotions_unsigned_def ctype_promotions_fp_def)

lemma sanitize_type_range: "sanitize_type trim t = Inr s \<Longrightarrow> s \<in> insert [] (insert ''string'' (set numeric_types))"
  using typer_numeric by (fastforce simp: sanitize_type_def Let_def split: if_splits option.splits)

lemma sanitized_types_stable:
  "list_all (\<lambda>s. strip_spaces s = s \<and> trimmed s \<and> take 5 s \<noteq> ''std::''
     \<and> (s = ''string'' \<or> map_option typer (map_of type_names s) = Some s)) (''string'' # numeric_types)"
  by code_simp

lemma sanitize_type_id:
  assumes "trimmer trim" and "s \<in> insert ''string'' (set numeric_types)"
  shows "sanitize_type trim s = Inr s"
proof -
  have "strip_spaces s = s \<and> trimmed s \<and> take 5 s \<noteq> ''std::'' \<and> (s = ''string'' \<or> map_option typer (map_of type_names s) = Some s)"
    using assms(2) sanitized_types_stable by (auto simp only: list_all_iff list.set)
  with trimmer.trim_id [OF assms(1)] show ?thesis
    by (auto simp: sanitize_type_def Let_def)
qed

lemma sanitize_type_empty:
  assumes "trimmer trim"
  shows "sanitize_type trim [] = Inl (Runtime_error ''type sanitizer: unknown type'')"
  using trimmer.trim_id [OF assms, of "[]"] by (simp add: sanitize_type_def strip_spaces_def trimmed_def type_names_def)

text \<open>
  C39: a type that the sanitizer accepts becomes one of the eleven numeric types or a string, which
  the sanitizer keeps, or the empty string, which it rejects: the types \<^verbatim>\<open>char\<close>, \<^verbatim>\<open>long long\<close> and
  \<^verbatim>\<open>unsigned long long\<close> have no name, and nothing reports it.
\<close>

theorem sanitize_type_twice:
  assumes "trimmer trim" and "sanitize_type trim t = Inr s"
  shows "(if s = [] then sanitize_type trim s = Inl (Runtime_error ''type sanitizer: unknown type'')
          else s \<in> set (''string'' # numeric_types) \<and> sanitize_type trim s = Inr s)
    \<and> (s = [] \<longleftrightarrow> (\<exists>c \<in> {C_char, C_long_long, C_unsigned_long_long}.
         map_of type_names (let u = trim (strip_spaces t) in if take 5 u = ''std::'' then drop 5 u else u) = Some c))"
proof (rule conjI)
  show "if s = [] then sanitize_type trim s = Inl (Runtime_error ''type sanitizer: unknown type'')
      else s \<in> set (''string'' # numeric_types) \<and> sanitize_type trim s = Inr s"
    using sanitize_type_range [OF assms(2)] sanitize_type_empty [OF assms(1)] sanitize_type_id [OF assms(1), of s] by auto
  have "typer c = [] \<longleftrightarrow> c \<in> {C_char, C_long_long, C_unsigned_long_long}" for c
    by (cases c) auto
  moreover have "map_of type_names ''string'' = None" by (simp add: type_names_def)
  ultimately show "s = [] \<longleftrightarrow> (\<exists>c \<in> {C_char, C_long_long, C_unsigned_long_long}.
         map_of type_names (let u = trim (strip_spaces t) in if take 5 u = ''std::'' then drop 5 u else u) = Some c)"
    using assms(2) by (auto simp: sanitize_type_def Let_def simp del: insert_iff split: if_splits option.splits)
qed

theorem sanitize_type_twice_witness:
  "sanitize_type std_trim '' unsigned  long'' = Inr ''uint64_t'' \<and> sanitize_type std_trim ''uint64_t'' = Inr ''uint64_t''
   \<and> sanitize_type std_trim ''long long'' = Inr [] \<and> sanitize_type std_trim [] = Inl (Runtime_error ''type sanitizer: unknown type'')"
proof -
  have "sanitize_type std_trim '' unsigned  long'' = Inr ''uint64_t''" "sanitize_type std_trim ''long long'' = Inr []"
    by code_simp+
  with sanitize_type_twice [OF bt.trimmer_axioms this(1)] sanitize_type_twice [OF bt.trimmer_axioms this(2)]
  show ?thesis by simp
qed

section \<open>The order of the types\<close>

text \<open>The category of a numeric type and its place in it.\<close>

definition promotion :: "string \<Rightarrow> (nat \<times> int) option" where
  "promotion s = map_of (map (apsnd (Pair 0)) ctype_promotions_signed @ map (apsnd (Pair 1)) ctype_promotions_unsigned
     @ map (apsnd (Pair 2)) ctype_promotions_fp) s"

definition same_promotion :: "string \<Rightarrow> string \<Rightarrow> bool option" where
  "same_promotion a b = (case (promotion a, promotion b) of
     (Some (c, i), Some (d, j)) \<Rightarrow> if c = d then Some (i < j) else None | _ \<Rightarrow> None)"

lemma numeric_types_promotion:
  "list_all (\<lambda>a. promotion a \<noteq> None \<and> list_all (\<lambda>b. compare_types a b = same_promotion a b
     \<and> (promotion a = promotion b \<longleftrightarrow> a = b)) numeric_types) numeric_types"
  by code_simp

lemma compare_types_promotion:
  "a \<in> set numeric_types \<Longrightarrow> b \<in> set numeric_types \<Longrightarrow> compare_types a b = same_promotion a b"
  using numeric_types_promotion by (auto simp: list_all_iff)

lemma promotion_inj:
  "a \<in> set numeric_types \<Longrightarrow> b \<in> set numeric_types \<Longrightarrow> promotion a = promotion b \<Longrightarrow> a = b"
  using numeric_types_promotion by (auto simp: list_all_iff)

lemma promotion_numeric: "promotion a \<noteq> None \<longleftrightarrow> a \<in> set numeric_types"
  unfolding promotion_def map_of_eq_None_iff numeric_types_def by (auto simp: image_Un image_comp comp_def)

end
