(* ===== verification/Heel_Sort.thy ===== *)
theory Heel_Sort
  imports Heel_Types "HOL-Library.List_Lexorder" "HOL-Library.Char_ord" "HOL-Library.Multiset"
begin

text \<open>
  \<^verbatim>\<open>std::sort\<close> with a comparison that may throw. The standard does not fix the algorithm; the model
  is insertion sort, which is what the GNU library runs on short ranges. The locale \<open>key_order\<close>
  shows that on comparable elements the result is the sorted permutation, and the lemmas on types show that
  the sort of types of different categories throws, whatever elements are compared first.
\<close>

fun insert_sorted :: "('a \<Rightarrow> 'a \<Rightarrow> bool result) \<Rightarrow> 'a \<Rightarrow> 'a list \<Rightarrow> 'a list result" where
  "insert_sorted lt x [] = Inr [x]"
| "insert_sorted lt x (y # ys) =
     bind_result (lt x y)
       (\<lambda>r. if r then Inr (x # y # ys) else bind_result (insert_sorted lt x ys) (\<lambda>zs. Inr (y # zs)))"

fun sort_into :: "('a \<Rightarrow> 'a \<Rightarrow> bool result) \<Rightarrow> 'a list \<Rightarrow> 'a list \<Rightarrow> 'a list result" where
  "sort_into lt acc [] = Inr acc"
| "sort_into lt acc (x # xs) = bind_result (insert_sorted lt x acc) (\<lambda>acc'. sort_into lt acc' xs)"

definition std_sort :: "('a \<Rightarrow> 'a \<Rightarrow> bool result) \<Rightarrow> 'a list \<Rightarrow> 'a list result" where
  "std_sort lt xs = sort_into lt [] xs"

lemma insert_sorted_mset: "insert_sorted lt x ys = Inr zs \<Longrightarrow> mset zs = add_mset x (mset ys)"
  by (induction ys arbitrary: zs) (auto split: if_splits)

lemma sort_into_mset: "sort_into lt acc xs = Inr zs \<Longrightarrow> mset zs = mset acc + mset xs"
  by (induction xs arbitrary: acc) (auto dest!: insert_sorted_mset)

lemma std_sort_mset: "std_sort lt xs = Inr zs \<Longrightarrow> mset zs = mset xs"
  by (drule sort_into_mset [of lt "[]", folded std_sort_def]) simp

text \<open>
  A new element is compared with one that is sorted already. When the comparison only succeeds
  on elements that agree on a predicate, a sort that succeeds does too.
\<close>

lemma sort_into_closed:
  assumes "sort_into lt acc xs = Inr zs" and "acc \<noteq> []" and "\<forall>x \<in> set acc. P x" and "\<forall>x \<in> set xs. A x"
    and "\<And>a b r. lt a b = Inr r \<Longrightarrow> A a \<Longrightarrow> P b \<Longrightarrow> P a"
  shows "\<forall>x \<in> set xs. P x"
  using assms(1-4)
proof (induction xs arbitrary: acc)
  case (Cons x xs)
  then obtain acc' where acc': "insert_sorted lt x acc = Inr acc'" and rest: "sort_into lt acc' xs = Inr zs" by auto
  obtain y ys where acc: "acc = y # ys" using Cons.prems(2) by (cases acc) auto
  with acc' obtain r where "lt x y = Inr r" by auto
  then have x: "P x" by (rule assms(5)) (use Cons.prems acc in auto)
  have "set acc' = insert x (set acc)"
    using insert_sorted_mset [OF acc'] by (metis set_mset_add_mset_insert set_mset_mset)
  then have "acc' \<noteq> []" "\<forall>x \<in> set acc'. P x" using x Cons.prems(3) by auto
  from Cons.IH [OF rest this] x Cons.prems(4) show ?case by simp
qed simp

section \<open>Elements compared by a key\<close>

locale key_order =
  fixes lt :: "'a \<Rightarrow> 'a \<Rightarrow> bool result" and key :: "'a \<Rightarrow> 'k::linorder" and comparable :: "'a set"
  assumes less_key: "x \<in> comparable \<Longrightarrow> y \<in> comparable \<Longrightarrow> lt x y = Inr (key x < key y)"
begin

lemma insert_sorted_succeeds:
  assumes "x \<in> comparable" and "set ys \<subseteq> comparable"
  shows "insert_sorted lt x ys = Inr (takeWhile (\<lambda>y. key y \<le> key x) ys @ x # dropWhile (\<lambda>y. key y \<le> key x) ys)"
  using assms(2) by (induction ys) (auto simp: less_key [OF assms(1)] not_less)

lemma insert_position_sorted:
  "sorted (map key ys) \<Longrightarrow>
     sorted (map key (takeWhile (\<lambda>y. key y \<le> key x) ys @ x # dropWhile (\<lambda>y. key y \<le> key x) ys))"
proof (induction ys)
  case (Cons y ys)
  show ?case
  proof (cases "key y \<le> key x")
    case True
    define zs where "zs = takeWhile (\<lambda>y. key y \<le> key x) ys @ x # dropWhile (\<lambda>y. key y \<le> key x) ys"
    have "sorted (map key zs)" using Cons by (simp add: zs_def)
    moreover have "set zs = insert x (set ys)"
      unfolding zs_def by (metis list.simps(15) set_append takeWhile_dropWhile_id Un_insert_right)
    ultimately have "sorted (map key (y # zs))" using True Cons.prems by auto
    then show ?thesis using True by (simp add: zs_def)
  qed (use Cons.prems in \<open>auto simp: not_le intro: less_imp_le order_trans\<close>)
qed simp

lemma sort_into_succeeds:
  assumes "set xs \<subseteq> comparable" and "set acc \<subseteq> comparable" and "sorted (map key acc)"
  shows "\<exists>zs. sort_into lt acc xs = Inr zs \<and> sorted (map key zs)"
  using assms
proof (induction xs arbitrary: acc)
  case (Cons x xs)
  let ?acc = "takeWhile (\<lambda>y. key y \<le> key x) acc @ x # dropWhile (\<lambda>y. key y \<le> key x) acc"
  have "set ?acc = insert x (set acc)"
    by (metis list.simps(15) set_append takeWhile_dropWhile_id Un_insert_right)
  then have "set ?acc \<subseteq> comparable" using Cons.prems by auto
  with Cons.IH [of ?acc] insert_position_sorted [OF Cons.prems(3), of x] Cons.prems insert_sorted_succeeds [of x acc]
  show ?case by auto
qed simp

lemma std_sort_succeeds:
  assumes "set xs \<subseteq> comparable"
  obtains zs where "std_sort lt xs = Inr zs" and "sorted (map key zs)" and "mset zs = mset xs"
  using sort_into_succeeds [OF assms, of "[]"] std_sort_mset [of lt xs] by (auto simp: std_sort_def)

lemma std_sort_sorted: "set xs \<subseteq> comparable \<Longrightarrow> std_sort lt xs = Inr zs \<Longrightarrow> sorted (map key zs)"
  by (rule std_sort_succeeds [of xs]) auto

lemma sort_into_id:
  "set xs \<subseteq> comparable \<Longrightarrow> set acc \<subseteq> comparable \<Longrightarrow> sorted (map key (acc @ xs)) \<Longrightarrow> sort_into lt acc xs = Inr (acc @ xs)"
proof (induction xs arbitrary: acc)
  case (Cons x xs)
  then have "\<forall>y \<in> set acc. key y \<le> key x" by (auto simp: sorted_append)
  then have "takeWhile (\<lambda>y. key y \<le> key x) acc = acc" and "dropWhile (\<lambda>y. key y \<le> key x) acc = []"
    by (auto simp: takeWhile_eq_all_conv)
  with Cons insert_sorted_succeeds [of x acc] show ?case by simp
qed simp

lemma std_sort_id: "set xs \<subseteq> comparable \<Longrightarrow> sorted (map key xs) \<Longrightarrow> std_sort lt xs = Inr xs"
  using sort_into_id [of xs "[]"] by (simp add: std_sort_def)

end

text \<open>The elements of a description are sorted by their names.\<close>

definition name_less :: "('m \<Rightarrow> string) \<Rightarrow> 'm \<Rightarrow> 'm \<Rightarrow> bool result" where
  "name_less name i j = Inr (name i < name j)"

interpretation by_name: key_order "name_less name" name UNIV for name :: "'m \<Rightarrow> string"
  by unfold_locales (simp add: name_less_def)

lemma std_sort_names_total: "\<exists>ys. std_sort (name_less name) xs = Inr ys"
  by (rule by_name.std_sort_succeeds [of xs name]) auto

section \<open>Sorting types\<close>

definition type_less :: "string \<Rightarrow> (string \<Rightarrow> string) \<Rightarrow> string \<Rightarrow> string \<Rightarrow> bool result" where
  "type_less what trim a b =
     bind_result (type_sorter trim a b)
       (\<lambda>r. case r of None \<Rightarrow> Inl (Runtime_error (''model validation: mismatch between '' @ what @ '' type'')) | Some r \<Rightarrow> Inr r)"

definition category :: "nat \<Rightarrow> string set" where
  "category c = {s. \<exists>i. promotion s = Some (c, i)}"

lemma category_numeric: "category c \<subseteq> set numeric_types"
  using promotion_numeric by (fastforce simp: category_def)

text \<open>A type fits another one that it is promoted to.\<close>

definition type_fits :: "string \<Rightarrow> string \<Rightarrow> bool" where
  "type_fits t s \<longleftrightarrow> t = s \<or> same_promotion t s = Some True"

lemma sorted_key_last: "sorted (map f zs) \<Longrightarrow> t \<in> set zs \<Longrightarrow> f t \<le> f (last zs)" for f :: "'a \<Rightarrow> int"
  by (induction zs) auto

context trimmer begin

lemma type_less_numeric:
  assumes "a \<in> set numeric_types" and "b \<in> set numeric_types"
  shows "type_less what trim a b = (case same_promotion a b of
    None \<Rightarrow> Inl (Runtime_error (''model validation: mismatch between '' @ what @ '' type'')) | Some r \<Rightarrow> Inr r)"
  using assms sanitize_type_id [OF trimmer_axioms] compare_types_promotion [OF assms]
  by (simp add: type_less_def type_sorter_def split: option.splits)

end

sublocale trimmer \<subseteq> types: key_order "type_less what trim" "\<lambda>s. snd (the (promotion s))" "category c" for what c
proof
  fix x y assume "x \<in> category c" "y \<in> category c"
  moreover from this have "x \<in> set numeric_types" "y \<in> set numeric_types" using category_numeric by auto
  ultimately show "type_less what trim x y = Inr (snd (the (promotion x)) < snd (the (promotion y)))"
    by (auto simp: type_less_numeric same_promotion_def category_def)
qed

context trimmer begin

text \<open>A comparison that succeeds relates types of one category, so a sort that succeeds does too.\<close>

lemma type_less_category:
  assumes "type_less what trim a b = Inr r" and "a \<in> set numeric_types" and "b \<in> category c"
  shows "a \<in> category c"
proof -
  have "b \<in> set numeric_types" using assms(3) category_numeric by auto
  from assms(1,3) type_less_numeric [OF assms(2) this, of what] show ?thesis
    by (auto simp: same_promotion_def category_def split: option.splits if_splits)
qed

lemma sort_types_category:
  assumes "std_sort (type_less what trim) xs = Inr zs" and "set xs \<subseteq> set numeric_types"
  obtains c where "set xs \<subseteq> category c"
proof (cases xs)
  case (Cons x xs')
  obtain c i where "promotion x = Some (c, i)"
    using promotion_numeric [of x] assms(2) Cons by (cases "promotion x") auto
  then have "x \<in> category c" by (auto simp: category_def)
  moreover have "\<forall>x \<in> set xs'. x \<in> category c"
  proof (rule sort_into_closed)
    show "sort_into (type_less what trim) [x] xs' = Inr zs" using assms(1) Cons by (simp add: std_sort_def)
    show "\<forall>x \<in> set xs'. x \<in> set numeric_types" using assms(2) Cons by auto
  qed (use \<open>x \<in> category c\<close> type_less_category in auto)
  ultimately show thesis using that Cons by auto
qed (use that in auto)

text \<open>A type without a name is not comparable, so it is accepted only when it is alone.\<close>

lemma type_less_nonempty: "type_less what trim a b = Inr r \<Longrightarrow> a \<noteq> [] \<and> b \<noteq> []"
  using sanitize_type_empty [OF trimmer_axioms] by (auto simp: type_less_def type_sorter_def)

lemma sort_types_named:
  assumes "std_sort (type_less what trim) (x # y # xs) = Inr zs"
  shows "[] \<notin> set (x # y # xs)"
proof -
  obtain acc r where r: "type_less what trim y x = Inr r" and acc: "insert_sorted (type_less what trim) y [x] = Inr acc"
    and rest: "sort_into (type_less what trim) acc xs = Inr zs"
    using assms by (auto simp: std_sort_def)
  have xy: "x \<noteq> []" "y \<noteq> []" using type_less_nonempty [OF r] by auto
  have "mset acc = {#y, x#}" using insert_sorted_mset [OF acc] by simp
  then have "set acc = {y, x}" by (metis set_mset_add_mset_insert set_mset_empty set_mset_mset)
  then have "acc \<noteq> []" "\<forall>x \<in> set acc. x \<noteq> []"
    using \<open>mset acc = {#y, x#}\<close> xy by (force, simp)
  from sort_into_closed [OF rest this, where A = "\<lambda>_. True"] have "\<forall>x \<in> set xs. x \<noteq> []"
    using type_less_nonempty by blast
  with xy show ?thesis by auto
qed

lemma sort_types_last:
  assumes "std_sort (type_less what trim) ts = Inr zs" and "set ts \<subseteq> insert [] (set numeric_types)" and "ts \<noteq> []"
  shows "zs \<noteq> [] \<and> last zs \<in> set ts \<and> (\<forall>t \<in> set ts. type_fits t (last zs))"
proof -
  have zs: "set zs = set ts" using std_sort_mset [OF assms(1)] by (rule mset_eq_setD)
  with assms(3) have ne: "zs \<noteq> []" by auto
  have "type_fits t (last zs)" if t: "t \<in> set ts" for t
  proof (cases "length ts = 1")
    case True
    with t obtain "ts = [t]" by (auto simp: length_Suc_conv)
    with zs last_in_set [OF ne] show ?thesis by (simp add: type_fits_def)
  next
    case False
    with assms(3) obtain x y xs where ts: "ts = x # y # xs" by (cases ts rule: remdups_adj.cases) auto
    from sort_types_named [of what x y xs zs] assms(1,2) have num: "set ts \<subseteq> set numeric_types" by (auto simp: ts)
    obtain c where c: "set ts \<subseteq> category c" using sort_types_category [OF assms(1) num] .
    have "sorted (map (\<lambda>s. snd (the (promotion s))) zs)"
      by (rule types.std_sort_sorted [OF c assms(1)])
    then have le: "snd (the (promotion t)) \<le> snd (the (promotion (last zs)))"
      by (rule sorted_key_last) (use t zs in simp)
    have l: "last zs \<in> set ts" using zs last_in_set [OF ne] by simp
    with c t have "t \<in> category c" "last zs \<in> category c" by auto
    then obtain i j where ij: "promotion t = Some (c, i)" "promotion (last zs) = Some (c, j)"
      by (auto simp: category_def)
    show ?thesis
    proof (cases "i = j")
      case True
      with ij have "promotion t = promotion (last zs)" by simp
      then have "t = last zs" by (rule promotion_inj [rotated 2]) (use num t l in auto)
      then show ?thesis by (simp add: type_fits_def)
    qed (use le ij in \<open>simp add: type_fits_def same_promotion_def\<close>)
  qed
  with ne zs show ?thesis using last_in_set by blast
qed

end

end
