(* ===== verification/Heel_Tree.thy ===== *)
theory Heel_Tree
  imports Heel_Sort
begin

text \<open>
  The Boost libraries that the generator builds on: string algorithms, lexical casts and property
  trees, which hold the JSON documents. They are not part of the sources, so the operations that
  the generator calls are the fields of the record \<open>boost\<close>, an argument of the definitions, and
  their documented behaviour is the locale \<open>property_tree\<close>. The data type \<open>tree\<close> is a concrete
  property tree that has it.
\<close>

section \<open>The interface\<close>

record 't boost =
  boost_trim :: "string \<Rightarrow> string"
  to_lower :: "string \<Rightarrow> string"
  lexical_cast_size :: "string \<Rightarrow> nat result"
  lexical_cast_integer :: "bool \<Rightarrow> nat \<Rightarrow> string \<Rightarrow> int result"
  generate_floating :: "string \<Rightarrow> string \<Rightarrow> string \<Rightarrow> string \<Rightarrow> string list result option"
  bool_string :: "bool \<Rightarrow> string"
  empty_tree :: 't
  node_data :: "'t \<Rightarrow> string"
  node_children :: "'t \<Rightarrow> (string \<times> 't) list"
  get_child_optional :: "string \<Rightarrow> 't \<Rightarrow> 't option"
  put :: "string \<Rightarrow> string \<Rightarrow> 't \<Rightarrow> 't"
  add_child :: "string \<Rightarrow> 't \<Rightarrow> 't \<Rightarrow> 't result"
  push_back :: "string \<Rightarrow> 't \<Rightarrow> 't \<Rightarrow> 't"

text \<open>A path that is a single key: the dot separates the keys of a path.\<close>

definition simple_key :: "string \<Rightarrow> bool" where
  "simple_key k \<longleftrightarrow> k \<noteq> [] \<and> CHR ''.'' \<notin> set k"

definition is_upper :: "char \<Rightarrow> bool" where
  "is_upper c \<longleftrightarrow> c \<in> set ''ABCDEFGHIJKLMNOPQRSTUVWXYZ''"

locale property_tree =
  fixes b :: "'t boost"
  assumes trims: "trimmer (boost_trim b)"
    and lower_id: "\<not> list_ex is_upper s \<Longrightarrow> to_lower b s = s"
    and cast_size: "n < 2 ^ 64 \<Longrightarrow> lexical_cast_size b (std_to_string (int n)) = Inr n"
    and bool_strings: "bool_string b w = (if w then ''true'' else ''false'')"
    and data_empty: "node_data b (empty_tree b) = []"
    and children_empty: "node_children b (empty_tree b) = []"
    and data_put_root: "node_data b (put b [] v t) = v"
    and children_put_root: "node_children b (put b [] v t) = node_children b t"
    and put_child: "simple_key k \<Longrightarrow> k \<notin> fst ` set (node_children b t) \<Longrightarrow>
      node_data b (put b k v t) = node_data b t \<and>
      (\<exists>l. node_children b (put b k v t) = node_children b t @ [(k, l)] \<and> node_data b l = v \<and> node_children b l = [])"
    and add_child_simple: "simple_key k \<Longrightarrow>
      \<exists>t'. add_child b k c t = Inr t' \<and> node_data b t' = node_data b t \<and> node_children b t' = node_children b t @ [(k, c)]"
    and data_push_back: "node_data b (push_back b k c t) = node_data b t"
    and children_push_back: "node_children b (push_back b k c t) = node_children b t @ [(k, c)]"
    and child_none: "simple_key k \<Longrightarrow> k \<notin> fst ` set (node_children b t) \<Longrightarrow> get_child_optional b k t = None"
    and child_some: "simple_key k \<Longrightarrow> node_children b t = us @ (k, c) # vs \<Longrightarrow> k \<notin> fst ` set (us @ vs) \<Longrightarrow>
      get_child_optional b k t = Some c"
    and child_path: "simple_key k \<Longrightarrow> p \<noteq> [] \<Longrightarrow>
      get_child_optional b (k @ ''.'' @ p) t =
        (case get_child_optional b k t of None \<Rightarrow> None | Some c \<Rightarrow> get_child_optional b p c)"
begin

text \<open>
  The contents of a node up to the identity of its subtrees: its data, and for each key a property
  of the child with that key. Every key occurs once.
\<close>

definition shape :: "string \<Rightarrow> (string \<rightharpoonup> ('t \<Rightarrow> bool)) \<Rightarrow> 't \<Rightarrow> bool" where
  "shape d f t \<longleftrightarrow> node_data b t = d \<and> distinct (map fst (node_children b t)) \<and> dom f = fst ` set (node_children b t)
     \<and> (\<forall>e \<in> set (node_children b t). \<forall>P. f (fst e) = Some P \<longrightarrow> P (snd e))"

abbreviation leaf :: "string \<Rightarrow> 't \<Rightarrow> bool" where
  "leaf v \<equiv> \<lambda>c. node_data b c = v"

lemma shape_empty: "shape [] Map.empty (empty_tree b)"
  by (simp add: shape_def data_empty children_empty)

lemma shape_append:
  assumes "shape d f t" and "f k = None" and "node_data b t' = d" and "node_children b t' = node_children b t @ [(k, c)]" and "P c"
  shows "shape d (f(k \<mapsto> P)) t'"
proof -
  from assms(1) have f: "distinct (map fst (node_children b t))" "dom f = fst ` set (node_children b t)"
    "\<And>k c P. (k, c) \<in> set (node_children b t) \<Longrightarrow> f k = Some P \<Longrightarrow> P c"
    by (auto simp: shape_def)
  with assms(2) have new: "k \<notin> fst ` set (node_children b t)" by auto
  have "\<forall>e \<in> set (node_children b t'). \<forall>Q. (f(k \<mapsto> P)) (fst e) = Some Q \<longrightarrow> Q (snd e)"
  proof (intro ballI allI impI)
    fix e Q assume e: "e \<in> set (node_children b t')" and Q: "(f(k \<mapsto> P)) (fst e) = Some Q"
    show "Q (snd e)"
    proof (cases "fst e = k")
      case True
      with new e assms(4) have "e = (k, c)" by (auto simp: image_iff)
      with Q assms(5) show ?thesis by simp
    next
      case False
      then have "(fst e, snd e) \<in> set (node_children b t)" using e unfolding assms(4) by auto
      with f(3) [of "fst e" "snd e" Q] False Q show ?thesis by simp
    qed
  qed
  moreover have "distinct (map fst (node_children b t'))" "dom (f(k \<mapsto> P)) = fst ` set (node_children b t')"
    using f(1,2) new by (simp_all add: assms(4))
  ultimately show ?thesis using assms(3) by (simp only: shape_def)
qed

lemma shape_put:
  assumes "shape d f t" and "simple_key k" and "f k = None"
  shows "shape d (f(k \<mapsto> leaf v)) (put b k v t)"
proof -
  have "k \<notin> fst ` set (node_children b t)" using assms(1,3) by (auto simp: shape_def)
  from put_child [OF assms(2) this, of v] show ?thesis
    using shape_append [where P = "leaf v", OF assms(1,3)] assms(1) by (auto simp: shape_def [of d f t])
qed

lemma shape_add_child:
  assumes "shape d f t" and "simple_key k" and "f k = None" and "P c"
  shows "\<exists>t'. add_child b k c t = Inr t' \<and> shape d (f(k \<mapsto> P)) t'"
proof -
  from add_child_simple [OF assms(2), of c t] obtain t' where
    t': "add_child b k c t = Inr t'" "node_data b t' = node_data b t" "node_children b t' = node_children b t @ [(k, c)]" by blast
  from assms(1) have "node_data b t = d" by (simp add: shape_def)
  with t'(2) have "node_data b t' = d" by simp
  from shape_append [where P = P, OF assms(1,3) this t'(3) assms(4)] t'(1) show ?thesis by simp
qed

lemma shape_child:
  assumes "shape d f t" and "simple_key k"
  shows "case f k of None \<Rightarrow> get_child_optional b k t = None | Some P \<Rightarrow> \<exists>c. get_child_optional b k t = Some c \<and> P c"
proof (cases "f k")
  case None
  then have "k \<notin> fst ` set (node_children b t)" using assms(1) by (auto simp: shape_def)
  with None child_none [OF assms(2)] show ?thesis by simp
next
  case (Some P)
  then have "k \<in> fst ` set (node_children b t)" using assms(1) by (auto simp: shape_def)
  then obtain us c vs where ch: "node_children b t = us @ (k, c) # vs" by (auto simp: in_set_conv_decomp)
  then have "k \<notin> fst ` set (us @ vs)" using assms(1) by (auto simp: shape_def)
  moreover have "P c" using assms(1) Some ch by (auto simp: shape_def)
  ultimately show ?thesis using child_some [OF assms(2) ch] Some by simp
qed

end

section \<open>A concrete property tree\<close>

datatype tree = Node (tree_data: string) (tree_children: "(string \<times> tree) list")

definition path_keys :: "string \<Rightarrow> string list" where
  "path_keys p = (if p = [] then [] else split_any_of p ''.'')"

fun tree_get :: "string list \<Rightarrow> tree \<Rightarrow> tree option" where
  "tree_get [] t = Some t"
| "tree_get (k # ks) t = (case map_of (tree_children t) k of None \<Rightarrow> None | Some c \<Rightarrow> tree_get ks c)"

fun replace_child :: "string \<Rightarrow> tree \<Rightarrow> (string \<times> tree) list \<Rightarrow> (string \<times> tree) list" where
  "replace_child k c [] = [(k, c)]"
| "replace_child k c (e # es) = (if fst e = k then (k, c) # es else e # replace_child k c es)"

definition child_or_new :: "string \<Rightarrow> tree \<Rightarrow> tree" where
  "child_or_new k t = (case map_of (tree_children t) k of None \<Rightarrow> Node [] [] | Some c \<Rightarrow> c)"

fun tree_put :: "string list \<Rightarrow> string \<Rightarrow> tree \<Rightarrow> tree" where
  "tree_put [] v t = Node v (tree_children t)"
| "tree_put (k # ks) v t = Node (tree_data t) (replace_child k (tree_put ks v (child_or_new k t)) (tree_children t))"

fun tree_add :: "string list \<Rightarrow> tree \<Rightarrow> tree \<Rightarrow> tree result" where
  "tree_add [] c t = Inl (Assertion_failed ''Empty path not allowed'')"
| "tree_add (k # ks) c t =
     (if ks = [] then Inr (Node (tree_data t) (tree_children t @ [(k, c)]))
      else bind_result (tree_add ks c (child_or_new k t))
             (\<lambda>c'. Inr (Node (tree_data t) (replace_child k c' (tree_children t)))))"

definition lower_char :: "char \<Rightarrow> char" where
  "lower_char c = (if is_upper c then char_of (of_char c + 32 :: nat) else c)"

definition std_lexical_cast_size :: "string \<Rightarrow> nat result" where
  "std_lexical_cast_size s =
     (if s \<noteq> [] \<and> list_all is_digit s \<and> int (nat_of_string s) < 2 ^ 64 then Inr (nat_of_string s)
      else Inl (Runtime_error ''boost::bad_lexical_cast''))"

text \<open>An integer of eight bits is a character.\<close>

definition std_lexical_cast_integer :: "bool \<Rightarrow> nat \<Rightarrow> string \<Rightarrow> int result" where
  "std_lexical_cast_integer signed w s =
     (let lo = (if signed then - (2 ^ (w - 1)) else 0); hi = (if signed then 2 ^ (w - 1) else 2 ^ w)
      in if w = 8
         then (case s of [c] \<Rightarrow> Inr (let n = of_char c in if signed \<and> 128 \<le> n then n - 256 else n)
               | _ \<Rightarrow> Inl (Runtime_error ''boost::bad_lexical_cast''))
         else (case read_integer s of
                 Some i \<Rightarrow> if lo \<le> i \<and> i < hi \<and> list_all (\<lambda>c. is_digit c \<or> c = CHR ''-'') s then Inr i
                           else Inl (Runtime_error ''boost::bad_lexical_cast'')
               | None \<Rightarrow> Inl (Runtime_error ''boost::bad_lexical_cast'')))"

definition std_boost :: "tree boost" where
  "std_boost =
     \<lparr>boost_trim = std_trim, to_lower = map lower_char, lexical_cast_size = std_lexical_cast_size,
      lexical_cast_integer = std_lexical_cast_integer, generate_floating = (\<lambda>t lo hi s. Some (Inr [lo])),
      bool_string = (\<lambda>w. if w then ''true'' else ''false''), empty_tree = Node [] [], node_data = tree_data,
      node_children = tree_children, get_child_optional = (\<lambda>p. tree_get (path_keys p)),
      put = (\<lambda>p. tree_put (path_keys p)), add_child = (\<lambda>p. tree_add (path_keys p)),
      push_back = (\<lambda>k c t. Node (tree_data t) (tree_children t @ [(k, c)]))\<rparr>"

lemma path_keys_empty: "path_keys [] = []"
  by (simp add: path_keys_def)

lemma path_keys_simple: "simple_key k \<Longrightarrow> path_keys k = [k]"
  by (simp add: path_keys_def simple_key_def split_any_of_none)

lemma path_keys_path: "simple_key k \<Longrightarrow> p \<noteq> [] \<Longrightarrow> path_keys (k @ ''.'' @ p) = k # path_keys p"
  using split_any_of_at [of k "''.''" "CHR ''.''" p] by (simp add: path_keys_def simple_key_def)

lemma replace_child_new: "k \<notin> fst ` set es \<Longrightarrow> replace_child k c es = es @ [(k, c)]"
  by (induction es) auto

lemma std_cast_size: "n < 2 ^ 64 \<Longrightarrow> std_lexical_cast_size (std_to_string (int n)) = Inr n"
  using string_of_nat_digits [of _ n] by (auto simp: std_lexical_cast_size_def std_to_string_def list_all_iff)

interpretation bp: property_tree std_boost
proof
  show "to_lower std_boost s = s" if "\<not> list_ex is_upper s" for s
    using that by (auto simp: std_boost_def lower_char_def list_ex_iff intro!: map_idI)
  show "lexical_cast_size std_boost (std_to_string (int n)) = Inr n" if "n < 2 ^ 64" for n
    using std_cast_size [OF that] by (simp add: std_boost_def)
  show "node_data std_boost (put std_boost k v t) = node_data std_boost t \<and>
      (\<exists>l. node_children std_boost (put std_boost k v t) = node_children std_boost t @ [(k, l)]
         \<and> node_data std_boost l = v \<and> node_children std_boost l = [])"
    if "simple_key k" "k \<notin> fst ` set (node_children std_boost t)" for k v t
    using that by (auto simp: std_boost_def path_keys_simple replace_child_new child_or_new_def dest!: map_of_SomeD split: option.splits)
      force+
  show "get_child_optional std_boost k t = None" if "simple_key k" "k \<notin> fst ` set (node_children std_boost t)" for k t
    using that by (auto simp: std_boost_def path_keys_simple map_of_eq_None_iff split: option.splits)
  show "get_child_optional std_boost k t = Some c"
    if "simple_key k" "node_children std_boost t = us @ (k, c) # vs" "k \<notin> fst ` set (us @ vs)" for k t us c vs
  proof -
    have "map_of us k = None" using that(3) by (auto simp: map_of_eq_None_iff)
    with that(1,2) show ?thesis by (auto simp: std_boost_def path_keys_simple map_add_def)
  qed
  show "get_child_optional std_boost (k @ ''.'' @ p) t =
      (case get_child_optional std_boost k t of None \<Rightarrow> None | Some c \<Rightarrow> get_child_optional std_boost p c)"
    if "simple_key k" "p \<noteq> []" for k p t
    using path_keys_path [OF that] path_keys_simple [OF that(1)] by (simp add: std_boost_def split: option.splits)
qed (auto simp: std_boost_def path_keys_simple path_keys_empty bt.trim_spaces)

end
