(* ===== verification/Heel_Parser.thy ===== *)
theory Heel_Parser
  imports Heel_Tree
begin

text \<open>
  Reading the description of an application and its operating points from a property tree
  (\<^verbatim>\<open>parser_*.cpp\<close>). The structures the parsers fill start empty; the members that no parser
  writes, such as the kind of a constraint, are set by the validation and read \<open>UNKNOWN\<close> here.
\<close>

section \<open>Tags\<close>

abbreviation "tag_version \<equiv> ''version''"
abbreviation "tag_agora \<equiv> ''agora''"
abbreviation "tag_url \<equiv> ''broker_url''"
abbreviation "tag_username \<equiv> ''broker_username''"
abbreviation "tag_password \<equiv> ''broker_password''"
abbreviation "tag_qos \<equiv> ''broker_qos''"
abbreviation "tag_broker_ca \<equiv> ''broker_ca''"
abbreviation "tag_client_cert \<equiv> ''client_cert''"
abbreviation "tag_client_key \<equiv> ''client_key''"
abbreviation "tag_number_configurations_per_iteration \<equiv> ''number_configurations_per_iteration''"
abbreviation "tag_number_observations_per_configuration \<equiv> ''number_observations_per_configuration''"
abbreviation "tag_max_number_iteration \<equiv> ''max_number_iteration''"
abbreviation "tag_doe_plugin \<equiv> ''doe_plugin''"
abbreviation "tag_clustering_plugin \<equiv> ''clustering_plugin''"
abbreviation "tag_doe_parameters \<equiv> ''doe_parameters''"
abbreviation "tag_clustering_parameters \<equiv> ''clustering_parameters''"
abbreviation "tag_blocks \<equiv> ''blocks''"
abbreviation "tag_name \<equiv> ''name''"
abbreviation "tag_features \<equiv> ''features''"
abbreviation "tag_feature_distance \<equiv> ''feature_distance''"
abbreviation "tag_type \<equiv> ''type''"
abbreviation "tag_comparison \<equiv> ''comparison''"
abbreviation "tag_knobs \<equiv> ''knobs''"
abbreviation "tag_values \<equiv> ''values''"
abbreviation "tag_range \<equiv> ''range''"
abbreviation "tag_metrics \<equiv> ''metrics''"
abbreviation "tag_distribution \<equiv> ''distribution''"
abbreviation "tag_prediction_plugin \<equiv> ''prediction_plugin''"
abbreviation "tag_prediction_params \<equiv> ''prediction_parameters''"
abbreviation "tag_observed_by \<equiv> ''observed_by''"
abbreviation "tag_reactive_inertia \<equiv> ''reactive_inertia''"
abbreviation "tag_monitors \<equiv> ''monitors''"
abbreviation "tag_log \<equiv> ''log''"
abbreviation "tag_constructor \<equiv> ''constructor''"
abbreviation "tag_start \<equiv> ''start''"
abbreviation "tag_stop \<equiv> ''stop''"
abbreviation "tag_states \<equiv> ''extra-functional_requirements''"
abbreviation "tag_minimize \<equiv> ''minimize''"
abbreviation "tag_geometric_mean \<equiv> ''geometric_mean''"
abbreviation "tag_linear_mean \<equiv> ''linear_mean''"
abbreviation "tag_constraints \<equiv> ''subject_to''"
abbreviation "tag_subject \<equiv> ''subject''"
abbreviation "tag_value \<equiv> ''value''"
abbreviation "tag_confidence \<equiv> ''confidence''"

section \<open>Utilities\<close>

definition parse_string :: "'t boost \<Rightarrow> 't \<Rightarrow> string" where
  "parse_string b t = node_data b t"

definition parse_list :: "'t boost \<Rightarrow> ('t \<Rightarrow> 'm result) \<Rightarrow> 't \<Rightarrow> string \<Rightarrow> 'm list result" where
  "parse_list b parse t tag =
     (case get_child_optional b tag t of
        None \<Rightarrow> Inr []
      | Some c \<Rightarrow> traverse (\<lambda>node_pair. parse (snd node_pair)) (node_children b c))"

definition parse_element :: "'t boost \<Rightarrow> ('t \<Rightarrow> 'm) \<Rightarrow> 'm \<Rightarrow> 't \<Rightarrow> string \<Rightarrow> 'm" where
  "parse_element b parse initial t tag = (case get_child_optional b tag t of None \<Rightarrow> initial | Some c \<Rightarrow> parse c)"

abbreviation parse_text :: "'t boost \<Rightarrow> 't \<Rightarrow> string \<Rightarrow> string" where
  "parse_text b \<equiv> parse_element b (parse_string b) []"

abbreviation parse_texts :: "'t boost \<Rightarrow> 't \<Rightarrow> string \<Rightarrow> string list result" where
  "parse_texts b \<equiv> parse_list b (\<lambda>c. Inr (parse_string b c))"

text \<open>A chain of \<^verbatim>\<open>is_enum\<close>, each of which changes the string to lower case.\<close>

fun find_enum :: "'t boost \<Rightarrow> (string \<times> 'e) list \<Rightarrow> string \<Rightarrow> string \<times> 'e option" where
  "find_enum b [] s = (s, None)"
| "find_enum b ((name, e) # es) s =
     (let s' = to_lower b s in if s' = name then (s', Some e) else find_enum b es s')"

definition is_bool :: "'t boost \<Rightarrow> string \<Rightarrow> bool \<Rightarrow> string \<times> bool" where
  "is_bool b s v =
     (let s' = to_lower b s
      in (s', s' \<in> set (if v then [''1'', ''true'', ''yes'', ''enabled'', ''on'', ''high'']
                         else [''0'', ''false'', ''no'', ''disabled'', ''off'', ''low''])))"

subsection \<open>Ranges of values\<close>

text \<open>
  \<^verbatim>\<open>i += step\<close> on an integer of the given width: unsigned numbers wrap around, signed numbers
  shorter than \<^verbatim>\<open>int\<close> are converted back, and the overflow of longer ones is undefined behaviour.
\<close>

definition range_add :: "bool \<Rightarrow> nat \<Rightarrow> int \<Rightarrow> int \<Rightarrow> int result" where
  "range_add signed w i step =
     (let s = i + step
      in if \<not> signed then Inr (s mod 2 ^ w)
         else if - (2 ^ (w - 1)) \<le> s \<and> s < 2 ^ (w - 1) then Inr s
         else if w < 32 then Inr ((s + 2 ^ (w - 1)) mod 2 ^ w - 2 ^ (w - 1))
         else Inl (Undefined_behaviour ''signed overflow''))"

partial_function (option) range_loop :: "bool \<Rightarrow> nat \<Rightarrow> int \<Rightarrow> int \<Rightarrow> int \<Rightarrow> string list result option" where
  "range_loop signed w i max_numeric step_numeric =
     (if i < max_numeric
      then (case range_add signed w i step_numeric of
              Inl e \<Rightarrow> Some (Inl e)
            | Inr i' \<Rightarrow> Option.bind (range_loop signed w i' max_numeric step_numeric)
                          (\<lambda>r. Some (bind_result r (\<lambda>values. Inr (std_to_string i # values)))))
      else Some (Inr []))"

definition generate :: "'t boost \<Rightarrow> bool \<Rightarrow> nat \<Rightarrow> string \<Rightarrow> string \<Rightarrow> string \<Rightarrow> string list result option" where
  "generate b signed w lo hi step =
     (case bind_result (lexical_cast_integer b signed w lo) (\<lambda>min_numeric.
           bind_result (lexical_cast_integer b signed w hi) (\<lambda>max_numeric.
           bind_result (lexical_cast_integer b signed w step) (\<lambda>step_numeric. Inr (min_numeric, max_numeric, step_numeric)))) of
        Inl e \<Rightarrow> Some (Inl e)
      | Inr (min_numeric, max_numeric, step_numeric) \<Rightarrow> range_loop signed w min_numeric max_numeric step_numeric)"

definition integer_types :: "(string \<times> bool \<times> nat) list" where
  "integer_types = [(''int8_t'', True, 8), (''uint8_t'', False, 8), (''int16_t'', True, 16), (''uint16_t'', False, 16),
     (''int32_t'', True, 32), (''uint32_t'', False, 32), (''int64_t'', True, 64), (''uint64_t'', False, 64)]"

text \<open>A loop that does not end adds values until the memory is exhausted.\<close>

definition finish_range :: "string list result option \<Rightarrow> string list result" where
  "finish_range r = (case r of None \<Rightarrow> Inl (Runtime_error ''std::bad_alloc'') | Some values \<Rightarrow> values)"

definition compute_range :: "'t boost \<Rightarrow> 't \<Rightarrow> string \<Rightarrow> string list result" where
  "compute_range b range_node value_type =
     (let values = map (\<lambda>value_pair. node_data b (snd value_pair)) (node_children b range_node)
      in if length values < 2
         then Inl (Runtime_error ''compute range: unable to compute a range without a min and max value'')
         else let lo = values ! 0; hi = values ! 1; step = (if length values \<ge> 3 then values ! 2 else ''1'')
              in bind_result (sanitize_type (boost_trim b) value_type) (\<lambda>t.
                   case map_of integer_types t of
                     Some (signed, w) \<Rightarrow> finish_range (generate b signed w lo hi step)
                   | None \<Rightarrow> if t \<in> {''float'', ''double'', ''long double''}
                             then finish_range (generate_floating b t lo hi step)
                             else Inl (Runtime_error '' error_range: unabale to generate a range for type'')))"

section \<open>Parts of a block\<close>

definition parse_parameter :: "'t boost \<Rightarrow> 't \<Rightarrow> parameter result" where
  "parse_parameter b t =
     (let c = parse_string b t
      in Inr (if c \<noteq> [] then \<lparr>param_type = IMMEDIATE, param_content = c, param_value_type = []\<rparr>
              else foldl (\<lambda>p e. p\<lparr>param_content := fst e, param_value_type := parse_string b (snd e)\<rparr>)
                     \<lparr>param_type = VARIABLE, param_content = [], param_value_type = []\<rparr> (node_children b t)))"

definition parse_property :: "'t boost \<Rightarrow> 't \<Rightarrow> pair_property result" where
  "parse_property b t =
     Inr (foldl (\<lambda>p e. \<lparr>prop_key = fst e, prop_value = parse_string b (snd e)\<rparr>)
            \<lparr>prop_key = [], prop_value = []\<rparr> (node_children b t))"

definition parse_monitor :: "'t boost \<Rightarrow> 't \<Rightarrow> monitor_model result" where
  "parse_monitor b t =
     bind_result (parse_texts b t tag_log) (\<lambda>stats.
     bind_result (parse_list b (parse_parameter b) t tag_constructor) (\<lambda>ps_init.
     bind_result (parse_list b (parse_parameter b) t tag_start) (\<lambda>ps_start.
     bind_result (parse_list b (parse_parameter b) t tag_stop) (\<lambda>ps_stop.
       Inr \<lparr>monitor_name = parse_text b t tag_name, monitor_type = parse_text b t tag_type, requested_statistics = stats,
            initialization_parameters = ps_init, start_parameters = ps_start, stop_parameters = ps_stop\<rparr>))))"

definition parse_knob :: "'t boost \<Rightarrow> 't \<Rightarrow> knob_model result" where
  "parse_knob b t =
     (let type = parse_text b t tag_type
      in bind_result (parse_texts b t tag_values) (\<lambda>values.
         bind_result
           (if values = []
            then (case get_child_optional b tag_range t of None \<Rightarrow> Inr [] | Some r \<Rightarrow> compute_range b r type)
            else Inr values)
           (\<lambda>values'. Inr \<lparr>knob_name = parse_text b t tag_name, knob_type = type, knob_values = values'\<rparr>)))"

definition parse_distribution :: "'t boost \<Rightarrow> string \<Rightarrow> bool result" where
  "parse_distribution b s =
     (if s = [] then Inr False
      else let (s1, is_yes) = is_bool b s True; (s2, is_no) = is_bool b s1 False
           in if \<not> is_yes \<and> \<not> is_no then Inl (Runtime_error ''Unknown distribution value'')
              else Inr is_yes)"

definition parse_metric :: "'t boost \<Rightarrow> 't \<Rightarrow> metric_model result" where
  "parse_metric b t =
     bind_result (parse_list b (parse_property b) t tag_prediction_params) (\<lambda>params.
     bind_result (let s = parse_text b t tag_reactive_inertia in if s \<noteq> [] then lexical_cast_size b s else Inr 0) (\<lambda>n.
     bind_result (parse_distribution b (parse_text b t tag_distribution)) (\<lambda>d.
       Inr \<lparr>metric_name = parse_text b t tag_name, metric_type = parse_text b t tag_type, distribution = d,
            prediction_plugin = parse_text b t tag_prediction_plugin, observed_by = parse_text b t tag_observed_by,
            inertia = n, prediction_parameters = params\<rparr>)))"

definition parse_feature :: "'t boost \<Rightarrow> 't \<Rightarrow> feature_model result" where
  "parse_feature b t =
     (case find_enum b (map (\<lambda>c. (distance_comparison_str c, c)) [Distance_LESS_OR_EQUAL, Distance_GREATER_OR_EQUAL, Distance_DONT_CARE])
             (parse_text b t tag_comparison) of
        (s, Some c) \<Rightarrow> Inr \<lparr>feature_name = parse_text b t tag_name, feature_type = parse_text b t tag_type, feature_comparison = c\<rparr>
      | (s, None) \<Rightarrow>
          if s \<noteq> [] then Inl (Runtime_error ''field parser: unknown feature comparison'')
          else Inr \<lparr>feature_name = parse_text b t tag_name, feature_type = parse_text b t tag_type,
                    feature_comparison = Distance_DONT_CARE\<rparr>)"

definition parse_rank_field :: "'t boost \<Rightarrow> 't \<Rightarrow> rank_field_model result" where
  "parse_rank_field b t =
     Inr (foldl (\<lambda>r e. r\<lparr>rank_field_name := fst e, rank_coefficient := parse_string b (snd e)\<rparr>)
            \<lparr>rank_field_name = [], rank_field_kind = UNKNOWN, rank_coefficient = []\<rparr> (node_children b t))"

definition parse_constraint :: "'t boost \<Rightarrow> 't \<Rightarrow> constraint_model result" where
  "parse_constraint b t =
     (case find_enum b (map (\<lambda>c. (goal_comparison_str c, c)) [Goal_LESS_OR_EQUAL, Goal_GREATER_OR_EQUAL, Goal_LESS, Goal_GREATER])
             (parse_text b t tag_comparison) of
        (s, None) \<Rightarrow> Inl (Runtime_error ''constraint parser: unknown comparison function'')
      | (s, Some c) \<Rightarrow> Inr \<lparr>constraint_subject = parse_text b t tag_subject, cfun = c, constraint_value = parse_text b t tag_value,
                            constraint_kind = UNKNOWN, confidence = parse_text b t tag_confidence\<rparr>)"

text \<open>The combinations of direction and type of the rank are tried until one has fields.\<close>

fun parse_rank :: "'t boost \<Rightarrow> 't \<Rightarrow> (rank_direction \<times> rank_type) list \<Rightarrow> state_model \<Rightarrow> state_model result" where
  "parse_rank b t [] s = Inr s"
| "parse_rank b t ((dir, comb) # ds) s =
     bind_result (parse_list b (parse_rank_field b) t (rank_direction_str dir @ ''.'' @ rank_type_str comb)) (\<lambda>fields.
       if fields \<noteq> [] then Inr (s\<lparr>rank_fields := fields, direction := dir, combination := comb\<rparr>)
       else parse_rank b t ds s)"

definition parse_state :: "'t boost \<Rightarrow> 't \<Rightarrow> state_model result" where
  "parse_state b t =
     bind_result (parse_list b (parse_constraint b) t tag_constraints) (\<lambda>cs.
       parse_rank b t [(Direction_MINIMIZE, Rank_GEOMETRIC), (Direction_MINIMIZE, Rank_LINEAR),
                       (Direction_MAXIMIZE, Rank_GEOMETRIC), (Direction_MAXIMIZE, Rank_LINEAR)]
         \<lparr>state_name = parse_text b t tag_name, direction = Direction_NONE, combination = Rank_NONE, rank_fields = [],
          state_constraints = cs\<rparr>)"

definition agora_default :: agora_model where
  "agora_default = \<lparr>url = [], username = [], password = [], qos = [], broker_ca = [], client_cert = [], client_key = [],
     number_configurations_per_iteration = [], number_observations_per_configuration = [], max_number_iteration = [],
     doe_plugin = [], clustering_plugin = [], doe_parameters = [], clustering_parameters = []\<rparr>"

definition parse_agora :: "'t boost \<Rightarrow> 't \<Rightarrow> agora_model result" where
  "parse_agora b t =
     bind_result (parse_list b (parse_property b) t tag_doe_parameters) (\<lambda>dps.
     bind_result (parse_list b (parse_property b) t tag_clustering_parameters) (\<lambda>cps.
       Inr \<lparr>url = parse_text b t tag_url, username = parse_text b t tag_username, password = parse_text b t tag_password,
            qos = parse_text b t tag_qos, broker_ca = parse_text b t tag_broker_ca, client_cert = parse_text b t tag_client_cert,
            client_key = parse_text b t tag_client_key,
            number_configurations_per_iteration = parse_text b t tag_number_configurations_per_iteration,
            number_observations_per_configuration = parse_text b t tag_number_observations_per_configuration,
            max_number_iteration = parse_text b t tag_max_number_iteration, doe_plugin = parse_text b t tag_doe_plugin,
            clustering_plugin = parse_text b t tag_clustering_plugin, doe_parameters = dps, clustering_parameters = cps\<rparr>))"

section \<open>Blocks and applications\<close>

definition parse_feature_distance :: "'t boost \<Rightarrow> 't \<Rightarrow> features_distance_type result" where
  "parse_feature_distance b t =
     (case find_enum b (map (\<lambda>d. (features_distance_str d, d)) [Features_EUCLIDEAN, Features_NORMALIZED])
             (parse_text b t tag_feature_distance) of
        (s, Some d) \<Rightarrow> Inr d
      | (s, None) \<Rightarrow> if s \<noteq> [] then Inl (Runtime_error ''block parser: unknown feature distance'') else Inr Features_NONE)"

definition parse_block :: "'t boost \<Rightarrow> 't \<Rightarrow> block_model result" where
  "parse_block b t =
     bind_result (parse_list b (parse_monitor b) t tag_monitors) (\<lambda>mons.
     bind_result (parse_list b (parse_knob b) t tag_knobs) (\<lambda>ks.
     bind_result (parse_list b (parse_metric b) t tag_metrics) (\<lambda>ms.
     bind_result (std_sort (name_less monitor_name) mons) (\<lambda>mons'.
     bind_result (std_sort (name_less knob_name) ks) (\<lambda>ks'.
     bind_result (std_sort (name_less metric_name) ms) (\<lambda>ms'.
     bind_result (parse_feature_distance b t) (\<lambda>d.
     bind_result (parse_list b (parse_feature b) t tag_features) (\<lambda>fs.
     bind_result (std_sort (name_less feature_name) fs) (\<lambda>fs'.
     bind_result (parse_element b (parse_agora b) (Inr agora_default) t tag_agora) (\<lambda>ag.
     bind_result (parse_list b (parse_state b) t tag_states) (\<lambda>ss.
       Inr \<lparr>block_id = parse_text b t tag_name, block_monitors = mons', block_knobs = ks', knobs_segment_type = [],
            block_metrics = ms', metrics_segment_type = [],
            block_features = \<lparr>distance_type = d, features_type = [], feature_fields = fs'\<rparr>,
            block_agora = ag, block_states = ss, block_ops = []\<rparr>)))))))))))"

definition parse_application :: "'t boost \<Rightarrow> 't \<Rightarrow> application_model result" where
  "parse_application b t =
     bind_result (parse_list b (parse_block b) t tag_blocks) (\<lambda>bs.
     bind_result (std_sort (name_less block_id) bs) (\<lambda>bs'.
       Inr \<lparr>application_name = parse_text b t tag_name, application_version = parse_text b t tag_version,
            application_blocks = bs'\<rparr>))"

section \<open>Operating points\<close>

definition parse_op_field :: "'t boost \<Rightarrow> string \<Rightarrow> 't \<Rightarrow> operating_point_value result" where
  "parse_op_field b tag op_node =
     (case get_child_optional b tag op_node of
        None \<Rightarrow> Inl (Runtime_error ''op parser: missing field'')
      | Some field \<Rightarrow>
          let mean_value = node_data b field
          in if mean_value \<noteq> [] then Inr \<lparr>value_mean = mean_value, value_standard_deviation = []\<rparr>
             else (case map snd (node_children b field) of
                     [] \<Rightarrow> Inl (Runtime_error ''op parser: empty mean'')
                   | [m] \<Rightarrow> Inl (Runtime_error ''op parser: empty standard deviation'')
                   | m # s # _ \<Rightarrow>
                       if node_data b m = [] then Inl (Runtime_error ''op parser: empty mean'')
                       else Inr \<lparr>value_mean = node_data b m, value_standard_deviation = node_data b s\<rparr>))"

definition parse_op :: "'t boost \<Rightarrow> block_model \<Rightarrow> 't \<Rightarrow> operating_point_model result" where
  "parse_op b block p =
     bind_result (traverse (\<lambda>f. parse_op_field b (tag_features @ ''.'' @ feature_name f) p) (feature_fields (block_features block))) (\<lambda>fs.
     bind_result (traverse (\<lambda>k. parse_op_field b (tag_knobs @ ''.'' @ knob_name k) p) (block_knobs block)) (\<lambda>ks.
     bind_result (traverse (\<lambda>m. parse_op_field b (tag_metrics @ ''.'' @ metric_name m) p) (block_metrics block)) (\<lambda>ms.
       Inr \<lparr>op_features = fs, op_knobs = ks, op_metrics = ms\<rparr>)))"

definition parse_operating_points :: "'t boost \<Rightarrow> block_model \<Rightarrow> 't \<Rightarrow> block_model result" where
  "parse_operating_points b block op_node =
     (case get_child_optional b (block_id block) op_node of
        None \<Rightarrow> Inr block
      | Some ops_list \<Rightarrow>
          bind_result (traverse (\<lambda>p. parse_op b block (snd p)) (node_children b ops_list))
            (\<lambda>ops. Inr (block\<lparr>block_ops := block_ops block @ ops\<rparr>)))"

definition parse_configuration_file :: "'t boost \<Rightarrow> application_model \<Rightarrow> 't \<Rightarrow> application_model result" where
  "parse_configuration_file b app t =
     (if application_blocks app = [] then
        bind_result (parse_application b t) (\<lambda>parsed. Inr parsed)
      else bind_result
        (traverse (\<lambda>block. bind_result (parse_operating_points b block t) (\<lambda>block'.
             if \<not> agora_empty (block_agora block') \<and> block_ops block' \<noteq> []
             then Inl (Runtime_error ''workspace error: mismatch on application knowledge'')
             else Inr block')) (application_blocks app))
        (\<lambda>bs. Inr (app\<lparr>application_blocks := bs\<rparr>)))"

end
