(* ===== verification/Heel_Range.thy ===== *)
theory Heel_Range
  imports Heel_Parser
begin

text \<open>
  The values of a knob that is described by a range: what the loop of \<^verbatim>\<open>generate\<close> returns, and when
  it does not return.
\<close>

declare range_loop.simps [simp del]

lemma range_loop_done: "\<not> i < hi \<Longrightarrow> range_loop signed w i hi step = Some (Inr [])"
  by (simp add: range_loop.simps)

lemma range_loop_step:
  "i < hi \<Longrightarrow> range_add signed w i step = Inr i' \<Longrightarrow> range_loop signed w i' hi step = Some (Inr values) \<Longrightarrow>
     range_loop signed w i hi step = Some (Inr (std_to_string i # values))"
  by (subst range_loop.simps) simp

text \<open>The largest number of the type.\<close>

definition max_integer :: "bool \<Rightarrow> nat \<Rightarrow> int" where
  "max_integer signed w = (if signed then 2 ^ (w - 1) - 1 else 2 ^ w - 1)"

definition min_integer :: "bool \<Rightarrow> nat \<Rightarrow> int" where
  "min_integer signed w = (if signed then - (2 ^ (w - 1)) else 0)"

lemma range_add_exact:
  "min_integer signed w \<le> i + step \<Longrightarrow> i + step \<le> max_integer signed w \<Longrightarrow> range_add signed w i step = Inr (i + step)"
  by (auto simp: range_add_def min_integer_def max_integer_def Let_def)

definition range_count :: "int \<Rightarrow> int \<Rightarrow> int \<Rightarrow> nat" where
  "range_count lo hi step = nat ((hi - lo + step - 1) div step)"

lemma range_count_step:
  assumes "0 < step" and "lo < hi"
  shows "range_count lo hi step = Suc (range_count (lo + step) hi step)"
proof -
  have "hi - lo + step - 1 = (hi - (lo + step) + step - 1) + step" by simp
  then have "(hi - lo + step - 1) div step = (hi - (lo + step) + step - 1) div step + 1"
    using assms(1) by (metis div_add_self2 less_irrefl)
  moreover have "0 \<le> (hi - (lo + step) + step - 1) div step"
    using assms by (simp add: pos_imp_zdiv_nonneg_iff)
  ultimately show ?thesis by (simp add: range_count_def nat_add_distrib)
qed

lemma range_count_done:
  assumes "0 < step" and "\<not> lo < hi"
  shows "range_count lo hi step = 0"
proof -
  have "(hi - lo + step - 1) div step \<le> (step - 1) div step"
    by (rule zdiv_mono1) (use assms in auto)
  with assms(1) show ?thesis by (simp add: range_count_def)
qed

lemma range_loop_values:
  assumes "0 < step" and "hi - 1 + step \<le> max_integer signed w"
  shows "min_integer signed w \<le> lo \<Longrightarrow>
    range_loop signed w lo hi step = Some (Inr (map (\<lambda>k. std_to_string (lo + int k * step)) [0..<range_count lo hi step]))"
proof (induction "range_count lo hi step" arbitrary: lo)
  case 0
  then have "\<not> lo < hi" using range_count_step [OF assms(1)] by fastforce
  with 0 show ?case by (simp add: range_loop_done)
next
  case (Suc n)
  then have lt: "lo < hi" using range_count_done [OF assms(1), of lo hi] by fastforce
  with Suc.hyps(2) have n: "n = range_count (lo + step) hi step" using range_count_step [OF assms(1)] by simp
  have m: "min_integer signed w \<le> lo + step" using Suc.prems assms(1) by simp
  have add: "range_add signed w lo step = Inr (lo + step)"
    by (rule range_add_exact) (use m lt assms(2) in auto)
  have "map (\<lambda>k. std_to_string (lo + int k * step)) [0..<Suc n]
      = std_to_string lo # map (\<lambda>k. std_to_string (lo + step + int k * step)) [0..<n]"
    by (simp add: map_upt_Suc algebra_simps del: upt_Suc)
  with range_loop_step [OF lt add Suc.hyps(1) [OF n m]] Suc.hyps(2) n show ?case by simp
qed

text \<open>
  C40: a range of integers whose last value plus the step is representable gives exactly the values
  from the minimum up to, and without, the maximum, in steps of the given size. The loop ends.
\<close>

theorem range_generates_arithmetic_progression:
  assumes "lexical_cast_integer b signed w lo_text = Inr lo" and "lexical_cast_integer b signed w hi_text = Inr hi"
    and "lexical_cast_integer b signed w step_text = Inr step"
    and "0 < step" and "min_integer signed w \<le> lo" and "hi - 1 + step \<le> max_integer signed w"
  shows "generate b signed w lo_text hi_text step_text =
      Some (Inr (map (\<lambda>k. std_to_string (lo + int k * step)) [0..<nat ((hi - lo + step - 1) div step)]))"
  using range_loop_values [OF assms(4,6,5)] assms(1-3) by (simp add: generate_def range_count_def)

theorem range_generates_arithmetic_progression_witness:
  "generate std_boost True 32 ''1'' ''8'' ''3'' = Some (Inr [''1'', ''4'', ''7''])"
proof -
  have c: "lexical_cast_integer std_boost True 32 ''1'' = Inr 1" "lexical_cast_integer std_boost True 32 ''8'' = Inr 8"
    "lexical_cast_integer std_boost True 32 ''3'' = Inr 3"
    by code_simp+
  have "map (\<lambda>k. std_to_string (1 + int k * 3)) [0..<nat ((8 - 1 + 3 - 1) div 3)] = [''1'', ''4'', ''7'']"
    by code_simp
  moreover have "generate std_boost True 32 ''1'' ''8'' ''3'' =
      Some (Inr (map (\<lambda>k. std_to_string (1 + int k * 3)) [0..<nat ((8 - 1 + 3 - 1) div 3)]))"
    by (rule range_generates_arithmetic_progression [OF c]) (simp_all add: min_integer_def max_integer_def)
  ultimately show ?thesis by simp
qed

section \<open>Ranges that do not end\<close>

text \<open>A property of the counter that every step keeps, and that keeps it below the maximum.\<close>

lemma range_loop_diverges:
  assumes "P lo" and "\<And>i. P i \<Longrightarrow> i < hi \<and> (\<exists>i'. range_add signed w i step = Inr i' \<and> P i')"
  shows "range_loop signed w lo hi step = None"
proof (rule ccontr)
  assume "range_loop signed w lo hi step \<noteq> None"
  then obtain r where ret: "range_loop signed w lo hi step = Some r" by auto
  have "\<not> (P lo \<and> hi = hi \<and> step = step \<and> signed = signed \<and> w = w)"
  proof (rule range_loop.raw_induct [where P = "\<lambda>sg v i h s r. \<not> (P i \<and> h = hi \<and> s = step \<and> sg = signed \<and> v = w)", OF _ ret])
    fix f :: "bool \<Rightarrow> nat \<Rightarrow> int \<Rightarrow> int \<Rightarrow> int \<Rightarrow> string list result option" and sg v i h s r
    assume IH: "\<And>sg v i h s r. f sg v i h s = Some r \<Longrightarrow> \<not> (P i \<and> h = hi \<and> s = step \<and> sg = signed \<and> v = w)"
      and eq: "(if i < h then (case range_add sg v i s of Inl e \<Rightarrow> Some (Inl e)
          | Inr i' \<Rightarrow> Option.bind (f sg v i' h s) (\<lambda>r. Some (bind_result r (\<lambda>values. Inr (std_to_string i # values)))))
        else Some (Inr [])) = Some r"
    show "\<not> (P i \<and> h = hi \<and> s = step \<and> sg = signed \<and> v = w)"
    proof
      assume p: "P i \<and> h = hi \<and> s = step \<and> sg = signed \<and> v = w"
      with assms(2) obtain i' where "i < hi" "range_add signed w i step = Inr i'" "P i'" by blast
      with eq p obtain r' where "f signed w i' hi step = Some r'" by (auto simp: bind_eq_Some_conv)
      from IH [OF this] \<open>P i'\<close> show False by simp
    qed
  qed
  with assms(1) show False by simp
qed

text \<open>
  A range with step zero, and a range of unsigned integers up to the largest one in steps of
  two, are not rejected: the loop does not end, and adds values until the memory is exhausted.
\<close>

theorem ranges_that_do_not_end:
  "range_loop True 32 0 10 0 = None \<and> range_loop False 16 0 65535 2 = None"
proof
  show "range_loop True 32 0 10 0 = None"
    by (rule range_loop_diverges [where P = "\<lambda>i. i = 0"]) (auto simp: range_add_def)
  show "range_loop False 16 0 65535 2 = None"
  proof (rule range_loop_diverges [where P = "\<lambda>i. even i \<and> i < 65536"])
    fix i :: int assume i: "even i \<and> i < 65536"
    then have "i \<noteq> 65535" by auto
    moreover have "even ((i + 2) mod 65536)" using i by (simp add: dvd_mod_iff)
    ultimately show "i < 65535 \<and> (\<exists>i'. range_add False 16 i 2 = Inr i' \<and> even i' \<and> i' < 65536)"
      using i by (simp add: range_add_def)
  qed simp
qed

end
