(* ===== verification/Circular_Buffer.thy ===== *)
theory Circular_Buffer
  imports Margot_Prelude
begin

text \<open>
  The observation window of a monitor (\<^verbatim>\<open>circular_buffer.hpp\<close>). The vector of the source
  is a list, the modification time is a \<open>nat\<close> handed to every operation that reads
  \<^verbatim>\<open>steady_clock::now()\<close>. All public methods hold the buffer's mutex for their whole body,
  so each is one atomic step.

  The interface of a sliding window is the locale \<open>sliding_window\<close>: pushing keeps the
  last observations in order. The circular buffer is an instance of it, with the contents
  read from the oldest to the newest element.
\<close>

section \<open>Operations\<close>

record circular_buffer =
  buffer :: "real list"
  next_element :: nat
  maximum_number_element :: nat
  last_change :: nat

definition CircularBuffer :: "nat \<Rightarrow> nat \<Rightarrow> circular_buffer" where
  "CircularBuffer now window_size =
     \<lparr>buffer = [], next_element = 0, maximum_number_element = window_size, last_change = now\<rparr>"

text \<open>A window of size zero writes past the end of its empty vector.\<close>

definition cb_push :: "nat \<Rightarrow> real \<Rightarrow> circular_buffer \<Rightarrow> circular_buffer result" where
  "cb_push now new_value b =
     (if length (buffer b) < maximum_number_element b
      then Inr (b\<lparr>buffer := buffer b @ [new_value], last_change := now\<rparr>)
      else if next_element b < length (buffer b)
      then (let n = next_element b + 1
            in Inr (b\<lparr>buffer := (buffer b)[next_element b := new_value],
                     next_element := (if n = maximum_number_element b then 0 else n),
                     last_change := now\<rparr>))
      else Inl (Undefined_behaviour ''buffer[next_element] out of range''))"

definition cb_clear :: "nat \<Rightarrow> circular_buffer \<Rightarrow> circular_buffer" where
  "cb_clear now b = b\<lparr>next_element := 0, buffer := [], last_change := now\<rparr>"

definition cb_empty :: "circular_buffer \<Rightarrow> bool" where
  "cb_empty b \<longleftrightarrow> buffer b = []"

definition cb_full :: "circular_buffer \<Rightarrow> bool" where
  "cb_full b \<longleftrightarrow> length (buffer b) = maximum_number_element b"

definition cb_valid :: "circular_buffer \<Rightarrow> bool" where
  "cb_valid b \<longleftrightarrow> length (buffer b) = maximum_number_element b"

definition cb_size :: "circular_buffer \<Rightarrow> nat" where
  "cb_size b = length (buffer b)"

definition cb_last :: "circular_buffer \<Rightarrow> real result" where
  "cb_last b =
     guard_assert (length (buffer b) > 0) ''Attempt to get the last element from an empty buffer''
       (Inr (if next_element b = 0 then last (buffer b) else buffer b ! (next_element b - 1)))"

section \<open>Invariant and contents\<close>

definition cb_wf :: "circular_buffer \<Rightarrow> bool" where
  "cb_wf b \<longleftrightarrow>
     length (buffer b) \<le> maximum_number_element b
     \<and> (next_element b = 0 \<or> next_element b < length (buffer b))
     \<and> (length (buffer b) < maximum_number_element b \<longrightarrow> next_element b = 0)"

text \<open>The observations from the oldest to the newest one.\<close>

definition cb_contents :: "circular_buffer \<Rightarrow> real list" where
  "cb_contents b = drop (next_element b) (buffer b) @ take (next_element b) (buffer b)"

lemma cb_wf_init [simp]: "cb_wf (CircularBuffer now n)"
  by (simp add: cb_wf_def CircularBuffer_def)

lemma cb_wf_clear [simp]: "cb_wf (cb_clear now b)"
  by (simp add: cb_wf_def cb_clear_def)

lemma cb_contents_init [simp]: "cb_contents (CircularBuffer now n) = []"
  by (simp add: cb_contents_def CircularBuffer_def)

lemma cb_contents_clear [simp]: "cb_contents (cb_clear now b) = []"
  by (simp add: cb_contents_def cb_clear_def)

lemma set_cb_contents [simp]: "set (cb_contents b) = set (buffer b)"
  unfolding cb_contents_def by (metis append_take_drop_id set_append sup_commute)

lemma length_cb_contents [simp]: "length (cb_contents b) = length (buffer b)"
  by (simp add: cb_contents_def min_def)

lemma cb_contents_not_full:
  "cb_wf b \<Longrightarrow> length (buffer b) < maximum_number_element b \<Longrightarrow> cb_contents b = buffer b"
  by (auto simp: cb_wf_def cb_contents_def)

lemma cb_push_total:
  assumes "cb_wf b" and "0 < maximum_number_element b"
  shows "\<exists>b'. cb_push now v b = Inr b'"
proof -
  have "next_element b < length (buffer b)" if "\<not> length (buffer b) < maximum_number_element b"
    using assms that by (auto simp: cb_wf_def)
  then show ?thesis
    by (auto simp: cb_push_def Let_def)
qed

lemma cb_wf_push: "cb_wf b \<Longrightarrow> cb_push now v b = Inr b' \<Longrightarrow> cb_wf b'"
  by (auto simp: cb_wf_def cb_push_def Let_def split: if_splits)

lemma cb_push_frame [frame_simps]:
  "cb_push now v b = Inr b' \<Longrightarrow> maximum_number_element b' = maximum_number_element b"
  "cb_push now v b = Inr b' \<Longrightarrow> last_change b' = now"
  by (auto simp: cb_push_def Let_def split: if_splits)

lemma cb_clear_frame [frame_simps]:
  "maximum_number_element (cb_clear now b) = maximum_number_element b"
  "last_change (cb_clear now b) = now"
  "buffer (cb_clear now b) = []"
  by (simp_all add: cb_clear_def)

lemma rotate_update_next:
  assumes "i < length xs"
  shows "drop (Suc i) (xs[i := v]) @ take (Suc i) (xs[i := v]) = tl (drop i xs @ take i xs) @ [v]"
proof -
  have "tl (drop i xs @ take i xs) = drop (Suc i) xs @ take i xs"
    using assms by (simp add: Cons_nth_drop_Suc [symmetric])
  moreover have "take (Suc i) (xs[i := v]) = take i xs @ [v]"
    using assms by (simp add: take_Suc_conv_app_nth)
  ultimately show ?thesis by simp
qed

lemma cb_contents_push:
  assumes wf: "cb_wf b" and push: "cb_push now v b = Inr b'"
  shows "cb_contents b' = last_n (maximum_number_element b) (cb_contents b @ [v])"
proof (cases "length (buffer b) < maximum_number_element b")
  case True
  then have b': "b' = b\<lparr>buffer := buffer b @ [v], last_change := now\<rparr>" and n: "next_element b = 0"
    using wf push by (auto simp: cb_push_def cb_wf_def)
  show ?thesis using True n by (simp add: b' cb_contents_def)
next
  case False
  let ?n = "next_element b" and ?m = "maximum_number_element b"
  have full: "length (buffer b) = ?m" using False wf by (simp add: cb_wf_def)
  have n: "?n < length (buffer b)"
    using False push by (auto simp: cb_push_def split: if_splits)
  have b': "b' = b\<lparr>buffer := (buffer b)[?n := v], next_element := (if Suc ?n = ?m then 0 else Suc ?n),
                   last_change := now\<rparr>"
    using False n push by (simp add: cb_push_def Let_def)
  have "cb_contents b' = drop (Suc ?n) ((buffer b)[?n := v]) @ take (Suc ?n) ((buffer b)[?n := v])"
    using full by (simp add: b' cb_contents_def)
  also have "\<dots> = tl (cb_contents b) @ [v]"
    unfolding cb_contents_def by (rule rotate_update_next [OF n])
  also have "\<dots> = last_n ?m (cb_contents b @ [v])"
    using full n by (subst last_n_snoc) auto
  finally show ?thesis .
qed

lemma cb_last_contents:
  assumes "cb_wf b" and "buffer b \<noteq> []"
  shows "cb_last b = Inr (last (cb_contents b))"
proof (cases "next_element b = 0")
  case False
  then have "next_element b < length (buffer b)" using assms by (auto simp: cb_wf_def)
  then have "last (cb_contents b) = buffer b ! (next_element b - 1)"
    using False assms by (simp add: cb_contents_def last_append last_conv_nth)
  then show ?thesis
    using False assms by (simp add: cb_last_def)
qed (use assms in \<open>simp add: cb_last_def cb_contents_def\<close>)

section \<open>The interface of a sliding window\<close>

locale sliding_window =
  fixes push :: "nat \<Rightarrow> real \<Rightarrow> 'w \<Rightarrow> 'w result"
    and contents :: "'w \<Rightarrow> real list"
    and capacity :: "'w \<Rightarrow> nat"
    and invar :: "'w \<Rightarrow> bool"
  assumes push_total: "invar w \<Longrightarrow> 0 < capacity w \<Longrightarrow> \<exists>w'. push t v w = Inr w'"
    and push_invar: "invar w \<Longrightarrow> push t v w = Inr w' \<Longrightarrow> invar w'"
    and push_capacity: "push t v w = Inr w' \<Longrightarrow> capacity w' = capacity w"
    and push_contents: "invar w \<Longrightarrow> push t v w = Inr w' \<Longrightarrow> contents w' = last_n (capacity w) (contents w @ [v])"
begin

fun push_all :: "(nat \<times> real) list \<Rightarrow> 'w \<Rightarrow> 'w result" where
  "push_all [] w = Inr w"
| "push_all ((t, v) # ps) w = bind_result (push t v w) (push_all ps)"

lemma push_all_window:
  assumes "invar w" and "0 < capacity w" and "length (contents w) \<le> capacity w"
  shows "\<exists>w'. push_all ps w = Inr w' \<and> invar w' \<and> capacity w' = capacity w
    \<and> contents w' = last_n (capacity w) (contents w @ map snd ps)"
  using assms
proof (induction ps arbitrary: w)
  case (Cons p ps)
  obtain t v where p: "p = (t, v)" by (cases p)
  obtain u where u: "push t v w = Inr u" using push_total Cons.prems by blast
  have inv: "invar u" and cap: "capacity u = capacity w"
    and cont: "contents u = last_n (capacity w) (contents w @ [v])"
    using push_invar push_capacity push_contents u Cons.prems by blast+
  obtain w' where "push_all ps u = Inr w'" "invar w'" "capacity w' = capacity u"
    "contents w' = last_n (capacity u) (contents u @ map snd ps)"
    using Cons.IH [of u] inv cap cont Cons.prems by auto
  then show ?case
    by (simp add: p u cap cont last_n_last_n_append)
qed simp

end

interpretation cb: sliding_window cb_push cb_contents maximum_number_element cb_wf
  by unfold_locales (auto simp: cb_push_total cb_wf_push cb_push_frame cb_contents_push)

text \<open>The monitor's window filled by a sequence of observations taken at given times.\<close>

fun observe :: "(nat \<times> real) list \<Rightarrow> circular_buffer \<Rightarrow> circular_buffer result" where
  "observe [] b = Inr b"
| "observe ((now, v) # ps) b = bind_result (cb_push now v b) (observe ps)"

lemma observe_eq_push_all: "observe ps b = cb.push_all ps b"
proof (induction ps arbitrary: b)
  case (Cons p ps)
  then have "observe ps = cb.push_all ps" by (simp add: fun_eq_iff)
  then show ?case by (cases p) simp
qed simp

text \<open>
  C33: a buffer created with a positive size never writes out of range, and after any
  sequence of observations it holds exactly the last \<open>n\<close> of them in chronological order
  while \<open>last\<close> returns the newest one.
\<close>

theorem circular_buffer_keeps_last_observations:
  assumes "0 < n" and "ps \<noteq> []"
  shows "\<exists>b. observe ps (CircularBuffer t n) = Inr b \<and> cb_contents b = last_n n (map snd ps)
    \<and> cb_last b = Inr (snd (last ps)) \<and> cb_size b = min n (length ps)"
proof -
  have init: "maximum_number_element (CircularBuffer t n) = n" by (simp add: CircularBuffer_def)
  obtain b where b: "observe ps (CircularBuffer t n) = Inr b" "cb_wf b"
    "cb_contents b = last_n n (map snd ps)"
    using cb.push_all_window [of "CircularBuffer t n" ps] assms(1) init
    by (auto simp: observe_eq_push_all)
  have len: "length (buffer b) = min n (length ps)"
    using length_cb_contents [of b] b(3) by simp
  then have "buffer b \<noteq> []" using assms by (cases "buffer b") (auto simp: min_def split: if_splits)
  then have "cb_last b = Inr (last (last_n n (map snd ps)))"
    using cb_last_contents b by simp
  moreover have "last (last_n n (map snd ps)) = snd (last ps)"
    using assms by (simp add: last_n_def last_map)
  ultimately show ?thesis using b len by (simp add: cb_size_def)
qed

theorem circular_buffer_keeps_last_observations_witness:
  "\<exists>b. observe [(1, 10), (2, 20), (3, 30)] (CircularBuffer 0 2) = Inr b
    \<and> cb_contents b = [20, 30] \<and> cb_last b = Inr 30 \<and> cb_size b = 2"
  using circular_buffer_keeps_last_observations [of 2 "[(1, 10), (2, 20), (3, 30)]" 0]
  by (simp add: last_n_def numeral_2_eq_2)

text \<open>
  A buffer of size zero, which the constructor of a monitor accepts, writes outside its
  vector on the very first observation.
\<close>

theorem circular_buffer_size_zero_overflows:
  "cb_push now v (CircularBuffer t 0) = Inl (Undefined_behaviour ''buffer[next_element] out of range'')"
  by (simp add: cb_push_def CircularBuffer_def)

end
