(* ===== verification/Operating_Point.thy ===== *)
theory Operating_Point
  imports Margot_Prelude "HOL-Library.Word"
begin

text \<open>
  The data model of mARGOt: the basic information blocks
  (\<^verbatim>\<open>basic_information_block.hpp\<close>), the hash of a fixed size object (\<^verbatim>\<open>hash.hpp\<close>), the
  segments of an operating point (\<^verbatim>\<open>operating_point_segment.hpp\<close>), the operating point
  itself and the accessors selected at compile time (\<^verbatim>\<open>operating_point.hpp\<close>), together
  with the enumerations they use (\<^verbatim>\<open>enums.hpp\<close>).

  Arithmetic values (the template arguments \<open>T\<close> of the sources, \<^verbatim>\<open>float\<close> by default)
  are reals: rounding, infinities and NaN are outside the model. The index arguments are
  template arguments bounded by a \<^verbatim>\<open>static_assert\<close>; an index out of range is not a
  program. \<^verbatim>\<open>std::hash<T>\<close> is implementation defined and is the parameter \<open>std_hash\<close>.
\<close>

unbundle bit_operations_syntax

section \<open>Enumerations\<close>

datatype OperatingPointSegments = SOFTWARE_KNOBS | METRICS

datatype DataFunctions = AVERAGE | STANDARD_DEVATION | MAXIMUM | MINIMUM

datatype ComparisonFunctions = GREATER | GREATER_OR_EQUAL | LESS | LESS_OR_EQUAL

datatype BoundType = LOWER | UPPER

datatype RankObjective = MAXIMIZE | MINIMIZE

datatype FieldComposer = GEOMETRIC | LINEAR | SIMPLE

section \<open>Basic information blocks\<close>

text \<open>A \<^verbatim>\<open>Data\<close> has a mean only, a \<^verbatim>\<open>Distribution\<close> also a standard deviation.\<close>

datatype block = Data real | Distribution real real

fun mean :: "block \<Rightarrow> real" where
  "mean (Data m) = m"
| "mean (Distribution m s) = m"

fun has_standard_deviation :: "block \<Rightarrow> bool" where
  "has_standard_deviation (Data m) = False"
| "has_standard_deviation (Distribution m s) = True"

fun standard_deviation :: "block \<Rightarrow> real" where
  "standard_deviation (Data m) = 0"
| "standard_deviation (Distribution m s) = s"

definition block_eq :: "block \<Rightarrow> block \<Rightarrow> bool" where
  "block_eq lhs rhs \<longleftrightarrow> mean lhs = mean rhs"

definition block_neq :: "block \<Rightarrow> block \<Rightarrow> bool" where
  "block_neq lhs rhs \<longleftrightarrow> \<not> mean lhs = mean rhs"

section \<open>Hash of a fixed size object\<close>

type_synonym size_t = "64 word"

definition block_hash :: "(real \<Rightarrow> size_t) \<Rightarrow> block \<Rightarrow> size_t" where
  "block_hash std_hash datum = std_hash (mean datum)"

definition hash_combine :: "(real \<Rightarrow> size_t) \<Rightarrow> size_t \<Rightarrow> block \<Rightarrow> size_t" where
  "hash_combine std_hash seed v =
     seed XOR (block_hash std_hash v + 0x9e3779b9 + push_bit 6 seed + drop_bit 2 seed)"

fun HashFixedSizeObject_compute :: "(real \<Rightarrow> size_t) \<Rightarrow> nat \<Rightarrow> size_t \<Rightarrow> block list \<Rightarrow> size_t" where
  "HashFixedSizeObject_compute std_hash 0 seed object = hash_combine std_hash seed (object ! 0)"
| "HashFixedSizeObject_compute std_hash (Suc index) seed object =
     hash_combine std_hash (HashFixedSizeObject_compute std_hash index seed object) (object ! Suc index)"

definition compute_hash_fixed_size_object :: "(real \<Rightarrow> size_t) \<Rightarrow> block list \<Rightarrow> size_t" where
  "compute_hash_fixed_size_object std_hash object =
     HashFixedSizeObject_compute std_hash (length object - 1) 0 object"

section \<open>Segments\<close>

record segment =
  seg_fields :: "block list"
  seg_hash :: size_t

definition OperatingPointSegment :: "(real \<Rightarrow> size_t) \<Rightarrow> block list \<Rightarrow> segment" where
  "OperatingPointSegment std_hash args =
     \<lparr>seg_fields = args, seg_hash = compute_hash_fixed_size_object std_hash args\<rparr>"

definition get_mean :: "segment \<Rightarrow> nat \<Rightarrow> real" where
  "get_mean s index = mean (seg_fields s ! index)"

definition get_standard_deviation :: "segment \<Rightarrow> nat \<Rightarrow> real" where
  "get_standard_deviation s index = standard_deviation (seg_fields s ! index)"

definition segment_eq :: "segment \<Rightarrow> segment \<Rightarrow> bool" where
  "segment_eq lhs rhs \<longleftrightarrow>
     (if seg_hash lhs \<noteq> seg_hash rhs then False else list_all2 block_eq (seg_fields lhs) (seg_fields rhs))"

definition segment_neq :: "segment \<Rightarrow> segment \<Rightarrow> bool" where
  "segment_neq lhs rhs \<longleftrightarrow> \<not> segment_eq lhs rhs"

text \<open>What the constructor guarantees of a segment: the stored hash is the hash of the fields.\<close>

definition segment_wf :: "(real \<Rightarrow> size_t) \<Rightarrow> segment \<Rightarrow> bool" where
  "segment_wf std_hash s \<longleftrightarrow> seg_hash s = compute_hash_fixed_size_object std_hash (seg_fields s)"

section \<open>Operating points\<close>

record operating_point =
  software_knobs :: segment
  metrics :: segment

definition number_of_software_knobs :: "operating_point \<Rightarrow> nat" where
  "number_of_software_knobs op = length (seg_fields (software_knobs op))"

definition number_of_metrics :: "operating_point \<Rightarrow> nat" where
  "number_of_metrics op = length (seg_fields (metrics op))"

definition get_metric_lower_bound :: "nat \<Rightarrow> int \<Rightarrow> operating_point \<Rightarrow> real" where
  "get_metric_lower_bound i sigma op =
     get_mean (metrics op) i - of_int sigma * get_standard_deviation (metrics op) i"

definition get_metric_upper_bound :: "nat \<Rightarrow> int \<Rightarrow> operating_point \<Rightarrow> real" where
  "get_metric_upper_bound i sigma op =
     get_mean (metrics op) i + of_int sigma * get_standard_deviation (metrics op) i"

definition get_knob_lower_bound :: "nat \<Rightarrow> int \<Rightarrow> operating_point \<Rightarrow> real" where
  "get_knob_lower_bound i sigma op =
     get_mean (software_knobs op) i - of_int sigma * get_standard_deviation (software_knobs op) i"

definition get_knob_upper_bound :: "nat \<Rightarrow> int \<Rightarrow> operating_point \<Rightarrow> real" where
  "get_knob_upper_bound i sigma op =
     get_mean (software_knobs op) i + of_int sigma * get_standard_deviation (software_knobs op) i"

definition operating_point_eq :: "operating_point \<Rightarrow> operating_point \<Rightarrow> bool" where
  "operating_point_eq lhs rhs \<longleftrightarrow> segment_eq (software_knobs lhs) (software_knobs rhs)"

definition operating_point_neq :: "operating_point \<Rightarrow> operating_point \<Rightarrow> bool" where
  "operating_point_neq lhs rhs \<longleftrightarrow> \<not> operating_point_eq lhs rhs"

text \<open>The partial specialisations of \<^verbatim>\<open>op_utils\<close> and of \<^verbatim>\<open>op_field_enumerator\<close>.\<close>

fun op_utils_get :: "OperatingPointSegments \<Rightarrow> BoundType \<Rightarrow> nat \<Rightarrow> int \<Rightarrow> operating_point \<Rightarrow> real" where
  "op_utils_get METRICS LOWER i sigma op = get_metric_lower_bound i sigma op"
| "op_utils_get METRICS UPPER i sigma op = get_metric_upper_bound i sigma op"
| "op_utils_get SOFTWARE_KNOBS LOWER i sigma op = get_knob_lower_bound i sigma op"
| "op_utils_get SOFTWARE_KNOBS UPPER i sigma op = get_knob_upper_bound i sigma op"

fun op_field_enumerator :: "nat \<Rightarrow> OperatingPointSegments \<Rightarrow> nat \<Rightarrow> nat" where
  "op_field_enumerator nr_knobs METRICS i = nr_knobs + i"
| "op_field_enumerator nr_knobs SOFTWARE_KNOBS i = i"

text \<open>
  \<^verbatim>\<open>std::shared_ptr<OperatingPoint>\<close>. Operating points are never modified once created and
  are created only by \<^verbatim>\<open>Knowledge::add\<close>, so a pointer is its address together with the
  object found there; a null pointer is \<open>None\<close>. Two pointers to the same object are equal,
  two copies of the same operating point are not.
\<close>

datatype op_ptr = OpPtr (addr: nat) (deref: operating_point)

type_synonym op_stream = "op_ptr list"

section \<open>Sample operating points\<close>

definition sample_point :: "real \<Rightarrow> real list \<Rightarrow> operating_point" where
  "sample_point k ms = \<lparr>software_knobs = \<lparr>seg_fields = [Data k], seg_hash = 0\<rparr>,
                        metrics = \<lparr>seg_fields = map Data ms, seg_hash = 0\<rparr>\<rparr>"

definition sample_p :: op_ptr where "sample_p = OpPtr 0 (sample_point 1 [1, 9, 9])"

definition sample_q :: op_ptr where "sample_q = OpPtr 1 (sample_point 2 [2, 1, 1])"

section \<open>Properties\<close>

lemmas op_accessor_defs [op_simps] =
  get_metric_lower_bound_def get_metric_upper_bound_def get_knob_lower_bound_def
  get_knob_upper_bound_def get_mean_def get_standard_deviation_def

lemma HashFixedSizeObject_compute_foldl:
  "index < length object \<Longrightarrow>
     HashFixedSizeObject_compute std_hash index seed object =
     foldl (hash_combine std_hash) seed (take (Suc index) object)"
proof (induction index)
  case 0
  then show ?case by (cases object) auto
next
  case (Suc index)
  then show ?case by (simp add: take_Suc_conv_app_nth [of "Suc index"])
qed

lemma compute_hash_foldl:
  "object \<noteq> [] \<Longrightarrow> compute_hash_fixed_size_object std_hash object = foldl (hash_combine std_hash) 0 object"
  by (simp add: compute_hash_fixed_size_object_def HashFixedSizeObject_compute_foldl)

lemma foldl_hash_combine_cong:
  "list_all2 block_eq xs ys \<Longrightarrow>
     foldl (hash_combine std_hash) seed xs = foldl (hash_combine std_hash) seed ys"
  by (induction xs ys arbitrary: seed rule: list_all2_induct)
     (auto simp: hash_combine_def block_hash_def block_eq_def)

lemma compute_hash_cong:
  assumes "list_all2 block_eq xs ys"
  shows "compute_hash_fixed_size_object std_hash xs = compute_hash_fixed_size_object std_hash ys"
proof (cases "xs = []")
  case False
  then have "ys \<noteq> []" using assms by auto
  then show ?thesis
    using False foldl_hash_combine_cong [OF assms] by (simp add: compute_hash_foldl)
qed (use assms in simp)

lemma segment_wf_constructor [simp]: "segment_wf std_hash (OperatingPointSegment std_hash args)"
  by (simp add: segment_wf_def OperatingPointSegment_def)

lemma segment_eq_means:
  assumes "segment_wf std_hash s" and "segment_wf std_hash t"
  shows "segment_eq s t \<longleftrightarrow> map mean (seg_fields s) = map mean (seg_fields t)"
proof -
  have *: "list_all2 block_eq xs ys \<longleftrightarrow> map mean xs = map mean ys" for xs ys
    by (auto simp: list_all2_conv_all_nth list_eq_iff_nth_eq block_eq_def)
  show ?thesis
    using assms compute_hash_cong [of "seg_fields s" "seg_fields t" std_hash]
    by (auto simp: segment_eq_def segment_wf_def *)
qed

lemma segment_eq_refl [simp]: "segment_eq s s"
  by (simp add: segment_eq_def list.rel_refl block_eq_def)

lemma segment_eq_sym: "segment_eq s t \<Longrightarrow> segment_eq t s"
  by (auto simp: segment_eq_def list_all2_conv_all_nth block_eq_def split: if_splits)

lemma segment_eq_trans: "segment_eq s t \<Longrightarrow> segment_eq t u \<Longrightarrow> segment_eq s u"
  by (auto simp: segment_eq_def list_all2_conv_all_nth block_eq_def split: if_splits)

text \<open>
  Comparing two segments through their precomputed hashes first, as the equality
  operator does for performance, decides exactly the equality of the mean values, whatever
  the standard library's hash function is.
\<close>

theorem segment_eq_iff_means:
  "segment_eq (OperatingPointSegment std_hash xs) (OperatingPointSegment std_hash ys)
     \<longleftrightarrow> map mean xs = map mean ys"
  using segment_eq_means [OF segment_wf_constructor segment_wf_constructor, of std_hash xs ys]
  by (simp add: OperatingPointSegment_def)

lemma op_field_enumerator_less:
  "(case s of METRICS \<Rightarrow> i < nr_metrics | SOFTWARE_KNOBS \<Rightarrow> i < nr_knobs) \<Longrightarrow>
     op_field_enumerator nr_knobs s i < nr_knobs + nr_metrics"
  by (cases s) auto

lemma op_field_enumerator_inj:
  assumes "case s of METRICS \<Rightarrow> True | SOFTWARE_KNOBS \<Rightarrow> i < nr_knobs"
    and "case t of METRICS \<Rightarrow> True | SOFTWARE_KNOBS \<Rightarrow> j < nr_knobs"
    and "op_field_enumerator nr_knobs s i = op_field_enumerator nr_knobs t j"
  shows "s = t \<and> i = j"
  using assms by (cases s; cases t) auto

lemma op_utils_get_no_deviation:
  "op_utils_get s b i 0 op = op_utils_get s LOWER i 0 op"
  by (cases s; cases b) (simp_all add: op_simps)

end
