(* ===== verification/Statistical_Provider.thy ===== *)
theory Statistical_Provider
  imports Circular_Buffer Operating_Point
begin

text \<open>
  The statistics of an observation window (\<^verbatim>\<open>statistics.hpp\<close>) and the provider that
  caches them (\<^verbatim>\<open>statistical_provider.hpp\<close>). A statistic is recomputed only when the
  window changed after the last computation, which the source decides by comparing time
  points; the results show when the cache is exact and when it is stale.
\<close>

section \<open>Statistics of a container\<close>

definition average :: "real list \<Rightarrow> real" where
  "average c = foldl (+) 0 c / of_nat (if length c > 1 then length c else 1)"

definition stddev :: "real list \<Rightarrow> real \<Rightarrow> real" where
  "stddev c avg =
     sqrt (foldl (\<lambda>summ d. summ + (d - avg) * (d - avg)) 0 c
           / of_nat (if length c > 1 then length c - 1 else 1))"

text \<open>
  \<^verbatim>\<open>*std::max_element\<close> and \<^verbatim>\<open>*std::min_element\<close>; on an empty container they
  dereference the end iterator, so the empty case is undefined.
\<close>

definition stat_max :: "real list \<Rightarrow> real result" where
  "stat_max c = (case c of [] \<Rightarrow> Inl (Undefined_behaviour ''max of an empty container'')
                 | x # xs \<Rightarrow> Inr (min_element_from (\<lambda>a b. b < a) x xs))"

definition stat_min :: "real list \<Rightarrow> real result" where
  "stat_min c = (case c of [] \<Rightarrow> Inl (Undefined_behaviour ''min of an empty container'')
                 | x # xs \<Rightarrow> Inr (min_element_from (\<lambda>a b. a < b) x xs))"

section \<open>The provider\<close>

record provider =
  window :: circular_buffer
  average_computed_time :: nat
  stddev_computed_time :: nat
  max_computed_time :: nat
  min_computed_time :: nat
  previous_average :: real
  previous_stddev :: real
  previous_max :: real
  previous_min :: real

text \<open>
  The constructor zeroes \<^verbatim>\<open>previous_min\<close> twice and leaves \<^verbatim>\<open>previous_max\<close>
  uninitialised: its initial value is an argument of the model. Default constructed time
  points are the epoch of the clock.
\<close>

definition StatisticalProvider :: "real \<Rightarrow> nat \<Rightarrow> nat \<Rightarrow> provider" where
  "StatisticalProvider garbage now window_size =
     \<lparr>window = CircularBuffer now window_size,
      average_computed_time = 0, stddev_computed_time = 0, max_computed_time = 0, min_computed_time = 0,
      previous_average = 0, previous_stddev = 0, previous_max = garbage, previous_min = 0\<rparr>"

definition compute_average :: "provider \<Rightarrow> real \<times> provider" where
  "compute_average p =
     (if buffer (window p) = [] then (0, p)
      else let q = (if average_computed_time p < last_change (window p)
                    then p\<lparr>previous_average := average (buffer (window p)),
                           average_computed_time := last_change (window p)\<rparr>
                    else p)
           in (previous_average q, q))"

definition compute_standard_deviation :: "provider \<Rightarrow> real \<times> provider" where
  "compute_standard_deviation p =
     (if buffer (window p) = [] then (0, p)
      else let q = (if stddev_computed_time p < last_change (window p)
                    then (let (avg, r) = compute_average p
                          in r\<lparr>previous_stddev := stddev (buffer (window r)) avg,
                               stddev_computed_time := last_change (window r)\<rparr>)
                    else p)
           in (previous_stddev q, q))"

definition compute_max :: "provider \<Rightarrow> real \<times> provider" where
  "compute_max p =
     (case stat_max (buffer (window p)) of
        Inl _ \<Rightarrow> (0, p)
      | Inr m \<Rightarrow> let q = (if max_computed_time p < last_change (window p)
                          then p\<lparr>previous_max := m, max_computed_time := last_change (window p)\<rparr>
                          else p)
                 in (previous_max q, q))"

definition compute_min :: "provider \<Rightarrow> real \<times> provider" where
  "compute_min p =
     (case stat_min (buffer (window p)) of
        Inl _ \<Rightarrow> (0, p)
      | Inr m \<Rightarrow> let q = (if min_computed_time p < last_change (window p)
                          then p\<lparr>previous_min := m, min_computed_time := last_change (window p)\<rparr>
                          else p)
                 in (previous_min q, q))"

text \<open>The public methods: the plain value, and the value with the validity of the window.\<close>

definition sp_average :: "provider \<Rightarrow> real \<times> bool \<times> provider" where
  "sp_average p = (let (v, q) = compute_average p in (v, cb_valid (window p), q))"

definition sp_standard_deviation :: "provider \<Rightarrow> real \<times> bool \<times> provider" where
  "sp_standard_deviation p = (let (v, q) = compute_standard_deviation p in (v, cb_valid (window p), q))"

definition sp_max :: "provider \<Rightarrow> real \<times> bool \<times> provider" where
  "sp_max p = (let (v, q) = compute_max p in (v, cb_valid (window p), q))"

definition sp_min :: "provider \<Rightarrow> real \<times> bool \<times> provider" where
  "sp_min p = (let (v, q) = compute_min p in (v, cb_valid (window p), q))"

fun monitor_utils_get :: "DataFunctions \<Rightarrow> provider \<Rightarrow> real \<times> bool \<times> provider" where
  "monitor_utils_get AVERAGE p = sp_average p"
| "monitor_utils_get STANDARD_DEVATION p = sp_standard_deviation p"
| "monitor_utils_get MAXIMUM p = sp_max p"
| "monitor_utils_get MINIMUM p = sp_min p"

text \<open>A monitor forwards to the provider it shares.\<close>

definition monitor_push :: "nat \<Rightarrow> real \<Rightarrow> provider \<Rightarrow> provider result" where
  "monitor_push now v p = bind_result (cb_push now v (window p)) (\<lambda>b. Inr (p\<lparr>window := b\<rparr>))"

definition monitor_clear :: "nat \<Rightarrow> provider \<Rightarrow> provider" where
  "monitor_clear now p = p\<lparr>window := cb_clear now (window p)\<rparr>"

text \<open>
  Sample executions that take no square root are evaluated by rewriting, which needs the code
  equation of roots out of the way.
\<close>

declare root_def [code del]

section \<open>The statistics are the mathematical ones\<close>

lemma foldl_plus_sum_list: "foldl (+) (a::real) xs = a + sum_list xs"
  by (induction xs arbitrary: a) auto

lemma foldl_square_sum_list:
  "foldl (\<lambda>s d. s + (d - m) * (d - m)) (a::real) xs = a + (\<Sum>d\<leftarrow>xs. (d - m)\<^sup>2)"
  by (induction xs arbitrary: a) (auto simp: power2_eq_square)

lemma average_sum: "c \<noteq> [] \<Longrightarrow> average c = sum_list c / real (length c)"
  by (cases c) (auto simp: average_def foldl_plus_sum_list)

lemma average_replicate: "0 < n \<Longrightarrow> average (replicate n x) = x"
  by (simp add: average_sum sum_list_replicate)

lemma stddev_sample:
  "2 \<le> length c \<Longrightarrow> stddev c m = sqrt ((\<Sum>d\<leftarrow>c. (d - m)\<^sup>2) / (real (length c) - 1))"
  by (simp add: stddev_def foldl_square_sum_list of_nat_diff)

lemma average_bounds:
  assumes "c \<noteq> []" and "\<forall>x \<in> set c. lo \<le> x \<and> x \<le> hi"
  shows "lo \<le> average c \<and> average c \<le> hi"
proof -
  have "real (length c) * lo \<le> sum_list c \<and> sum_list c \<le> real (length c) * hi"
    using assms(2) by (induction c) (auto simp: algebra_simps)
  moreover have "0 < real (length c)" using assms(1) by simp
  ultimately show ?thesis
    using assms(1) by (simp add: average_sum field_simps)
qed

lemma stat_max_Max: "c \<noteq> [] \<Longrightarrow> stat_max c = Inr (Max (set c))"
proof -
  assume "c \<noteq> []"
  then obtain x xs where c: "c = x # xs" by (cases c) auto
  have mem: "min_element_from (\<lambda>a b. b < a) x xs \<in> set c"
    using min_element_from_mem [of "\<lambda>a b. b < a" x xs] by (simp add: c)
  have "y \<le> min_element_from (\<lambda>a b. b < a) x xs" if "y \<in> set c" for y
    using min_element_from_least [of y x xs "\<lambda>a. - a"] that by (simp add: c)
  with mem have "Max (set c) = min_element_from (\<lambda>a b. b < a) x xs"
    by (intro Max_eqI) auto
  then show ?thesis by (simp add: stat_max_def c)
qed

lemma stat_min_Min: "c \<noteq> [] \<Longrightarrow> stat_min c = Inr (Min (set c))"
proof -
  assume "c \<noteq> []"
  then obtain x xs where c: "c = x # xs" by (cases c) auto
  have mem: "min_element_from (\<lambda>a b. a < b) x xs \<in> set c"
    using min_element_from_mem [of "\<lambda>a b. a < b" x xs] by (simp add: c)
  have "min_element_from (\<lambda>a b. a < b) x xs \<le> y" if "y \<in> set c" for y
    using min_element_from_least [of y x xs "\<lambda>a. a"] that by (simp add: c)
  with mem have "Min (set c) = min_element_from (\<lambda>a b. a < b) x xs"
    by (intro Min_eqI) auto
  then show ?thesis by (simp add: stat_min_def c)
qed

section \<open>Coherence of the cache\<close>

text \<open>The exact value of a statistic for the current window (zero for an empty one).\<close>

definition exact :: "DataFunctions \<Rightarrow> real list \<Rightarrow> real" where
  "exact df c =
     (if c = [] then 0
      else case df of
             AVERAGE \<Rightarrow> sum_list c / real (length c)
           | STANDARD_DEVATION \<Rightarrow> stddev c (sum_list c / real (length c))
           | MAXIMUM \<Rightarrow> Max (set c)
           | MINIMUM \<Rightarrow> Min (set c))"

text \<open>A cached value computed at time \<open>t\<close> is exact unless the window changed since.\<close>

definition cache_ok :: "DataFunctions \<Rightarrow> nat \<Rightarrow> real \<Rightarrow> circular_buffer \<Rightarrow> bool" where
  "cache_ok df t v w \<longleftrightarrow>
     t \<le> last_change w \<and> (buffer w \<noteq> [] \<and> t = last_change w \<longrightarrow> v = exact df (buffer w))"

definition coherent :: "provider \<Rightarrow> bool" where
  "coherent p \<longleftrightarrow>
     cache_ok AVERAGE (average_computed_time p) (previous_average p) (window p)
     \<and> cache_ok STANDARD_DEVATION (stddev_computed_time p) (previous_stddev p) (window p)
     \<and> cache_ok MAXIMUM (max_computed_time p) (previous_max p) (window p)
     \<and> cache_ok MINIMUM (min_computed_time p) (previous_min p) (window p)"

lemma exact_nonempty:
  "c \<noteq> [] \<Longrightarrow> average c = exact AVERAGE c"
  "c \<noteq> [] \<Longrightarrow> stddev c (exact AVERAGE c) = exact STANDARD_DEVATION c"
  "c \<noteq> [] \<Longrightarrow> stat_max c = Inr (exact MAXIMUM c)"
  "c \<noteq> [] \<Longrightarrow> stat_min c = Inr (exact MINIMUM c)"
  by (simp_all add: exact_def average_sum stat_max_Max stat_min_Min)

lemma exact_Nil [simp]: "exact df [] = 0"
  by (simp add: exact_def)

lemma cache_ok_refresh [simp]: "cache_ok df (last_change w) (exact df (buffer w)) w"
  by (simp add: cache_ok_def)

lemma cache_ok_hit: "cache_ok df t v w \<Longrightarrow> buffer w \<noteq> [] \<Longrightarrow> \<not> t < last_change w \<Longrightarrow> v = exact df (buffer w)"
  by (simp add: cache_ok_def)

lemma cache_ok_later: "cache_ok df t v w \<Longrightarrow> last_change w < last_change w' \<Longrightarrow> cache_ok df t v w'"
  by (simp add: cache_ok_def)

lemma cache_ok_emptied:
  "cache_ok df t v w \<Longrightarrow> last_change w \<le> last_change w' \<Longrightarrow> buffer w' = [] \<Longrightarrow> cache_ok df t v w'"
  by (simp add: cache_ok_def)

lemma coherent_init [simp]: "coherent (StatisticalProvider garbage now n)"
  by (simp add: coherent_def cache_ok_def StatisticalProvider_def CircularBuffer_def)

lemma coherent_clear: "coherent p \<Longrightarrow> last_change (window p) \<le> now \<Longrightarrow> coherent (monitor_clear now p)"
  unfolding coherent_def monitor_clear_def
  by (simp, intro conjI; rule cache_ok_emptied, auto simp: frame_simps)

lemma coherent_push:
  assumes "coherent p" and "last_change (window p) < now" and "monitor_push now v p = Inr q"
  shows "coherent q"
proof -
  obtain b where b: "cb_push now v (window p) = Inr b" and q: "q = p\<lparr>window := b\<rparr>"
    using assms(3) by (auto simp: monitor_push_def)
  have "last_change (window p) < last_change b" using b assms(2) by (simp add: frame_simps)
  then show ?thesis using assms(1) by (auto simp: coherent_def q intro: cache_ok_later)
qed

lemma compute_average_coherent:
  assumes "coherent p" and "compute_average p = (v, q)"
  shows "v = exact AVERAGE (buffer (window p)) \<and> coherent q \<and> window q = window p"
  using assms cache_ok_hit [of AVERAGE "average_computed_time p" "previous_average p" "window p"]
  by (auto simp: compute_average_def coherent_def Let_def exact_nonempty split: if_splits)

lemma compute_standard_deviation_coherent:
  assumes "coherent p" and "compute_standard_deviation p = (v, q)"
  shows "v = exact STANDARD_DEVATION (buffer (window p)) \<and> coherent q \<and> window q = window p"
proof -
  obtain a r where r: "compute_average p = (a, r)" by fastforce
  note r' = compute_average_coherent [OF assms(1) r]
  have hit: "buffer (window p) \<noteq> [] \<Longrightarrow> \<not> stddev_computed_time p < last_change (window p) \<Longrightarrow>
      previous_stddev p = exact STANDARD_DEVATION (buffer (window p))"
    using assms(1) cache_ok_hit by (auto simp: coherent_def)
  show ?thesis
  proof (cases "buffer (window p) = [] \<or> \<not> stddev_computed_time p < last_change (window p)")
    case True
    then show ?thesis using assms hit
      by (auto simp: compute_standard_deviation_def Let_def split: if_splits)
  next
    case False
    then have "v = exact STANDARD_DEVATION (buffer (window p))"
      and q: "q = r\<lparr>previous_stddev := exact STANDARD_DEVATION (buffer (window r)),
                    stddev_computed_time := last_change (window r)\<rparr>"
      using assms(2) r r' by (auto simp: compute_standard_deviation_def Let_def exact_nonempty)
    then show ?thesis using r' by (auto simp: coherent_def)
  qed
qed

lemma compute_max_coherent:
  assumes "coherent p" and "compute_max p = (v, q)"
  shows "v = exact MAXIMUM (buffer (window p)) \<and> coherent q \<and> window q = window p"
proof (cases "buffer (window p) = []")
  case False
  then show ?thesis
    using assms cache_ok_hit [of MAXIMUM "max_computed_time p" "previous_max p" "window p"]
    by (auto simp: compute_max_def coherent_def Let_def exact_nonempty split: if_splits)
qed (use assms in \<open>auto simp: compute_max_def stat_max_def\<close>)

lemma compute_min_coherent:
  assumes "coherent p" and "compute_min p = (v, q)"
  shows "v = exact MINIMUM (buffer (window p)) \<and> coherent q \<and> window q = window p"
proof (cases "buffer (window p) = []")
  case False
  then show ?thesis
    using assms cache_ok_hit [of MINIMUM "min_computed_time p" "previous_min p" "window p"]
    by (auto simp: compute_min_def coherent_def Let_def exact_nonempty split: if_splits)
qed (use assms in \<open>auto simp: compute_min_def stat_min_def\<close>)

lemmas compute_coherent =
  compute_average_coherent compute_standard_deviation_coherent compute_max_coherent compute_min_coherent

lemma monitor_utils_get_coherent:
  assumes "coherent p" and "monitor_utils_get df p = (v, is_valid, q)"
  shows "v = exact df (buffer (window p)) \<and> is_valid = cb_valid (window p)
    \<and> coherent q \<and> window q = window p"
  using assms(2)
  by (cases df; simp add: sp_average_def sp_standard_deviation_def sp_max_def sp_min_def
        split: prod.splits)
     (use compute_coherent [OF assms(1)] in blast)+

text \<open>The life of a provider: observations and resets at given times, and queries in any order.\<close>

datatype provider_event = Push nat real | Clear nat | Query DataFunctions

fun provider_run :: "provider_event list \<Rightarrow> provider \<Rightarrow> provider result" where
  "provider_run [] p = Inr p"
| "provider_run (Push now v # es) p = bind_result (monitor_push now v p) (provider_run es)"
| "provider_run (Clear now # es) p = provider_run es (monitor_clear now p)"
| "provider_run (Query df # es) p = provider_run es (snd (snd (monitor_utils_get df p)))"

fun event_times :: "provider_event list \<Rightarrow> nat list" where
  "event_times [] = []"
| "event_times (Push now v # es) = now # event_times es"
| "event_times (Clear now # es) = now # event_times es"
| "event_times (Query df # es) = event_times es"

lemma window_query [simp]:
  "coherent p \<Longrightarrow> window (snd (snd (monitor_utils_get df p))) = window p"
  "coherent p \<Longrightarrow> coherent (snd (snd (monitor_utils_get df p)))"
  using monitor_utils_get_coherent [of p df "fst (monitor_utils_get df p)"
      "fst (snd (monitor_utils_get df p))" "snd (snd (monitor_utils_get df p))"] by simp_all

lemma last_change_run:
  "monitor_push now v p = Inr q \<Longrightarrow> last_change (window q) = now"
  "last_change (window (monitor_clear now p)) = now"
  by (auto simp: monitor_push_def monitor_clear_def frame_simps)

lemma provider_run_coherent:
  "coherent p \<Longrightarrow> sorted_wrt (<) (last_change (window p) # event_times es) \<Longrightarrow>
     provider_run es p = Inr q \<Longrightarrow> coherent q"
proof (induction es arbitrary: p)
  case (Cons e es)
  show ?case
  proof (cases e)
    case (Push now v)
    then obtain r where r: "monitor_push now v p = Inr r" and run: "provider_run es r = Inr q"
      using Cons.prems(3) by auto
    have "coherent r" using coherent_push [OF Cons.prems(1) _ r] Cons.prems(2) Push by simp
    then show ?thesis
      using Cons.IH [OF _ _ run] Cons.prems(2) Push last_change_run(1) [OF r] by simp
  next
    case (Clear now)
    have "coherent (monitor_clear now p)"
      using coherent_clear [OF Cons.prems(1)] Cons.prems(2) Clear by simp
    then show ?thesis
      using Cons.IH [of "monitor_clear now p"] Cons.prems(2,3) Clear last_change_run(2) [of now p] by simp
  next
    case (Query df)
    then show ?thesis
      using Cons.IH [of "snd (snd (monitor_utils_get df p))"] Cons.prems by simp
  qed
qed simp

text \<open>
  C34: as long as no two modifications of a window carry the same time stamp, every
  statistic served from the cache is the exact statistic of the observations currently in
  the window, and the validity flag says whether the window is full.
\<close>

theorem cached_statistics_exact:
  assumes "sorted_wrt (<) (t # event_times es)"
    and "provider_run es (StatisticalProvider garbage t n) = Inr p"
    and "monitor_utils_get df p = (v, is_valid, q)"
  shows "v = exact df (buffer (window p)) \<and>
    (is_valid \<longleftrightarrow> length (buffer (window p)) = maximum_number_element (window p))"
proof -
  have "last_change (window (StatisticalProvider garbage t n)) = t"
    by (simp add: StatisticalProvider_def CircularBuffer_def)
  then have "coherent p"
    using provider_run_coherent [OF coherent_init _ assms(2)] assms(1) by simp
  then show ?thesis
    using monitor_utils_get_coherent [OF _ assms(3)] by (simp add: cb_valid_def)
qed

theorem cached_statistics_exact_witness:
  "\<exists>p v q. provider_run [Push 1 10, Query AVERAGE, Push 2 30] (StatisticalProvider 0 0 2) = Inr p
     \<and> monitor_utils_get AVERAGE p = (v, True, q) \<and> v = 20"
proof -
  obtain p where p: "provider_run [Push 1 10, Query AVERAGE, Push 2 30] (StatisticalProvider 0 0 2) = Inr p"
    and w: "buffer (window p) = [10, 30]" "maximum_number_element (window p) = 2"
    by (simp add: monitor_push_def cb_push_def StatisticalProvider_def CircularBuffer_def
        sp_average_def compute_average_def Let_def)
  obtain v b q where get: "monitor_utils_get AVERAGE p = (v, b, q)" by (cases "monitor_utils_get AVERAGE p")
  have "sorted_wrt (<) ((0::nat) # event_times [Push 1 10, Query AVERAGE, Push 2 30])" by simp
  from cached_statistics_exact [OF this p get] w have "v = 20" and b
    by (simp_all add: exact_def)
  with p get show ?thesis by auto
qed

text \<open>
  Two observations that fall into the same tick of the clock leave the cache stale: a
  query between them makes the second observation invisible to the average although it is in
  the window.
\<close>

theorem cached_average_stale_on_equal_timestamps:
  "\<exists>p. provider_run [Push 1 10, Query AVERAGE, Push 1 30] (StatisticalProvider garbage 0 2) = Inr p
     \<and> buffer (window p) = [10, 30] \<and> fst (sp_average p) = 10 \<and> average (buffer (window p)) = 20"
  by (simp add: monitor_push_def cb_push_def StatisticalProvider_def CircularBuffer_def
      sp_average_def compute_average_def average_def Let_def)

end
