(* ===== verification/Interval_Monitor.thy ===== *)
theory Interval_Monitor
  imports Statistical_Provider Std_Strings
begin

text \<open>
  The monitors of the library that measure the interval between a call of \<open>start\<close> and the next call
  of \<open>stop\<close>: \<^verbatim>\<open>time_monitor.cc\<close>, \<^verbatim>\<open>throughput_monitor.cc\<close>, \<^verbatim>\<open>process_cpu_usage_monitor.cc\<close> and
  \<^verbatim>\<open>system_cpu_usage_monitor.cc\<close>. A monitor is a record that extends the one of its base class with
  its own members. What a method reads from the system (the steady clock, the times of the process,
  the text of \<^verbatim>\<open>/proc/stat\<close>) is an argument. Since an object outlives an exception one of its methods
  throws, a method returns the object together with the exception, if any.

  The protocol of the two calls is the locale \<open>interval_monitor\<close>: a second \<open>start\<close> and a \<open>stop\<close>
  that follows no \<open>start\<close> are ignored. Its client lemma gives the window after any sequence of
  calls, and each monitor interprets it.
\<close>

section \<open>The base class\<close>

type_synonym 'm attempt = "'m \<times> margot_error option"

fun and_then :: "'m attempt \<Rightarrow> ('m \<Rightarrow> 'm attempt) \<Rightarrow> 'm attempt" where
  "and_then (m, Some e) f = (m, Some e)"
| "and_then (m, None) f = f m"

definition attempt :: "'a result \<Rightarrow> 'm \<Rightarrow> ('a \<Rightarrow> 'm attempt) \<Rightarrow> 'm attempt" where
  "attempt r m f = (case r of Inl e \<Rightarrow> (m, Some e) | Inr x \<Rightarrow> f x)"

lemma attempt_simps [simp]: "attempt (Inl e) m f = (m, Some e)" "attempt (Inr x) m f = f x"
  by (simp_all add: attempt_def)

record monitor_base =
  statistics :: provider

definition Monitor_push :: "nat \<Rightarrow> real \<Rightarrow> 'a monitor_base_scheme \<Rightarrow> 'a monitor_base_scheme attempt" where
  "Monitor_push now new_value m =
     attempt (monitor_push now new_value (statistics m)) m (\<lambda>p. (m\<lparr>statistics := p\<rparr>, None))"

definition observations :: "'a monitor_base_scheme \<Rightarrow> real list" where
  "observations m = cb_contents (window (statistics m))"

definition window_size :: "'a monitor_base_scheme \<Rightarrow> nat" where
  "window_size m = maximum_number_element (window (statistics m))"

definition monitor_wf :: "'a monitor_base_scheme \<Rightarrow> bool" where
  "monitor_wf m \<longleftrightarrow> cb_wf (window (statistics m)) \<and> 0 < window_size m"

lemma monitor_wf_bounded: "monitor_wf m \<Longrightarrow> length (observations m) \<le> window_size m"
  by (simp add: monitor_wf_def observations_def window_size_def cb_wf_def)

lemma Monitor_push_records:
  assumes "monitor_wf m"
  shows "\<exists>p. Monitor_push now v m = (m\<lparr>statistics := p\<rparr>, None) \<and> cb_wf (window p)
    \<and> maximum_number_element (window p) = window_size m
    \<and> cb_contents (window p) = last_n (window_size m) (observations m @ [v])"
proof -
  let ?b = "window (statistics m)"
  obtain b where b: "cb_push now v ?b = Inr b"
    using assms cb_push_total unfolding monitor_wf_def window_size_def by blast
  moreover have "cb_wf b"
    using assms cb_wf_push [OF _ b] by (simp add: monitor_wf_def)
  moreover have "cb_contents b = last_n (maximum_number_element ?b) (cb_contents ?b @ [v])"
    using assms cb_contents_push [OF _ b] by (simp add: monitor_wf_def)
  ultimately show ?thesis
    by (auto simp: Monitor_push_def monitor_push_def observations_def window_size_def frame_simps)
qed

lemma fresh_provider [simp]:
  "window (StatisticalProvider garbage now n) = CircularBuffer now n"
  "maximum_number_element (CircularBuffer now n) = n"
  by (simp_all add: StatisticalProvider_def CircularBuffer_def)

section \<open>The protocol of start and stop\<close>

datatype ('s, 't) interval_call = Call_start 's | Call_stop 't

fun run_interval_calls :: "('s \<Rightarrow> 'm \<Rightarrow> 'm attempt) \<Rightarrow> ('t \<Rightarrow> 'm \<Rightarrow> 'm attempt) \<Rightarrow> ('s, 't) interval_call list
    \<Rightarrow> 'm \<Rightarrow> 'm attempt" where
  "run_interval_calls start stop [] m = (m, None)"
| "run_interval_calls start stop (Call_start s # cs) m = and_then (start s m) (run_interval_calls start stop cs)"
| "run_interval_calls start stop (Call_stop t # cs) m = and_then (stop t m) (run_interval_calls start stop cs)"

text \<open>
  The intervals that a sequence of calls delimits: an interval opens with the first \<open>start\<close> after
  the last one was closed and closes with the first \<open>stop\<close> that follows.
\<close>

fun intervals :: "('s \<Rightarrow> 'k) \<Rightarrow> 'k option \<Rightarrow> ('s, 't) interval_call list \<Rightarrow> ('k \<times> 't) list" where
  "intervals mark since [] = []"
| "intervals mark None (Call_start s # cs) = intervals mark (Some (mark s)) cs"
| "intervals mark (Some k) (Call_start s # cs) = intervals mark (Some k) cs"
| "intervals mark None (Call_stop t # cs) = intervals mark None cs"
| "intervals mark (Some k) (Call_stop t # cs) = (k, t) # intervals mark None cs"

locale interval_monitor =
  fixes start :: "'s \<Rightarrow> 'm \<Rightarrow> 'm attempt"
    and stop :: "'t \<Rightarrow> 'm \<Rightarrow> 'm attempt"
    and config :: "'m \<Rightarrow> 'c"
    and opened :: "'m \<Rightarrow> 'k option"
    and mark :: "'c \<Rightarrow> 's \<Rightarrow> 'k"
    and start_ok :: "'c \<Rightarrow> 's \<Rightarrow> bool"
    and stop_ok :: "'c \<Rightarrow> 't \<Rightarrow> bool"
    and interval_ok :: "'c \<Rightarrow> 'k \<Rightarrow> 't \<Rightarrow> bool"
    and measure :: "'c \<Rightarrow> 'k \<Rightarrow> 't \<Rightarrow> real"
    and contents :: "'m \<Rightarrow> real list"
    and capacity :: "'m \<Rightarrow> nat"
    and invar :: "'m \<Rightarrow> bool"
  assumes bounded: "invar m \<Longrightarrow> length (contents m) \<le> capacity m"
    and start_again: "invar m \<Longrightarrow> opened m = Some k \<Longrightarrow> start s m = (m, None)"
    and start_idle: "invar m \<Longrightarrow> opened m = None \<Longrightarrow> start_ok (config m) s \<Longrightarrow>
      \<exists>m'. start s m = (m', None) \<and> invar m' \<and> opened m' = Some (mark (config m) s)
        \<and> config m' = config m \<and> capacity m' = capacity m \<and> contents m' = contents m"
    and stop_idle: "invar m \<Longrightarrow> opened m = None \<Longrightarrow> stop_ok (config m) t \<Longrightarrow> stop t m = (m, None)"
    and stop_interval: "invar m \<Longrightarrow> opened m = Some k \<Longrightarrow> stop_ok (config m) t \<Longrightarrow> interval_ok (config m) k t \<Longrightarrow>
      \<exists>m'. stop t m = (m', None) \<and> invar m' \<and> opened m' = None
        \<and> config m' = config m \<and> capacity m' = capacity m
        \<and> contents m' = last_n (capacity m) (contents m @ [measure (config m) k t])"
begin

definition readable :: "'c \<Rightarrow> ('s, 't) interval_call list \<Rightarrow> bool" where
  "readable conf cs \<longleftrightarrow>
     (\<forall>c \<in> set cs. case c of Call_start s \<Rightarrow> start_ok conf s | Call_stop t \<Rightarrow> stop_ok conf t)"

lemma readable_always: "(\<And>s. start_ok conf s) \<Longrightarrow> (\<And>t. stop_ok conf t) \<Longrightarrow> readable conf cs"
  by (simp add: readable_def split: interval_call.split)

lemma run_calls_records:
  assumes "invar m" and "readable (config m) cs"
    and "\<forall>(k, t) \<in> set (intervals (mark (config m)) (opened m) cs). interval_ok (config m) k t"
  shows "\<exists>m'. run_interval_calls start stop cs m = (m', None) \<and> invar m'
    \<and> contents m' = last_n (capacity m) (contents m
        @ map (\<lambda>(k, t). measure (config m) k t) (intervals (mark (config m)) (opened m) cs))"
  using assms
proof (induction cs arbitrary: m)
  case Nil
  then show ?case using bounded by simp
next
  case (Cons c cs)
  show ?case
  proof (cases c)
    case (Call_start s)
    show ?thesis
    proof (cases "opened m")
      case None
      obtain n where n: "start s m = (n, None)" "invar n" "opened n = Some (mark (config m) s)"
        "config n = config m" "capacity n = capacity m" "contents n = contents m"
        using start_idle [of m s] Cons.prems None Call_start by (auto simp: readable_def)
      show ?thesis using Cons.IH [of n] Cons.prems n None Call_start by (auto simp: readable_def)
    next
      case (Some k)
      show ?thesis
        using Cons.IH [of m] Cons.prems start_again [OF Cons.prems(1) Some] Some Call_start
        by (auto simp: readable_def)
    qed
  next
    case (Call_stop t)
    show ?thesis
    proof (cases "opened m")
      case None
      then have "stop t m = (m, None)"
        using stop_idle Cons.prems Call_stop by (auto simp: readable_def)
      then show ?thesis using Cons.IH [of m] Cons.prems None Call_stop by (auto simp: readable_def)
    next
      case (Some k)
      obtain n where n: "stop t m = (n, None)" "invar n" "opened n = None" "config n = config m"
        "capacity n = capacity m"
        "contents n = last_n (capacity m) (contents m @ [measure (config m) k t])"
        using stop_interval [of m k t] Cons.prems Some Call_stop by (auto simp: readable_def)
      then obtain r where "run_interval_calls start stop cs n = (r, None)" "invar r"
        "contents r = last_n (capacity m) (contents n
          @ map (\<lambda>(k, t). measure (config m) k t) (intervals (mark (config m)) None cs))"
        using Cons.IH [of n] Cons.prems Some Call_stop by (auto simp: readable_def)
      then show ?thesis using n Some Call_stop by (simp add: last_n_last_n_append)
    qed
  qed
qed

end

section \<open>The time monitor\<close>

datatype TimeUnit = NANOSECONDS | MICROSECONDS | MILLISECONDS | SECONDS

text \<open>A time point of the steady clock counts nanoseconds; \<^verbatim>\<open>duration_cast\<close> truncates.\<close>

definition duration_cast :: "nat \<Rightarrow> nat \<Rightarrow> nat \<Rightarrow> nat" where
  "duration_cast unit t_start t_stop = (t_stop - t_start) div unit mod 2 ^ 64"

definition getElapsedTimeNanoseconds :: "nat \<Rightarrow> nat \<Rightarrow> nat" where
  "getElapsedTimeNanoseconds = duration_cast 1"

definition getElapsedTimeMicroseconds :: "nat \<Rightarrow> nat \<Rightarrow> nat" where
  "getElapsedTimeMicroseconds = duration_cast 1000"

definition getElapsedTimeMilliseconds :: "nat \<Rightarrow> nat \<Rightarrow> nat" where
  "getElapsedTimeMilliseconds = duration_cast 1000000"

definition getElapsedTimeSeconds :: "nat \<Rightarrow> nat \<Rightarrow> nat" where
  "getElapsedTimeSeconds = duration_cast 1000000000"

record time_monitor = monitor_base +
  t_start :: nat
  tm_started :: bool
  time_extractor :: "nat \<Rightarrow> nat \<Rightarrow> nat"

fun extractor_of :: "TimeUnit \<Rightarrow> nat \<Rightarrow> nat \<Rightarrow> nat" where
  "extractor_of MICROSECONDS = getElapsedTimeMicroseconds"
| "extractor_of MILLISECONDS = getElapsedTimeMilliseconds"
| "extractor_of SECONDS = getElapsedTimeSeconds"
| "extractor_of NANOSECONDS = getElapsedTimeNanoseconds"

definition TimeMonitor :: "real \<Rightarrow> nat \<Rightarrow> TimeUnit \<Rightarrow> nat \<Rightarrow> time_monitor" where
  "TimeMonitor garbage now time_measure n =
     \<lparr>statistics = StatisticalProvider garbage now n, t_start = 0, tm_started = False,
      time_extractor = extractor_of time_measure\<rparr>"

definition TimeMonitor_default :: "real \<Rightarrow> nat \<Rightarrow> nat \<Rightarrow> time_monitor" where
  "TimeMonitor_default garbage now n =
     \<lparr>statistics = StatisticalProvider garbage now n, t_start = 0, tm_started = False,
      time_extractor = getElapsedTimeMilliseconds\<rparr>"

definition TimeMonitor_start :: "nat \<Rightarrow> time_monitor \<Rightarrow> time_monitor attempt" where
  "TimeMonitor_start now m =
     (if tm_started m then (m, None) else (m\<lparr>tm_started := True, t_start := now\<rparr>, None))"

text \<open>\<open>stop\<close> reads the clock twice: for the elapsed time and, in the buffer, for the time of the change.\<close>

definition TimeMonitor_stop :: "nat \<times> nat \<Rightarrow> time_monitor \<Rightarrow> time_monitor attempt" where
  "TimeMonitor_stop clock m =
     (if \<not> tm_started m then (m, None)
      else let time_elapsed = time_extractor m (t_start m) (fst clock)
           in and_then (Monitor_push (snd clock) (real time_elapsed) m) (\<lambda>m. (m\<lparr>tm_started := False\<rparr>, None)))"

text \<open>The length of a unit in nanoseconds.\<close>

fun unit_ns :: "TimeUnit \<Rightarrow> nat" where
  "unit_ns NANOSECONDS = 1"
| "unit_ns MICROSECONDS = 1000"
| "unit_ns MILLISECONDS = 1000000"
| "unit_ns SECONDS = 1000000000"

lemma extractor_of_unit: "extractor_of u = duration_cast (unit_ns u)"
  by (cases u) (simp_all add: getElapsedTimeNanoseconds_def getElapsedTimeMicroseconds_def
      getElapsedTimeMilliseconds_def getElapsedTimeSeconds_def)

lemma duration_cast_exact: "t1 - t0 < 2 ^ 64 \<Longrightarrow> duration_cast u t0 t1 = (t1 - t0) div u"
  unfolding duration_cast_def by (rule mod_less) (meson div_le_dividend le_less_trans)

lemma observations_update [simp]:
  "observations (m\<lparr>statistics := p\<rparr>) = cb_contents (window p)"
  "window_size (m\<lparr>statistics := p\<rparr>) = maximum_number_element (window p)"
  "monitor_wf (m\<lparr>statistics := p\<rparr>) \<longleftrightarrow> cb_wf (window p) \<and> 0 < maximum_number_element (window p)"
  by (simp_all add: observations_def window_size_def monitor_wf_def)

lemma TimeMonitor_frame [simp]:
  "observations (m\<lparr>tm_started := b\<rparr>) = observations m"
  "observations (m\<lparr>t_start := t\<rparr>) = observations m"
  "window_size (m\<lparr>tm_started := b\<rparr>) = window_size m"
  "window_size (m\<lparr>t_start := t\<rparr>) = window_size m"
  "monitor_wf (m\<lparr>tm_started := b\<rparr>) \<longleftrightarrow> monitor_wf m"
  "monitor_wf (m\<lparr>t_start := t\<rparr>) \<longleftrightarrow> monitor_wf m"
  for m :: time_monitor
  by (simp_all add: observations_def window_size_def monitor_wf_def)

interpretation time: interval_monitor TimeMonitor_start TimeMonitor_stop time_extractor
  "\<lambda>m. if tm_started m then Some (t_start m) else None" "\<lambda>_ now. now" "\<lambda>_ _. True" "\<lambda>_ _. True" "\<lambda>_ _ _. True"
  "\<lambda>f t0 clock. real (f t0 (fst clock))" observations window_size monitor_wf
proof (unfold_locales, goal_cases)
  case (1 m)
  then show ?case by (rule monitor_wf_bounded)
next
  case (5 m k clock)
  then have m: "monitor_wf m" "tm_started m" "t_start m = k" by (auto split: if_splits)
  obtain p where "Monitor_push (snd clock) (real (time_extractor m k (fst clock))) m = (m\<lparr>statistics := p\<rparr>, None)"
    "cb_wf (window p)" "maximum_number_element (window p) = window_size m"
    "cb_contents (window p) = last_n (window_size m) (observations m @ [real (time_extractor m k (fst clock))])"
    using Monitor_push_records [OF m(1), of "snd clock" "real (time_extractor m k (fst clock))"] by blast
  then show ?case using m by (simp add: TimeMonitor_stop_def monitor_wf_def)
qed (auto simp: TimeMonitor_start_def TimeMonitor_stop_def split: if_splits)

text \<open>
  C35: after any sequence of calls of \<open>start\<close> and \<open>stop\<close>, nested and unmatched ones included, a time
  monitor that was just created holds the lengths of the last \<open>n\<close> intervals, each from the first
  \<open>start\<close> after the previous interval to the next \<open>stop\<close>, rounded down to the unit of the
  monitor. Nothing else is recorded and no call fails.
\<close>

theorem time_monitor_records_intervals:
  assumes "0 < n"
    and "\<forall>(t0, clock) \<in> set (intervals (\<lambda>t. t) None cs). fst clock - t0 < 2 ^ 64"
  shows "\<exists>m. run_interval_calls TimeMonitor_start TimeMonitor_stop cs (TimeMonitor garbage now u n) = (m, None)
    \<and> observations m = last_n n
        (map (\<lambda>(t0, clock). real ((fst clock - t0) div unit_ns u)) (intervals (\<lambda>t. t) None cs))"
proof -
  let ?m = "TimeMonitor garbage now u n"
  have "monitor_wf ?m" "observations ?m = []" "window_size ?m = n" "\<not> tm_started ?m"
    "time_extractor ?m = duration_cast (unit_ns u)"
    using assms(1)
    by (simp_all add: TimeMonitor_def monitor_wf_def observations_def window_size_def extractor_of_unit)
  then obtain m where m: "run_interval_calls TimeMonitor_start TimeMonitor_stop cs ?m = (m, None)"
    "observations m = last_n n (map (\<lambda>(t0, clock). real (duration_cast (unit_ns u) t0 (fst clock)))
       (intervals (\<lambda>t. t) None cs))"
    using time.run_calls_records [of ?m cs] by (auto simp: time.readable_always)
  have "map (\<lambda>(t0, clock). real (duration_cast (unit_ns u) t0 (fst clock))) (intervals (\<lambda>t. t) None cs)
    = map (\<lambda>(t0, clock). real ((fst clock - t0) div unit_ns u)) (intervals (\<lambda>t. t) None cs)"
    using assms(2) by (auto simp: duration_cast_exact)
  then show ?thesis by (intro exI [of _ m] conjI m(1)) (simp only: m(2))
qed

theorem time_monitor_records_intervals_witness:
  "\<exists>m. run_interval_calls TimeMonitor_start TimeMonitor_stop
      [Call_stop (1, 2), Call_start 1000, Call_start 1500, Call_stop (4999, 5000), Call_stop (7000, 7001),
       Call_start 10000, Call_stop (17000, 17001), Call_start 20000, Call_stop (29000, 29500)]
      (TimeMonitor 0 0 MICROSECONDS 2) = (m, None)
    \<and> observations m = [7, 9]"
  using time_monitor_records_intervals
    [of 2 "[Call_stop (1, 2), Call_start 1000, Call_start 1500, Call_stop (4999, 5000), Call_stop (7000, 7001),
       Call_start 10000, Call_stop (17000, 17001), Call_start 20000, Call_stop (29000, 29500)]" 0 0 MICROSECONDS]
  by (simp add: last_n_def)

section \<open>The throughput monitor\<close>

record throughput_monitor = monitor_base +
  tStart :: nat
  thm_started :: bool

definition ThroughputMonitor :: "real \<Rightarrow> nat \<Rightarrow> nat \<Rightarrow> throughput_monitor" where
  "ThroughputMonitor garbage now n =
     \<lparr>statistics = StatisticalProvider garbage now n, tStart = 0, thm_started = False\<rparr>"

definition ThroughputMonitor_start :: "nat \<Rightarrow> throughput_monitor \<Rightarrow> throughput_monitor attempt" where
  "ThroughputMonitor_start now m =
     (if thm_started m then (m, None) else (m\<lparr>tStart := now, thm_started := True\<rparr>, None))"

text \<open>
  The argument is the amount of data with the two readings of the clock. The check of the elapsed
  time is compiled only without \<^verbatim>\<open>NDEBUG\<close>.
\<close>

definition ThroughputMonitor_stop :: "real \<times> nat \<times> nat \<Rightarrow> throughput_monitor \<Rightarrow> throughput_monitor attempt" where
  "ThroughputMonitor_stop = (\<lambda>(amount, t_stop, now) m.
     if \<not> thm_started m then (m, None)
     else let elapsed_time = duration_cast 1000 (tStart m) t_stop
          in if elapsed_time = 0
             then (m, Some (Runtime_error ''the observed functionality should last at least 1us''))
             else and_then (Monitor_push now (amount * (1000000 / real elapsed_time)) m)
                    (\<lambda>m. (m\<lparr>thm_started := False\<rparr>, None)))"

lemma ThroughputMonitor_frame [simp]:
  "observations (m\<lparr>thm_started := b\<rparr>) = observations m"
  "observations (m\<lparr>tStart := t\<rparr>) = observations m"
  "window_size (m\<lparr>thm_started := b\<rparr>) = window_size m"
  "window_size (m\<lparr>tStart := t\<rparr>) = window_size m"
  "monitor_wf (m\<lparr>thm_started := b\<rparr>) \<longleftrightarrow> monitor_wf m"
  "monitor_wf (m\<lparr>tStart := t\<rparr>) \<longleftrightarrow> monitor_wf m"
  for m :: throughput_monitor
  by (simp_all add: observations_def window_size_def monitor_wf_def)

interpretation throughput: interval_monitor ThroughputMonitor_start ThroughputMonitor_stop "\<lambda>_. ()"
  "\<lambda>m. if thm_started m then Some (tStart m) else None" "\<lambda>_ now. now" "\<lambda>_ _. True" "\<lambda>_ _. True"
  "\<lambda>_ t0 (_, t1, _). duration_cast 1000 t0 t1 \<noteq> 0"
  "\<lambda>_ t0 (amount, t1, _). amount * (1000000 / real (duration_cast 1000 t0 t1))"
  observations window_size monitor_wf
proof (unfold_locales, goal_cases)
  case (1 m)
  then show ?case by (rule monitor_wf_bounded)
next
  case (5 m k call)
  obtain amount t1 now where call: "call = (amount, t1, now)" by (cases call)
  have m: "monitor_wf m" "thm_started m" "tStart m = k" and e: "duration_cast 1000 k t1 \<noteq> 0"
    using 5 call by (auto split: if_splits)
  let ?v = "amount * (1000000 / real (duration_cast 1000 k t1))"
  obtain p where "Monitor_push now ?v m = (m\<lparr>statistics := p\<rparr>, None)" "cb_wf (window p)"
    "maximum_number_element (window p) = window_size m"
    "cb_contents (window p) = last_n (window_size m) (observations m @ [?v])"
    using Monitor_push_records [OF m(1), of now ?v] by blast
  then show ?case using m e by (simp add: call ThroughputMonitor_stop_def monitor_wf_def)
qed (auto simp: ThroughputMonitor_start_def ThroughputMonitor_stop_def split: if_splits)

text \<open>
  An interval shorter than a microsecond raises an exception and leaves the monitor started: the
  calls of \<open>start\<close> that follow are ignored, so the next measure reaches back to the failed one and
  its throughput covers only the last amount of data.
\<close>

lemma short_interval_keeps_throughput_started:
  assumes "thm_started m" and "duration_cast 1000 (tStart m) t1 = 0"
  shows "\<exists>e. ThroughputMonitor_stop (amount, t1, now) m = (m, Some e)"
    and "ThroughputMonitor_start t2 m = (m, None)"
  using assms by (simp_all add: ThroughputMonitor_stop_def ThroughputMonitor_start_def)

section \<open>The monitor of the CPU time of the process\<close>

record timespec =
  tv_sec :: int
  tv_nsec :: int

definition tsDifference :: "timespec \<Rightarrow> timespec \<Rightarrow> timespec" where
  "tsDifference t1 t2 =
     (if tv_nsec t2 < tv_nsec t1
      then \<lparr>tv_sec = tv_sec t1 - tv_sec t2 - 0, tv_nsec = tv_nsec t1 - tv_nsec t2\<rparr>
      else \<lparr>tv_sec = tv_sec t1 - tv_sec t2 - 1, tv_nsec = 1000000000 + tv_nsec t1 - tv_nsec t2\<rparr>)"

text \<open>The fields of \<^verbatim>\<open>rusage\<close> the monitor uses, each as seconds and microseconds.\<close>

record rusage =
  ru_utime :: "int \<times> int"
  ru_stime :: "int \<times> int"

definition rusage_to_timespec :: "rusage \<Rightarrow> timespec" where
  "rusage_to_timespec r =
     \<lparr>tv_sec = fst (ru_stime r) + fst (ru_utime r),
      tv_nsec = snd (ru_stime r) * 1000 + snd (ru_utime r) * 1000\<rparr>"

datatype CounterType = SoftwareCounter | HardwareCounter

text \<open>The two sources of the time of the process, both available on Linux.\<close>

record process_times =
  process_cputime :: timespec
  self_usage :: rusage

definition getProcessTimeHard :: "process_times \<Rightarrow> timespec" where
  "getProcessTimeHard = process_cputime"

definition getProcessTimeSoft :: "process_times \<Rightarrow> timespec" where
  "getProcessTimeSoft t = rusage_to_timespec (self_usage t)"

record process_cpu_monitor = monitor_base +
  pm_tStart :: nat
  uStart :: timespec
  pm_started :: bool
  getProcessTime :: "process_times \<Rightarrow> timespec"

text \<open>\<open>uStart\<close> is not initialised.\<close>

definition ProcessCpuMonitor :: "timespec \<Rightarrow> real \<Rightarrow> nat \<Rightarrow> CounterType \<Rightarrow> nat \<Rightarrow> process_cpu_monitor" where
  "ProcessCpuMonitor u garbage now counter_type n =
     \<lparr>statistics = StatisticalProvider garbage now n, pm_tStart = 0, uStart = u, pm_started = False,
      getProcessTime = (case counter_type of HardwareCounter \<Rightarrow> getProcessTimeHard
                        | SoftwareCounter \<Rightarrow> getProcessTimeSoft)\<rparr>"

definition ProcessCpuMonitor_default :: "timespec \<Rightarrow> real \<Rightarrow> nat \<Rightarrow> nat \<Rightarrow> process_cpu_monitor" where
  "ProcessCpuMonitor_default u garbage now n =
     \<lparr>statistics = StatisticalProvider garbage now n, pm_tStart = 0, uStart = u, pm_started = False,
      getProcessTime = getProcessTimeSoft\<rparr>"

definition ProcessCpuMonitor_start ::
  "nat \<times> process_times \<Rightarrow> process_cpu_monitor \<Rightarrow> process_cpu_monitor attempt" where
  "ProcessCpuMonitor_start = (\<lambda>(now, times) m.
     if pm_started m then (m, None)
     else (m\<lparr>pm_started := True, pm_tStart := now, uStart := getProcessTime m times\<rparr>, None))"

text \<open>The time of the process in an interval, as the monitor computes it.\<close>

definition process_nanoseconds :: "timespec \<Rightarrow> timespec \<Rightarrow> nat" where
  "process_nanoseconds u1 u0 =
     (let process_difference = tsDifference u1 u0
      in nat ((tv_sec process_difference * 1000000000 + tv_nsec process_difference) mod 2 ^ 64))"

definition ProcessCpuMonitor_stop ::
  "process_times \<times> nat \<times> nat \<Rightarrow> process_cpu_monitor \<Rightarrow> process_cpu_monitor attempt" where
  "ProcessCpuMonitor_stop = (\<lambda>(times, t_stop, now) m.
     let u_stop = getProcessTime m times
     in if \<not> pm_started m then (m, None)
        else let elapsedTimeSystem = duration_cast 1 (pm_tStart m) t_stop;
                 elapsedTimeProcess = process_nanoseconds u_stop (uStart m)
             in if elapsedTimeSystem = 0 then (m, Some (Undefined_behaviour ''division by zero''))
                else and_then (Monitor_push now (real elapsedTimeProcess / real elapsedTimeSystem) m)
                       (\<lambda>m. (m\<lparr>pm_started := False\<rparr>, None)))"

text \<open>The nanoseconds that a \<^verbatim>\<open>timespec\<close> stands for, normalised or not.\<close>

definition nanoseconds :: "timespec \<Rightarrow> int" where
  "nanoseconds t = tv_sec t * 1000000000 + tv_nsec t"

lemma nanoseconds_tsDifference: "nanoseconds (tsDifference t1 t2) = nanoseconds t1 - nanoseconds t2"
  by (simp add: tsDifference_def nanoseconds_def)

lemma process_nanoseconds_exact:
  "0 \<le> nanoseconds u1 - nanoseconds u0 \<Longrightarrow> nanoseconds u1 - nanoseconds u0 < 2 ^ 64 \<Longrightarrow>
    int (process_nanoseconds u1 u0) = nanoseconds u1 - nanoseconds u0"
  using nanoseconds_tsDifference [of u1 u0]
  by (simp add: process_nanoseconds_def Let_def nanoseconds_def)

lemma ProcessCpuMonitor_frame [simp]:
  "observations (m\<lparr>pm_started := b\<rparr>) = observations m"
  "observations (m\<lparr>pm_tStart := t\<rparr>) = observations m"
  "observations (m\<lparr>uStart := u\<rparr>) = observations m"
  "window_size (m\<lparr>pm_started := b\<rparr>) = window_size m"
  "window_size (m\<lparr>pm_tStart := t\<rparr>) = window_size m"
  "window_size (m\<lparr>uStart := u\<rparr>) = window_size m"
  "monitor_wf (m\<lparr>pm_started := b\<rparr>) \<longleftrightarrow> monitor_wf m"
  "monitor_wf (m\<lparr>pm_tStart := t\<rparr>) \<longleftrightarrow> monitor_wf m"
  "monitor_wf (m\<lparr>uStart := u\<rparr>) \<longleftrightarrow> monitor_wf m"
  for m :: process_cpu_monitor
  by (simp_all add: observations_def window_size_def monitor_wf_def)

interpretation process_cpu: interval_monitor ProcessCpuMonitor_start ProcessCpuMonitor_stop getProcessTime
  "\<lambda>m. if pm_started m then Some (pm_tStart m, uStart m) else None" "\<lambda>get (now, times). (now, get times)"
  "\<lambda>_ _. True" "\<lambda>_ _. True" "\<lambda>_ (t0, _) (_, t1, _). duration_cast 1 t0 t1 \<noteq> 0"
  "\<lambda>get (t0, u0) (times, t1, _). real (process_nanoseconds (get times) u0) / real (duration_cast 1 t0 t1)"
  observations window_size monitor_wf
proof (unfold_locales, goal_cases)
  case (1 m)
  then show ?case by (rule monitor_wf_bounded)
next
  case (5 m k call)
  obtain times t1 now where call: "call = (times, t1, now)" by (cases call)
  obtain t0 u0 where k: "k = (t0, u0)" by (cases k)
  have m: "monitor_wf m" "pm_started m" "pm_tStart m = t0" "uStart m = u0"
    and e: "duration_cast 1 t0 t1 \<noteq> 0"
    using 5 call k by (auto split: if_splits)
  let ?v = "real (process_nanoseconds (getProcessTime m times) u0) / real (duration_cast 1 t0 t1)"
  obtain p where "Monitor_push now ?v m = (m\<lparr>statistics := p\<rparr>, None)" "cb_wf (window p)"
    "maximum_number_element (window p) = window_size m"
    "cb_contents (window p) = last_n (window_size m) (observations m @ [?v])"
    using Monitor_push_records [OF m(1), of now ?v] by blast
  then show ?case using m e by (simp add: call k ProcessCpuMonitor_stop_def monitor_wf_def)
qed (auto simp: ProcessCpuMonitor_start_def ProcessCpuMonitor_stop_def split: if_splits)

end
