(* ===== verification/System_Monitor.thy ===== *)
theory System_Monitor
  imports Interval_Monitor
begin

text \<open>
  The monitors that read the text files of the kernel: \<^verbatim>\<open>system_cpu_usage_monitor.cc\<close>
  (\<^verbatim>\<open>/proc/stat\<close>), \<^verbatim>\<open>memory_monitor.cc\<close> (\<^verbatim>\<open>/proc/self/statm\<close>, \<^verbatim>\<open>/proc/self/status\<close>) and
  \<^verbatim>\<open>frequency_monitor.cc\<close> (\<^verbatim>\<open>scaling_cur_freq\<close> of every core). The content of a file is an argument,
  \<open>None\<close> when the file cannot be opened. The conversions of \<^verbatim>\<open>fscanf\<close> the code uses come first;
  the results show what is read from a file of the kernel's format, and that most of the counters of
  \<^verbatim>\<open>/proc/stat\<close> are parsed and then lost.
\<close>

section \<open>The conversions of fscanf\<close>

definition skip_word :: "string \<Rightarrow> string" where
  "skip_word s = dropWhile (\<lambda>c. \<not> is_space c) (dropWhile is_space s)"

text \<open>\<^verbatim>\<open>%lu\<close>: the value of \<^verbatim>\<open>strtoul\<close>, which saturates, and the rest of the input.\<close>

definition scan_unsigned :: "string \<Rightarrow> (nat \<times> string) option" where
  "scan_unsigned s =
     (let t = dropWhile is_space s;
          negative = (t \<noteq> [] \<and> hd t = CHR ''-'');
          u = (if t \<noteq> [] \<and> (hd t = CHR ''-'' \<or> hd t = CHR ''+'') then tl t else t);
          ds = takeWhile is_digit u;
          n = nat_of_string ds
      in if ds = [] then None
         else Some (if 2 ^ 64 \<le> n then 2 ^ 64 - 1 else if negative then (2 ^ 64 - n) mod 2 ^ 64 else n,
                    dropWhile is_digit u))"

fun scan_unsigneds :: "nat \<Rightarrow> string \<Rightarrow> nat list" where
  "scan_unsigneds 0 s = []"
| "scan_unsigneds (Suc k) s =
     (case scan_unsigned s of None \<Rightarrow> [] | Some (v, rest) \<Rightarrow> v # scan_unsigneds k rest)"

text \<open>
  \<^verbatim>\<open>EOF\<close> is returned when the input ends before any assignment; otherwise the first variables of
  the call are assigned, and the rest are not.
\<close>

datatype scanned = EOF | Assigned "nat list"

definition fscanf_unsigneds :: "nat \<Rightarrow> string \<Rightarrow> scanned" where
  "fscanf_unsigneds k s =
     (let vs = scan_unsigneds k s in if vs = [] \<and> list_all is_space s then EOF else Assigned vs)"

definition fscanf_after_word :: "nat \<Rightarrow> string \<Rightarrow> scanned" where
  "fscanf_after_word k s = (if list_all is_space s then EOF else fscanf_unsigneds k (skip_word s))"

lemma scan_unsigned_of_nat:
  assumes "n < 2 ^ 64" and "rest = [] \<or> \<not> is_digit (hd rest)"
  shows "scan_unsigned (string_of_nat n @ rest) = Some (n, rest)"
    and "scan_unsigned (CHR '' '' # string_of_nat n @ rest) = Some (n, rest)"
proof -
  have digits: "\<And>c. c \<in> set (string_of_nat n) \<Longrightarrow> is_digit c" by (rule string_of_nat_digits)
  have split: "takeWhile is_digit (string_of_nat n @ rest) = string_of_nat n"
    "dropWhile is_digit (string_of_nat n @ rest) = rest"
    using digits assms(2) by (cases rest; simp)+
  obtain c cs where cs: "string_of_nat n = c # cs" by (cases "string_of_nat n") auto
  then have c: "is_digit c" using string_of_nat_hd [of n] by simp
  have sp: "dropWhile is_space (string_of_nat n @ rest) = string_of_nat n @ rest"
    "is_space (CHR '' '')"
    using digit_not_special(1) [OF c] cs by (simp_all add: is_space_def)
  show "scan_unsigned (string_of_nat n @ rest) = Some (n, rest)"
    using assms(1) split sp digit_not_special(2,3) [OF c]
    by (simp add: scan_unsigned_def Let_def cs [symmetric] hd_append) (simp add: cs)
  then show "scan_unsigned (CHR '' '' # string_of_nat n @ rest) = Some (n, rest)"
    using sp by (simp add: scan_unsigned_def Let_def)
qed

text \<open>A sequence of numbers, each after a space.\<close>

definition number_fields :: "nat list \<Rightarrow> string" where
  "number_fields ns = concat (map (\<lambda>n. CHR '' '' # string_of_nat n) ns)"

lemma number_fields_simps [simp]:
  "number_fields [] = []"
  "number_fields (n # ns) = CHR '' '' # string_of_nat n @ number_fields ns"
  by (simp_all add: number_fields_def)

lemma scan_number_fields:
  assumes "\<forall>n \<in> set ns. n < 2 ^ 64" and "rest = [] \<or> \<not> is_digit (hd rest)"
  shows "scan_unsigneds k (number_fields ns @ rest)
    = take k ns @ (if k \<le> length ns then [] else scan_unsigneds (k - length ns) rest)"
  using assms(1)
proof (induction ns arbitrary: k)
  case (Cons n ns)
  have "\<not> is_digit (CHR '' '')" by (simp add: is_digit_def)
  then have "number_fields ns @ rest = [] \<or> \<not> is_digit (hd (number_fields ns @ rest))"
    using assms(2) by (cases ns) auto
  then have "scan_unsigned (number_fields (n # ns) @ rest) = Some (n, number_fields ns @ rest)"
    using scan_unsigned_of_nat(2) [of n "number_fields ns @ rest"] Cons.prems by simp
  then show ?case using Cons by (cases k) simp_all
qed simp

lemma scan_unsigneds_blanks:
  assumes "list_all is_space b"
  shows "scan_unsigneds k (b @ s) = scan_unsigneds k s"
proof -
  have "dropWhile is_space (b @ s) = dropWhile is_space s"
    using assms by (induction b) auto
  then have "scan_unsigned (b @ s) = scan_unsigned s" by (simp add: scan_unsigned_def)
  then show ?thesis by (cases k) simp_all
qed

text \<open>A line of the kernel: a word without blanks, blanks, and numbers.\<close>

lemma fscanf_line:
  assumes "word \<noteq> []" and "list_all (\<lambda>c. \<not> is_space c) word" and "list_all is_space b"
    and "\<forall>n \<in> set ns. n < 2 ^ 64" and "rest = [] \<or> \<not> is_digit (hd rest)" and "k \<le> length ns" and "0 < k"
  shows "fscanf_after_word k (word @ b @ number_fields ns @ rest) = Assigned (take k ns)"
proof -
  obtain n ms where ns: "ns = n # ms" using assms(6,7) by (cases ns) auto
  have word: "\<exists>c cs. word = c # cs \<and> \<not> is_space c"
    using assms(1,2) by (cases word) auto
  then have "dropWhile is_space (word @ t) = word @ t" for t by auto
  moreover have "dropWhile (\<lambda>c. \<not> is_space c) (word @ b @ number_fields ns @ rest) = b @ number_fields ns @ rest"
    using assms(2,3) by (cases b) (simp_all add: dropWhile_append ns is_space_def list_all_iff)
  ultimately have "skip_word (word @ b @ number_fields ns @ rest) = b @ number_fields ns @ rest"
    by (simp add: skip_word_def)
  moreover have "\<not> list_all is_space (word @ t)" for t
    using word by auto
  moreover have "take k ns \<noteq> []" using assms(7) ns by simp
  ultimately show ?thesis
    using scan_number_fields [OF assms(4,5), of k] assms(3,6)
    by (simp add: fscanf_after_word_def fscanf_unsigneds_def Let_def scan_unsigneds_blanks)
qed

section \<open>The CPU usage of the system\<close>

text \<open>
  The addition after the call of \<^verbatim>\<open>fscanf\<close> moves the local pointer \<^verbatim>\<open>system\<close> instead of the counter it
  points to, so it changes nothing that the caller sees. Variables that are not assigned are
  indeterminate.
\<close>

definition readTime :: "string option \<Rightarrow> (64 word \<times> 64 word \<times> 64 word \<times> 64 word) result" where
  "readTime proc_stat =
     (case proc_stat of
        None \<Rightarrow> Inl (Undefined_behaviour ''fscanf of a null FILE'')
      | Some s \<Rightarrow>
          (case fscanf_after_word 10 s of
             EOF \<Rightarrow> Inl (Runtime_error ''unable to parse the /proc/stat file: reached end of file.'')
           | Assigned (user # nice # system # idle # _) \<Rightarrow>
               Inr (word_of_nat user, word_of_nat nice, word_of_nat system, word_of_nat idle)
           | Assigned _ \<Rightarrow> Inl (Undefined_behaviour ''indeterminate counter'')))"

record system_cpu_monitor = monitor_base +
  busy_time :: "64 word"
  total_time :: "64 word"
  sm_started :: bool

definition SystemCpuMonitor :: "64 word \<Rightarrow> 64 word \<Rightarrow> real \<Rightarrow> nat \<Rightarrow> nat \<Rightarrow> system_cpu_monitor" where
  "SystemCpuMonitor busy all_time garbage now n =
     \<lparr>statistics = StatisticalProvider garbage now n, busy_time = busy, total_time = all_time, sm_started = False\<rparr>"

definition SystemCpuMonitor_start :: "string option \<Rightarrow> system_cpu_monitor \<Rightarrow> system_cpu_monitor attempt" where
  "SystemCpuMonitor_start proc_stat m =
     (if sm_started m then (m, None)
      else let m = m\<lparr>sm_started := True\<rparr>
           in attempt (readTime proc_stat) m (\<lambda>(user, nice, sys, idle).
                (m\<lparr>busy_time := user + sys + nice, total_time := user + sys + nice + idle\<rparr>, None)))"

definition checkTotal :: "64 word \<Rightarrow> unit result" where
  "checkTotal all_time = (if all_time = 0 then Inl (Runtime_error ''no time elapsed (interval too short?)'') else Inr ())"

definition SystemCpuMonitor_stop ::
  "string option \<times> nat \<times> nat \<Rightarrow> system_cpu_monitor \<Rightarrow> system_cpu_monitor attempt" where
  "SystemCpuMonitor_stop = (\<lambda>(proc_stat, processors, now) m.
     attempt (readTime proc_stat) m (\<lambda>(user, nice, sys, idle).
       let busy = user + sys + nice; all_time = busy + idle
       in if \<not> sm_started m then (m, None)
          else let m = m\<lparr>sm_started := False\<rparr>; all_time = all_time - total_time m; busy = busy - busy_time m
               in attempt (checkTotal all_time) m (\<lambda>_.
                    Monitor_push now (real (unat busy) / real (unat all_time) * real processors) m)))"

lemma SystemCpuMonitor_frame [simp]:
  "observations (m\<lparr>sm_started := b\<rparr>) = observations m"
  "observations (m\<lparr>busy_time := t\<rparr>) = observations m"
  "observations (m\<lparr>total_time := t\<rparr>) = observations m"
  "window_size (m\<lparr>sm_started := b\<rparr>) = window_size m"
  "window_size (m\<lparr>busy_time := t\<rparr>) = window_size m"
  "window_size (m\<lparr>total_time := t\<rparr>) = window_size m"
  "monitor_wf (m\<lparr>sm_started := b\<rparr>) \<longleftrightarrow> monitor_wf m"
  "monitor_wf (m\<lparr>busy_time := t\<rparr>) \<longleftrightarrow> monitor_wf m"
  "monitor_wf (m\<lparr>total_time := t\<rparr>) \<longleftrightarrow> monitor_wf m"
  for m :: system_cpu_monitor
  by (simp_all add: observations_def window_size_def monitor_wf_def)

text \<open>The busy and the total time of a reading that succeeds.\<close>

definition cpu_times :: "string option \<Rightarrow> 64 word \<times> 64 word" where
  "cpu_times proc_stat =
     (case readTime proc_stat of
        Inl _ \<Rightarrow> (0, 0)
      | Inr (user, nice, sys, idle) \<Rightarrow> (user + sys + nice, user + sys + nice + idle))"

interpretation system_cpu: interval_monitor SystemCpuMonitor_start SystemCpuMonitor_stop "\<lambda>_. ()"
  "\<lambda>m. if sm_started m then Some (busy_time m, total_time m) else None" "\<lambda>_. cpu_times"
  "\<lambda>_ stat. \<not> isl (readTime stat)" "\<lambda>_ (stat, _, _). \<not> isl (readTime stat)"
  "\<lambda>_ (_, all_time) (stat, _, _). snd (cpu_times stat) \<noteq> all_time"
  "\<lambda>_ (busy, all_time) (stat, processors, _).
     real (unat (fst (cpu_times stat) - busy)) / real (unat (snd (cpu_times stat) - all_time)) * real processors"
  observations window_size monitor_wf
proof (unfold_locales, goal_cases)
  case (1 m)
  then show ?case by (rule monitor_wf_bounded)
next
  case (3 m stat)
  then show ?case
    by (auto simp: SystemCpuMonitor_start_def cpu_times_def isl_def split: sum.splits if_splits)
next
  case (4 m call)
  obtain stat processors now where call: "call = (stat, processors, now)" by (cases call)
  with 4 obtain times where "readTime stat = Inr times" by (cases "readTime stat") auto
  with 4 show ?case by (cases times) (auto simp: SystemCpuMonitor_stop_def call Let_def split: if_splits)
next
  case (5 m k call)
  obtain stat processors now where call: "call = (stat, processors, now)" by (cases call)
  have m: "monitor_wf m" "sm_started m" "k = (busy_time m, total_time m)"
    using 5 by (auto split: if_splits)
  obtain user nice sys idle where r: "readTime stat = Inr (user, nice, sys, idle)"
    using 5 call by (cases "readTime stat") auto
  have times: "cpu_times stat = (user + sys + nice, user + sys + nice + idle)"
    by (simp add: cpu_times_def r)
  let ?v = "real (unat (user + sys + nice - busy_time m))
    / real (unat (user + sys + nice + idle - total_time m)) * real processors"
  have "monitor_wf (m\<lparr>sm_started := False\<rparr>)" using m by simp
  then obtain p where "Monitor_push now ?v (m\<lparr>sm_started := False\<rparr>) = (m\<lparr>sm_started := False, statistics := p\<rparr>, None)"
    "cb_wf (window p)" "maximum_number_element (window p) = window_size m"
    "cb_contents (window p) = last_n (window_size m) (observations m @ [?v])"
    using Monitor_push_records [of "m\<lparr>sm_started := False\<rparr>" now ?v] by auto
  moreover have "user + sys + nice + idle - total_time m \<noteq> 0"
    using 5 by (simp add: call m(3) times)
  ultimately show ?case
    using m times by (simp add: call SystemCpuMonitor_stop_def r Let_def checkTotal_def monitor_wf_def)
qed (auto simp: SystemCpuMonitor_start_def split: if_splits)

text \<open>The first line of \<^verbatim>\<open>/proc/stat\<close>, followed by the lines of the single processors.\<close>

definition stat_file :: "nat list \<Rightarrow> string \<Rightarrow> string" where
  "stat_file counters others = ''cpu '' @ number_fields counters @ [CHR 0x0A] @ others"

lemma readTime_stat_file:
  assumes "length counters = 10" and "\<forall>n \<in> set counters. n < 2 ^ 64"
  shows "readTime (Some (stat_file counters others))
    = Inr (word_of_nat (counters ! 0), word_of_nat (counters ! 1), word_of_nat (counters ! 2), word_of_nat (counters ! 3))"
proof -
  have "fscanf_after_word 10 (stat_file counters others) = Assigned (take 10 counters)"
    using fscanf_line [of "''cpu''" "'' ''" counters "[CHR 0x0A] @ others" 10] assms
    by (simp add: stat_file_def is_space_def is_digit_def)
  moreover obtain a b c d cs where "counters = a # b # c # d # cs"
    using assms(1) by (auto simp: length_Suc_conv numeral_eq_Suc)
  ultimately show ?thesis using assms(1) by (simp add: readTime_def)
qed

lemma unat_counter_difference:
  assumes "a \<le> b" and "b < 2 ^ 64"
  shows "unat (word_of_nat b - word_of_nat a :: 64 word) = b - a"
proof -
  have "word_of_nat b - word_of_nat a = (word_of_nat (b - a) :: 64 word)"
    using assms(1) by (simp add: of_nat_diff)
  moreover have "b - a < 2 ^ LENGTH(64)" using assms(2) by simp
  ultimately show ?thesis by (simp only: unat_of_nat mod_less)
qed

lemma cpu_times_stat_file:
  assumes "length counters = 10" and "\<forall>n \<in> set counters. n < 2 ^ 64"
  shows "cpu_times (Some (stat_file counters others))
    = (word_of_nat (sum_list (take 3 counters)), word_of_nat (sum_list (take 4 counters)))"
proof -
  obtain a b c d cs where "counters = a # b # c # d # cs"
    using assms(1) by (auto simp: length_Suc_conv numeral_eq_Suc)
  then show ?thesis
    using readTime_stat_file [OF assms, of others] by (simp add: cpu_times_def ac_simps numeral_eq_Suc)
qed

text \<open>
  C36: in an interval the system monitor records the growth of the first three counters of
  \<^verbatim>\<open>/proc/stat\<close> (user, nice, system) relative to the growth of the first four (with idle), times the
  number of processors. The six counters that follow (waiting for the disk, interrupts, time taken
  by other virtual machines) are read, and the code means to add them, but they have no influence.
\<close>

theorem system_cpu_measures_four_counters:
  assumes "0 < n" and "length before = 10" and "length after = 10"
    and "\<forall>c \<in> set (before @ after). c < 2 ^ 64" and "sum_list (take 4 after) < 2 ^ 64"
    and "sum_list (take 3 before) \<le> sum_list (take 3 after)"
    and "sum_list (take 4 before) < sum_list (take 4 after)"
  shows "\<exists>m. run_interval_calls SystemCpuMonitor_start SystemCpuMonitor_stop
      [Call_start (Some (stat_file before cpus)), Call_stop (Some (stat_file after cpus'), processors, now)]
      (SystemCpuMonitor b t garbage t0 n) = (m, None)
    \<and> observations m = [real (sum_list (take 3 after) - sum_list (take 3 before))
        / real (sum_list (take 4 after) - sum_list (take 4 before)) * real processors]"
proof -
  let ?m = "SystemCpuMonitor b t garbage t0 n"
  let ?cs = "[Call_start (Some (stat_file before cpus)), Call_stop (Some (stat_file after cpus'), processors, now)]"
  have m: "monitor_wf ?m" "observations ?m = []" "window_size ?m = n" "\<not> sm_started ?m"
    using assms(1) by (simp_all add: SystemCpuMonitor_def monitor_wf_def observations_def window_size_def)
  have read: "\<not> isl (readTime (Some (stat_file before cpus)))" "\<not> isl (readTime (Some (stat_file after cpus')))"
    using readTime_stat_file assms(2-4) by simp_all
  have times: "cpu_times (Some (stat_file before cpus))
      = (word_of_nat (sum_list (take 3 before)), word_of_nat (sum_list (take 4 before)))"
    "cpu_times (Some (stat_file after cpus'))
      = (word_of_nat (sum_list (take 3 after)), word_of_nat (sum_list (take 4 after)))"
    using cpu_times_stat_file assms(2-4) by simp_all
  have "sum_list (take 3 after) \<le> sum_list (take 4 after)"
    using assms(3) by (auto simp: length_Suc_conv numeral_eq_Suc)
  then have busy: "unat (fst (cpu_times (Some (stat_file after cpus'))) - fst (cpu_times (Some (stat_file before cpus))))
      = sum_list (take 3 after) - sum_list (take 3 before)"
    and all: "unat (snd (cpu_times (Some (stat_file after cpus'))) - snd (cpu_times (Some (stat_file before cpus))))
      = sum_list (take 4 after) - sum_list (take 4 before)"
    using assms(5-7) unat_counter_difference by (simp_all add: times)
  then have "snd (cpu_times (Some (stat_file after cpus'))) \<noteq> snd (cpu_times (Some (stat_file before cpus)))"
    using assms(7) by auto
  then show ?thesis
    using system_cpu.run_calls_records [of ?m ?cs] m assms(1) read arg_cong [OF busy, of real] arg_cong [OF all, of real]
    by (auto simp: system_cpu.readable_def case_prod_beta)
qed

theorem system_cpu_measures_four_counters_witness:
  "\<exists>m. run_interval_calls SystemCpuMonitor_start SystemCpuMonitor_stop
      [Call_start (Some (stat_file [100, 0, 0, 500, 0, 0, 0, 0, 0, 0] [])),
       Call_stop (Some (stat_file [110, 0, 0, 510, 0, 800, 180, 0, 0, 0] []), 4, 7)]
      (SystemCpuMonitor 0 0 0 0 1) = (m, None)
    \<and> observations m = [2]"
  using system_cpu_measures_four_counters
    [of 1 "[100, 0, 0, 500, 0, 0, 0, 0, 0, 0]" "[110, 0, 0, 510, 0, 800, 180, 0, 0, 0]" "[]" "[]" 4 7 0 0 0 0]
  by simp

text \<open>
  A \<open>start\<close> that cannot read the counters has already set its flag: it fails, and the \<open>stop\<close> that
  follows records the time since the last reading, however long ago that was.
\<close>

lemma failed_start_counts_as_started:
  assumes "\<not> sm_started m" and "readTime proc_stat = Inl e"
  shows "SystemCpuMonitor_start proc_stat m = (m\<lparr>sm_started := True\<rparr>, Some e)"
  using assms by (simp add: SystemCpuMonitor_start_def Let_def)

section \<open>The memory of the process\<close>

text \<open>\<^verbatim>\<open>page_size\<close> is computed once, in kilobytes.\<close>

definition page_size :: "nat \<Rightarrow> nat" where
  "page_size sc_page_size = sc_page_size div 1024"

definition MemoryMonitor :: "real \<Rightarrow> nat \<Rightarrow> nat \<Rightarrow> monitor_base" where
  "MemoryMonitor garbage now n = \<lparr>statistics = StatisticalProvider garbage now n\<rparr>"

definition extractMemoryUsage :: "nat \<Rightarrow> string option \<Rightarrow> nat \<Rightarrow> monitor_base \<Rightarrow> monitor_base attempt" where
  "extractMemoryUsage sc_page_size statm now m =
     (case statm of
        None \<Rightarrow> (m, Some (Undefined_behaviour ''fscanf of a null FILE''))
      | Some s \<Rightarrow>
          (case fscanf_after_word 1 s of
             EOF \<Rightarrow> (m, Some (Runtime_error ''Error, can't get the memory measure''))
           | Assigned [] \<Rightarrow> (m, Some (Undefined_behaviour ''memory_usage_kb is indeterminate''))
           | Assigned (pages # _) \<Rightarrow> Monitor_push now (real (pages * page_size sc_page_size mod 2 ^ 64)) m))"

text \<open>
  \<^verbatim>\<open>fgets\<close> with room for 256 characters: it stops after a newline, after 255 characters or at the
  end of the file, and only then \<^verbatim>\<open>feof\<close> holds.
\<close>

definition fgets :: "string \<Rightarrow> string \<times> string \<times> bool" where
  "fgets s =
     (let text = takeWhile (\<lambda>c. c \<noteq> CHR 0x0A) s;
          line = (if length text < length s then text @ [CHR 0x0A] else text);
          chunk = take 255 line;
          rest = drop (length chunk) s
      in (chunk, rest, length chunk < 255 \<and> length text = length s))"

lemma fgets_decreases:
  assumes "s \<noteq> []" and "fgets s = (chunk, rest, eof)"
  shows "length rest < length s"
proof -
  let ?text = "takeWhile (\<lambda>c. c \<noteq> CHR 0x0A) s"
  let ?line = "if length ?text < length s then ?text @ [CHR 0x0A] else ?text"
  have "?line \<noteq> []" using assms(1) by (cases "?text = []") auto
  then have "0 < length (take 255 ?line)" by simp
  moreover have "rest = drop (length (take 255 ?line)) s" using assms(2) by (auto simp: fgets_def Let_def)
  ultimately show ?thesis using assms(1) by (simp only: length_drop) simp
qed

function vm_peak_loop :: "bool \<Rightarrow> string \<Rightarrow> nat result" where
  "vm_peak_loop eof s =
     (if eof then Inr 0
      else if s = [] then Inl (Runtime_error ''Error, can't get the VmPeakSize'')
      else case fgets s of (buf, rest, eof') \<Rightarrow>
        if take 7 buf \<noteq> ''VmPeak:'' then vm_peak_loop eof' rest
        else Inr (case fscanf_after_word 1 buf of Assigned (v # _) \<Rightarrow> v | _ \<Rightarrow> 0))"
  by pat_completeness auto

termination
  by (relation "measure (\<lambda>(_, s). length s)") (auto intro: fgets_decreases [OF _ sym])

declare vm_peak_loop.simps [simp del]

definition extractVmPeakSize :: "string option \<Rightarrow> nat result" where
  "extractVmPeakSize status =
     (case status of
        None \<Rightarrow> Inl (Undefined_behaviour ''feof of a null FILE'')
      | Some s \<Rightarrow> vm_peak_loop False s)"

text \<open>A file of complete lines, none too long for the buffer.\<close>

definition lines_of :: "string list \<Rightarrow> string" where
  "lines_of ls = concat (map (\<lambda>l. l @ [CHR 0x0A]) ls)"

lemma fgets_line:
  assumes "CHR 0x0A \<notin> set l" and "length l < 255"
  shows "fgets (l @ CHR 0x0A # s) = (l @ [CHR 0x0A], s, False)"
proof -
  have "takeWhile (\<lambda>c. c \<noteq> CHR 0x0A) (l @ CHR 0x0A # s) = l"
    using assms(1) by (subst takeWhile_append2) auto
  then show ?thesis using assms(2) by (simp add: fgets_def Let_def)
qed

text \<open>
  The peak size is read from the first line that starts with the keyword. Without such a line
  the loop ends with the exception, not with the zero that follows it.
\<close>

theorem vm_peak_of_status_file:
  assumes "\<forall>l \<in> set ls. CHR 0x0A \<notin> set l \<and> length l < 255"
  shows "extractVmPeakSize (Some (lines_of ls)) =
    (case filter (\<lambda>l. take 7 (l @ [CHR 0x0A]) = ''VmPeak:'') ls of
       [] \<Rightarrow> Inl (Runtime_error ''Error, can't get the VmPeakSize'')
     | l # _ \<Rightarrow> Inr (case fscanf_after_word 1 (l @ [CHR 0x0A]) of Assigned (v # _) \<Rightarrow> v | _ \<Rightarrow> 0))"
proof -
  have "vm_peak_loop False (lines_of ls) =
    (case filter (\<lambda>l. take 7 (l @ [CHR 0x0A]) = ''VmPeak:'') ls of
       [] \<Rightarrow> Inl (Runtime_error ''Error, can't get the VmPeakSize'')
     | l # _ \<Rightarrow> Inr (case fscanf_after_word 1 (l @ [CHR 0x0A]) of Assigned (v # _) \<Rightarrow> v | _ \<Rightarrow> 0))"
    using assms
  proof (induction ls)
    case Nil
    show ?case by (simp add: lines_of_def vm_peak_loop.simps)
  next
    case (Cons l ls)
    have "lines_of (l # ls) = l @ CHR 0x0A # lines_of ls" by (simp add: lines_of_def)
    moreover have "fgets (l @ CHR 0x0A # lines_of ls) = (l @ [CHR 0x0A], lines_of ls, False)"
      using Cons.prems by (intro fgets_line) auto
    ultimately show ?case
      using Cons by (subst vm_peak_loop.simps) simp
  qed
  then show ?thesis by (simp add: extractVmPeakSize_def)
qed

theorem vm_peak_of_status_file_witness:
  "extractVmPeakSize (Some (lines_of [''Name: x'', ''VmPeak:     8120 kB'', ''VmSize: 2 kB''])) = Inr 8120"
  using vm_peak_of_status_file [of "[''Name: x'', ''VmPeak:     8120 kB'', ''VmSize: 2 kB'']"]
  by (simp add: fscanf_after_word_def fscanf_unsigneds_def scan_unsigned_def skip_word_def Let_def
      is_space_def is_digit_def nat_of_string_def digit_value_def)

section \<open>The frequency of the cores\<close>

text \<open>\<open>cpufreq i\<close> is the content of \<^verbatim>\<open>scaling_cur_freq\<close> of the core \<open>i\<close>.\<close>

record frequency_monitor = monitor_base +
  interested_core :: "nat list"

text \<open>The loop of the constructor ends with the first core that has no such file.\<close>

partial_function (option) detect_cores :: "(nat \<Rightarrow> string option) \<Rightarrow> nat \<Rightarrow> nat list \<Rightarrow> nat list option" where
  "detect_cores cpufreq number_cores found =
     (case cpufreq number_cores of
        None \<Rightarrow> Some found
      | Some _ \<Rightarrow> detect_cores cpufreq (Suc number_cores) (found @ [number_cores]))"

definition FrequencyMonitor ::
  "(nat \<Rightarrow> string option) \<Rightarrow> real \<Rightarrow> nat \<Rightarrow> nat \<Rightarrow> frequency_monitor result option" where
  "FrequencyMonitor cpufreq garbage now n =
     map_option (\<lambda>found. guard_assert (length found > 0) ''Error: unable to detect the frequency of any core''
       (Inr \<lparr>statistics = StatisticalProvider garbage now n, interested_core = found\<rparr>))
       (detect_cores cpufreq 0 [])"

text \<open>One turn of the loop over the cores: \<open>value\<close> keeps its content when nothing is assigned.\<close>

definition frequency_step ::
  "(nat \<Rightarrow> string option) \<Rightarrow> nat \<Rightarrow> nat \<Rightarrow> nat \<times> nat \<Rightarrow> (nat \<times> nat) result" where
  "frequency_step cpufreq cores cpuid = (\<lambda>(v, avg).
     case cpufreq cpuid of
       None \<Rightarrow> Inr (v, avg)
     | Some s \<Rightarrow>
         (case fscanf_unsigneds 1 s of
            EOF \<Rightarrow> Inl (Assertion_failed ''the frequency monitor is unable to read the freqency of a core'')
          | Assigned vs \<Rightarrow>
              let v = (case vs of [] \<Rightarrow> v | n # _ \<Rightarrow> n mod 2 ^ 32)
              in Inr (v, (avg + v div cores) mod 2 ^ 32)))"

fun frequency_loop :: "(nat \<Rightarrow> string option) \<Rightarrow> nat \<Rightarrow> nat list \<Rightarrow> nat \<times> nat \<Rightarrow> (nat \<times> nat) result" where
  "frequency_loop cpufreq cores [] acc = Inr acc"
| "frequency_loop cpufreq cores (cpuid # cs) acc =
     bind_result (frequency_step cpufreq cores cpuid acc) (frequency_loop cpufreq cores cs)"

definition FrequencyMonitor_measure ::
  "(nat \<Rightarrow> string option) \<Rightarrow> nat \<Rightarrow> frequency_monitor \<Rightarrow> frequency_monitor attempt" where
  "FrequencyMonitor_measure cpufreq now m =
     attempt (frequency_loop cpufreq (length (interested_core m)) (interested_core m) (0, 0)) m
       (\<lambda>(v, avg). Monitor_push now (real avg) m)"

definition FrequencyMonitor_cores ::
  "(nat \<Rightarrow> string option) \<Rightarrow> nat list \<Rightarrow> frequency_monitor \<Rightarrow> frequency_monitor attempt" where
  "FrequencyMonitor_cores cpufreq cores m =
     (if list_all (\<lambda>cpuid. cpufreq cpuid \<noteq> None) cores
      then (m\<lparr>interested_core := cores\<rparr>, None)
      else (m, Some (Assertion_failed ''the frequency monitor is not able to read at least one core of the selected ones'')))"

text \<open>The constructor finds the cores that precede the first missing one, if there is one.\<close>

lemma detect_cores_finds:
  assumes "cpufreq (k + n) = None" and "\<forall>i < n. cpufreq (k + i) \<noteq> None"
  shows "detect_cores cpufreq k found = Some (found @ [k..<k + n])"
  using assms
proof (induction n arbitrary: k found)
  case 0
  then show ?case by (simp add: detect_cores.simps)
next
  case (Suc n)
  have "cpufreq k \<noteq> None" using Suc.prems(2) by force
  moreover have "\<forall>i < n. cpufreq (Suc k + i) \<noteq> None"
    using Suc.prems(2) by (metis Suc_less_eq add_Suc_right add_Suc)
  ultimately show ?case
    using Suc.IH [of "Suc k" "found @ [k]"] Suc.prems(1)
    by (subst detect_cores.simps) (auto simp: upt_conv_Cons)
qed

text \<open>The content of the file of a core that runs at the frequency \<open>f\<close>.\<close>

definition freq_file :: "nat \<Rightarrow> string" where
  "freq_file f = string_of_nat f @ [CHR 0x0A]"

lemma fscanf_freq_file: "f < 2 ^ 64 \<Longrightarrow> fscanf_unsigneds 1 (freq_file f) = Assigned [f]"
  using scan_unsigned_of_nat(1) [of f "[CHR 0x0A]"]
  by (simp add: fscanf_unsigneds_def freq_file_def is_digit_def Let_def)

lemma frequency_loop_sum:
  assumes "\<forall>c \<in> set cs. cpufreq c = Some (freq_file (f c)) \<and> f c < 2 ^ 32"
    and "avg + sum_list (map (\<lambda>c. f c div n) cs) < 2 ^ 32"
  shows "\<exists>v'. frequency_loop cpufreq n cs (v, avg) = Inr (v', avg + sum_list (map (\<lambda>c. f c div n) cs))"
  using assms
proof (induction cs arbitrary: v avg)
  case (Cons c cs)
  have "fscanf_unsigneds 1 (freq_file (f c)) = Assigned [f c]"
    using Cons.prems(1) by (intro fscanf_freq_file) simp
  then have "frequency_step cpufreq n c (v, avg) = Inr (f c, avg + f c div n)"
    using Cons.prems by (simp add: frequency_step_def Let_def)
  then show ?case using Cons.IH [of "avg + f c div n" "f c"] Cons.prems by (auto simp: add.assoc)
qed simp

lemma sum_of_quotients:
  assumes "0 < n"
  shows "n * sum_list (map (\<lambda>c. f c div n) cs) \<le> sum_list (map f cs)"
    and "cs \<noteq> [] \<Longrightarrow> sum_list (map f cs) < n * sum_list (map (\<lambda>c. f c div n) cs) + n * length cs"
proof -
  show "n * sum_list (map (\<lambda>c. f c div n) cs) \<le> sum_list (map f cs)"
    by (induction cs) (auto simp: distrib_left intro: add_mono)
  have "f c < n * (f c div n) + n" for c
    using assms by (metis div_mult_mod_eq mod_less_divisor mult.commute nat_add_left_cancel_less)
  then show "cs \<noteq> [] \<Longrightarrow> sum_list (map f cs) < n * sum_list (map (\<lambda>c. f c div n) cs) + n * length cs"
  proof (induction cs)
    case (Cons c cs)
    have rest: "sum_list (map f cs) \<le> n * sum_list (map (\<lambda>c. f c div n) cs) + n * length cs"
      using Cons by (cases "cs = []") (auto intro: less_imp_le)
    show ?case using add_less_le_mono [OF Cons.prems(2) [of c] rest] by (simp add: distrib_left)
  qed simp
qed

text \<open>
  \<open>measure\<close> divides the frequency of every core by the number of cores before it adds. With
  readable files the sum never overflows, the value pushed is at most the mean frequency of the
  selected cores, and it falls short of the mean by less than the number of cores.
\<close>

theorem frequency_is_nearly_the_mean:
  assumes "monitor_wf m" and "interested_core m \<noteq> []"
    and "\<forall>c \<in> set (interested_core m). cpufreq c = Some (freq_file (f c)) \<and> f c < 2 ^ 32"
  shows "\<exists>m' avg. FrequencyMonitor_measure cpufreq now m = (m', None)
    \<and> observations m' = last_n (window_size m) (observations m @ [real avg])
    \<and> real avg \<le> real (sum_list (map f (interested_core m))) / real (length (interested_core m))
    \<and> real (sum_list (map f (interested_core m))) / real (length (interested_core m))
        < real avg + real (length (interested_core m))"
proof -
  let ?cs = "interested_core m"
  define n where "n = length (interested_core m)"
  let ?avg = "sum_list (map (\<lambda>c. f c div n) ?cs)"
  have n: "0 < n" using assms(2) by (simp add: n_def)
  have "sum_list (map f cs) \<le> length cs * (2 ^ 32 - 1)" if "\<forall>c \<in> set cs. f c < 2 ^ 32" for cs
    using that by (induction cs) fastforce+
  then have "sum_list (map f ?cs) \<le> n * (2 ^ 32 - 1)"
    using assms(3) by (simp add: n_def)
  then have "n * ?avg \<le> n * (2 ^ 32 - 1)" using sum_of_quotients(1) [OF n, of f ?cs] by linarith
  then have small: "?avg < 2 ^ 32" using n by simp
  obtain v where v: "frequency_loop cpufreq n ?cs (0, 0) = Inr (v, ?avg)"
    using frequency_loop_sum [of ?cs cpufreq f 0 n 0] assms(3) small by auto
  obtain p where p: "Monitor_push now (real ?avg) m = (m\<lparr>statistics := p\<rparr>, None)"
    "cb_contents (window p) = last_n (window_size m) (observations m @ [real ?avg])"
    using Monitor_push_records [OF assms(1)] by blast
  have "real n * real ?avg \<le> real (sum_list (map f ?cs))"
    using sum_of_quotients(1) [OF n, of f ?cs] by (metis of_nat_le_iff of_nat_mult)
  then have low: "real ?avg \<le> real (sum_list (map f ?cs)) / real n" using n by (simp add: field_simps)
  have "sum_list (map f ?cs) < n * (?avg + n)"
    using sum_of_quotients(2) [OF n assms(2), of f] by (simp add: n_def distrib_left)
  then have "real (sum_list (map f ?cs)) < real n * (real ?avg + real n)"
    by (metis of_nat_less_iff of_nat_mult of_nat_add)
  then have high: "real (sum_list (map f ?cs)) / real n < real ?avg + real n"
    using n by (simp add: field_simps)
  show ?thesis
    using v p low high by (intro exI [of _ "m\<lparr>statistics := p\<rparr>"] exI [of _ ?avg])
      (simp add: FrequencyMonitor_measure_def n_def [symmetric])
qed

theorem frequency_is_nearly_the_mean_witness:
  "\<exists>m' avg. FrequencyMonitor_measure (\<lambda>c. Some (freq_file (1799999 + c))) 5
      \<lparr>statistics = StatisticalProvider 0 0 2, interested_core = [0, 1, 2]\<rparr> = (m', None)
    \<and> observations m' = [real avg] \<and> real avg \<le> 1800000 \<and> 1800000 < real avg + 3"
  using frequency_is_nearly_the_mean
    [of "\<lparr>statistics = StatisticalProvider 0 0 2, interested_core = [0, 1, 2]\<rparr>"
        "\<lambda>c. Some (freq_file (1799999 + c))" "\<lambda>c. 1799999 + c" 5]
  by (simp add: monitor_wf_def observations_def window_size_def)

end
