(* ===== verification/Energy_Monitor.thy ===== *)
theory Energy_Monitor
  imports Interval_Monitor
begin

text \<open>
  The monitors of energy and power: \<^verbatim>\<open>energy_monitor.cc\<close>, which reads the RAPL counters the kernel
  exports below \<^verbatim>\<open>/sys/class/powercap\<close>, and \<^verbatim>\<open>odroid_energy_monitor.cc\<close>,
  \<^verbatim>\<open>odroid_power_monitor.cc\<close> for the four power sensors of an Odroid board. The file system, which
  changes between two calls, is an argument. The main result is that the energy of an interval is
  exact although the counters wrap around.
\<close>

section \<open>The files of the RAPL domains\<close>

record sysfs =
  directory :: "string \<Rightarrow> bool"
  content :: "string \<Rightarrow> string option"

definition std_stoull :: "string \<Rightarrow> 64 word result" where
  "std_stoull s =
     (case read_integer s of
        None \<Rightarrow> Inl (Runtime_error ''std::invalid_argument'')
      | Some i \<Rightarrow> if \<bar>i\<bar> < 2 ^ 64 then Inr (word_of_int i) else Inl (Runtime_error ''std::out_of_range''))"

text \<open>A stream on a file that cannot be opened yields no character.\<close>

definition read_file :: "sysfs \<Rightarrow> string \<Rightarrow> string" where
  "read_file fs file = (case content fs file of None \<Rightarrow> [] | Some s \<Rightarrow> s)"

definition rapl_folder :: "nat \<Rightarrow> string" where
  "rapl_folder package = ''/sys/class/powercap/intel-rapl/intel-rapl:'' @ string_of_nat package"

partial_function (option) get_number_packages :: "sysfs \<Rightarrow> nat \<Rightarrow> nat option" where
  "get_number_packages fs n =
     (if directory fs (rapl_folder n) then get_number_packages fs (Suc n) else Some n)"

definition rapl_zone :: "string \<Rightarrow> nat \<Rightarrow> nat \<Rightarrow> string" where
  "rapl_zone domain package domain_index =
     rapl_folder package
     @ (if domain \<noteq> ''package''
        then ''/intel-rapl:'' @ string_of_nat package @ '':'' @ string_of_nat domain_index else [])"

type_synonym counter_files = "(string \<times> 64 word) list"

partial_function (option) get_file_from_package ::
  "sysfs \<Rightarrow> string \<Rightarrow> nat \<Rightarrow> nat \<Rightarrow> counter_files \<Rightarrow> counter_files result option" where
  "get_file_from_package fs domain package domain_index found =
     (case content fs (rapl_zone domain package domain_index @ ''/name'') of
        None \<Rightarrow> Some (Inr found)
      | Some zone_name \<Rightarrow>
          (case (if take (length domain) zone_name = domain
                 then bind_result (std_stoull (read_file fs (rapl_zone domain package domain_index @ ''/max_energy_range_uj'')))
                   (\<lambda>range. Inr (found @ [(rapl_zone domain package domain_index @ ''/energy_uj'', range)]))
                 else Inr found) of
             Inl e \<Rightarrow> Some (Inl e)
           | Inr files \<Rightarrow>
               if domain \<noteq> ''package'' then get_file_from_package fs domain package (Suc domain_index) files
               else Some (Inr files)))"

text \<open>The files of a package go before those found so far.\<close>

fun interested_files_loop ::
  "sysfs \<Rightarrow> string \<Rightarrow> nat list \<Rightarrow> nat list \<Rightarrow> counter_files \<Rightarrow> counter_files result option" where
  "interested_files_loop fs domain targets [] found = Some (Inr found)"
| "interested_files_loop fs domain targets (package # ps) found =
     (if targets \<noteq> [] \<and> package \<notin> set targets then interested_files_loop fs domain targets ps found
      else case get_file_from_package fs domain package 0 [] of
             None \<Rightarrow> None
           | Some (Inl e) \<Rightarrow> Some (Inl e)
           | Some (Inr files) \<Rightarrow> interested_files_loop fs domain targets ps (files @ found))"

definition get_interested_file_list ::
  "sysfs \<Rightarrow> nat \<Rightarrow> string \<Rightarrow> nat list \<Rightarrow> counter_files result option" where
  "get_interested_file_list fs max_number_packages domain targets =
     interested_files_loop fs domain targets [0..<max_number_packages] []"

definition get_measure :: "counter_files \<Rightarrow> sysfs \<Rightarrow> (64 word \<times> 64 word) list result" where
  "get_measure files fs =
     traverse (\<lambda>(file, range). bind_result (std_stoull (read_file fs file)) (\<lambda>v. Inr (v, range))) files"

section \<open>The energy monitor\<close>

record energy_monitor = monitor_base +
  extractor :: "sysfs \<Rightarrow> (64 word \<times> 64 word) list result"
  previous_measure :: "(64 word \<times> 64 word) list"
  em_started :: bool

datatype Domain = Cores | Uncores | Ram | Package

fun target_name :: "Domain \<Rightarrow> string" where
  "target_name Cores = ''core''"
| "target_name Uncores = ''uncore''"
| "target_name Ram = ''dram''"
| "target_name Package = ''package''"

text \<open>
  When nothing can be measured the constructor installs an extractor that throws. The searches of
  the constructor need not end in an arbitrary file system.
\<close>

definition EnergyMonitor ::
  "sysfs \<Rightarrow> Domain \<Rightarrow> nat list \<Rightarrow> real \<Rightarrow> nat \<Rightarrow> nat \<Rightarrow> energy_monitor result option" where
  "EnergyMonitor fs interested_domain target_packages garbage now n =
     (let with_extractor = (\<lambda>ex. Some (Inr \<lparr>statistics = StatisticalProvider garbage now n,
                                            extractor = ex, previous_measure = [], em_started = False\<rparr>))
      in case get_number_packages fs 0 of
           None \<Rightarrow> None
         | Some 0 \<Rightarrow> with_extractor (\<lambda>_. Inl (Runtime_error ''unable to find the RAPL file hierarchy''))
         | Some (Suc k) \<Rightarrow>
             (case get_interested_file_list fs (Suc k) (target_name interested_domain) target_packages of
                None \<Rightarrow> None
              | Some (Inl e) \<Rightarrow> Some (Inl e)
              | Some (Inr []) \<Rightarrow>
                  with_extractor (\<lambda>_. Inl (Runtime_error ''no information available for the target monitor''))
              | Some (Inr (f # files)) \<Rightarrow> with_extractor (get_measure (f # files))))"

definition EnergyMonitor_default :: "sysfs \<Rightarrow> real \<Rightarrow> nat \<Rightarrow> nat \<Rightarrow> energy_monitor result option" where
  "EnergyMonitor_default fs = EnergyMonitor fs Cores []"

definition EnergyMonitor_start :: "sysfs \<Rightarrow> energy_monitor \<Rightarrow> energy_monitor attempt" where
  "EnergyMonitor_start fs m =
     (if \<not> em_started m
      then attempt (extractor m fs) m (\<lambda>values. (m\<lparr>previous_measure := values, em_started := True\<rparr>, None))
      else (m, None))"

text \<open>The unsigned growth of one counter, and the sum in joules; \<^verbatim>\<open>at\<close> throws out of the range.\<close>

definition counter_growth :: "64 word \<times> 64 word \<Rightarrow> 64 word \<times> 64 word \<Rightarrow> 64 word" where
  "counter_growth previous actual =
     (if fst actual < fst previous then snd actual - fst previous + fst actual
      else fst actual - fst previous)"

fun accumulate :: "(64 word \<times> 64 word) list \<Rightarrow> (64 word \<times> 64 word) list \<Rightarrow> real \<Rightarrow> real result" where
  "accumulate [] actual accumulator = Inr accumulator"
| "accumulate (p # ps) [] accumulator = Inl (Runtime_error ''std::out_of_range'')"
| "accumulate (p # ps) (a # as) accumulator =
     accumulate ps as (accumulator + real (unat (counter_growth p a)) / 1000000)"

definition EnergyMonitor_stop :: "sysfs \<times> nat \<Rightarrow> energy_monitor \<Rightarrow> energy_monitor attempt" where
  "EnergyMonitor_stop = (\<lambda>(fs, now) m.
     if em_started m
     then attempt (extractor m fs) m (\<lambda>actual_values.
            attempt (accumulate (previous_measure m) actual_values 0) m (\<lambda>accumulator.
              and_then (Monitor_push now accumulator m) (\<lambda>m. (m\<lparr>em_started := False\<rparr>, None))))
     else (m, None))"

lemma EnergyMonitor_frame [simp]:
  "observations (m\<lparr>em_started := b\<rparr>) = observations m"
  "observations (m\<lparr>previous_measure := vs\<rparr>) = observations m"
  "window_size (m\<lparr>em_started := b\<rparr>) = window_size m"
  "window_size (m\<lparr>previous_measure := vs\<rparr>) = window_size m"
  "monitor_wf (m\<lparr>em_started := b\<rparr>) \<longleftrightarrow> monitor_wf m"
  "monitor_wf (m\<lparr>previous_measure := vs\<rparr>) \<longleftrightarrow> monitor_wf m"
  for m :: energy_monitor
  by (simp_all add: observations_def window_size_def monitor_wf_def)

text \<open>The measure of an interval, when its two readings succeed.\<close>

definition interval_energy ::
  "(sysfs \<Rightarrow> (64 word \<times> 64 word) list result) \<Rightarrow> (64 word \<times> 64 word) list \<Rightarrow> sysfs \<Rightarrow> real result" where
  "interval_energy ex previous fs = bind_result (ex fs) (\<lambda>actual. accumulate previous actual 0)"

interpretation energy: interval_monitor EnergyMonitor_start EnergyMonitor_stop extractor
  "\<lambda>m. if em_started m then Some (previous_measure m) else None" "\<lambda>ex fs. projr (ex fs)"
  "\<lambda>ex fs. \<not> isl (ex fs)" "\<lambda>ex (fs, _). \<not> isl (ex fs)"
  "\<lambda>ex previous (fs, _). \<not> isl (interval_energy ex previous fs)"
  "\<lambda>ex previous (fs, _). projr (interval_energy ex previous fs)"
  observations window_size monitor_wf
proof (unfold_locales, goal_cases)
  case (1 m)
  then show ?case by (rule monitor_wf_bounded)
next
  case (3 m fs)
  then obtain vs where "extractor m fs = Inr vs" by (cases "extractor m fs") auto
  with 3 show ?case by (auto simp: EnergyMonitor_start_def split: if_splits)
next
  case (5 m k call)
  obtain fs now where call: "call = (fs, now)" by (cases call)
  have m: "monitor_wf m" "em_started m" "previous_measure m = k" using 5 by (auto split: if_splits)
  obtain actual where ex: "extractor m fs = Inr actual" using 5 call by (cases "extractor m fs") auto
  obtain v where v: "accumulate k actual 0 = Inr v"
    using 5 call ex by (cases "accumulate k actual 0") (auto simp: interval_energy_def)
  obtain p where "Monitor_push now v m = (m\<lparr>statistics := p\<rparr>, None)" "cb_wf (window p)"
    "maximum_number_element (window p) = window_size m"
    "cb_contents (window p) = last_n (window_size m) (observations m @ [v])"
    using Monitor_push_records [OF m(1), of now v] by blast
  then show ?case using m ex v
    by (simp add: call EnergyMonitor_stop_def interval_energy_def monitor_wf_def)
qed (auto simp: EnergyMonitor_start_def EnergyMonitor_stop_def split: if_splits)

section \<open>Counters that wrap around\<close>

lemma counter_growth_wraps:
  fixes range :: "64 word"
  assumes "e < unat range"
  shows "unat (counter_growth (word_of_nat (c mod unat range), range) (word_of_nat ((c + e) mod unat range), range)) = e"
proof -
  let ?R = "unat range" and ?p = "c mod unat range"
  have R: "0 < ?R" "?R < 2 ^ 64" using assms unsigned_less [of range] by simp_all
  have p: "?p < ?R" using R by simp
  have range: "range = word_of_nat ?R" by simp
  have w: "unat (word_of_nat k :: 64 word) = k" if "k < ?R" for k
    using that R by (simp add: unat_of_nat)
  have next_count: "(c + e) mod ?R = (if ?p + e < ?R then ?p + e else ?p + e - ?R)"
  proof (cases "?p + e < ?R")
    case True
    then show ?thesis by (metis mod_add_left_eq mod_less)
  next
    case False
    moreover have "?p + e - ?R < ?R" using p assms by linarith
    ultimately have "(?p + e) mod ?R = ?p + e - ?R"
      by (simp only: le_mod_geq not_less mod_less)
    then show ?thesis using False by (simp add: mod_add_left_eq)
  qed
  show ?thesis
  proof (cases "?p + e < ?R")
    case True
    have "\<not> (word_of_nat (?p + e) :: 64 word) < word_of_nat ?p"
      unfolding word_less_nat_alt w [OF True] w [OF p] by simp
    then show ?thesis
      using True next_count w [of e] assms by (simp add: counter_growth_def)
  next
    case False
    let ?q = "?p + e - ?R"
    have q: "?q < ?p" using False assms p by linarith
    then have "(word_of_nat ?q :: 64 word) < word_of_nat ?p"
      unfolding word_less_nat_alt w [OF p] w [OF less_trans [OF q p]] .
    moreover have "range - word_of_nat ?p + word_of_nat ?q = (word_of_nat e :: 64 word)"
    proof -
      have "word_of_nat (?q + ?R) = (word_of_nat (?p + e) :: 64 word)" using False by simp
      then have "word_of_nat ?q + range = word_of_nat ?p + (word_of_nat e :: 64 word)"
        by (simp only: of_nat_add range [symmetric])
      then show ?thesis by (simp add: algebra_simps)
    qed
    ultimately show ?thesis
      using False next_count w [of e] assms by (simp add: counter_growth_def)
  qed
qed

lemma std_stoull_string_of_nat:
  assumes "n < 2 ^ 64"
  shows "std_stoull (string_of_nat n) = Inr (word_of_nat n)"
proof -
  have "read_integer (string_of_nat n) = Some (int n)"
    using read_to_string [of "int n"] by (simp add: std_to_string_def)
  then show ?thesis using assms by (simp add: std_stoull_def)
qed

text \<open>A counter file that holds the count modulo its range.\<close>

definition counts :: "sysfs \<Rightarrow> (string \<Rightarrow> nat) \<Rightarrow> counter_files \<Rightarrow> bool" where
  "counts fs c files \<longleftrightarrow>
     (\<forall>(file, range) \<in> set files. content fs file = Some (string_of_nat (c file mod unat range)))"

lemma get_measure_counts:
  assumes "counts fs c files" and "\<forall>(file, range) \<in> set files. 0 < unat range"
  shows "get_measure files fs
    = Inr (map (\<lambda>(file, range). (word_of_nat (c file mod unat range), range)) files)"
  unfolding get_measure_def
proof (rule traverse_Inr, clarify)
  fix f and range :: "64 word" assume f: "(f, range) \<in> set files"
  then have cont: "content fs f = Some (string_of_nat (c f mod unat range))" and r: "0 < unat range"
    using assms by (auto simp: counts_def)
  have "unat range < 2 ^ 64" using unsigned_less [of range] by simp
  then have "c f mod unat range < 2 ^ 64" using mod_less_divisor [OF r, of "c f"] by linarith
  then show "bind_result (std_stoull (read_file fs f)) (\<lambda>v. Inr (v, range))
      = Inr (word_of_nat (c f mod unat range), range)"
    by (simp add: read_file_def cont std_stoull_string_of_nat)
qed

lemma accumulate_growth:
  "accumulate (map g xs) (map h xs) a = Inr (a + sum_list (map (\<lambda>x. real (unat (counter_growth (g x) (h x))) / 1000000) xs))"
  by (induction xs arbitrary: a) simp_all


text \<open>A processor with one package, whose counter has a range of 1000 microjoules.\<close>

definition sample_sysfs :: "nat \<Rightarrow> sysfs" where
  "sample_sysfs count =
     \<lparr>directory = (\<lambda>d. d = rapl_folder 0),
      content = [rapl_folder 0 @ ''/name'' \<mapsto> ''package-0'', rapl_folder 0 @ ''/max_energy_range_uj'' \<mapsto> ''1000'',
                 rapl_folder 0 @ ''/energy_uj'' \<mapsto> string_of_nat count]\<rparr>"


section \<open>The power sensors of the Odroid board\<close>

text \<open>
  What a sensor file holds when it is read. Text that is no number leaves the variable of the
  caller, which starts with zero.
\<close>

datatype sensor_file = No_file | End_of_file | No_number | Watt real

record sensors =
  big :: sensor_file
  little :: sensor_file
  gpu :: sensor_file
  memory :: sensor_file

definition read_power :: "string \<Rightarrow> sensor_file \<Rightarrow> real result" where
  "read_power name f =
     (case f of
        No_file \<Rightarrow> Inl (Runtime_error (''unable to open the sensor_W file '' @ name))
      | End_of_file \<Rightarrow> Inl (Runtime_error (''unable to parse the sensor_W file '' @ name))
      | No_number \<Rightarrow> Inr 0
      | Watt w \<Rightarrow> Inr w)"

definition readBigPower :: "sensors \<Rightarrow> real result" where "readBigPower s = read_power ''(BIG)'' (big s)"
definition readLittlePower :: "sensors \<Rightarrow> real result" where "readLittlePower s = read_power ''(LITTLE)'' (little s)"
definition readMemoryPower :: "sensors \<Rightarrow> real result" where "readMemoryPower s = read_power ''(MEM)'' (memory s)"
definition readGpuPower :: "sensors \<Rightarrow> real result" where "readGpuPower s = read_power ''(GPU)'' (gpu s)"

definition readTotalPower :: "sensors \<Rightarrow> real result" where
  "readTotalPower s =
     bind_result (readBigPower s) (\<lambda>power_big.
     bind_result (readLittlePower s) (\<lambda>power_little.
     bind_result (readGpuPower s) (\<lambda>power_gpu.
     bind_result (readMemoryPower s) (\<lambda>power_memory.
       Inr (power_big + power_little + power_gpu + power_memory)))))"

text \<open>
  The energy monitor polls the sensors in a thread of its own, with which it shares the interface
  object. One turn of the loop of the thread is a step; the loop ends with \<open>end_monitor\<close>.
\<close>

record polling_thread =
  total_energy :: real
  end_monitor :: bool
  st_started :: bool

definition synchronous_thread_if :: "polling_thread" where
  "synchronous_thread_if = \<lparr>total_energy = 0, end_monitor = False, st_started = False\<rparr>"

definition power_turn :: "nat \<Rightarrow> sensors \<Rightarrow> polling_thread \<Rightarrow> polling_thread attempt" where
  "power_turn polling_time_ms s t =
     (if end_monitor t then (t, None)
      else if st_started t
           then attempt (readTotalPower s) t
                  (\<lambda>power. (t\<lparr>total_energy := total_energy t + power * real polling_time_ms\<rparr>, None))
           else (t, None))"

fun synchronous_power_call :: "nat \<Rightarrow> sensors list \<Rightarrow> polling_thread \<Rightarrow> polling_thread attempt" where
  "synchronous_power_call polling_time_ms [] t = (t, None)"
| "synchronous_power_call polling_time_ms (s # ss) t =
     and_then (power_turn polling_time_ms s t) (synchronous_power_call polling_time_ms ss)"

definition thread_start :: "polling_thread \<Rightarrow> polling_thread" where
  "thread_start t = t\<lparr>st_started := True, total_energy := 0\<rparr>"

definition thread_stop :: "polling_thread \<Rightarrow> real \<times> polling_thread" where
  "thread_stop t = (total_energy t, t\<lparr>st_started := False\<rparr>)"

record odroid_energy_monitor = monitor_base +
  om_thread :: "polling_thread option"
  om_started :: bool

text \<open>The constructor with a window size alone sets neither the flag nor the thread.\<close>

definition OdroidEnergyMonitor_default :: "bool \<Rightarrow> real \<Rightarrow> nat \<Rightarrow> nat \<Rightarrow> odroid_energy_monitor" where
  "OdroidEnergyMonitor_default flag garbage now n =
     \<lparr>statistics = StatisticalProvider garbage now n, om_thread = None, om_started = flag\<rparr>"

definition OdroidEnergyMonitor :: "real \<Rightarrow> nat \<Rightarrow> nat \<Rightarrow> odroid_energy_monitor" where
  "OdroidEnergyMonitor garbage now n =
     \<lparr>statistics = StatisticalProvider garbage now n, om_thread = Some synchronous_thread_if, om_started = False\<rparr>"

definition OdroidEnergyMonitor_start :: "odroid_energy_monitor \<Rightarrow> odroid_energy_monitor attempt" where
  "OdroidEnergyMonitor_start m =
     (if om_started m then (m, None)
      else let m = m\<lparr>om_started := True\<rparr>
           in (case om_thread m of
                 None \<Rightarrow> (m, Some (Undefined_behaviour ''null synchronous_thread_if''))
               | Some t \<Rightarrow> (m\<lparr>om_thread := Some (thread_start t)\<rparr>, None)))"

definition OdroidEnergyMonitor_stop :: "nat \<Rightarrow> odroid_energy_monitor \<Rightarrow> odroid_energy_monitor attempt" where
  "OdroidEnergyMonitor_stop now m =
     (if \<not> om_started m then (m, None)
      else let m = m\<lparr>om_started := False\<rparr>
           in (case om_thread m of
                 None \<Rightarrow> (m, Some (Undefined_behaviour ''null synchronous_thread_if''))
               | Some t \<Rightarrow> (case thread_stop t of (e, t) \<Rightarrow> Monitor_push now e (m\<lparr>om_thread := Some t\<rparr>))))"

text \<open>The thread between a start and a stop of the monitor adds what it polls.\<close>

lemma synchronous_power_call_adds:
  assumes "st_started t" and "\<not> end_monitor t" and "list_all2 (\<lambda>s p. readTotalPower s = Inr p) ss ps"
  shows "synchronous_power_call ms ss t = (t\<lparr>total_energy := total_energy t + sum_list ps * real ms\<rparr>, None)"
  using assms(3,1,2)
proof (induction arbitrary: t rule: list_all2_induct)
  case (Cons s ss p ps)
  then show ?case by (simp add: power_turn_def algebra_simps)
qed simp

lemma odroid_interval_energy:
  assumes "om_thread m = Some t" and "\<not> om_started m" and "\<not> end_monitor t" and "monitor_wf m"
    and "list_all2 (\<lambda>s p. readTotalPower s = Inr p) ss ps"
  shows "\<exists>m1 t1 t2 m2. OdroidEnergyMonitor_start m = (m1, None) \<and> om_thread m1 = Some t1
    \<and> synchronous_power_call ms ss t1 = (t2, None)
    \<and> OdroidEnergyMonitor_stop now (m1\<lparr>om_thread := Some t2\<rparr>) = (m2, None)
    \<and> observations m2 = last_n (window_size m) (observations m @ [sum_list ps * real ms])"
proof -
  let ?t2 = "(thread_start t)\<lparr>total_energy := sum_list ps * real ms\<rparr>"
  let ?m = "m\<lparr>om_started := False, om_thread := Some (?t2\<lparr>st_started := False\<rparr>)\<rparr>"
  have "monitor_wf ?m" "observations ?m = observations m" "window_size ?m = window_size m"
    using assms(4) by (simp_all add: monitor_wf_def observations_def window_size_def)
  then obtain p where "Monitor_push now (sum_list ps * real ms) ?m = (?m\<lparr>statistics := p\<rparr>, None)"
    "cb_contents (window p) = last_n (window_size m) (observations m @ [sum_list ps * real ms])"
    using Monitor_push_records [of ?m now "sum_list ps * real ms"] by auto
  moreover have "synchronous_power_call ms ss (thread_start t) = (?t2, None)"
    using synchronous_power_call_adds [of "thread_start t" ss ps ms] assms by (simp add: thread_start_def)
  ultimately show ?thesis
    using assms(1,2)
    by (auto simp: OdroidEnergyMonitor_start_def OdroidEnergyMonitor_stop_def thread_stop_def thread_start_def Let_def)
qed

text \<open>
  The power monitor samples the sensors at \<open>stop\<close>. Its readers do not check that the file could be
  opened.
\<close>

record odroid_power_monitor = monitor_base +
  op_started :: bool

definition OdroidPowerMonitor :: "real \<Rightarrow> nat \<Rightarrow> nat \<Rightarrow> odroid_power_monitor" where
  "OdroidPowerMonitor garbage now n = \<lparr>statistics = StatisticalProvider garbage now n, op_started = False\<rparr>"

definition sample_power :: "string \<Rightarrow> sensor_file \<Rightarrow> real result" where
  "sample_power name f =
     (case f of
        No_file \<Rightarrow> Inl (Undefined_behaviour ''fscanf of a null FILE'')
      | End_of_file \<Rightarrow> Inl (Runtime_error (''unable to parse the sensor_W file '' @ name))
      | No_number \<Rightarrow> Inr 0
      | Watt w \<Rightarrow> Inr w)"

definition OdroidPowerMonitor_start :: "odroid_power_monitor \<Rightarrow> odroid_power_monitor attempt" where
  "OdroidPowerMonitor_start m = (if op_started m then (m, None) else (m\<lparr>op_started := True\<rparr>, None))"

definition OdroidPowerMonitor_stop :: "sensors \<times> nat \<Rightarrow> odroid_power_monitor \<Rightarrow> odroid_power_monitor attempt" where
  "OdroidPowerMonitor_stop = (\<lambda>(s, now) m.
     if \<not> op_started m then (m, None)
     else let m = m\<lparr>op_started := False\<rparr>
          in attempt (sample_power ''(BIG)'' (big s)) m (\<lambda>power_big.
             attempt (sample_power ''(LITTLE)'' (little s)) m (\<lambda>power_little.
             attempt (sample_power ''(MEM)'' (memory s)) m (\<lambda>power_memory.
             attempt (sample_power ''(GPU)'' (gpu s)) m (\<lambda>power_gpu.
               Monitor_push now (power_big + power_little + power_gpu + power_memory) m)))))"

end
