(* ===== verification/Device_Monitor.thy ===== *)
theory Device_Monitor
  imports Interval_Monitor "HOL-Library.AList"
begin

text \<open>
  The monitors built on libraries: \<^verbatim>\<open>temperature_monitor.cc\<close> (libsensors), \<^verbatim>\<open>collector_monitor.cc\<close>
  (the MQTT collector) and \<^verbatim>\<open>papi_monitor.cc\<close> (PAPI). What a library answers is an argument. The main
  result is about the interface to PAPI: the test that decides whether an event is new is negated,
  so no event is ever registered.
\<close>

section \<open>The temperature\<close>

text \<open>
  A chip as libsensors lists it: the prefix of its name and its features, each with the number of
  its input and of its critical temperature, where it has them.
\<close>

record sensors_feature =
  feature_number :: nat
  is_temperature :: bool
  subfeature_crit :: "nat option"
  subfeature_input :: "nat option"

record sensors_chip =
  prefix :: string
  features :: "sensors_feature list"

type_synonym sensors_value = "sensors_chip \<Rightarrow> nat \<Rightarrow> real option"

definition n_core_sensors :: "sensors_chip list \<Rightarrow> nat" where
  "n_core_sensors chips =
     sum_list (map (\<lambda>cn. if take 8 (prefix cn) = ''coretemp'' then length (filter is_temperature (features cn)) else 0) chips)"

record core_sensor =
  nr :: nat
  cn :: sensors_chip
  temp_input :: nat
  temp_crit :: "real option"
  ncpus :: nat

record temperature_sensor =
  ns :: nat
  nc :: nat
  core_sensors :: "core_sensor list"

text \<open>A missing subfeature is a null pointer, which is dereferenced.\<close>

definition core_sensor_of :: "sensors_value \<Rightarrow> nat \<Rightarrow> sensors_chip \<Rightarrow> sensors_feature \<Rightarrow> core_sensor result" where
  "core_sensor_of get num_sensor_per_cpu chip feat =
     (case (subfeature_crit feat, subfeature_input feat) of
        (Some crit, Some input) \<Rightarrow>
          Inr \<lparr>nr = feature_number feat, cn = chip, temp_input = input, temp_crit = get chip crit,
               ncpus = num_sensor_per_cpu\<rparr>
      | _ \<Rightarrow> Inl (Undefined_behaviour ''null sensors_subfeature''))"

definition TemperatureSensor :: "sensors_value \<Rightarrow> nat \<Rightarrow> sensors_chip list \<Rightarrow> temperature_sensor result" where
  "TemperatureSensor get processors chips =
     bind_result (traverse (\<lambda>chip.
         traverse (core_sensor_of get (n_core_sensors chips div processors) chip) (filter is_temperature (features chip)))
       (filter (\<lambda>chip. prefix chip = ''coretemp'') chips))
     (\<lambda>sensors. Inr \<lparr>ns = n_core_sensors chips, nc = processors, core_sensors = concat sensors\<rparr>)"

fun sum_temperatures :: "sensors_value \<Rightarrow> core_sensor list \<Rightarrow> real \<Rightarrow> real result" where
  "sum_temperatures get [] avg = Inr avg"
| "sum_temperatures get (s # ss) avg =
     (case get (cn s) (temp_input s) of
        None \<Rightarrow> Inl (Runtime_error ''Unable to retrieve monitor informations'')
      | Some temperature \<Rightarrow> sum_temperatures get ss (avg + temperature))"

text \<open>The conversion to an integer truncates towards zero.\<close>

definition truncate_real :: "real \<Rightarrow> int" where
  "truncate_real x = (if 0 \<le> x then \<lfloor>x\<rfloor> else \<lceil>x\<rceil>)"

definition TemperatureSensor_measure :: "sensors_value \<Rightarrow> temperature_sensor \<Rightarrow> int result" where
  "TemperatureSensor_measure get t =
     bind_result (sum_temperatures get (core_sensors t) 0)
       (\<lambda>avg. Inr (if ns t > 0 then truncate_real (avg / real (ns t)) else 0))"

definition TemperatureMonitor_measure ::
  "sensors_value \<Rightarrow> temperature_sensor \<Rightarrow> nat \<Rightarrow> monitor_base \<Rightarrow> monitor_base attempt" where
  "TemperatureMonitor_measure get sensor now m =
     attempt (TemperatureSensor_measure get sensor) m (\<lambda>v. Monitor_push now (real_of_int v) m)"

text \<open>
  When every chip of the cores is called \<open>coretemp\<close> exactly, the divisor is the number of sensors
  that are read, and the value is their truncated mean.
\<close>

lemma length_core_sensors:
  assumes "TemperatureSensor get processors chips = Inr t"
    and "\<forall>chip \<in> set chips. take 8 (prefix chip) = ''coretemp'' \<longrightarrow> prefix chip = ''coretemp''"
  shows "length (core_sensors t) = ns t"
proof -
  obtain ss where ss: "traverse (\<lambda>chip.
      traverse (core_sensor_of get (n_core_sensors chips div processors) chip) (filter is_temperature (features chip)))
      (filter (\<lambda>chip. prefix chip = ''coretemp'') chips) = Inr ss"
    and t: "core_sensors t = concat ss" "ns t = n_core_sensors chips"
    using assms(1) by (auto simp: TemperatureSensor_def)
  have len: "traverse f xs = Inr ys \<Longrightarrow> length ys = length xs" for f :: "sensors_feature \<Rightarrow> core_sensor result" and xs ys
    by (auto simp: traverse_eq_Inr dest: list_all2_lengthD)
  have "map length ss = map (\<lambda>chip. length (filter is_temperature (features chip)))
      (filter (\<lambda>chip. prefix chip = ''coretemp'') chips)"
    by (rule traverse_map [OF ss]) (auto dest: len)
  then have "length (core_sensors t) = sum_list (map (\<lambda>chip. length (filter is_temperature (features chip)))
      (filter (\<lambda>chip. prefix chip = ''coretemp'') chips))"
    by (simp add: t length_concat)
  also have "\<dots> = n_core_sensors chips"
    using assms(2) unfolding n_core_sensors_def by (induction chips) auto
  finally show ?thesis by (simp add: t)
qed

lemma sum_temperatures_sum:
  "list_all2 (\<lambda>s v. get (cn s) (temp_input s) = Some v) ss vs \<Longrightarrow> sum_temperatures get ss a = Inr (a + sum_list vs)"
  by (induction arbitrary: a rule: list_all2_induct) (simp_all add: add.assoc)

lemma temperature_is_the_mean:
  assumes "TemperatureSensor get processors chips = Inr t"
    and "\<forall>chip \<in> set chips. take 8 (prefix chip) = ''coretemp'' \<longrightarrow> prefix chip = ''coretemp''"
    and "list_all2 (\<lambda>s v. now_value (cn s) (temp_input s) = Some v) (core_sensors t) vs" and "vs \<noteq> []"
  shows "TemperatureSensor_measure now_value t = Inr (truncate_real (sum_list vs / real (length vs)))"
proof -
  have "length vs = ns t" using length_core_sensors [OF assms(1,2)] assms(3) by (metis list_all2_lengthD)
  then show ?thesis
    using sum_temperatures_sum [OF assms(3), of 0] assms(4) by (auto simp: TemperatureSensor_measure_def)
qed

section \<open>The collector\<close>

text \<open>The arguments are the codes that the collector returns, where zero is success, and its mean.\<close>

record collector_monitor = monitor_base +
  interface :: bool
  cm_started :: bool

definition CollectorMonitor_default :: "real \<Rightarrow> nat \<Rightarrow> nat \<Rightarrow> collector_monitor" where
  "CollectorMonitor_default garbage now n =
     \<lparr>statistics = StatisticalProvider garbage now n, interface = False, cm_started = False\<rparr>"

definition CollectorMonitor :: "int \<Rightarrow> real \<Rightarrow> nat \<Rightarrow> nat \<Rightarrow> collector_monitor result" where
  "CollectorMonitor collector_init garbage now n =
     (if collector_init \<noteq> 0 then Inl (Runtime_error ''Error: unable to initialize the collector monitor'')
      else Inr ((CollectorMonitor_default garbage now n)\<lparr>interface := True\<rparr>))"

definition CollectorMonitor_start :: "int \<Rightarrow> collector_monitor \<Rightarrow> collector_monitor attempt" where
  "CollectorMonitor_start collector_start m =
     (if \<not> cm_started m
      then if \<not> interface m then (m, Some (Undefined_behaviour ''null interface''))
           else if collector_start \<noteq> 0
                then (m, Some (Runtime_error ''Error: unable to start the collector measure''))
                else (m\<lparr>cm_started := True\<rparr>, None)
      else (m, None))"

definition CollectorMonitor_stop :: "int \<times> real \<times> nat \<Rightarrow> collector_monitor \<Rightarrow> collector_monitor attempt" where
  "CollectorMonitor_stop = (\<lambda>(collector_end, mean_val, now) m.
     if cm_started m
     then if \<not> interface m then (m, Some (Undefined_behaviour ''null interface''))
          else if collector_end \<noteq> 0
               then (m, Some (Runtime_error ''Error: unable to end the collector measure''))
               else Monitor_push now mean_val (m\<lparr>cm_started := False\<rparr>)
     else (m, None))"

interpretation collector: interval_monitor CollectorMonitor_start CollectorMonitor_stop "\<lambda>_. ()"
  "\<lambda>m. if cm_started m then Some () else None" "\<lambda>_ _. ()" "\<lambda>_ rc. rc = 0" "\<lambda>_ (rc, _, _). rc = 0"
  "\<lambda>_ _ _. True" "\<lambda>_ _ (_, mean_val, _). mean_val" observations window_size "\<lambda>m. monitor_wf m \<and> interface m"
proof (unfold_locales, goal_cases)
  case (1 m)
  then show ?case by (simp add: monitor_wf_bounded)
next
  case (3 m rc)
  then show ?case
    by (auto simp: CollectorMonitor_start_def observations_def window_size_def monitor_wf_def split: if_splits)
next
  case (5 m k call)
  obtain rc v now where call: "call = (rc, v, now)" by (cases call)
  let ?m = "m\<lparr>cm_started := False\<rparr>"
  have "monitor_wf ?m" "observations ?m = observations m" "window_size ?m = window_size m"
    using 5 by (simp_all add: monitor_wf_def observations_def window_size_def)
  then obtain p where "Monitor_push now v ?m = (?m\<lparr>statistics := p\<rparr>, None)" "cb_wf (window p)"
    "maximum_number_element (window p) = window_size m"
    "cb_contents (window p) = last_n (window_size m) (observations m @ [v])"
    using Monitor_push_records [of ?m now v] by auto
  then show ?case
    using 5 by (auto simp: call CollectorMonitor_stop_def monitor_wf_def window_size_def split: if_splits)
qed (auto simp: CollectorMonitor_start_def CollectorMonitor_stop_def split: if_splits)

section \<open>The interface to PAPI\<close>

record papi_event =
  counter :: nat
  position :: nat

text \<open>
  The map of the observed events is an association list with distinct keys. An iterator is the key
  of its element, and \<open>None\<close> the end; one to an erased element is dangling.
\<close>

record papi_interface =
  observed_events :: "(int \<times> papi_event) list"
  measuring :: bool
  papi_values :: "int list"

type_synonym event_ptr = "int option"

text \<open>The codes that PAPI returns; zero is \<^verbatim>\<open>PAPI_OK\<close>.\<close>

definition handle_error :: "int \<Rightarrow> margot_error" where
  "handle_error retval = Runtime_error (''PAPI exception '' @ std_to_string retval)"

definition papi_interface_if :: "bool \<Rightarrow> int \<Rightarrow> papi_interface result" where
  "papi_interface_if version_ok create_eventset =
     (if \<not> version_ok then Inl (Runtime_error ''PAPI init ERROR!'')
      else if create_eventset \<noteq> 0 then Inl (handle_error create_eventset)
      else Inr \<lparr>observed_events = [], measuring = False, papi_values = []\<rparr>)"

definition resize :: "nat \<Rightarrow> int list \<Rightarrow> int list" where
  "resize n xs = take n xs @ replicate (n - length xs) 0"

text \<open>\<open>insert\<close> with the answers of \<^verbatim>\<open>PAPI_query_event\<close> and \<^verbatim>\<open>PAPI_add_event\<close>.\<close>

definition papi_insert :: "int \<Rightarrow> int \<Rightarrow> int \<Rightarrow> papi_interface \<Rightarrow> papi_interface \<times> event_ptr result" where
  "papi_insert query_event add_event ev s =
     (if measuring s then (s, Inr None)
      else if query_event \<noteq> 0 then (s, Inl (handle_error query_event))
      else case map_of (observed_events s) ev of
             Some element \<Rightarrow>
               let pos = length (observed_events s)
               in if add_event \<noteq> 0 then (s, Inl (handle_error add_event))
                  else (s\<lparr>papi_values := (resize (pos + 1) (papi_values s))[pos := 0]\<rparr>, Inr (Some ev))
           | None \<Rightarrow> (s, Inl (Undefined_behaviour ''element->second of the end iterator'')))"

definition papi_erase :: "event_ptr \<Rightarrow> papi_interface \<Rightarrow> papi_interface attempt" where
  "papi_erase event s =
     (case event of
        None \<Rightarrow> (s, None)
      | Some ev \<Rightarrow>
          if measuring s then (s, None)
          else case map_of (observed_events s) ev of
                 None \<Rightarrow> (s, Some (Undefined_behaviour ''dangling iterator''))
               | Some e \<Rightarrow>
                   if counter e > 1
                   then (s\<lparr>observed_events := AList.update ev (e\<lparr>counter := counter e + 1\<rparr>) (observed_events s)\<rparr>, None)
                   else let remaining = AList.delete ev (observed_events s)
                        in (s\<lparr>observed_events := map (\<lambda>(k, r).
                                 (k, if position r > position e then r\<lparr>position := position r - 1\<rparr> else r)) remaining,
                              papi_values := resize (length remaining) (papi_values s)\<rparr>, None))"

definition papi_start :: "int \<Rightarrow> papi_interface \<Rightarrow> papi_interface attempt" where
  "papi_start retval s =
     (if measuring s then (s, None)
      else if retval \<noteq> 0 then (s, Some (handle_error retval))
      else (s\<lparr>measuring := True\<rparr>, None))"

text \<open>\<^verbatim>\<open>PAPI_stop\<close> writes the counts of its events into the values.\<close>

definition papi_stop :: "int \<Rightarrow> int list \<Rightarrow> papi_interface \<Rightarrow> papi_interface attempt" where
  "papi_stop retval counts s =
     (if measuring s
      then if retval \<noteq> 0 then (s, Some (handle_error retval))
           else (s\<lparr>papi_values := take (length (papi_values s)) counts @ drop (length counts) (papi_values s),
                   measuring := False\<rparr>, None)
      else (s, None))"

definition papi_get_value :: "event_ptr \<Rightarrow> papi_interface \<Rightarrow> int result" where
  "papi_get_value event s =
     (case event of
        None \<Rightarrow> Inr 0
      | Some ev \<Rightarrow>
          (case map_of (observed_events s) ev of
             None \<Rightarrow> Inl (Undefined_behaviour ''dangling iterator'')
           | Some e \<Rightarrow> if position e < length (papi_values s) then Inr (papi_values s ! position e)
                       else Inl (Undefined_behaviour ''values out of range'')))"

text \<open>The monitors, which share the interface.\<close>

record papi_monitor = monitor_base +
  event :: event_ptr

definition PapiMonitor_default :: "real \<Rightarrow> nat \<Rightarrow> papi_monitor" where
  "PapiMonitor_default garbage now = \<lparr>statistics = StatisticalProvider garbage now 1, event = None\<rparr>"

definition PapiMonitor ::
  "int \<Rightarrow> int \<Rightarrow> int \<Rightarrow> real \<Rightarrow> nat \<Rightarrow> nat \<Rightarrow> papi_interface \<Rightarrow> papi_interface \<times> papi_monitor result" where
  "PapiMonitor query_event add_event ev garbage now observation_size s =
     (case papi_insert query_event add_event ev s of
        (s, r) \<Rightarrow> (s, bind_result r (\<lambda>e. Inr \<lparr>statistics = StatisticalProvider garbage now observation_size, event = e\<rparr>)))"

text \<open>Copying and moving read the event through the pointer of the source.\<close>

definition PapiMonitor_copy ::
  "int \<Rightarrow> int \<Rightarrow> papi_monitor \<Rightarrow> papi_interface \<Rightarrow> papi_interface \<times> papi_monitor result" where
  "PapiMonitor_copy query_event add_event source s =
     (case event source of
        None \<Rightarrow> (s, Inl (Undefined_behaviour ''end iterator''))
      | Some ev \<Rightarrow>
          (case papi_insert query_event add_event ev s of
             (s, r) \<Rightarrow> (s, bind_result r (\<lambda>e. Inr (source\<lparr>event := e\<rparr>)))))"

definition PapiMonitor_stop ::
  "int \<Rightarrow> int list \<Rightarrow> nat \<Rightarrow> papi_monitor \<Rightarrow> papi_interface \<Rightarrow> papi_interface \<times> papi_monitor attempt" where
  "PapiMonitor_stop retval counts now m s =
     (case papi_stop retval counts s of
        (s, Some e) \<Rightarrow> (s, m, Some e)
      | (s, None) \<Rightarrow> (s, attempt (papi_get_value (event m) s) m (\<lambda>v. Monitor_push now (real_of_int v) m)))"

text \<open>The states of the interface that its methods produce, those they leave behind an exception included.\<close>

inductive papi_reachable :: "papi_interface \<Rightarrow> bool" where
  papi_init: "papi_interface_if True 0 = Inr s \<Longrightarrow> papi_reachable s"
| papi_insert: "papi_reachable s \<Longrightarrow> papi_reachable (fst (papi_insert query_event add_event ev s))"
| papi_erase: "papi_reachable s \<Longrightarrow> papi_reachable (fst (papi_erase ptr s))"
| papi_start: "papi_reachable s \<Longrightarrow> papi_reachable (fst (papi_start retval s))"
| papi_stop: "papi_reachable s \<Longrightarrow> papi_reachable (fst (papi_stop retval counts s))"

lemma papi_reachable_nothing_observed:
  "papi_reachable s \<Longrightarrow> observed_events s = []"
proof (induction rule: papi_reachable.induct)
  case (papi_init s)
  then show ?case by (auto simp: papi_interface_if_def)
next
  case (papi_insert s query_event add_event ev)
  then show ?case by (simp add: papi_insert_def)
next
  case (papi_erase s ptr)
  then show ?case by (simp add: papi_erase_def split: option.split)
next
  case (papi_start s retval)
  then show ?case by (simp add: papi_start_def)
next
  case (papi_stop s retval counts)
  then show ?case by (simp add: papi_stop_def)
qed

text \<open>
  C38: no event is ever registered with PAPI. In every state the interface can reach, creating a
  monitor for an event that PAPI supports dereferences the end iterator, unless a measure is in
  progress; then the monitor is created without an event, and whatever PAPI counts it records zero.
\<close>

theorem papi_event_is_never_registered:
  assumes "papi_reachable s" and "0 < n"
  shows "if measuring s
    then \<exists>m s' m'. PapiMonitor 0 add_event ev garbage now n s = (s, Inr m)
      \<and> PapiMonitor_stop 0 counts later m s = (s', m', None) \<and> observations m' = [0]
    else PapiMonitor 0 add_event ev garbage now n s
      = (s, Inl (Undefined_behaviour ''element->second of the end iterator''))"
proof (cases "measuring s")
  case True
  let ?m = "\<lparr>statistics = StatisticalProvider garbage now n, event = None\<rparr> :: papi_monitor"
  have new: "PapiMonitor 0 add_event ev garbage now n s = (s, Inr ?m)"
    using True by (simp add: PapiMonitor_def papi_insert_def)
  have "monitor_wf ?m" "observations ?m = []" "window_size ?m = n"
    using assms(2) by (simp_all add: monitor_wf_def observations_def window_size_def)
  then obtain p where "Monitor_push later 0 ?m = (?m\<lparr>statistics := p\<rparr>, None)" "cb_contents (window p) = [0]"
    using Monitor_push_records [of ?m later 0] assms(2) by auto
  then show ?thesis
    using new True by (simp add: PapiMonitor_stop_def papi_stop_def papi_get_value_def observations_def)
next
  case False
  then show ?thesis
    using papi_reachable_nothing_observed [OF assms(1)] by (simp add: PapiMonitor_def papi_insert_def)
qed

theorem papi_event_is_never_registered_witness:
  "snd (PapiMonitor 0 0 7 0 0 1 \<lparr>observed_events = [], measuring = False, papi_values = []\<rparr>)
    = Inl (Undefined_behaviour ''element->second of the end iterator'')"
proof -
  have "papi_reachable \<lparr>observed_events = [], measuring = False, papi_values = []\<rparr>"
    by (rule papi_reachable.papi_init) (simp add: papi_interface_if_def)
  then show ?thesis
    using papi_event_is_never_registered
      [of "\<lparr>observed_events = [], measuring = False, papi_values = []\<rparr>" 1 0 7 0 0]
    by simp
qed

end
