(* ===== verification/Heel_Composer.thy ===== *)
theory Heel_Composer
  imports Heel_Parser
begin

text \<open>
  Writing the description of an application to a property tree (\<^verbatim>\<open>composer_*.cpp\<close>), which the
  generated code sends to the server as a JSON document. \<^verbatim>\<open>add_child\<close> fails on an empty path, so
  the composers return results.
\<close>

section \<open>Utilities\<close>

definition compose_string :: "'t boost \<Rightarrow> 't \<Rightarrow> string \<Rightarrow> 't result" where
  "compose_string b n s = Inr (put b [] s n)"

fun compose_elements :: "'t boost \<Rightarrow> ('t \<Rightarrow> 'm \<Rightarrow> 't result) \<Rightarrow> 'm list \<Rightarrow> 't \<Rightarrow> 't result" where
  "compose_elements b compose [] elements_node = Inr elements_node"
| "compose_elements b compose (e # es) elements_node =
     bind_result (compose (empty_tree b) e) (\<lambda>element_node. compose_elements b compose es (push_back b [] element_node elements_node))"

definition add_list :: "'t boost \<Rightarrow> ('t \<Rightarrow> 'm \<Rightarrow> 't result) \<Rightarrow> 't \<Rightarrow> 'm list \<Rightarrow> string \<Rightarrow> 't result" where
  "add_list b compose parent_node elements key =
     (if elements = [] then Inr parent_node
      else bind_result (compose_elements b compose elements (empty_tree b)) (\<lambda>n. add_child b key n parent_node))"

definition add_element :: "'t boost \<Rightarrow> ('t \<Rightarrow> 'm \<Rightarrow> 't result) \<Rightarrow> ('m \<Rightarrow> bool) \<Rightarrow> 't \<Rightarrow> 'm \<Rightarrow> string \<Rightarrow> 't result" where
  "add_element b compose is_empty parent_node element key =
     (if is_empty element then Inr parent_node
      else bind_result (compose (empty_tree b) element) (\<lambda>n. add_child b key n parent_node))"

section \<open>Parts of a block\<close>

definition compose_parameter :: "'t boost \<Rightarrow> 't \<Rightarrow> parameter \<Rightarrow> 't result" where
  "compose_parameter b n p =
     (case param_type p of
        IMMEDIATE \<Rightarrow> Inr (put b [] (param_content p) n)
      | VARIABLE \<Rightarrow> Inr (put b (param_content p) (param_value_type p) n))"

definition compose_property :: "'t boost \<Rightarrow> 't \<Rightarrow> pair_property \<Rightarrow> 't result" where
  "compose_property b n p = Inr (put b (prop_key p) (prop_value p) n)"

definition compose_monitor :: "'t boost \<Rightarrow> 't \<Rightarrow> monitor_model \<Rightarrow> 't result" where
  "compose_monitor b n0 m =
     (let n = put b tag_type (monitor_type m) (put b tag_name (monitor_name m) n0)
      in bind_result (add_list b (compose_string b) n (requested_statistics m) tag_log) (\<lambda>n1.
         bind_result (add_list b (compose_parameter b) n1 (initialization_parameters m) tag_constructor) (\<lambda>n2.
         bind_result (add_list b (compose_parameter b) n2 (start_parameters m) tag_start) (\<lambda>n3.
           add_list b (compose_parameter b) n3 (stop_parameters m) tag_stop))))"

definition compose_knob :: "'t boost \<Rightarrow> 't \<Rightarrow> knob_model \<Rightarrow> 't result" where
  "compose_knob b n k =
     add_list b (compose_string b) (put b tag_type (knob_type k) (put b tag_name (knob_name k) n)) (knob_values k) tag_values"

definition compose_metric :: "'t boost \<Rightarrow> 't \<Rightarrow> metric_model \<Rightarrow> 't result" where
  "compose_metric b n m =
     add_list b (compose_property b)
       (put b tag_reactive_inertia (std_to_string (int (inertia m)))
         (put b tag_observed_by (observed_by m)
           (put b tag_prediction_plugin (prediction_plugin m)
             (put b tag_distribution (bool_string b (distribution m))
               (put b tag_type (metric_type m) (put b tag_name (metric_name m) n))))))
       (prediction_parameters m) tag_prediction_params"

definition compose_feature :: "'t boost \<Rightarrow> 't \<Rightarrow> feature_model \<Rightarrow> 't result" where
  "compose_feature b n f =
     Inr (put b tag_comparison (distance_comparison_str (feature_comparison f))
           (put b tag_type (feature_type f) (put b tag_name (feature_name f) n)))"

definition compose_agora :: "'t boost \<Rightarrow> 't \<Rightarrow> agora_model \<Rightarrow> 't result" where
  "compose_agora b n0 a =
     (let n = fold (\<lambda>(tag, v). put b tag v)
                [(tag_url, url a), (tag_username, username a), (tag_password, password a), (tag_qos, qos a),
                 (tag_broker_ca, broker_ca a), (tag_client_cert, client_cert a), (tag_client_key, client_key a),
                 (tag_number_configurations_per_iteration, number_configurations_per_iteration a),
                 (tag_number_observations_per_configuration, number_observations_per_configuration a),
                 (tag_max_number_iteration, max_number_iteration a), (tag_doe_plugin, doe_plugin a),
                 (tag_clustering_plugin, clustering_plugin a)] n0
      in bind_result (add_list b (compose_property b) n (doe_parameters a) tag_doe_parameters) (\<lambda>n1.
           add_list b (compose_property b) n1 (clustering_parameters a) tag_clustering_parameters))"

definition compose_rank_field :: "'t boost \<Rightarrow> 't \<Rightarrow> rank_field_model \<Rightarrow> 't result" where
  "compose_rank_field b n r = Inr (put b (rank_field_name r) (rank_coefficient r) n)"

definition compose_constraint :: "'t boost \<Rightarrow> 't \<Rightarrow> constraint_model \<Rightarrow> 't result" where
  "compose_constraint b n c =
     Inr (put b tag_confidence (confidence c)
           (put b tag_value (constraint_value c)
             (put b tag_comparison (goal_comparison_str (cfun c)) (put b tag_name (constraint_subject c) n))))"

text \<open>Both directions are written as a minimisation.\<close>

fun rank_direction_tag :: "rank_direction \<Rightarrow> string" where
  "rank_direction_tag Direction_MINIMIZE = tag_minimize"
| "rank_direction_tag Direction_MAXIMIZE = tag_minimize"
| "rank_direction_tag Direction_NONE = []"

fun rank_combination_tag :: "rank_type \<Rightarrow> string" where
  "rank_combination_tag Rank_SIMPLE = tag_linear_mean"
| "rank_combination_tag Rank_LINEAR = tag_linear_mean"
| "rank_combination_tag Rank_GEOMETRIC = tag_geometric_mean"
| "rank_combination_tag Rank_NONE = []"

definition compose_state :: "'t boost \<Rightarrow> 't \<Rightarrow> state_model \<Rightarrow> 't result" where
  "compose_state b n s =
     bind_result (add_list b (compose_rank_field b) (empty_tree b) (rank_fields s) (rank_combination_tag (combination s)))
       (\<lambda>rank_combination_node.
     bind_result (add_child b (rank_direction_tag (direction s)) rank_combination_node (put b tag_name (state_name s) n))
       (\<lambda>state_node. add_list b (compose_constraint b) state_node (state_constraints s) tag_constraints))"

section \<open>Blocks and applications\<close>

definition compose_block :: "'t boost \<Rightarrow> 't \<Rightarrow> block_model \<Rightarrow> 't result" where
  "compose_block b n0 blk =
     (let n1 = put b tag_name (block_id blk) n0;
          n2 = (if feature_fields (block_features blk) \<noteq> []
                then put b tag_feature_distance (features_distance_str (distance_type (block_features blk))) n1 else n1)
      in bind_result (add_list b (compose_monitor b) n2 (block_monitors blk) tag_monitors) (\<lambda>n3.
         bind_result (add_list b (compose_knob b) n3 (block_knobs blk) tag_knobs) (\<lambda>n4.
         bind_result (add_list b (compose_metric b) n4 (block_metrics blk) tag_metrics) (\<lambda>n5.
         bind_result (add_element b (compose_agora b) agora_empty n5 (block_agora blk) tag_agora) (\<lambda>n6.
         bind_result (add_list b (compose_feature b) n6 (feature_fields (block_features blk)) tag_features) (\<lambda>n7.
           add_list b (compose_state b) n7 (block_states blk) tag_states))))))"

definition compose_application :: "'t boost \<Rightarrow> 't \<Rightarrow> application_model \<Rightarrow> 't result" where
  "compose_application b n app =
     add_list b (compose_block b) (put b tag_version (application_version app) (put b tag_name (application_name app) n))
       (application_blocks app) tag_blocks"

end
