(* ===== verification/Heel_Roundtrip.thy ===== *)
theory Heel_Roundtrip
  imports Heel_Composer
begin

text \<open>
  What is read back from a composed description. The composers and the parsers are matched part by
  part on any property tree with the laws of the locale \<open>property_tree\<close>; what gets lost on the way
  is the function \<open>canon\<close> of each part.
\<close>

section \<open>What is lost\<close>

definition canon_parameter :: "parameter \<Rightarrow> parameter" where
  "canon_parameter p = (case param_type p of IMMEDIATE \<Rightarrow> p\<lparr>param_value_type := []\<rparr> | VARIABLE \<Rightarrow> p)"

definition parameter_ok :: "parameter \<Rightarrow> bool" where
  "parameter_ok p \<longleftrightarrow> (case param_type p of IMMEDIATE \<Rightarrow> param_content p \<noteq> [] | VARIABLE \<Rightarrow> simple_key (param_content p))"

definition canon_monitor :: "monitor_model \<Rightarrow> monitor_model" where
  "canon_monitor m = m\<lparr>initialization_parameters := map canon_parameter (initialization_parameters m),
     start_parameters := map canon_parameter (start_parameters m), stop_parameters := map canon_parameter (stop_parameters m)\<rparr>"

definition monitor_readable :: "monitor_model \<Rightarrow> bool" where
  "monitor_readable m \<longleftrightarrow>
     list_all parameter_ok (initialization_parameters m @ start_parameters m @ stop_parameters m)"

definition canon_constraint :: "constraint_model \<Rightarrow> constraint_model" where
  "canon_constraint c = c\<lparr>constraint_subject := [], constraint_kind := UNKNOWN\<rparr>"

definition canon_combination :: "rank_type \<Rightarrow> rank_type" where
  "canon_combination c = (if c = Rank_SIMPLE then Rank_LINEAR else c)"

definition canon_state :: "state_model \<Rightarrow> state_model" where
  "canon_state s = s\<lparr>direction := Direction_MINIMIZE, combination := canon_combination (combination s),
     rank_fields := map (\<lambda>r. r\<lparr>rank_field_kind := UNKNOWN\<rparr>) (rank_fields s),
     state_constraints := map canon_constraint (state_constraints s)\<rparr>"

definition state_readable :: "state_model \<Rightarrow> bool" where
  "state_readable s \<longleftrightarrow> direction s \<noteq> Direction_NONE \<and> combination s \<noteq> Rank_NONE \<and> rank_fields s \<noteq> []
     \<and> (\<forall>r \<in> set (rank_fields s). simple_key (rank_field_name r))"

text \<open>
  A block loses what only validation and the operating points add: the numeric types of its
  segments and the operating points themselves.
\<close>

definition canon_features :: "features_model \<Rightarrow> features_model" where
  "canon_features fs =
     \<lparr>distance_type = (if feature_fields fs = [] then Features_NONE else distance_type fs), features_type = [],
      feature_fields = feature_fields fs\<rparr>"

definition canon_block :: "block_model \<Rightarrow> block_model" where
  "canon_block blk =
     \<lparr>block_id = block_id blk, block_monitors = map canon_monitor (block_monitors blk), block_knobs = block_knobs blk,
      knobs_segment_type = [], block_metrics = block_metrics blk, metrics_segment_type = [],
      block_features = canon_features (block_features blk),
      block_agora = (if agora_empty (block_agora blk) then agora_default else block_agora blk),
      block_states = map canon_state (block_states blk), block_ops = []\<rparr>"

definition canon_application :: "application_model \<Rightarrow> application_model" where
  "canon_application app = app\<lparr>application_blocks := map canon_block (application_blocks app)\<rparr>"

definition metric_readable :: "metric_model \<Rightarrow> bool" where
  "metric_readable m \<longleftrightarrow> (\<forall>p \<in> set (prediction_parameters m). simple_key (prop_key p)) \<and> int (inertia m) < 2 ^ 64"

definition block_readable :: "block_model \<Rightarrow> bool" where
  "block_readable blk \<longleftrightarrow>
     (\<forall>m \<in> set (block_monitors blk). monitor_readable m)
     \<and> (\<forall>m \<in> set (block_metrics blk). metric_readable m)
     \<and> (\<forall>p \<in> set (doe_parameters (block_agora blk) @ clustering_parameters (block_agora blk)). simple_key (prop_key p))
     \<and> (feature_fields (block_features blk) \<noteq> [] \<longrightarrow> distance_type (block_features blk) \<noteq> Features_NONE)
     \<and> (\<forall>s \<in> set (block_states blk). state_readable s)
     \<and> sorted (map monitor_name (block_monitors blk)) \<and> sorted (map knob_name (block_knobs blk))
     \<and> sorted (map metric_name (block_metrics blk)) \<and> sorted (map feature_name (feature_fields (block_features blk)))"

definition application_readable :: "application_model \<Rightarrow> bool" where
  "application_readable app \<longleftrightarrow>
     (\<forall>blk \<in> set (application_blocks app). block_readable blk) \<and> sorted (map block_id (application_blocks app))"

context property_tree begin

section \<open>Lists and texts\<close>

definition reads_back :: "('t \<Rightarrow> 'm \<Rightarrow> 't result) \<Rightarrow> ('t \<Rightarrow> 'm result) \<Rightarrow> 'm \<Rightarrow> 'm \<Rightarrow> bool" where
  "reads_back compose parse m m' \<longleftrightarrow> (\<exists>n. compose (empty_tree b) m = Inr n \<and> parse n = Inr m')"

definition items :: "('t \<Rightarrow> 'm result) \<Rightarrow> 'm list \<Rightarrow> 't \<Rightarrow> bool" where
  "items parse es c \<longleftrightarrow> traverse (\<lambda>p. parse (snd p)) (node_children b c) = Inr es"

definition upd_list :: "string \<Rightarrow> ('t \<Rightarrow> 'm result) \<Rightarrow> 'm list \<Rightarrow> (string \<rightharpoonup> ('t \<Rightarrow> bool)) \<Rightarrow> (string \<rightharpoonup> ('t \<Rightarrow> bool))" where
  "upd_list key parse es f = (if es = [] then f else f(key \<mapsto> items parse es))"

lemma upd_list_apply [simp]:
  "upd_list key parse es f k = (if k = key \<and> es \<noteq> [] then Some (items parse es) else f k)"
  by (simp add: upd_list_def)

lemma traverse_append:
  "traverse f xs = Inr ys \<Longrightarrow> traverse f (xs @ xs') = bind_result (traverse f xs') (\<lambda>ys'. Inr (ys @ ys'))"
  by (induction xs arbitrary: ys) (cases "traverse f xs'"; auto)+

lemma compose_elements_items:
  assumes "\<forall>e \<in> set es. reads_back compose parse e (g e)" and "items parse es0 acc"
  shows "\<exists>n. compose_elements b compose es acc = Inr n \<and> items parse (es0 @ map g es) n"
  using assms
proof (induction es arbitrary: acc es0)
  case (Cons e es)
  then obtain n where n: "compose (empty_tree b) e = Inr n" "parse n = Inr (g e)" by (auto simp: reads_back_def)
  have "items parse (es0 @ [g e]) (push_back b [] n acc)"
    using Cons.prems(2) n(2) by (simp add: items_def children_push_back traverse_append)
  from Cons.IH [OF _ this] Cons.prems(1) n(1) show ?case by simp
qed simp

lemma add_list_shape:
  assumes "shape d f t" and "simple_key key" and "f key = None" and "\<forall>e \<in> set es. reads_back compose parse e (g e)"
  obtains t' where "add_list b compose t es key = Inr t'" and "shape d (upd_list key parse (map g es) f) t'"
proof (cases "es = []")
  case False
  have "items parse [] (empty_tree b)" by (simp add: items_def children_empty)
  from compose_elements_items [OF assms(4) this] obtain n where
    n: "compose_elements b compose es (empty_tree b) = Inr n" "items parse (map g es) n" by auto
  from shape_add_child [where P = "items parse (map g es)", OF assms(1-3) n(2)] obtain t' where
    "add_child b key n t = Inr t'" "shape d (f(key \<mapsto> items parse (map g es))) t'" by blast
  with that False n(1) show thesis by (simp add: add_list_def upd_list_def)
qed (use that assms(1) in \<open>simp add: add_list_def upd_list_def\<close>)

lemma parse_list_shape [tree_simps]:
  assumes "shape d f t" and "simple_key key" and "f key = (if es = [] then None else Some (items parse es))"
  shows "parse_list b parse t key = Inr es"
  using shape_child [OF assms(1,2)] assms(3) by (auto simp: parse_list_def items_def split: if_splits)

lemma parse_text_shape [tree_simps]:
  assumes "shape d f t" and "simple_key key"
  shows "f key = Some (leaf v) \<Longrightarrow> parse_text b t key = v" and "f key = None \<Longrightarrow> parse_text b t key = []"
  using shape_child [OF assms] by (auto simp: parse_element_def parse_string_def)

lemma reads_back_string: "reads_back (compose_string b) (\<lambda>c. Inr (parse_string b c)) s s"
  by (simp add: reads_back_def compose_string_def parse_string_def data_put_root)

section \<open>Parameters and properties\<close>

lemma single_child:
  assumes "simple_key k"
  obtains l where "node_children b (put b k v (empty_tree b)) = [(k, l)]" and "node_data b l = v"
    and "node_data b (put b k v (empty_tree b)) = []"
  using put_child [OF assms, of "empty_tree b" v] by (auto simp: children_empty data_empty)

lemma reads_back_parameter:
  assumes "parameter_ok p"
  shows "reads_back (compose_parameter b) (parse_parameter b) p (canon_parameter p)"
proof (cases "param_type p")
  case IMMEDIATE
  with assms show ?thesis
    by (cases p) (simp add: reads_back_def compose_parameter_def parse_parameter_def parse_string_def parameter_ok_def
        canon_parameter_def data_put_root Let_def)
next
  case VARIABLE
  with assms have k: "simple_key (param_content p)" by (simp add: parameter_ok_def)
  obtain l where "node_children b (put b (param_content p) (param_value_type p) (empty_tree b)) = [(param_content p, l)]"
    "node_data b l = param_value_type p" "node_data b (put b (param_content p) (param_value_type p) (empty_tree b)) = []"
    by (rule single_child [OF k])
  with VARIABLE show ?thesis
    by (cases p) (simp add: reads_back_def compose_parameter_def parse_parameter_def parse_string_def canon_parameter_def Let_def)
qed

lemma reads_back_property:
  assumes "simple_key (prop_key p)"
  shows "reads_back (compose_property b) (parse_property b) p p"
proof -
  obtain l where "node_children b (put b (prop_key p) (prop_value p) (empty_tree b)) = [(prop_key p, l)]"
    "node_data b l = prop_value p"
    by (rule single_child [OF assms])
  then show ?thesis
    by (cases p) (simp add: reads_back_def compose_property_def parse_property_def parse_string_def)
qed

lemma reads_back_rank_field:
  assumes "simple_key (rank_field_name r)"
  shows "reads_back (compose_rank_field b) (parse_rank_field b) r (r\<lparr>rank_field_kind := UNKNOWN\<rparr>)"
proof -
  obtain l where "node_children b (put b (rank_field_name r) (rank_coefficient r) (empty_tree b)) = [(rank_field_name r, l)]"
    "node_data b l = rank_coefficient r"
    by (rule single_child [OF assms])
  then show ?thesis
    by (cases r) (simp add: reads_back_def compose_rank_field_def parse_rank_field_def parse_string_def)
qed

section \<open>Monitors, knobs, metrics and features\<close>

lemma reads_back_monitor:
  assumes "monitor_readable m"
  shows "reads_back (compose_monitor b) (parse_monitor b) m (canon_monitor m)"
proof -
  let ?P = "parse_parameter b" and ?S = "\<lambda>c. Inr (parse_string b c)"
  have ps: "\<forall>p \<in> set (initialization_parameters m). reads_back (compose_parameter b) ?P p (canon_parameter p)"
    "\<forall>p \<in> set (start_parameters m). reads_back (compose_parameter b) ?P p (canon_parameter p)"
    "\<forall>p \<in> set (stop_parameters m). reads_back (compose_parameter b) ?P p (canon_parameter p)"
    using assms by (auto simp: monitor_readable_def list_all_iff intro: reads_back_parameter)
  have ss: "\<forall>s \<in> set (requested_statistics m). reads_back (compose_string b) ?S s (id s)"
    by (simp add: reads_back_string)
  have k: "simple_key tag_name" "simple_key tag_type" "simple_key tag_log" "simple_key tag_constructor"
    "simple_key tag_start" "simple_key tag_stop"
    by (simp_all add: simple_key_def)
  define f0 where "f0 = [tag_name \<mapsto> leaf (monitor_name m), tag_type \<mapsto> leaf (monitor_type m)]"
  have "shape [] f0 (put b tag_type (monitor_type m) (put b tag_name (monitor_name m) (empty_tree b)))"
    unfolding f0_def by (intro shape_put shape_empty k) simp_all
  then obtain t1 where t1: "add_list b (compose_string b) (put b tag_type (monitor_type m) (put b tag_name (monitor_name m) (empty_tree b)))
      (requested_statistics m) tag_log = Inr t1"
    and s1: "shape [] (upd_list tag_log ?S (map id (requested_statistics m)) f0) t1"
    by (rule add_list_shape [OF _ k(3) _ ss]) (simp_all add: f0_def)
  obtain t2 where t2: "add_list b (compose_parameter b) t1 (initialization_parameters m) tag_constructor = Inr t2"
    and s2: "shape [] (upd_list tag_constructor ?P (map canon_parameter (initialization_parameters m))
      (upd_list tag_log ?S (map id (requested_statistics m)) f0)) t2"
    by (rule add_list_shape [OF s1 k(4) _ ps(1)]) (simp_all add: f0_def)
  obtain t3 where t3: "add_list b (compose_parameter b) t2 (start_parameters m) tag_start = Inr t3"
    and s3: "shape [] (upd_list tag_start ?P (map canon_parameter (start_parameters m))
      (upd_list tag_constructor ?P (map canon_parameter (initialization_parameters m))
      (upd_list tag_log ?S (map id (requested_statistics m)) f0))) t3"
    by (rule add_list_shape [OF s2 k(5) _ ps(2)]) (simp_all add: f0_def)
  obtain t4 where t4: "add_list b (compose_parameter b) t3 (stop_parameters m) tag_stop = Inr t4"
    and s4: "shape [] (upd_list tag_stop ?P (map canon_parameter (stop_parameters m))
      (upd_list tag_start ?P (map canon_parameter (start_parameters m))
      (upd_list tag_constructor ?P (map canon_parameter (initialization_parameters m))
      (upd_list tag_log ?S (map id (requested_statistics m)) f0)))) t4"
    by (rule add_list_shape [OF s3 k(6) _ ps(3)]) (simp_all add: f0_def)
  have "parse_monitor b t4 = Inr (canon_monitor m)"
    using parse_list_shape [OF s4 k(3), of "requested_statistics m" ?S]
      parse_list_shape [OF s4 k(4), of "map canon_parameter (initialization_parameters m)" ?P]
      parse_list_shape [OF s4 k(5), of "map canon_parameter (start_parameters m)" ?P]
      parse_list_shape [OF s4 k(6), of "map canon_parameter (stop_parameters m)" ?P]
      parse_text_shape(1) [OF s4 k(1), of "monitor_name m"] parse_text_shape(1) [OF s4 k(2), of "monitor_type m"]
    by (cases m) (simp add: parse_monitor_def canon_monitor_def f0_def)
  with t1 t2 t3 t4 show ?thesis
    by (auto simp: reads_back_def compose_monitor_def Let_def)
qed

lemma literal_keys [simp]:
  "simple_key (c # k) \<longleftrightarrow> c \<noteq> CHR ''.'' \<and> CHR ''.'' \<notin> set k"
  by (auto simp: simple_key_def)

lemma shape_puts:
  assumes "shape d f t" and "\<forall>e \<in> set kvs. simple_key (fst e) \<and> f (fst e) = None" and "distinct (map fst kvs)"
  shows "shape d (f ++ (\<lambda>k. map_option (\<lambda>v. leaf v) (map_of kvs k))) (fold (\<lambda>(k, v). put b k v) kvs t)"
  using assms
proof (induction kvs arbitrary: f t)
  case (Cons e kvs)
  obtain k v where e: "e = (k, v)" by (cases e)
  have "shape d (f(k \<mapsto> leaf v)) (put b k v t)"
    using Cons.prems e by (intro shape_put) auto
  moreover have "\<forall>e \<in> set kvs. simple_key (fst e) \<and> (f(k \<mapsto> leaf v)) (fst e) = None" "distinct (map fst kvs)"
    using Cons.prems e by auto
  ultimately have "shape d (f(k \<mapsto> leaf v) ++ (\<lambda>k. map_option (\<lambda>v. leaf v) (map_of kvs k))) (fold (\<lambda>(k, v). put b k v) kvs (put b k v t))"
    by (rule Cons.IH)
  moreover have "map_of kvs k = None" using Cons.prems(3) e by (simp add: map_of_eq_None_iff)
  then have "f(k \<mapsto> leaf v) ++ (\<lambda>k. map_option (\<lambda>v. leaf v) (map_of kvs k)) = f ++ (\<lambda>k. map_option (\<lambda>v. leaf v) (map_of (e # kvs) k))"
    by (auto simp: e map_add_def fun_eq_iff split: option.splits)
  ultimately show ?case by (simp add: e)
qed (simp add: map_add_def)

lemma reads_back_knob: "reads_back (compose_knob b) (parse_knob b) k k"
proof -
  let ?S = "\<lambda>c. Inr (parse_string b c)"
  define f0 where "f0 = [tag_name \<mapsto> leaf (knob_name k), tag_type \<mapsto> leaf (knob_type k)]"
  have ss: "\<forall>s \<in> set (knob_values k). reads_back (compose_string b) ?S s (id s)" by (simp add: reads_back_string)
  have "shape [] f0 (put b tag_type (knob_type k) (put b tag_name (knob_name k) (empty_tree b)))"
    unfolding f0_def by (intro shape_put shape_empty) simp_all
  then obtain t where t: "compose_knob b (empty_tree b) k = Inr t"
    and s: "shape [] (upd_list tag_values ?S (map id (knob_values k)) f0) t"
    unfolding compose_knob_def by (rule add_list_shape [where key = tag_values, OF _ _ _ ss]) (simp_all add: f0_def)
  have "parse_knob b t = Inr k"
    using parse_list_shape [OF s, of tag_values "knob_values k" ?S] shape_child [OF s, of tag_range]
      parse_text_shape(1) [OF s, of tag_name "knob_name k"] parse_text_shape(1) [OF s, of tag_type "knob_type k"]
    by (cases k) (simp add: parse_knob_def f0_def Let_def)
  with t show ?thesis by (simp add: reads_back_def)
qed

lemma reads_back_feature: "reads_back (compose_feature b) (parse_feature b) f f"
proof -
  let ?t = "put b tag_comparison (distance_comparison_str (feature_comparison f))
    (put b tag_type (feature_type f) (put b tag_name (feature_name f) (empty_tree b)))"
  have s: "shape [] [tag_name \<mapsto> leaf (feature_name f), tag_type \<mapsto> leaf (feature_type f),
      tag_comparison \<mapsto> leaf (distance_comparison_str (feature_comparison f))] ?t"
    by (intro shape_put shape_empty) simp_all
  have "parse_feature b ?t = Inr f"
    using parse_text_shape(1) [OF s, of tag_name "feature_name f"] parse_text_shape(1) [OF s, of tag_type "feature_type f"]
      parse_text_shape(1) [OF s, of tag_comparison "distance_comparison_str (feature_comparison f)"]
    by (cases f, cases "feature_comparison f") (simp_all add: parse_feature_def lower_id is_upper_def Let_def)
  then show ?thesis by (simp add: reads_back_def compose_feature_def)
qed

lemma parse_distribution_composed: "parse_distribution b (bool_string b w) = Inr w"
proof -
  have "to_lower b (bool_string b w) = bool_string b w"
    by (rule lower_id) (simp add: bool_strings is_upper_def)
  then show ?thesis by (simp add: parse_distribution_def is_bool_def bool_strings Let_def)
qed

lemma reads_back_metric:
  assumes "\<forall>p \<in> set (prediction_parameters m). simple_key (prop_key p)" and "int (inertia m) < 2 ^ 64"
  shows "reads_back (compose_metric b) (parse_metric b) m m"
proof -
  define kvs where "kvs = [(tag_name, metric_name m), (tag_type, metric_type m), (tag_distribution, bool_string b (distribution m)),
    (tag_prediction_plugin, prediction_plugin m), (tag_observed_by, observed_by m),
    (tag_reactive_inertia, std_to_string (int (inertia m)))]"
  have ps: "\<forall>p \<in> set (prediction_parameters m). reads_back (compose_property b) (parse_property b) p (id p)"
    using assms(1) by (simp add: reads_back_property)
  have t0: "compose_metric b (empty_tree b) m =
      add_list b (compose_property b) (fold (\<lambda>(k, v). put b k v) kvs (empty_tree b)) (prediction_parameters m) tag_prediction_params"
    by (simp add: compose_metric_def kvs_def)
  have "shape [] (Map.empty ++ (\<lambda>k. map_option (\<lambda>v. leaf v) (map_of kvs k))) (fold (\<lambda>(k, v). put b k v) kvs (empty_tree b))"
    by (rule shape_puts [OF shape_empty]) (simp_all add: kvs_def)
  then obtain t where t: "compose_metric b (empty_tree b) m = Inr t"
    and s: "shape [] (upd_list tag_prediction_params (parse_property b) (map id (prediction_parameters m))
      (Map.empty ++ (\<lambda>k. map_option (\<lambda>v. leaf v) (map_of kvs k)))) t"
    unfolding t0 by (rule add_list_shape [where key = tag_prediction_params, OF _ _ _ ps]) (simp_all add: kvs_def)
  have texts: "parse_text b t k = v" if "map_of kvs k = Some v" "simple_key k" "k \<noteq> tag_prediction_params" for k v
    by (rule parse_text_shape(1) [OF s that(2)]) (use that in simp)
  have "inertia m < 2 ^ 64" using assms(2) by simp
  moreover have "std_to_string (int (inertia m)) \<noteq> []" by (simp add: std_to_string_def)
  ultimately have "parse_metric b t = Inr m"
    using parse_list_shape [OF s, of tag_prediction_params "prediction_parameters m" "parse_property b"] cast_size [of "inertia m"]
    by (cases m) (simp add: parse_metric_def texts kvs_def parse_distribution_composed Let_def)
  with t show ?thesis by (simp add: reads_back_def)
qed

section \<open>Agora\<close>

lemma reads_back_agora:
  assumes "\<forall>p \<in> set (doe_parameters a @ clustering_parameters a). simple_key (prop_key p)"
  shows "reads_back (compose_agora b) (parse_agora b) a a"
proof -
  define kvs where "kvs = [(tag_url, url a), (tag_username, username a), (tag_password, password a), (tag_qos, qos a),
                 (tag_broker_ca, broker_ca a), (tag_client_cert, client_cert a), (tag_client_key, client_key a),
                 (tag_number_configurations_per_iteration, number_configurations_per_iteration a),
                 (tag_number_observations_per_configuration, number_observations_per_configuration a),
                 (tag_max_number_iteration, max_number_iteration a), (tag_doe_plugin, doe_plugin a),
                 (tag_clustering_plugin, clustering_plugin a)]"
  let ?P = "parse_property b" and ?f = "Map.empty ++ (\<lambda>k. map_option (\<lambda>v. leaf v) (map_of kvs k))"
  have ps: "\<forall>p \<in> set (doe_parameters a). reads_back (compose_property b) ?P p (id p)"
    "\<forall>p \<in> set (clustering_parameters a). reads_back (compose_property b) ?P p (id p)"
    using assms by (auto simp: reads_back_property)
  have "shape [] ?f (fold (\<lambda>(k, v). put b k v) kvs (empty_tree b))"
    by (rule shape_puts [OF shape_empty]) (simp_all add: kvs_def)
  then obtain t1 where t1: "add_list b (compose_property b) (fold (\<lambda>(k, v). put b k v) kvs (empty_tree b)) (doe_parameters a)
      tag_doe_parameters = Inr t1" and s1: "shape [] (upd_list tag_doe_parameters ?P (map id (doe_parameters a)) ?f) t1"
    by (rule add_list_shape [where key = tag_doe_parameters, OF _ _ _ ps(1)]) (simp_all add: kvs_def)
  obtain t2 where t2: "add_list b (compose_property b) t1 (clustering_parameters a) tag_clustering_parameters = Inr t2"
    and s2: "shape [] (upd_list tag_clustering_parameters ?P (map id (clustering_parameters a))
      (upd_list tag_doe_parameters ?P (map id (doe_parameters a)) ?f)) t2"
    by (rule add_list_shape [where key = tag_clustering_parameters, OF s1 _ _ ps(2)]) (simp_all add: kvs_def)
  have texts: "parse_text b t2 k = v"
    if "map_of kvs k = Some v" "simple_key k" "k \<noteq> tag_doe_parameters" "k \<noteq> tag_clustering_parameters" for k v
    by (rule parse_text_shape(1) [OF s2 that(2)]) (use that in simp)
  have "parse_agora b t2 = Inr a"
    using parse_list_shape [OF s2, of tag_doe_parameters "doe_parameters a" ?P]
      parse_list_shape [OF s2, of tag_clustering_parameters "clustering_parameters a" ?P]
    by (cases a) (simp add: parse_agora_def texts kvs_def)
  with t1 t2 show ?thesis by (simp add: reads_back_def compose_agora_def kvs_def)
qed

section \<open>States\<close>

lemma reads_back_constraint: "reads_back (compose_constraint b) (parse_constraint b) c (canon_constraint c)"
proof -
  let ?t = "put b tag_confidence (confidence c) (put b tag_value (constraint_value c)
    (put b tag_comparison (goal_comparison_str (cfun c)) (put b tag_name (constraint_subject c) (empty_tree b))))"
  have s: "shape [] [tag_name \<mapsto> leaf (constraint_subject c), tag_comparison \<mapsto> leaf (goal_comparison_str (cfun c)),
      tag_value \<mapsto> leaf (constraint_value c), tag_confidence \<mapsto> leaf (confidence c)] ?t"
    by (intro shape_put shape_empty) simp_all
  have "parse_constraint b ?t = Inr (canon_constraint c)"
    using parse_text_shape(2) [OF s, of tag_subject] parse_text_shape(1) [OF s, of tag_value "constraint_value c"]
      parse_text_shape(1) [OF s, of tag_confidence "confidence c"]
      parse_text_shape(1) [OF s, of tag_comparison "goal_comparison_str (cfun c)"]
    by (cases c, cases "cfun c") (simp_all add: parse_constraint_def canon_constraint_def lower_id is_upper_def Let_def)
  then show ?thesis by (simp add: reads_back_def compose_constraint_def)
qed

lemma parse_list_path:
  assumes "shape d f t" and "simple_key k" and "p \<noteq> []"
  shows "f k = None \<Longrightarrow> parse_list b parse t (k @ ''.'' @ p) = Inr []"
    and "f k = Some P \<Longrightarrow> \<exists>c. P c \<and> parse_list b parse t (k @ ''.'' @ p) = parse_list b parse c p"
  using shape_child [OF assms(1,2)] child_path [OF assms(2,3), of t] by (auto simp: parse_list_def)

lemma parse_ranks_composed:
  assumes "shape d f t" and "f tag_minimize = Some (shape [] (upd_list (rank_combination_tag comb) (parse_rank_field b) rs Map.empty))"
    and "comb \<noteq> Rank_NONE" and "rs \<noteq> []"
  shows "parse_rank b t [(Direction_MINIMIZE, Rank_GEOMETRIC), (Direction_MINIMIZE, Rank_LINEAR),
      (Direction_MAXIMIZE, Rank_GEOMETRIC), (Direction_MAXIMIZE, Rank_LINEAR)] s
    = Inr (s\<lparr>rank_fields := rs, direction := Direction_MINIMIZE, combination := canon_combination comb\<rparr>)"
proof -
  let ?F = "upd_list (rank_combination_tag comb) (parse_rank_field b) rs Map.empty"
  have path: "parse_list b (parse_rank_field b) t (tag_minimize @ ''.'' @ p) = Inr (if p = rank_combination_tag comb then rs else [])"
    if p: "simple_key p" for p
  proof -
    from p obtain c where c: "shape [] ?F c"
      and e: "parse_list b (parse_rank_field b) t (tag_minimize @ ''.'' @ p) = parse_list b (parse_rank_field b) c p"
      using parse_list_path(2) [OF assms(1) _ _ assms(2), of p "parse_rank_field b"] by (auto simp: simple_key_def)
    have "parse_list b (parse_rank_field b) c p = Inr (if p = rank_combination_tag comb then rs else [])"
      by (rule parse_list_shape [OF c p]) (use assms(4) in auto)
    with e show ?thesis by simp
  qed
  show ?thesis
    using path [of tag_geometric_mean] path [of tag_linear_mean] assms(3,4)
    by (cases comb) (simp_all add: canon_combination_def)
qed

lemma reads_back_state:
  assumes "state_readable s"
  shows "reads_back (compose_state b) (parse_state b) s (canon_state s)"
proof -
  let ?R = "parse_rank_field b" and ?C = "parse_constraint b" and ?u = "\<lambda>r. r\<lparr>rank_field_kind := UNKNOWN\<rparr>"
  let ?tag = "rank_combination_tag (combination s)"
  have tag: "simple_key ?tag" using assms by (cases "combination s") (simp_all add: state_readable_def)
  have d: "rank_direction_tag (direction s) = tag_minimize" using assms by (cases "direction s") (simp_all add: state_readable_def)
  have rs: "\<forall>r \<in> set (rank_fields s). reads_back (compose_rank_field b) ?R r (?u r)"
    using assms by (auto simp: state_readable_def intro: reads_back_rank_field)
  have cs: "\<forall>c \<in> set (state_constraints s). reads_back (compose_constraint b) ?C c (canon_constraint c)"
    by (simp add: reads_back_constraint)
  let ?F = "upd_list ?tag ?R (map ?u (rank_fields s)) Map.empty"
  obtain n where n: "add_list b (compose_rank_field b) (empty_tree b) (rank_fields s) ?tag = Inr n" and sn: "shape [] ?F n"
    by (rule add_list_shape [OF shape_empty tag _ rs]) simp_all
  have "shape [] [tag_name \<mapsto> leaf (state_name s)] (put b tag_name (state_name s) (empty_tree b))"
    by (intro shape_put shape_empty) simp_all
  from shape_add_child [where P = "shape [] ?F" and k = tag_minimize, OF this _ _ sn] obtain t1 where
    t1: "add_child b tag_minimize n (put b tag_name (state_name s) (empty_tree b)) = Inr t1"
    and s1: "shape [] [tag_name \<mapsto> leaf (state_name s), tag_minimize \<mapsto> shape [] ?F] t1" by auto
  obtain t2 where t2: "add_list b (compose_constraint b) t1 (state_constraints s) tag_constraints = Inr t2"
    and s2: "shape [] (upd_list tag_constraints ?C (map canon_constraint (state_constraints s))
      [tag_name \<mapsto> leaf (state_name s), tag_minimize \<mapsto> shape [] ?F]) t2"
    by (rule add_list_shape [where key = tag_constraints, OF s1 _ _ cs]) simp_all
  have "parse_state b t2 = Inr (canon_state s)"
    using parse_list_shape [OF s2, of tag_constraints "map canon_constraint (state_constraints s)" ?C]
      parse_text_shape(1) [OF s2, of tag_name "state_name s"]
      parse_ranks_composed [OF s2, of "combination s" "map ?u (rank_fields s)"] assms
    by (cases s) (simp add: parse_state_def canon_state_def state_readable_def del: parse_rank.simps)
  with n t1 t2 d show ?thesis by (simp add: reads_back_def compose_state_def)
qed

section \<open>Blocks and applications\<close>

lemma add_element_shape:
  assumes "shape d f t" and "simple_key key" and "f key = None" and "reads_back compose parse m m'"
  obtains t' where "add_element b compose em t m key = Inr t'"
    and "shape d (if em m then f else f(key \<mapsto> (\<lambda>c. parse c = Inr m'))) t'"
proof (cases "em m")
  case False
  from assms(4) obtain n where n: "compose (empty_tree b) m = Inr n" "parse n = Inr m'" by (auto simp: reads_back_def)
  from shape_add_child [where P = "\<lambda>c. parse c = Inr m'", OF assms(1-3) n(2)] obtain t' where
    "add_child b key n t = Inr t'" "shape d (f(key \<mapsto> (\<lambda>c. parse c = Inr m'))) t'" by blast
  with that False n(1) show thesis by (simp add: add_element_def)
qed (use that assms(1) in \<open>simp add: add_element_def\<close>)

lemma parse_element_shape:
  assumes "shape d f t" and "simple_key key" and "f key = (if missing then None else Some (\<lambda>c. parse c = Inr m'))"
  shows "parse_element b parse (Inr dflt) t key = Inr (if missing then dflt else m')"
  using shape_child [OF assms(1,2)] assms(3) by (auto simp: parse_element_def)

lemma parse_feature_distance_shape:
  assumes "shape d f t" and "f tag_feature_distance = (if none then None else Some (leaf (features_distance_str k)))"
    and "\<not> none \<longrightarrow> k \<noteq> Features_NONE"
  shows "parse_feature_distance b t = Inr (if none then Features_NONE else k)"
proof (cases none)
  case True
  with parse_text_shape(2) [OF assms(1), of tag_feature_distance] assms(2) show ?thesis
    by (simp add: parse_feature_distance_def lower_id is_upper_def Let_def)
next
  case False
  with parse_text_shape(1) [OF assms(1), of tag_feature_distance "features_distance_str k"] assms(2,3) show ?thesis
    by (cases k) (simp_all add: parse_feature_distance_def lower_id is_upper_def Let_def)
qed

lemma reads_back_block:
  assumes "block_readable blk"
  shows "reads_back (compose_block b) (parse_block b) blk (canon_block blk)"
proof -
  let ?fs = "feature_fields (block_features blk)" and ?d = "distance_type (block_features blk)"
  let ?n1 = "put b tag_name (block_id blk) (empty_tree b)"
  let ?n2 = "if ?fs \<noteq> [] then put b tag_feature_distance (features_distance_str ?d) ?n1 else ?n1"
  let ?f0 = "\<lambda>k. if k = tag_name then Some (leaf (block_id blk))
    else if k = tag_feature_distance \<and> ?fs \<noteq> [] then Some (leaf (features_distance_str ?d)) else None"
  note R = assms [unfolded block_readable_def]
  have mons: "\<forall>m \<in> set (block_monitors blk). reads_back (compose_monitor b) (parse_monitor b) m (canon_monitor m)"
    using R by (auto intro: reads_back_monitor)
  have ks: "\<forall>k \<in> set (block_knobs blk). reads_back (compose_knob b) (parse_knob b) k (id k)"
    by (simp add: reads_back_knob)
  have ms: "\<forall>m \<in> set (block_metrics blk). reads_back (compose_metric b) (parse_metric b) m (id m)"
    using R by (auto simp: metric_readable_def intro!: reads_back_metric)
  have ag: "reads_back (compose_agora b) (parse_agora b) (block_agora blk) (block_agora blk)"
    using R by (intro reads_back_agora) simp
  have fs: "\<forall>f \<in> set ?fs. reads_back (compose_feature b) (parse_feature b) f (id f)"
    by (simp add: reads_back_feature)
  have ss: "\<forall>s \<in> set (block_states blk). reads_back (compose_state b) (parse_state b) s (canon_state s)"
    using R by (auto intro: reads_back_state)
  have f0: "[tag_name \<mapsto> leaf (block_id blk)] = (\<lambda>k. if k = tag_name then Some (leaf (block_id blk)) else None)"
    by (simp add: fun_eq_iff)
  have s1: "shape [] [tag_name \<mapsto> leaf (block_id blk)] ?n1" by (intro shape_put shape_empty) simp_all
  have s2: "shape [] ?f0 ?n2"
  proof (cases "?fs = []")
    case True
    with s1 show ?thesis by (simp add: f0 cong: if_cong)
  next
    case False
    have "shape [] ([tag_name \<mapsto> leaf (block_id blk)](tag_feature_distance \<mapsto> leaf (features_distance_str ?d)))
        (put b tag_feature_distance (features_distance_str ?d) ?n1)"
      by (rule shape_put [OF s1]) simp_all
    moreover have "[tag_name \<mapsto> leaf (block_id blk)](tag_feature_distance \<mapsto> leaf (features_distance_str ?d)) = ?f0"
      using False by (simp add: fun_eq_iff)
    ultimately show ?thesis using False by simp
  qed
  obtain t3 where t3: "add_list b (compose_monitor b) ?n2 (block_monitors blk) tag_monitors = Inr t3"
    and s3: "shape [] (upd_list tag_monitors (parse_monitor b) (map canon_monitor (block_monitors blk)) ?f0) t3"
    by (rule add_list_shape [where key = tag_monitors, OF s2 _ _ mons]) simp_all
  obtain t4 where t4: "add_list b (compose_knob b) t3 (block_knobs blk) tag_knobs = Inr t4"
    and s4: "shape [] (upd_list tag_knobs (parse_knob b) (map id (block_knobs blk))
      (upd_list tag_monitors (parse_monitor b) (map canon_monitor (block_monitors blk)) ?f0)) t4"
    by (rule add_list_shape [where key = tag_knobs, OF s3 _ _ ks]) simp_all
  obtain t5 where t5: "add_list b (compose_metric b) t4 (block_metrics blk) tag_metrics = Inr t5"
    and s5: "shape [] (upd_list tag_metrics (parse_metric b) (map id (block_metrics blk))
      (upd_list tag_knobs (parse_knob b) (map id (block_knobs blk))
      (upd_list tag_monitors (parse_monitor b) (map canon_monitor (block_monitors blk)) ?f0))) t5"
    by (rule add_list_shape [where key = tag_metrics, OF s4 _ _ ms]) simp_all
  define f5 where "f5 = upd_list tag_metrics (parse_metric b) (map id (block_metrics blk))
      (upd_list tag_knobs (parse_knob b) (map id (block_knobs blk))
      (upd_list tag_monitors (parse_monitor b) (map canon_monitor (block_monitors blk)) ?f0))"
  define f6 where "f6 = (if agora_empty (block_agora blk) then f5
      else f5(tag_agora \<mapsto> (\<lambda>c. parse_agora b c = Inr (block_agora blk))))"
  obtain t6 where t6: "add_element b (compose_agora b) agora_empty t5 (block_agora blk) tag_agora = Inr t6"
    and s6: "shape [] f6 t6"
    unfolding f6_def
    by (rule add_element_shape [where key = tag_agora and em = agora_empty, OF s5 [folded f5_def] _ _ ag]) (simp_all add: f5_def)
  obtain t7 where t7: "add_list b (compose_feature b) t6 ?fs tag_features = Inr t7"
    and s7: "shape [] (upd_list tag_features (parse_feature b) (map id ?fs) f6) t7"
    by (rule add_list_shape [where key = tag_features, OF s6 _ _ fs]) (simp_all add: f5_def f6_def)
  obtain t8 where t8: "add_list b (compose_state b) t7 (block_states blk) tag_states = Inr t8"
    and s8: "shape [] (upd_list tag_states (parse_state b) (map canon_state (block_states blk))
      (upd_list tag_features (parse_feature b) (map id ?fs) f6)) t8"
    by (rule add_list_shape [where key = tag_states, OF s7 _ _ ss]) (simp_all add: f5_def f6_def)
  note fields = f5_def f6_def
  have p1: "parse_list b (parse_monitor b) t8 tag_monitors = Inr (map canon_monitor (block_monitors blk))"
    by (rule parse_list_shape [OF s8]) (simp_all add: fields)
  have p2: "parse_list b (parse_knob b) t8 tag_knobs = Inr (block_knobs blk)"
    by (rule parse_list_shape [OF s8]) (simp_all add: fields)
  have p3: "parse_list b (parse_metric b) t8 tag_metrics = Inr (block_metrics blk)"
    by (rule parse_list_shape [OF s8]) (simp_all add: fields)
  have p4: "parse_list b (parse_feature b) t8 tag_features = Inr ?fs"
    by (rule parse_list_shape [OF s8]) (simp_all add: fields)
  have p5: "parse_list b (parse_state b) t8 tag_states = Inr (map canon_state (block_states blk))"
    by (rule parse_list_shape [OF s8]) (simp_all add: fields)
  have p6: "parse_element b (parse_agora b) (Inr agora_default) t8 tag_agora
      = Inr (if agora_empty (block_agora blk) then agora_default else block_agora blk)"
    by (rule parse_element_shape [OF s8]) (simp_all add: fields)
  have p7: "parse_feature_distance b t8 = Inr (if ?fs = [] then Features_NONE else ?d)"
    by (rule parse_feature_distance_shape [OF s8]) (use R in \<open>simp_all add: fields\<close>)
  have p8: "parse_text b t8 tag_name = block_id blk"
    by (rule parse_text_shape(1) [OF s8]) (simp_all add: fields)
  have sorted: "std_sort (name_less monitor_name) (map canon_monitor (block_monitors blk)) = Inr (map canon_monitor (block_monitors blk))"
    "std_sort (name_less knob_name) (block_knobs blk) = Inr (block_knobs blk)"
    "std_sort (name_less metric_name) (block_metrics blk) = Inr (block_metrics blk)"
    "std_sort (name_less feature_name) ?fs = Inr ?fs"
    using R by (simp_all add: by_name.std_sort_id comp_def canon_monitor_def)
  have "parse_block b t8 = Inr (canon_block blk)"
    by (simp add: parse_block_def p1 p2 p3 p4 p5 p6 p7 p8 sorted canon_block_def canon_features_def)
  moreover have "compose_block b (empty_tree b) blk = Inr t8"
    using t3 t4 t5 t6 t7 t8 by (simp add: compose_block_def Let_def)
  ultimately show ?thesis by (simp add: reads_back_def)
qed

lemma reads_back_application:
  assumes "application_readable app"
  shows "reads_back (compose_application b) (parse_application b) app (canon_application app)"
proof -
  let ?n = "put b tag_version (application_version app) (put b tag_name (application_name app) (empty_tree b))"
  let ?f = "[tag_name \<mapsto> leaf (application_name app), tag_version \<mapsto> leaf (application_version app)]"
  have bs: "\<forall>blk \<in> set (application_blocks app). reads_back (compose_block b) (parse_block b) blk (canon_block blk)"
    using assms by (auto simp: application_readable_def intro: reads_back_block)
  have "shape [] ?f ?n" by (intro shape_put shape_empty) simp_all
  then obtain t where t: "compose_application b (empty_tree b) app = Inr t"
    and s: "shape [] (upd_list tag_blocks (parse_block b) (map canon_block (application_blocks app)) ?f) t"
    unfolding compose_application_def by (rule add_list_shape [where key = tag_blocks, OF _ _ _ bs]) simp_all
  have p: "parse_list b (parse_block b) t tag_blocks = Inr (map canon_block (application_blocks app))"
    by (rule parse_list_shape [OF s]) simp_all
  have q: "parse_text b t tag_name = application_name app" "parse_text b t tag_version = application_version app"
    by (rule parse_text_shape(1) [OF s]; simp)+
  have "std_sort (name_less block_id) (map canon_block (application_blocks app)) = Inr (map canon_block (application_blocks app))"
    using assms by (simp add: application_readable_def by_name.std_sort_id comp_def canon_block_def)
  with p q have "parse_application b t = Inr (canon_application app)"
    by (simp add: parse_application_def canon_application_def)
  with t show ?thesis by (simp add: reads_back_def)
qed

end

section \<open>The round trip\<close>


definition learning_agora :: agora_model where
  "learning_agora = agora_default\<lparr>url := ''broker'', qos := ''2'', number_configurations_per_iteration := ''4'',
     doe_plugin := ''dice'', clustering_plugin := ''kmeans'', doe_parameters := [\<lparr>prop_key = ''limit'', prop_value = ''7''\<rparr>]\<rparr>"

definition learning_block :: block_model where
  "learning_block = \<lparr>block_id = ''b'',
     block_monitors = [\<lparr>monitor_name = ''clock'', monitor_type = ''time'', requested_statistics = [''average''],
        initialization_parameters = [\<lparr>param_type = IMMEDIATE, param_content = ''3'', param_value_type = []\<rparr>],
        start_parameters = [\<lparr>param_type = VARIABLE, param_content = ''x'', param_value_type = ''int''\<rparr>], stop_parameters = []\<rparr>],
     block_knobs = [\<lparr>knob_name = ''k'', knob_type = ''int'', knob_values = [''1'', ''2'']\<rparr>], knobs_segment_type = [],
     block_metrics = [\<lparr>metric_name = ''time'', metric_type = ''float'', distribution = True, prediction_plugin = ''hth'',
        observed_by = ''clock'', inertia = 12, prediction_parameters = []\<rparr>],
     metrics_segment_type = [],
     block_features = \<lparr>distance_type = Features_EUCLIDEAN, features_type = [], feature_fields =
        [\<lparr>feature_name = ''size'', feature_type = ''int'', feature_comparison = Distance_LESS_OR_EQUAL\<rparr>]\<rparr>,
     block_agora = learning_agora,
     block_states = [\<lparr>state_name = ''s'', direction = Direction_MAXIMIZE, combination = Rank_SIMPLE,
        rank_fields = [\<lparr>rank_field_name = ''time'', rank_field_kind = UNKNOWN, rank_coefficient = ''1''\<rparr>],
        state_constraints = [\<lparr>constraint_subject = ''k'', cfun = Goal_LESS, constraint_value = ''2'', constraint_kind = UNKNOWN,
          confidence = ''3''\<rparr>]\<rparr>],
     block_ops = []\<rparr>"

definition learning_application :: application_model where
  "learning_application = \<lparr>application_name = ''app'', application_version = ''1'', application_blocks = [learning_block]\<rparr>"

lemma learning_readable: "application_readable learning_application"
  by (simp add: application_readable_def learning_application_def learning_block_def learning_agora_def agora_default_def
      block_readable_def monitor_readable_def parameter_ok_def metric_readable_def state_readable_def simple_key_def)


text \<open>
  What is lost is not harmless. A state that maximises its rank is read back as one that
  minimises it, and its constraint is read back without the metric or knob it limits.
\<close>

theorem maximised_states_are_minimised_after_composition:
  "\<exists>t s. compose_application std_boost (empty_tree std_boost) learning_application = Inr t
     \<and> map block_states (application_blocks learning_application) = [[s]] \<and> direction s = Direction_MAXIMIZE
     \<and> map constraint_subject (state_constraints s) = [''k'']
     \<and> (\<exists>app s'. parse_application std_boost t = Inr app \<and> map block_states (application_blocks app) = [[s']]
          \<and> direction s' = Direction_MINIMIZE \<and> map constraint_subject (state_constraints s') = [[]])"
proof -
  obtain t where t: "compose_application std_boost (empty_tree std_boost) learning_application = Inr t"
    "parse_application std_boost t = Inr (canon_application learning_application)"
    using property_tree.reads_back_application [OF bp.property_tree_axioms learning_readable]
    by (auto simp: bp.reads_back_def)
  then show ?thesis
    by (simp add: learning_application_def learning_block_def canon_application_def canon_block_def canon_state_def canon_constraint_def)
qed

end
