(* ===== verification/Heel_Monitors.thy ===== *)
theory Heel_Monitors
  imports Heel_Sort
begin

text \<open>
  The monitors that the generator knows and their validation (\<^verbatim>\<open>model_monitor.cpp\<close>). The table
  \<^verbatim>\<open>known_monitors\<close> is a static map that grows with the custom monitors, so it is passed along.
\<close>

section \<open>Specifications of monitors\<close>

definition immediate :: "string \<Rightarrow> string \<Rightarrow> parameter" where
  "immediate c t = \<lparr>param_type = IMMEDIATE, param_content = c, param_value_type = t\<rparr>"

definition variable :: "string \<Rightarrow> string \<Rightarrow> parameter" where
  "variable c t = \<lparr>param_type = VARIABLE, param_content = c, param_value_type = t\<rparr>"

definition margot_monitor ::
    "string \<Rightarrow> string \<Rightarrow> string \<Rightarrow> string \<Rightarrow> string \<Rightarrow> parameter list \<Rightarrow> parameter list \<Rightarrow> parameter list \<Rightarrow> monitor_spec" where
  "margot_monitor c h t start stop ps_init ps_start ps_stop =
     \<lparr>class_name = c, header_name = h, spec_value_type = t, start_method_name = start, stop_method_name = stop,
      default_param_initialization = ps_init, default_param_start = ps_start, default_param_stop = ps_stop\<rparr>"

definition gen_custom_spec :: "(string \<Rightarrow> string) \<Rightarrow> string \<Rightarrow> monitor_spec result" where
  "gen_custom_spec trim kind =
     bind_result (sanitize_type trim kind)
       (\<lambda>real_type. if real_type = ''string'' then Inl (Runtime_error ''custom monitor: unsupported type'')
          else Inr (margot_monitor (''margot::Monitor<'' @ real_type @ ''>'') ''margot/monitor.hpp'' real_type [] ''push''
                      [immediate ''1'' ''size_t''] [] [variable ''element'' kind]))"

type_synonym monitor_table = "(string \<times> monitor_spec) list"

definition known_monitors :: monitor_table where
  "known_monitors =
     [(''collector'', margot_monitor ''margot::CollectorMonitor'' ''margot/collector_monitor.hpp'' (typer C_double) ''start'' ''stop''
         [variable ''topic'' ''std::string'', variable ''address'' ''std::string'', variable ''port'' ''int'', immediate ''1'' ''size_t''] [] []),
      (''energy'', margot_monitor ''margot::EnergyMonitor'' ''margot/energy_monitor.hpp'' (typer C_long_double) ''start'' ''stop''
         [immediate ''margot::EnergyMonitor::Domain::Cores'' ''margot::EnergyMonitor::Domain'',
          immediate ''{}'' ''std::vector<std::size_t>'', immediate ''1'' ''size_t''] [] []),
      (''frequency'', margot_monitor ''margot::FrequencyMonitor'' ''margot/frequency_monitor.hpp'' (typer C_unsigned_int) [] ''measure''
         [immediate ''1'' ''size_t''] [] []),
      (''memory'', margot_monitor ''margot::MemoryMonitor'' ''margot/memory_monitor.hpp'' (typer C_unsigned_long) [] ''extractMemoryUsage''
         [immediate ''1'' ''size_t''] [] []),
      (''odroid_energy'', margot_monitor ''margot::OdroidEnergyMonitor'' ''margot/odroid_energy_monitor.hpp'' (typer C_long_double)
         ''start'' ''stop'' [immediate ''margot::TimeUnit::MICROSECONDS'' ''margot::TimeUnit'', variable ''polling_time_ms'' ''uint64_t'',
          immediate ''1'' ''size_t''] [] []),
      (''odroid_power'', margot_monitor ''margot::OdroidPowerMonitor'' ''margot/odroid_power_monitor.hpp'' (typer C_float) ''start'' ''stop''
         [immediate ''1'' ''size_t''] [] []),
      (''papi'', margot_monitor ''margot::PapiMonitor'' ''margot/papi_monitor.hpp'' (typer C_long_long) ''start'' ''stop''
         [immediate ''margot::PapiEvent::L1_MISS'' ''margot::PapiEvent'', immediate ''1'' ''size_t''] [] []),
      (''process_cpu'', margot_monitor ''margot::ProcessCpuMonitor'' ''margot/process_cpu_usage_monitor.hpp'' (typer C_float) ''start'' ''stop''
         [immediate ''margot::CounterType::SoftwareCounter'' ''margot::CounterType'', immediate ''1'' ''size_t''] [] []),
      (''system_cpu'', margot_monitor ''margot::SystemCpuMonitor'' ''margot/system_cpu_usage_monitor.hpp'' (typer C_float) ''start'' ''stop''
         [immediate ''1'' ''size_t''] [] []),
      (''temperature'', margot_monitor ''margot::TemperatureMonitor'' ''margot/temperature_monitor.hpp'' (typer C_long_long) [] ''measure''
         [immediate ''1'' ''size_t''] [] []),
      (''throughput'', margot_monitor ''margot::ThroughputMonitor'' ''margot/throughput_monitor.hpp'' (typer C_float) ''start'' ''stop''
         [immediate ''1'' ''size_t''] [] [variable ''amount_data'' ''float'']),
      (''time'', margot_monitor ''margot::TimeMonitor'' ''margot/time_monitor.hpp'' (typer C_unsigned_long) ''start'' ''stop''
         [immediate ''margot::TimeUnit::MICROSECONDS'' ''margot::TimeUnit'', immediate ''1'' ''size_t''] [] [])]"

definition available_statistics :: "string list" where
  "available_statistics = [''average'', ''standard_deviation'', ''max'', ''min'']"

definition get_monitor_cpp_spec ::
    "(string \<Rightarrow> string) \<Rightarrow> string \<Rightarrow> monitor_table \<Rightarrow> (monitor_spec \<times> monitor_table) result" where
  "get_monitor_cpp_spec trim kind known =
     (case map_of known kind of
        Some spec \<Rightarrow> Inr (spec, known)
      | None \<Rightarrow> bind_result (gen_custom_spec trim kind) (\<lambda>spec. Inr (spec, known @ [(kind, spec)])))"

text \<open>\<^verbatim>\<open>std::map::at\<close> throws on a type that was not validated.\<close>

definition is_custom_monitor :: "monitor_model \<Rightarrow> monitor_table \<Rightarrow> bool result" where
  "is_custom_monitor m known =
     (case map_of known (monitor_type m) of
        None \<Rightarrow> Inl (Runtime_error ''std::out_of_range'')
      | Some spec \<Rightarrow> Inr (stop_method_name spec = ''push''))"

section \<open>Validation\<close>

text \<open>The parameters are either those of the user, all of them, or the default ones.\<close>

definition check_parameters :: "string \<Rightarrow> parameter list \<Rightarrow> parameter list \<Rightarrow> string \<Rightarrow> parameter list result" where
  "check_parameters name default_params params params_name =
     (if params \<noteq> [] \<and> length params \<noteq> length default_params
      then Inl (Runtime_error (''monitor model: mismatch on '' @ params_name @ '' parameters''))
      else Inr (map (\<lambda>p. if param_type p = VARIABLE then p\<lparr>param_content := name @ ''_'' @ param_content p\<rparr> else p)
                  (if params = [] then default_params else params)))"

definition validate_monitor ::
    "(string \<Rightarrow> string) \<Rightarrow> monitor_model \<Rightarrow> monitor_table \<Rightarrow> (monitor_model \<times> monitor_table) result" where
  "validate_monitor trim m0 known =
     (if monitor_type m0 = [] then Inl (Runtime_error ''monitor model: monitor without a type'')
      else let m = m0\<lparr>monitor_type := trim (monitor_type m0)\<rparr> in
        bind_result (get_monitor_cpp_spec trim (monitor_type m) known) (\<lambda>(spec, known').
        bind_result (check_parameters (monitor_name m) (default_param_initialization spec) (initialization_parameters m) ''initialization'') (\<lambda>ps_init.
        bind_result (check_parameters (monitor_name m) (default_param_start spec) (start_parameters m) ''start'') (\<lambda>ps_start.
        bind_result (check_parameters (monitor_name m) (default_param_stop spec) (stop_parameters m) ''stop'') (\<lambda>ps_stop.
          if \<not> list_all (\<lambda>s. s \<in> set available_statistics) (requested_statistics m)
          then Inl (Runtime_error ''Unknown log statistic'')
          else if \<not> is_valid_identifier (monitor_name m) then Inl (Runtime_error ''monitor model: unsupported name'')
          else Inr (m\<lparr>initialization_parameters := ps_init, start_parameters := ps_start, stop_parameters := ps_stop\<rparr>, known'))))))"

fun validate_monitors ::
    "(string \<Rightarrow> string) \<Rightarrow> monitor_model list \<Rightarrow> monitor_table \<Rightarrow> (monitor_model list \<times> monitor_table) result" where
  "validate_monitors trim [] known = Inr ([], known)"
| "validate_monitors trim (m # ms) known =
     bind_result (validate_monitor trim m known) (\<lambda>(m', known').
       bind_result (validate_monitors trim ms known') (\<lambda>(ms', known''). Inr (m' # ms', known'')))"

section \<open>What a validated monitor is\<close>

text \<open>
  The specification of a monitor: the one of the table, or that of a custom monitor. A monitor is
  well formed when its name is an identifier, its type has a specification in the table and its
  parameters match it.
\<close>

definition monitor_ok :: "monitor_table \<Rightarrow> monitor_model \<Rightarrow> bool" where
  "monitor_ok known m \<longleftrightarrow> is_valid_identifier (monitor_name m)
     \<and> set (requested_statistics m) \<subseteq> set available_statistics
     \<and> (\<exists>spec. map_of known (monitor_type m) = Some spec
          \<and> length (initialization_parameters m) = length (default_param_initialization spec)
          \<and> length (start_parameters m) = length (default_param_start spec)
          \<and> length (stop_parameters m) = length (default_param_stop spec))"

lemma check_parameters_length:
  "check_parameters name ds ps what = Inr qs \<Longrightarrow> length qs = length ds"
  by (auto simp: check_parameters_def split: if_splits)

lemma get_monitor_cpp_spec_table:
  assumes "get_monitor_cpp_spec trim t known = Inr (spec, known')"
  shows "map_of known' t = Some spec" and "map_of known \<subseteq>\<^sub>m map_of known'"
  using assms by (auto simp: get_monitor_cpp_spec_def map_le_def map_add_def split: option.splits)

lemma validate_monitor_ok:
  assumes "validate_monitor trim m known = Inr (m', known')"
  shows "monitor_ok known' m'" and "map_of known \<subseteq>\<^sub>m map_of known'" and "monitor_name m' = monitor_name m"
  using assms get_monitor_cpp_spec_table [of trim "trim (monitor_type m)" known]
  by (auto simp: validate_monitor_def monitor_ok_def Let_def list_all_iff dest!: check_parameters_length split: if_splits)

lemma monitor_ok_mono: "monitor_ok known m \<Longrightarrow> map_of known \<subseteq>\<^sub>m map_of known' \<Longrightarrow> monitor_ok known' m"
  unfolding monitor_ok_def map_le_def by (metis domI)

lemma validate_monitors_ok:
  "validate_monitors trim ms known = Inr (ms', known') \<Longrightarrow>
     (\<forall>m \<in> set ms'. monitor_ok known' m) \<and> map_of known \<subseteq>\<^sub>m map_of known' \<and> map monitor_name ms' = map monitor_name ms"
proof (induction ms arbitrary: known ms')
  case (Cons m ms)
  then obtain m1 known1 ms1 where v: "validate_monitor trim m known = Inr (m1, known1)"
    and vs: "validate_monitors trim ms known1 = Inr (ms1, known')" and ms': "ms' = m1 # ms1"
    by auto
  note m1 = validate_monitor_ok [OF v]
  note ms1 = Cons.IH [OF vs]
  from m1(1) ms1 have "monitor_ok known' m1" by (auto intro: monitor_ok_mono)
  with m1 ms1 ms' show ?case by (auto intro: map_le_trans)
qed (auto intro: map_le_refl)

end
