(* ===== verification/Heel_Validate.thy ===== *)
theory Heel_Validate
  imports Heel_Monitors
begin

text \<open>
  The validation of the description of an application (\<^verbatim>\<open>model_validate.cpp\<close>, \<^verbatim>\<open>model_knob.cpp\<close>,
  \<^verbatim>\<open>model_metric.cpp\<close>, \<^verbatim>\<open>model_features.cpp\<close>, \<^verbatim>\<open>model_agora.cpp\<close>, \<^verbatim>\<open>model_state.cpp\<close>). It completes the
  description with defaults, throws on what it cannot repair, and computes the types that hold
  all the knobs, metrics and features. Every exception is the value \<open>Inl\<close>.
\<close>

section \<open>Names\<close>

definition set_name :: "string \<Rightarrow> string \<Rightarrow> nat \<Rightarrow> string" where
  "set_name s what counter = (if s = [] then what @ ''_'' @ std_to_string (int (counter + 1)) else s)"

text \<open>
  The containers differ in the type of their elements; \<open>name\<close> and \<open>upd\<close> read and write the name of
  one.
\<close>

fun set_names :: "((string \<Rightarrow> string) \<Rightarrow> 'm \<Rightarrow> 'm) \<Rightarrow> string \<Rightarrow> nat \<Rightarrow> 'm list \<Rightarrow> 'm list" where
  "set_names upd what counter [] = []"
| "set_names upd what counter (m # ms) =
     upd (\<lambda>s. set_name s what counter) m # set_names upd what (counter + 1) ms"

definition check_uniqueness ::
    "('m \<Rightarrow> string) \<Rightarrow> ((string \<Rightarrow> string) \<Rightarrow> 'm \<Rightarrow> 'm) \<Rightarrow> string \<Rightarrow> 'm list \<Rightarrow> 'm list result" where
  "check_uniqueness name upd what container =
     (let named = set_names upd what 0 container
      in if length (std_unique (\<lambda>a b. name a = name b) named) \<noteq> length named
         then Inl (Runtime_error (''validation error: '' @ what @ ''s names must be unique''))
         else Inr named)"

section \<open>Parts of a block\<close>

definition validate_knob :: "(string \<Rightarrow> string) \<Rightarrow> knob_model \<Rightarrow> knob_model result" where
  "validate_knob trim m =
     (if knob_type m = [] then Inl (Runtime_error ''knob model: knob without a type'')
      else bind_result (sanitize_type trim (knob_type m)) (\<lambda>t.
        if \<not> is_valid_identifier (knob_name m) then Inl (Runtime_error ''knob model: unsupported name'')
        else if t = ''string'' \<and> knob_values m = [] then Inl (Runtime_error ''knob model: string enum missing'')
        else Inr (m\<lparr>knob_type := t\<rparr>)))"

definition validate_metric :: "(string \<Rightarrow> string) \<Rightarrow> monitor_model list \<Rightarrow> metric_model \<Rightarrow> metric_model result" where
  "validate_metric trim monitors m =
     (if metric_type m = [] then Inl (Runtime_error ''metric model: metric without a type'')
      else bind_result (sanitize_type trim (metric_type m)) (\<lambda>t.
        if t = ''string'' then Inl (Runtime_error ''metric model: unsupported type'')
        else if \<not> is_valid_identifier (metric_name m) then Inl (Runtime_error ''metric model: unsupported name'')
        else if prediction_parameters m \<noteq> [] \<and> prediction_plugin m = []
        then Inl (Runtime_error ''metric model: empty prediction plugin'')
        else if observed_by m \<noteq> [] \<and> \<not> list_ex (\<lambda>mon. observed_by m = monitor_name mon) monitors
        then Inl (Runtime_error ''metric model: non-existent monitor'')
        else if inertia m > 0 \<and> observed_by m = []
        then Inl (Runtime_error ''metric model: unable to active the reaction mechanism'')
        else Inr (m\<lparr>metric_type := t\<rparr>)))"

definition validate_feature :: "(string \<Rightarrow> string) \<Rightarrow> feature_model \<Rightarrow> feature_model result" where
  "validate_feature trim f =
     bind_result (sanitize_type trim (feature_type f)) (\<lambda>t.
       if t = ''string'' then Inl (Runtime_error ''features model: unsupported type'')
       else if \<not> is_valid_identifier (feature_name f) then Inl (Runtime_error ''features model: unsupported name'')
       else Inr (f\<lparr>feature_type := t\<rparr>))"

definition validate_features :: "(string \<Rightarrow> string) \<Rightarrow> features_model \<Rightarrow> features_model result" where
  "validate_features trim m =
     (if feature_fields m \<noteq> []
      then if length (std_unique (\<lambda>a b. feature_name a = feature_name b) (feature_fields m)) \<noteq> length (feature_fields m)
           then Inl (Runtime_error ''features model: duplicated features'')
           else bind_result (traverse (validate_feature trim) (feature_fields m)) (\<lambda>fs. Inr (m\<lparr>feature_fields := fs\<rparr>))
      else if distance_type m \<noteq> Features_NONE then Inl (Runtime_error ''features model: inconsistent description'')
      else Inr m)"

text \<open>The first check of the source can never fail, since a model without a url is empty.\<close>

definition validate_agora :: "agora_model \<Rightarrow> metric_model list \<Rightarrow> knob_model list \<Rightarrow> unit result" where
  "validate_agora m metrics knobs =
     (if agora_empty m then Inr ()
      else if url m = [] then Inl (Runtime_error ''agora model: empty broker url'')
      else if qos m = [] then Inl (Runtime_error ''agora model: empty connection qos'')
      else if qos m \<noteq> ''0'' \<and> qos m \<noteq> ''1'' \<and> qos m \<noteq> ''2'' then Inl (Runtime_error ''agora model: unknown qos level'')
      else if doe_plugin m = [] then Inl (Runtime_error ''agora model: empty doe plugin'')
      else if clustering_plugin m = [] then Inl (Runtime_error ''agora model: empty clustering plugin'')
      else if metrics = [] then Inl (Runtime_error ''agora error: no metric to predict'')
      else if list_ex (\<lambda>x. observed_by x = []) metrics then Inl (Runtime_error ''agora error: metric not observed'')
      else if list_ex (\<lambda>x. prediction_plugin x = []) metrics then Inl (Runtime_error ''agora error: metric not predicted'')
      else if list_ex (\<lambda>k. knob_values k = []) knobs then Inl (Runtime_error ''agora error: unknown knob range'')
      else Inr ())"

definition subject_kind_of :: "metric_model list \<Rightarrow> knob_model list \<Rightarrow> string \<Rightarrow> subject_kind option" where
  "subject_kind_of metrics knobs name =
     (if list_ex (\<lambda>k. knob_name k = name) knobs then Some KNOB
      else if list_ex (\<lambda>m. metric_name m = name) metrics then Some METRIC
      else None)"

definition complete_rank_field :: "rank_field_model \<Rightarrow> rank_field_model result" where
  "complete_rank_field r =
     (if rank_field_name r = [] then Inl (Runtime_error ''state model: empty rank field'')
      else Inr (r\<lparr>rank_coefficient := (if rank_coefficient r = [] then ''1'' else rank_coefficient r)\<rparr>))"

definition complete_constraint :: "constraint_model \<Rightarrow> constraint_model result" where
  "complete_constraint c =
     (if constraint_subject c = [] then Inl (Runtime_error ''state model: empty constraint field'')
      else if constraint_value c = [] then Inl (Runtime_error ''state model: no goal value'')
      else Inr (c\<lparr>confidence := (if confidence c = [] then ''0'' else confidence c)\<rparr>))"

definition resolve_rank_field :: "metric_model list \<Rightarrow> knob_model list \<Rightarrow> rank_field_model \<Rightarrow> rank_field_model result" where
  "resolve_rank_field metrics knobs r =
     (case subject_kind_of metrics knobs (rank_field_name r) of
        None \<Rightarrow> Inl (Runtime_error ''state model: unknown rank field'')
      | Some k \<Rightarrow> Inr (r\<lparr>rank_field_kind := k\<rparr>))"

definition resolve_constraint :: "metric_model list \<Rightarrow> knob_model list \<Rightarrow> constraint_model \<Rightarrow> constraint_model result" where
  "resolve_constraint metrics knobs c =
     (case subject_kind_of metrics knobs (constraint_subject c) of
        None \<Rightarrow> Inl (Runtime_error ''state model: unknown constraint field'')
      | Some k \<Rightarrow> Inr (c\<lparr>constraint_kind := k\<rparr>))"

definition validate_state :: "metric_model list \<Rightarrow> knob_model list \<Rightarrow> state_model \<Rightarrow> state_model result" where
  "validate_state metrics knobs m =
     (if state_name m = [] then Inl (Runtime_error ''state model: empty state name'')
      else if \<not> is_valid_identifier (state_name m) then Inl (Runtime_error ''state model: invalid state name'')
      else if rank_fields m \<noteq> [] \<and> direction m = Direction_NONE then Inl (Runtime_error ''state model: missing rank direction'')
      else if rank_fields m \<noteq> [] \<and> combination m = Rank_NONE then Inl (Runtime_error ''state model: missing rank type'')
      else bind_result (traverse complete_rank_field (rank_fields m)) (\<lambda>rs.
           bind_result (traverse complete_constraint (state_constraints m)) (\<lambda>cs.
           bind_result (traverse (resolve_rank_field metrics knobs) rs) (\<lambda>rs'.
           bind_result (traverse (resolve_constraint metrics knobs) cs) (\<lambda>cs'.
             Inr (m\<lparr>rank_fields := rs', state_constraints := cs'\<rparr>))))))"

section \<open>Blocks and applications\<close>

definition largest_type :: "string \<Rightarrow> (string \<Rightarrow> string) \<Rightarrow> string list \<Rightarrow> string result" where
  "largest_type what trim types =
     bind_result (std_sort (type_less what trim) types) (\<lambda>ts. Inr (if ts = [] then [] else last ts))"

definition features_fields_update :: "(feature_model list \<Rightarrow> feature_model list) \<Rightarrow> block_model \<Rightarrow> block_model" where
  "features_fields_update f b = b\<lparr>block_features := (block_features b)\<lparr>feature_fields := f (feature_fields (block_features b))\<rparr>\<rparr>"

definition check_names :: "block_model \<Rightarrow> block_model result" where
  "check_names b =
     bind_result (check_uniqueness monitor_name monitor_name_update ''monitor'' (block_monitors b)) (\<lambda>mons.
     bind_result (check_uniqueness knob_name knob_name_update ''knob'' (block_knobs b)) (\<lambda>ks.
     bind_result (check_uniqueness feature_name feature_name_update ''feature'' (feature_fields (block_features b))) (\<lambda>fs.
     bind_result (check_uniqueness metric_name metric_name_update ''metric'' (block_metrics b)) (\<lambda>ms.
     bind_result (check_uniqueness state_name state_name_update ''state'' (block_states b)) (\<lambda>ss.
       if list_ex (\<lambda>k. list_ex (\<lambda>m. metric_name m = knob_name k) ms) ks
       then Inl (Runtime_error ''validation error: ambiguous naming'')
       else Inr (features_fields_update (\<lambda>_. fs)
                  (b\<lparr>block_monitors := mons, block_knobs := ks, block_metrics := ms, block_states := ss\<rparr>)))))))"

definition validate_parts ::
    "(string \<Rightarrow> string) \<Rightarrow> block_model \<Rightarrow> monitor_table \<Rightarrow> (block_model \<times> monitor_table) result" where
  "validate_parts trim b known =
     bind_result (validate_monitors trim (block_monitors b) known) (\<lambda>(mons, known').
     bind_result (traverse (validate_knob trim) (block_knobs b)) (\<lambda>ks.
     bind_result (traverse (validate_metric trim mons) (block_metrics b)) (\<lambda>ms.
     bind_result (validate_features trim (block_features b)) (\<lambda>fs.
     bind_result (validate_agora (block_agora b) ms ks) (\<lambda>_.
     bind_result (traverse (validate_state ms ks) (block_states b)) (\<lambda>ss.
       Inr (b\<lparr>block_monitors := mons, block_knobs := ks, block_metrics := ms, block_features := fs, block_states := ss\<rparr>, known')))))))"

definition compute_segment_types :: "(string \<Rightarrow> string) \<Rightarrow> block_model \<Rightarrow> block_model result" where
  "compute_segment_types trim b =
     (let knob_types = filter (\<lambda>t. t \<noteq> ''string'') (map knob_type (block_knobs b))
      in bind_result (largest_type ''knobs'' trim (if knob_types = [] then [typer C_int] else knob_types)) (\<lambda>kt.
         bind_result (largest_type ''metrics'' trim (map metric_type (block_metrics b))) (\<lambda>mt.
         bind_result (largest_type ''features'' trim (map feature_type (feature_fields (block_features b)))) (\<lambda>ft.
           Inr (b\<lparr>knobs_segment_type := kt, metrics_segment_type := mt,
                  block_features := (block_features b)\<lparr>features_type := ft\<rparr>\<rparr>)))))"

definition validate_block ::
    "(string \<Rightarrow> string) \<Rightarrow> block_model \<Rightarrow> monitor_table \<Rightarrow> (block_model \<times> monitor_table) result" where
  "validate_block trim b0 known =
     (if \<not> is_valid_identifier (block_id b0) then Inl (Runtime_error ''block model: unsupported name'')
      else bind_result (check_names b0) (\<lambda>b1.
           bind_result (validate_parts trim b1 known) (\<lambda>(b2, known').
           bind_result (compute_segment_types trim b2) (\<lambda>b3.
             if (block_knobs b3 = [] \<and> block_metrics b3 \<noteq> []) \<or> (block_knobs b3 \<noteq> [] \<and> block_metrics b3 = [])
             then Inl (Runtime_error ''model validation: block partially defined'')
             else Inr (b3, known')))))"

fun validate_blocks ::
    "(string \<Rightarrow> string) \<Rightarrow> block_model list \<Rightarrow> monitor_table \<Rightarrow> (block_model list \<times> monitor_table) result" where
  "validate_blocks trim [] known = Inr ([], known)"
| "validate_blocks trim (b # bs) known =
     bind_result (validate_block trim b known) (\<lambda>(b', known').
       bind_result (validate_blocks trim bs known') (\<lambda>(bs', known''). Inr (b' # bs', known'')))"

definition validate_application ::
    "(string \<Rightarrow> string) \<Rightarrow> application_model \<Rightarrow> monitor_table \<Rightarrow> (application_model \<times> monitor_table) result" where
  "validate_application trim m0 known =
     (let m = m0\<lparr>application_name := (if application_name m0 = [] then ''foo'' else application_name m0),
                 application_version := (if application_version m0 = [] then ''1.0'' else application_version m0)\<rparr>
      in if \<not> is_valid_identifier (application_name m) then Inl (Runtime_error ''application model: unsupported name'')
         else bind_result (check_uniqueness block_id block_id_update ''block'' (application_blocks m)) (\<lambda>bs.
              bind_result (validate_blocks trim bs known) (\<lambda>(bs', known').
                Inr (m\<lparr>application_blocks := bs'\<rparr>, known'))))"

end
