(* ===== verification/Heel_Wellformed.thy ===== *)
theory Heel_Wellformed
  imports Heel_Validate
begin

text \<open>
  What a validated description promises to the code generator: every name is an identifier, every
  type has a canonical name, references between the parts resolve, and the types of the segments
  hold all the values. The validation of each part is characterised by a lemma of the collection
  \<open>validate_iff\<close> or by what it establishes.
\<close>

section \<open>Unique names\<close>

lemma adjacent_sorted_distinct: "sorted xs \<Longrightarrow> successively (\<noteq>) xs \<Longrightarrow> distinct xs" for xs :: "string list"
proof (induction xs rule: remdups_adj.induct)
  case (3 x y xs)
  then have "x < y" "\<forall>z \<in> set xs. y \<le> z" by auto
  then have "x \<notin> set (y # xs)" by auto
  with 3 show ?case by simp
qed auto

text \<open>The containers whose names are checked: reading and writing the name of an element.\<close>

locale named_elements =
  fixes name :: "'m \<Rightarrow> string" and upd :: "(string \<Rightarrow> string) \<Rightarrow> 'm \<Rightarrow> 'm"
  assumes name_upd: "name (upd f m) = f (name m)" and upd_id: "f (name m) = name m \<Longrightarrow> upd f m = m"
begin

lemma set_names_id: "\<forall>m \<in> set ms. name m \<noteq> [] \<Longrightarrow> set_names upd what n ms = ms"
  by (induction ms arbitrary: n) (auto simp: set_name_def intro!: upd_id)

lemma set_names_nonempty: "m \<in> set (set_names upd what n ms) \<Longrightarrow> name m \<noteq> []"
  by (induction ms arbitrary: n) (auto simp: name_upd set_name_def split: if_splits)

lemma length_set_names [simp]: "length (set_names upd what n ms) = length ms"
  by (induction ms arbitrary: n) auto

lemma check_uniqueness_iff:
  assumes "\<forall>m \<in> set ms. name m \<noteq> []"
  shows "check_uniqueness name upd what ms = Inr ms' \<longleftrightarrow> ms' = ms \<and> successively (\<noteq>) (map name ms)"
proof -
  have "successively (\<lambda>a b. \<not> name a = name b) ms \<longleftrightarrow> successively (\<noteq>) (map name ms)"
    by (simp add: successively_map)
  then show ?thesis
    using std_unique_id_iff [of "\<lambda>a b. name a = name b" ms]
    by (auto simp: check_uniqueness_def set_names_id [OF assms] Let_def)
qed

lemma check_uniqueness_distinct:
  assumes "sorted (map name ms)" and "\<forall>m \<in> set ms. name m \<noteq> []" and "check_uniqueness name upd what ms = Inr ms'"
  shows "ms' = ms \<and> distinct (map name ms)"
  using assms(3) adjacent_sorted_distinct [OF assms(1)] by (simp add: check_uniqueness_iff [OF assms(2)])

lemma check_uniqueness_nonempty:
  "check_uniqueness name upd what ms = Inr ms' \<Longrightarrow> m \<in> set ms' \<Longrightarrow> name m \<noteq> []"
  by (auto simp: check_uniqueness_def Let_def dest: set_names_nonempty split: if_splits)

end

interpretation named_monitors: named_elements monitor_name monitor_name_update by unfold_locales auto
interpretation named_knobs: named_elements knob_name knob_name_update by unfold_locales auto
interpretation named_features: named_elements feature_name feature_name_update by unfold_locales auto
interpretation named_metrics: named_elements metric_name metric_name_update by unfold_locales auto
interpretation named_states: named_elements state_name state_name_update by unfold_locales auto
interpretation named_blocks: named_elements block_id block_id_update by unfold_locales auto

section \<open>Well-formed descriptions\<close>

definition knob_ok :: "knob_model \<Rightarrow> bool" where
  "knob_ok k \<longleftrightarrow> is_valid_identifier (knob_name k) \<and> knob_type k \<in> insert [] (insert ''string'' (set numeric_types))
     \<and> (knob_type k = ''string'' \<longrightarrow> knob_values k \<noteq> [])"

definition metric_ok :: "monitor_model list \<Rightarrow> metric_model \<Rightarrow> bool" where
  "metric_ok monitors m \<longleftrightarrow> is_valid_identifier (metric_name m) \<and> metric_type m \<in> insert [] (set numeric_types)
     \<and> (prediction_parameters m \<noteq> [] \<longrightarrow> prediction_plugin m \<noteq> [])
     \<and> (observed_by m \<noteq> [] \<longrightarrow> observed_by m \<in> monitor_name ` set monitors)
     \<and> (inertia m > 0 \<longrightarrow> observed_by m \<noteq> [])"

definition features_ok :: "features_model \<Rightarrow> bool" where
  "features_ok fs \<longleftrightarrow> (\<forall>f \<in> set (feature_fields fs). is_valid_identifier (feature_name f)
        \<and> feature_type f \<in> insert [] (set numeric_types))
     \<and> (feature_fields fs = [] \<longrightarrow> distance_type fs = Features_NONE)"

definition agora_ok :: "agora_model \<Rightarrow> metric_model list \<Rightarrow> knob_model list \<Rightarrow> bool" where
  "agora_ok a metrics knobs \<longleftrightarrow> agora_empty a \<or>
     qos a \<in> {''0'', ''1'', ''2''} \<and> doe_plugin a \<noteq> [] \<and> clustering_plugin a \<noteq> [] \<and> metrics \<noteq> []
     \<and> (\<forall>m \<in> set metrics. observed_by m \<noteq> [] \<and> prediction_plugin m \<noteq> []) \<and> (\<forall>k \<in> set knobs. knob_values k \<noteq> [])"

definition state_ok :: "metric_model list \<Rightarrow> knob_model list \<Rightarrow> state_model \<Rightarrow> bool" where
  "state_ok metrics knobs s \<longleftrightarrow> is_valid_identifier (state_name s)
     \<and> (rank_fields s \<noteq> [] \<longrightarrow> direction s \<noteq> Direction_NONE \<and> combination s \<noteq> Rank_NONE)
     \<and> (\<forall>r \<in> set (rank_fields s). rank_coefficient r \<noteq> []
          \<and> subject_kind_of metrics knobs (rank_field_name r) = Some (rank_field_kind r))
     \<and> (\<forall>c \<in> set (state_constraints s). constraint_value c \<noteq> [] \<and> confidence c \<noteq> []
          \<and> subject_kind_of metrics knobs (constraint_subject c) = Some (constraint_kind c))"

definition segments_ok :: "block_model \<Rightarrow> bool" where
  "segments_ok b \<longleftrightarrow>
     (\<forall>k \<in> set (block_knobs b). knob_type k \<noteq> ''string'' \<longrightarrow> type_fits (knob_type k) (knobs_segment_type b))
     \<and> (\<forall>m \<in> set (block_metrics b). type_fits (metric_type m) (metrics_segment_type b))
     \<and> (\<forall>f \<in> set (feature_fields (block_features b)). type_fits (feature_type f) (features_type (block_features b)))"

definition block_ok :: "monitor_table \<Rightarrow> block_model \<Rightarrow> bool" where
  "block_ok known b \<longleftrightarrow> is_valid_identifier (block_id b)
     \<and> (\<forall>m \<in> set (block_monitors b). monitor_ok known m)
     \<and> (\<forall>k \<in> set (block_knobs b). knob_ok k)
     \<and> (\<forall>m \<in> set (block_metrics b). metric_ok (block_monitors b) m)
     \<and> features_ok (block_features b)
     \<and> agora_ok (block_agora b) (block_metrics b) (block_knobs b)
     \<and> (\<forall>s \<in> set (block_states b). state_ok (block_metrics b) (block_knobs b) s)
     \<and> segments_ok b
     \<and> knob_name ` set (block_knobs b) \<inter> metric_name ` set (block_metrics b) = {}
     \<and> (block_knobs b = [] \<longleftrightarrow> block_metrics b = [])"

section \<open>The validation of the parts\<close>

lemma validate_knob_ok [validate_iff]:
  "validate_knob trim k = Inr k' \<Longrightarrow> knob_ok k' \<and> knob_name k' = knob_name k"
  using sanitize_type_range [of trim "knob_type k"] by (auto simp: validate_knob_def knob_ok_def split: if_splits)

lemma validate_metric_ok [validate_iff]:
  "validate_metric trim mons m = Inr m' \<Longrightarrow> metric_ok mons m' \<and> metric_name m' = metric_name m"
  using sanitize_type_range [of trim "metric_type m"]
  by (auto simp: validate_metric_def metric_ok_def list_ex_iff split: if_splits)

lemma validate_feature_ok [validate_iff]:
  "validate_feature trim f = Inr f' \<Longrightarrow> is_valid_identifier (feature_name f') \<and> feature_type f' \<in> insert [] (set numeric_types)
     \<and> feature_name f' = feature_name f"
  using sanitize_type_range [of trim "feature_type f"] by (auto simp: validate_feature_def split: if_splits)

lemma validate_features_ok [validate_iff]:
  assumes "validate_features trim fs = Inr fs'"
  shows "features_ok fs' \<and> map feature_name (feature_fields fs') = map feature_name (feature_fields fs)"
proof (cases "feature_fields fs = []")
  case False
  with assms obtain gs where gs: "traverse (validate_feature trim) (feature_fields fs) = Inr gs"
    and fs': "fs' = fs\<lparr>feature_fields := gs\<rparr>"
    by (auto simp: validate_features_def split: if_splits)
  have "\<forall>g \<in> set gs. is_valid_identifier (feature_name g) \<and> feature_type g \<in> insert [] (set numeric_types)"
    by (rule traverse_all [OF gs]) (use validate_feature_ok in blast)
  moreover have "map feature_name gs = map feature_name (feature_fields fs)"
    by (rule traverse_map [OF gs]) (use validate_feature_ok in blast)
  ultimately show ?thesis using False fs' by (auto simp: features_ok_def)
qed (use assms in \<open>auto simp: validate_features_def features_ok_def split: if_splits\<close>)

lemma validate_agora_ok [validate_iff]: "validate_agora a ms ks = Inr u \<Longrightarrow> agora_ok a ms ks"
  by (auto simp: validate_agora_def agora_ok_def list_ex_iff split: if_splits)

lemma complete_rank_fields:
  assumes "traverse complete_rank_field rs = Inr rs1" and "traverse (resolve_rank_field ms ks) rs1 = Inr rs2"
  shows "(\<forall>r \<in> set rs2. rank_coefficient r \<noteq> [] \<and> subject_kind_of ms ks (rank_field_name r) = Some (rank_field_kind r))
    \<and> length rs2 = length rs"
proof -
  have c: "\<forall>r \<in> set rs1. rank_coefficient r \<noteq> []"
    by (rule traverse_all [OF assms(1)]) (auto simp: complete_rank_field_def split: if_splits)
  have "\<forall>r \<in> set rs2. rank_coefficient r \<noteq> [] \<and> subject_kind_of ms ks (rank_field_name r) = Some (rank_field_kind r)"
    by (rule traverse_all [OF assms(2)]) (use c in \<open>auto simp: resolve_rank_field_def split: option.splits\<close>)
  moreover have "length rs1 = length rs" "length rs2 = length rs1"
    using assms by (auto simp: traverse_eq_Inr dest: list_all2_lengthD)
  ultimately show ?thesis by simp
qed

lemma complete_constraints:
  assumes "traverse complete_constraint cs = Inr cs1" and "traverse (resolve_constraint ms ks) cs1 = Inr cs2"
  shows "\<forall>c \<in> set cs2. constraint_value c \<noteq> [] \<and> confidence c \<noteq> []
    \<and> subject_kind_of ms ks (constraint_subject c) = Some (constraint_kind c)"
proof -
  have c: "\<forall>c \<in> set cs1. constraint_value c \<noteq> [] \<and> confidence c \<noteq> []"
    by (rule traverse_all [OF assms(1)]) (auto simp: complete_constraint_def split: if_splits)
  show ?thesis
    by (rule traverse_all [OF assms(2)]) (use c in \<open>auto simp: resolve_constraint_def split: option.splits\<close>)
qed

lemma validate_state_ok [validate_iff]:
  assumes "validate_state ms ks s = Inr s'"
  shows "state_ok ms ks s'" and "state_name s' = state_name s"
proof -
  from assms obtain rs cs rs' cs' where
    t: "traverse complete_rank_field (rank_fields s) = Inr rs" "traverse complete_constraint (state_constraints s) = Inr cs"
      "traverse (resolve_rank_field ms ks) rs = Inr rs'" "traverse (resolve_constraint ms ks) cs = Inr cs'"
    and s': "s' = s\<lparr>rank_fields := rs', state_constraints := cs'\<rparr>"
    and g: "is_valid_identifier (state_name s)"
      "rank_fields s \<noteq> [] \<longrightarrow> direction s \<noteq> Direction_NONE \<and> combination s \<noteq> Rank_NONE"
    by (auto simp: validate_state_def split: if_splits)
  from complete_rank_fields [OF t(1,3)] have "rs' = [] \<longleftrightarrow> rank_fields s = []" by auto
  with complete_rank_fields [OF t(1,3)] complete_constraints [OF t(2,4)] g show "state_ok ms ks s'"
    by (auto simp: state_ok_def s')
  show "state_name s' = state_name s" by (simp add: s')
qed

section \<open>Blocks\<close>

lemma check_names_disjoint:
  assumes "check_names b = Inr b1"
  shows "knob_name ` set (block_knobs b1) \<inter> metric_name ` set (block_metrics b1) = {}" and "block_id b1 = block_id b"
proof -
  from assms obtain mons ks fs ms ss where d: "\<not> list_ex (\<lambda>k. list_ex (\<lambda>m. metric_name m = knob_name k) ms) ks"
    and b1: "b1 = features_fields_update (\<lambda>_. fs) (b\<lparr>block_monitors := mons, block_knobs := ks, block_metrics := ms, block_states := ss\<rparr>)"
    by (auto simp: check_names_def split: if_splits)
  show "knob_name ` set (block_knobs b1) \<inter> metric_name ` set (block_metrics b1) = {}"
  proof -
    have "\<forall>k \<in> set ks. \<forall>m \<in> set ms. metric_name m \<noteq> knob_name k" using d by (simp add: list_ex_iff)
    then have "knob_name ` set ks \<inter> metric_name ` set ms = {}" by fastforce
    then show ?thesis by (simp add: b1 features_fields_update_def)
  qed
  show "block_id b1 = block_id b" by (simp add: b1 features_fields_update_def)
qed

lemma validate_parts_ok:
  assumes "validate_parts trim b known = Inr (b', known')"
  shows "\<forall>m \<in> set (block_monitors b'). monitor_ok known' m" and "\<forall>k \<in> set (block_knobs b'). knob_ok k"
    and "\<forall>m \<in> set (block_metrics b'). metric_ok (block_monitors b') m" and "features_ok (block_features b')"
    and "agora_ok (block_agora b') (block_metrics b') (block_knobs b')"
    and "\<forall>s \<in> set (block_states b'). state_ok (block_metrics b') (block_knobs b') s"
    and "map_of known \<subseteq>\<^sub>m map_of known'" and "block_id b' = block_id b"
    and "map knob_name (block_knobs b') = map knob_name (block_knobs b)"
    and "map metric_name (block_metrics b') = map metric_name (block_metrics b)"
proof -
  from assms obtain mons ks ms fs u ss where
    p: "validate_monitors trim (block_monitors b) known = Inr (mons, known')"
      "traverse (validate_knob trim) (block_knobs b) = Inr ks" "traverse (validate_metric trim mons) (block_metrics b) = Inr ms"
      "validate_features trim (block_features b) = Inr fs" "validate_agora (block_agora b) ms ks = Inr u"
      "traverse (validate_state ms ks) (block_states b) = Inr ss"
    and b': "b' = b\<lparr>block_monitors := mons, block_knobs := ks, block_metrics := ms, block_features := fs, block_states := ss\<rparr>"
    by (auto simp: validate_parts_def)
  show "\<forall>m \<in> set (block_monitors b'). monitor_ok known' m" "map_of known \<subseteq>\<^sub>m map_of known'"
    using validate_monitors_ok [OF p(1)] by (simp_all add: b')
  have "\<forall>k \<in> set ks. knob_ok k" by (rule traverse_all [OF p(2)]) (use validate_knob_ok in blast)
  moreover have "map knob_name ks = map knob_name (block_knobs b)"
    by (rule traverse_map [OF p(2)]) (use validate_knob_ok in blast)
  ultimately show "\<forall>k \<in> set (block_knobs b'). knob_ok k" "map knob_name (block_knobs b') = map knob_name (block_knobs b)"
    by (simp_all add: b')
  have "\<forall>m \<in> set ms. metric_ok mons m" by (rule traverse_all [OF p(3)]) (use validate_metric_ok in blast)
  moreover have "map metric_name ms = map metric_name (block_metrics b)"
    by (rule traverse_map [OF p(3)]) (use validate_metric_ok in blast)
  ultimately show "\<forall>m \<in> set (block_metrics b'). metric_ok (block_monitors b') m"
      "map metric_name (block_metrics b') = map metric_name (block_metrics b)"
    by (simp_all add: b')
  have "\<forall>s \<in> set ss. state_ok ms ks s" by (rule traverse_all [OF p(6)]) (use validate_state_ok(1) in blast)
  then show "\<forall>s \<in> set (block_states b'). state_ok (block_metrics b') (block_knobs b') s" by (simp add: b')
  show "features_ok (block_features b')" "agora_ok (block_agora b') (block_metrics b') (block_knobs b')" "block_id b' = block_id b"
    using validate_features_ok [OF p(4)] validate_agora_ok [OF p(5)] by (simp_all add: b')
qed

text \<open>The segment types are computed from the types of the validated parts.\<close>

lemma largest_type_fits:
  assumes "trimmer trim" and "largest_type what trim ts = Inr s" and "set ts \<subseteq> insert [] (set numeric_types)"
  shows "\<forall>t \<in> set ts. type_fits t s"
proof (cases "ts = []")
  case False
  from assms(2) obtain zs where zs: "std_sort (type_less what trim) ts = Inr zs" and s: "s = (if zs = [] then [] else last zs)"
    by (auto simp: largest_type_def)
  from trimmer.sort_types_last [OF assms(1) zs assms(3) False] show ?thesis by (simp add: s)
qed simp

lemma compute_segment_types_ok:
  assumes "trimmer trim" and "compute_segment_types trim b = Inr b'"
    and k: "\<forall>k \<in> set (block_knobs b). knob_ok k" and m: "\<forall>m \<in> set (block_metrics b). metric_ok mons m"
    and f: "features_ok (block_features b)"
  shows "segments_ok b'"
    and "\<exists>kt mt ft. b' = b\<lparr>knobs_segment_type := kt, metrics_segment_type := mt,
                            block_features := (block_features b)\<lparr>features_type := ft\<rparr>\<rparr>"
proof -
  let ?ks = "filter (\<lambda>t. t \<noteq> ''string'') (map knob_type (block_knobs b))"
  from assms(2) obtain kt mt ft where
    l: "largest_type ''knobs'' trim (if ?ks = [] then [typer C_int] else ?ks) = Inr kt"
      "largest_type ''metrics'' trim (map metric_type (block_metrics b)) = Inr mt"
      "largest_type ''features'' trim (map feature_type (feature_fields (block_features b))) = Inr ft"
    and b': "b' = b\<lparr>knobs_segment_type := kt, metrics_segment_type := mt, block_features := (block_features b)\<lparr>features_type := ft\<rparr>\<rparr>"
    by (auto simp: compute_segment_types_def Let_def)
  have "set ?ks \<subseteq> insert [] (set numeric_types)" using k by (auto simp: knob_ok_def)
  then have "set (if ?ks = [] then [typer C_int] else ?ks) \<subseteq> insert [] (set numeric_types)"
    using typer_numeric [of C_int] by auto
  from largest_type_fits [OF assms(1) l(1) this] have "\<forall>t \<in> set ?ks. type_fits t kt" by (cases "?ks = []") simp_all
  moreover have "\<forall>t \<in> set (map metric_type (block_metrics b)). type_fits t mt"
    by (rule largest_type_fits [OF assms(1) l(2)]) (use m in \<open>auto simp: metric_ok_def\<close>)
  moreover have "\<forall>t \<in> set (map feature_type (feature_fields (block_features b))). type_fits t ft"
    by (rule largest_type_fits [OF assms(1) l(3)]) (use f in \<open>auto simp: features_ok_def\<close>)
  ultimately show "segments_ok b'" by (auto simp: segments_ok_def b')
  show "\<exists>kt mt ft. b' = b\<lparr>knobs_segment_type := kt, metrics_segment_type := mt,
                          block_features := (block_features b)\<lparr>features_type := ft\<rparr>\<rparr>"
    using b' by blast
qed

lemma validate_block_ok:
  assumes "trimmer trim" and "validate_block trim b known = Inr (b', known')"
  shows "block_ok known' b'" and "map_of known \<subseteq>\<^sub>m map_of known'" and "block_id b' = block_id b"
proof -
  from assms(2) obtain b1 b2 where i: "is_valid_identifier (block_id b)" and n: "check_names b = Inr b1"
    and p: "validate_parts trim b1 known = Inr (b2, known')" and t: "compute_segment_types trim b2 = Inr b'"
    and g: "block_knobs b' = [] \<longleftrightarrow> block_metrics b' = []"
    by (auto simp: validate_block_def split: if_splits)
  note P = validate_parts_ok [OF p]
  note S = compute_segment_types_ok [OF assms(1) t P(2,3,4)]
  from S(2) obtain kt mt ft where b': "b' = b2\<lparr>knobs_segment_type := kt, metrics_segment_type := mt,
      block_features := (block_features b2)\<lparr>features_type := ft\<rparr>\<rparr>" by blast
  have "knob_name ` set (block_knobs b2) = knob_name ` set (block_knobs b1)"
      "metric_name ` set (block_metrics b2) = metric_name ` set (block_metrics b1)"
    using P(9,10) by (metis list.set_map)+
  with check_names_disjoint [OF n]
  have d: "knob_name ` set (block_knobs b2) \<inter> metric_name ` set (block_metrics b2) = {}" by simp
  have f: "features_ok (block_features b')" using P(4) by (simp add: b' features_ok_def)
  show "block_id b' = block_id b" using P(8) check_names_disjoint(2) [OF n] by (simp add: b')
  then have "is_valid_identifier (block_id b')" using i by simp
  moreover have e: "block_monitors b' = block_monitors b2" "block_knobs b' = block_knobs b2" "block_metrics b' = block_metrics b2"
      "block_agora b' = block_agora b2" "block_states b' = block_states b2"
    by (simp_all add: b')
  ultimately show "block_ok known' b'"
    unfolding block_ok_def e using P(1-3,5,6) f S(1) d g [unfolded e] by (intro conjI)
  show "map_of known \<subseteq>\<^sub>m map_of known'" by (rule P(7))
qed

lemma block_ok_mono: "block_ok known b \<Longrightarrow> map_of known \<subseteq>\<^sub>m map_of known' \<Longrightarrow> block_ok known' b"
  by (auto simp: block_ok_def intro: monitor_ok_mono)

lemma validate_blocks_ok:
  assumes "trimmer trim"
  shows "validate_blocks trim bs known = Inr (bs', known') \<Longrightarrow>
     (\<forall>b \<in> set bs'. block_ok known' b) \<and> map_of known \<subseteq>\<^sub>m map_of known' \<and> map block_id bs' = map block_id bs"
proof (induction bs arbitrary: known bs')
  case (Cons b bs)
  then obtain b1 known1 bs1 where v: "validate_block trim b known = Inr (b1, known1)"
    and vs: "validate_blocks trim bs known1 = Inr (bs1, known')" and bs': "bs' = b1 # bs1"
    by auto
  note b1 = validate_block_ok [OF assms v]
  note bs1 = Cons.IH [OF vs]
  from b1(1) bs1 have "block_ok known' b1" by (auto intro: block_ok_mono)
  with b1 bs1 bs' show ?case by (auto intro: map_le_trans)
qed (auto intro: map_le_refl)


definition sample_knob :: "string \<Rightarrow> knob_model" where
  "sample_knob n = \<lparr>knob_name = n, knob_type = ''int'', knob_values = [''1'', ''2'']\<rparr>"

definition sample_metric :: metric_model where
  "sample_metric = \<lparr>metric_name = ''time'', metric_type = ''float'', distribution = False, prediction_plugin = [],
     observed_by = ''clock'', inertia = 1, prediction_parameters = []\<rparr>"

definition sample_state :: "string \<Rightarrow> state_model" where
  "sample_state n = \<lparr>state_name = n, direction = Direction_MINIMIZE, combination = Rank_LINEAR,
     rank_fields = [\<lparr>rank_field_name = ''time'', rank_field_kind = UNKNOWN, rank_coefficient = []\<rparr>],
     state_constraints = []\<rparr>"

definition sample_description :: "string list \<Rightarrow> string list \<Rightarrow> application_model" where
  "sample_description knobs states = \<lparr>application_name = ''app'', application_version = [], application_blocks =
     [\<lparr>block_id = ''b'',
       block_monitors = [\<lparr>monitor_name = ''clock'', monitor_type = ''time'', requested_statistics = [''average''],
                          initialization_parameters = [], start_parameters = [], stop_parameters = []\<rparr>],
       block_knobs = map sample_knob knobs, knobs_segment_type = [], block_metrics = [sample_metric],
       metrics_segment_type = [],
       block_features = \<lparr>distance_type = Features_NONE, features_type = [], feature_fields = []\<rparr>,
       block_agora = \<lparr>url = [], username = [], password = [], qos = [], broker_ca = [], client_cert = [], client_key = [],
         number_configurations_per_iteration = [], number_observations_per_configuration = [], max_number_iteration = [],
         doe_plugin = [], clustering_plugin = [], doe_parameters = [], clustering_parameters = []\<rparr>,
       block_states = map sample_state states, block_ops = []\<rparr>]\<rparr>"

lemma sample_description_valid:
  "case validate_application std_trim (sample_description [''k''] [''s'']) known_monitors of
     Inl e \<Rightarrow> False | Inr r \<Rightarrow> map knobs_segment_type (application_blocks (fst r)) = [''int32_t'']"
  by code_simp


section \<open>Which duplicates are found\<close>

abbreviation adjacent_distinct :: "string list \<Rightarrow> bool" where
  "adjacent_distinct names \<equiv> successively (\<noteq>) names"

definition block_names :: "block_model \<Rightarrow> string list list" where
  "block_names b = [map monitor_name (block_monitors b), map knob_name (block_knobs b),
     map feature_name (feature_fields (block_features b)), map metric_name (block_metrics b), map state_name (block_states b)]"

context named_elements begin

lemma check_uniqueness_adjacent:
  "check_uniqueness name upd what ms = Inr ms' \<Longrightarrow> adjacent_distinct (map name ms')"
  using std_unique_id_iff [of "\<lambda>a b. name a = name b" "set_names upd what 0 ms"]
  by (auto simp: check_uniqueness_def successively_map Let_def split: if_splits)

end

lemma check_names_adjacent:
  assumes "check_names b = Inr b1"
  shows "\<forall>names \<in> set (block_names b1). adjacent_distinct names"
proof -
  from assms obtain mons ks fs ms ss where
    c: "check_uniqueness monitor_name monitor_name_update ''monitor'' (block_monitors b) = Inr mons"
      "check_uniqueness knob_name knob_name_update ''knob'' (block_knobs b) = Inr ks"
      "check_uniqueness feature_name feature_name_update ''feature'' (feature_fields (block_features b)) = Inr fs"
      "check_uniqueness metric_name metric_name_update ''metric'' (block_metrics b) = Inr ms"
      "check_uniqueness state_name state_name_update ''state'' (block_states b) = Inr ss"
    and b1: "b1 = features_fields_update (\<lambda>_. fs) (b\<lparr>block_monitors := mons, block_knobs := ks, block_metrics := ms, block_states := ss\<rparr>)"
    by (auto simp: check_names_def split: if_splits)
  show ?thesis
    using named_monitors.check_uniqueness_adjacent [OF c(1)] named_knobs.check_uniqueness_adjacent [OF c(2)]
      named_features.check_uniqueness_adjacent [OF c(3)] named_metrics.check_uniqueness_adjacent [OF c(4)]
      named_states.check_uniqueness_adjacent [OF c(5)]
    by (simp add: b1 block_names_def features_fields_update_def)
qed

lemma validate_parts_names:
  assumes "validate_parts trim b known = Inr (b', known')"
  shows "block_names b' = block_names b"
proof -
  from assms obtain mons ks ms fs u ss where
    p: "validate_monitors trim (block_monitors b) known = Inr (mons, known')"
      "traverse (validate_knob trim) (block_knobs b) = Inr ks" "traverse (validate_metric trim mons) (block_metrics b) = Inr ms"
      "validate_features trim (block_features b) = Inr fs" "traverse (validate_state ms ks) (block_states b) = Inr ss"
    and b': "b' = b\<lparr>block_monitors := mons, block_knobs := ks, block_metrics := ms, block_features := fs, block_states := ss\<rparr>"
    by (auto simp: validate_parts_def)
  have "map state_name ss = map state_name (block_states b)"
    by (rule traverse_map [OF p(5)]) (use validate_state_ok(2) in blast)
  with validate_monitors_ok [OF p(1)] validate_parts_ok(9,10) [OF assms] validate_features_ok [OF p(4)] show ?thesis
    by (simp add: b' block_names_def)
qed

lemma validate_block_names:
  assumes "validate_block trim b known = Inr (b', known')"
  shows "\<forall>names \<in> set (block_names b'). adjacent_distinct names" and "block_id b' = block_id b"
proof -
  from assms obtain b1 b2 where n: "check_names b = Inr b1" and p: "validate_parts trim b1 known = Inr (b2, known')"
    and t: "compute_segment_types trim b2 = Inr b'"
    by (auto simp: validate_block_def split: if_splits)
  have "block_names b' = block_names b2" "block_id b' = block_id b2"
    using t by (auto simp: compute_segment_types_def block_names_def Let_def)
  with check_names_adjacent [OF n] check_names_disjoint(2) [OF n] validate_parts_names [OF p] validate_parts_ok(8) [OF p]
  show "\<forall>names \<in> set (block_names b'). adjacent_distinct names" "block_id b' = block_id b" by simp_all
qed

lemma validate_blocks_names:
  "validate_blocks trim bs known = Inr (bs', known') \<Longrightarrow>
     map block_id bs' = map block_id bs \<and> (\<forall>b \<in> set bs'. \<forall>names \<in> set (block_names b). adjacent_distinct names)"
proof (induction bs arbitrary: known bs')
  case (Cons b bs)
  then obtain b1 known1 bs1 where v: "validate_block trim b known = Inr (b1, known1)"
    and vs: "validate_blocks trim bs known1 = Inr (bs1, known')" and bs': "bs' = b1 # bs1"
    by auto
  with Cons.IH [OF vs] validate_block_names [OF v] show ?case by simp
qed auto

text \<open>
  No two neighbours of a validated container have the same name. When the names are sorted,
  as the parser leaves those of blocks, monitors, knobs, features and metrics that have a name,
  this makes them unique.
\<close>

theorem validated_names_are_unique_when_sorted:
  assumes "validate_application trim app known = Inr (app', known')"
  shows "\<forall>names \<in> insert (map block_id (application_blocks app')) (\<Union>b \<in> set (application_blocks app'). set (block_names b)).
           adjacent_distinct names \<and> (sorted names \<longrightarrow> distinct names)"
proof -
  from assms obtain bs where u: "check_uniqueness block_id block_id_update ''block'' (application_blocks app) = Inr bs"
    and v: "validate_blocks trim bs known = Inr (application_blocks app', known')"
    by (auto simp: validate_application_def Let_def split: if_splits)
  have "adjacent_distinct (map block_id (application_blocks app'))"
    using named_blocks.check_uniqueness_adjacent [OF u] validate_blocks_names [OF v] by simp
  with validate_blocks_names [OF v]
  have "\<forall>names \<in> insert (map block_id (application_blocks app')) (\<Union>b \<in> set (application_blocks app'). set (block_names b)).
      adjacent_distinct names" by auto
  then show ?thesis using adjacent_sorted_distinct by blast
qed

theorem validated_names_are_unique_when_sorted_witness:
  "\<exists>app' known'. validate_application std_trim (sample_description [''j'', ''k''] [''s'']) known_monitors = Inr (app', known')
     \<and> (\<forall>b \<in> set (application_blocks app'). adjacent_distinct (map knob_name (block_knobs b)))"
proof -
  have "case validate_application std_trim (sample_description [''j'', ''k''] [''s'']) known_monitors of Inl e \<Rightarrow> False | Inr r \<Rightarrow> True"
    by code_simp
  then obtain app' known' where v: "validate_application std_trim (sample_description [''j'', ''k''] [''s'']) known_monitors = Inr (app', known')"
    by (auto split: sum.splits)
  from validated_names_are_unique_when_sorted [OF v]
  have "\<forall>b \<in> set (application_blocks app'). adjacent_distinct (map knob_name (block_knobs b))"
    by (auto simp: block_names_def)
  with v show ?thesis by (intro exI [of _ app'] exI [of _ known']) simp
qed

text \<open>
  Duplicates that are not neighbours pass the validation: the states are never sorted, and the
  default name of a nameless element is given after the sorting, so it may also be the name of
  another element.
\<close>

theorem duplicate_names_are_accepted:
  "sorted [[], ''a'', ''knob_1''] \<and>
   (\<exists>app' known' b. validate_application std_trim (sample_description [[], ''a'', ''knob_1''] [''x'', ''y'', ''x'']) known_monitors
        = Inr (app', known')
      \<and> application_blocks app' = [b] \<and> map knob_name (block_knobs b) = [''knob_1'', ''a'', ''knob_1'']
      \<and> map state_name (block_states b) = [''x'', ''y'', ''x''])"
proof -
  have "case validate_application std_trim (sample_description [[], ''a'', ''knob_1''] [''x'', ''y'', ''x'']) known_monitors of
      Inl e \<Rightarrow> False | Inr r \<Rightarrow>
        (case application_blocks (fst r) of [b] \<Rightarrow> map knob_name (block_knobs b) = [''knob_1'', ''a'', ''knob_1'']
           \<and> map state_name (block_states b) = [''x'', ''y'', ''x''] | _ \<Rightarrow> False)"
    by code_simp
  then obtain app' known' b where
    "validate_application std_trim (sample_description [[], ''a'', ''knob_1''] [''x'', ''y'', ''x'']) known_monitors = Inr (app', known')"
    and "application_blocks app' = [b]" and "map knob_name (block_knobs b) = [''knob_1'', ''a'', ''knob_1'']"
    and "map state_name (block_states b) = [''x'', ''y'', ''x'']"
    by (auto split: sum.splits list.splits)
  moreover have "sorted [[], ''a'', ''knob_1'']" by code_simp
  ultimately show ?thesis by (intro conjI exI [of _ app'] exI [of _ known'] exI [of _ b])
qed

end
