(* ===== verification/Heel_Workspace.thy ===== *)
theory Heel_Workspace
  imports Heel_Roundtrip Heel_Wellformed
begin

text \<open>
  The driver of the generator (\<^verbatim>\<open>workspace.cpp\<close>, \<^verbatim>\<open>configuration_file.cpp\<close>): it reads and validates
  the description, adds the operating points of the other files, and hands the composed description
  to the generated sources as a string literal (\<^verbatim>\<open>generator_cpp_managers_src.cpp\<close>). Reading a file and
  printing a document are parameters.
\<close>

section \<open>The workspace\<close>

record workspace =
  project_root :: string
  workspace_model :: application_model
  path_configuration_files :: "string list"

definition blank_application :: application_model where
  "blank_application = \<lparr>application_name = [], application_version = [], application_blocks = []\<rparr>"

fun parse_op_files ::
    "'t boost \<Rightarrow> (string \<Rightarrow> 't result) \<Rightarrow> string list \<Rightarrow> application_model \<Rightarrow> application_model result" where
  "parse_op_files b read_file [] m = Inr m"
| "parse_op_files b read_file (p # ps) m =
     bind_result (read_file p) (\<lambda>t. bind_result (parse_configuration_file b m t) (parse_op_files b read_file ps))"

definition create_workspace ::
    "'t boost \<Rightarrow> (string \<Rightarrow> 't result) \<Rightarrow> string \<Rightarrow> string \<Rightarrow> string list \<Rightarrow> monitor_table
      \<Rightarrow> (workspace \<times> monitor_table) result" where
  "create_workspace b read_file root_path margot_config_path ops_config_path known =
     bind_result (read_file margot_config_path) (\<lambda>c.
     bind_result (parse_configuration_file b blank_application c) (\<lambda>m.
     bind_result (validate_application (boost_trim b) m known) (\<lambda>(m', known').
     bind_result (parse_op_files b read_file ops_config_path m') (\<lambda>m''.
       Inr (\<lparr>project_root = root_path, workspace_model = m'',
             path_configuration_files = ops_config_path @ [margot_config_path]\<rparr>, known')))))"

text \<open>The description that \<^verbatim>\<open>generate_adaptive_interface\<close> passes on.\<close>

definition interface_description :: "'t boost \<Rightarrow> ('t \<Rightarrow> string result) \<Rightarrow> workspace \<Rightarrow> string result" where
  "interface_description b write_json w = bind_result (compose_application b (empty_tree b) (workspace_model w)) write_json"

section \<open>What the workspace holds\<close>

definition with_ops :: "block_model \<Rightarrow> block_model \<Rightarrow> bool" where
  "with_ops blk blk' \<longleftrightarrow> (\<exists>ops. blk' = blk\<lparr>block_ops := ops\<rparr>)"

lemma with_ops_refl [simp]: "with_ops blk blk"
  by (auto simp: with_ops_def intro: exI [of _ "block_ops blk"])

lemma with_ops_trans: "with_ops b1 b2 \<Longrightarrow> with_ops b2 b3 \<Longrightarrow> with_ops b1 b3"
  by (auto simp: with_ops_def)

definition one_knowledge :: "block_model \<Rightarrow> bool" where
  "one_knowledge blk \<longleftrightarrow> agora_empty (block_agora blk) \<or> block_ops blk = []"

lemma parse_operating_points_with_ops: "parse_operating_points b blk t = Inr blk' \<Longrightarrow> with_ops blk blk'"
  by (auto simp: parse_operating_points_def with_ops_def split: option.splits intro: exI [of _ "block_ops blk"])

definition same_blocks :: "block_model list \<Rightarrow> block_model list \<Rightarrow> bool" where
  "same_blocks = list_all2 (\<lambda>blk blk'. with_ops blk blk' \<and> one_knowledge blk')"

lemma parse_configuration_file_ops:
  assumes "application_blocks m \<noteq> []" and "parse_configuration_file b m t = Inr m'"
  shows "same_blocks (application_blocks m) (application_blocks m')" and "\<exists>bs. m' = m\<lparr>application_blocks := bs\<rparr>"
proof -
  let ?f = "\<lambda>block. bind_result (parse_operating_points b block t) (\<lambda>block'.
             if \<not> agora_empty (block_agora block') \<and> block_ops block' \<noteq> []
             then Inl (Runtime_error ''workspace error: mismatch on application knowledge'')
             else Inr block')"
  obtain bs where bs: "traverse ?f (application_blocks m) = Inr bs" and m': "m' = m\<lparr>application_blocks := bs\<rparr>"
    using assms by (auto simp: parse_configuration_file_def)
  have "list_all2 (\<lambda>blk blk'. ?f blk = Inr blk') (application_blocks m) bs" using bs by (simp only: traverse_eq_Inr)
  then have "same_blocks (application_blocks m) bs"
    unfolding same_blocks_def
    by (rule list_all2_mono) (auto simp: one_knowledge_def intro: parse_operating_points_with_ops split: if_splits)
  with m' show "same_blocks (application_blocks m) (application_blocks m')" "\<exists>bs. m' = m\<lparr>application_blocks := bs\<rparr>" by auto
qed

lemma same_blocks_trans: "same_blocks bs bs1 \<Longrightarrow> same_blocks bs1 bs2 \<Longrightarrow> same_blocks bs bs2"
  unfolding same_blocks_def by (erule (1) list_all2_trans [rotated 1]) (auto intro: with_ops_trans)

lemma same_blocks_refl: "\<forall>blk \<in> set bs. one_knowledge blk \<Longrightarrow> same_blocks bs bs"
  unfolding same_blocks_def by (rule list.rel_refl_strong) simp

lemma same_blocks_mem:
  assumes "same_blocks bs bs'" and "blk' \<in> set bs'"
  obtains blk where "blk \<in> set bs" and "with_ops blk blk'" and "one_knowledge blk'"
proof -
  from assms(2) obtain i where i: "i < length bs'" "blk' = bs' ! i" by (auto simp: in_set_conv_nth)
  with assms(1) have "with_ops (bs ! i) blk'" "one_knowledge blk'" "bs ! i \<in> set bs"
    by (auto simp: same_blocks_def list_all2_conv_all_nth)
  with that show thesis by blast
qed

lemma parse_op_files_blocks:
  assumes "application_blocks m \<noteq> []" and "\<forall>blk \<in> set (application_blocks m). one_knowledge blk"
    and "parse_op_files b read_file ps m = Inr m'"
  shows "same_blocks (application_blocks m) (application_blocks m') \<and> (\<exists>bs. m' = m\<lparr>application_blocks := bs\<rparr>)"
  using assms
proof (induction ps arbitrary: m)
  case Nil
  then show ?case by (auto simp: same_blocks_refl intro: exI [of _ "application_blocks m"])
next
  case (Cons p ps)
  then obtain t m1 where t: "parse_configuration_file b m t = Inr m1" and m1: "parse_op_files b read_file ps m1 = Inr m'" by auto
  note same = parse_configuration_file_ops [OF Cons.prems(1) t]
  have "application_blocks m1 \<noteq> []" using same(1) Cons.prems(1) by (auto simp: same_blocks_def)
  moreover have "\<forall>blk \<in> set (application_blocks m1). one_knowledge blk" using same_blocks_mem [OF same(1)] by blast
  ultimately have "same_blocks (application_blocks m1) (application_blocks m')" "\<exists>bs. m' = m1\<lparr>application_blocks := bs\<rparr>"
    using Cons.IH [OF _ _ m1] by auto
  with same same_blocks_trans [OF same(1)] show ?case by auto
qed

lemma validate_parts_ops: "validate_parts trim blk known = Inr (blk', known') \<Longrightarrow> block_ops blk' = block_ops blk"
  by (auto simp: validate_parts_def)

lemma validate_block_ops: "validate_block trim blk known = Inr (blk', known') \<Longrightarrow> block_ops blk' = block_ops blk"
  by (auto simp: validate_block_def compute_segment_types_def check_names_def features_fields_update_def Let_def
      dest!: validate_parts_ops split: if_splits)

lemma validate_blocks_ops:
  "validate_blocks trim bs known = Inr (bs', known') \<Longrightarrow> map block_ops bs' = map block_ops bs"
proof (induction bs arbitrary: known bs')
  case (Cons blk bs)
  then obtain b1 known1 bs1 where v: "validate_block trim blk known = Inr (b1, known1)"
    and vs: "validate_blocks trim bs known1 = Inr (bs1, known')" and bs': "bs' = b1 # bs1"
    by auto
  with Cons.IH [OF vs] validate_block_ops [OF v] show ?case by simp
qed auto

lemma parse_application_ops: "parse_application b t = Inr m \<Longrightarrow> blk \<in> set (application_blocks m) \<Longrightarrow> block_ops blk = []"
proof -
  assume "parse_application b t = Inr m" and blk: "blk \<in> set (application_blocks m)"
  then obtain bs where bs: "parse_list b (parse_block b) t tag_blocks = Inr bs"
    and s: "std_sort (name_less block_id) bs = Inr (application_blocks m)"
    by (auto simp: parse_application_def)
  have "blk \<in> set bs" using std_sort_mset [OF s] blk by (metis set_mset_mset)
  moreover have "\<forall>blk \<in> set bs. block_ops blk = []"
  proof (cases "get_child_optional b tag_blocks t")
    case (Some c)
    with bs have "list_all2 (\<lambda>p blk. parse_block b (snd p) = Inr blk) (node_children b c) bs"
      by (simp add: parse_list_def traverse_eq_Inr)
    then show ?thesis by (induction rule: list_all2_induct) (auto simp: parse_block_def)
  qed (use bs in \<open>simp add: parse_list_def\<close>)
  ultimately show "block_ops blk = []" by blast
qed

lemma set_names_ops: "map block_ops (set_names block_id_update what n bs) = map block_ops bs"
  by (induction bs arbitrary: n) auto

lemma validate_application_ops:
  assumes "validate_application trim m known = Inr (m', known')"
  shows "map block_ops (application_blocks m') = map block_ops (application_blocks m)"
proof -
  obtain bs where u: "check_uniqueness block_id block_id_update ''block'' (application_blocks m) = Inr bs"
    and v: "validate_blocks trim bs known = Inr (application_blocks m', known')"
    using assms by (auto simp: validate_application_def Let_def split: if_splits)
  from u have "map block_ops bs = map block_ops (application_blocks m)"
    by (auto simp: check_uniqueness_def set_names_ops Let_def split: if_splits)
  with validate_blocks_ops [OF v] show ?thesis by simp
qed

lemma validate_application_ok:
  assumes "trimmer trim" and "validate_application trim m known = Inr (m', known')"
  shows "is_valid_identifier (application_name m')" and "blk \<in> set (application_blocks m') \<Longrightarrow> block_ok known' blk"
  using assms(2) validate_blocks_ok [OF assms(1)]
  by (auto simp: validate_application_def Let_def split: if_splits)

lemma block_ok_with_ops: "block_ok known blk \<Longrightarrow> with_ops blk blk' \<Longrightarrow> block_ok known blk'"
  unfolding with_ops_def by (elim exE) (simp add: block_ok_def segments_ok_def)

lemma create_workspace_blocks:
  assumes "property_tree b"
    and "read_file config = Inr c" and "parse_application b c = Inr m" and "application_blocks m \<noteq> []"
    and "create_workspace b read_file root_path config ops known = Inr (w, known')"
  obtains m' where "validate_application (boost_trim b) m known = Inr (m', known')"
    and "same_blocks (application_blocks m') (application_blocks (workspace_model w))"
    and "length (application_blocks m') = length (application_blocks m)"
    and "application_name (workspace_model w) = application_name m'"
    and "application_version (workspace_model w) = application_version m'"
proof -
  obtain m' where v: "validate_application (boost_trim b) m known = Inr (m', known')"
    and p: "parse_op_files b read_file ops m' = Inr (workspace_model w)"
    using assms by (auto simp: create_workspace_def parse_configuration_file_def blank_application_def)
  have "\<forall>blk \<in> set (application_blocks m). block_ops blk = []" using parse_application_ops [OF assms(3)] by blast
  then have "\<forall>ops \<in> set (map block_ops (application_blocks m')). ops = []" by (simp add: validate_application_ops [OF v])
  then have one: "\<forall>blk \<in> set (application_blocks m'). one_knowledge blk" by (simp add: one_knowledge_def)
  have len: "length (application_blocks m') = length (application_blocks m)"
    using arg_cong [OF validate_application_ops [OF v], of length] by simp
  with assms(4) have "application_blocks m' \<noteq> []" by auto
  from parse_op_files_blocks [OF this one p] that v len show thesis by auto
qed

text \<open>
  Every block of a workspace whose description names a block is well formed, whatever operating
  points the other files added, and no block has both operating points and a server to learn them
  from; the name and the version of the application are the validated ones.
\<close>

theorem workspace_blocks_are_well_formed:
  assumes "property_tree b"
    and "read_file config = Inr c" and "parse_application b c = Inr m" and "application_blocks m \<noteq> []"
    and "create_workspace b read_file root_path config ops known = Inr (w, known')"
  shows "is_valid_identifier (application_name (workspace_model w))
    \<and> length (application_blocks (workspace_model w)) = length (application_blocks m)
    \<and> (\<forall>blk \<in> set (application_blocks (workspace_model w)). block_ok known' blk \<and> one_knowledge blk)"
proof -
  obtain m' where v: "validate_application (boost_trim b) m known = Inr (m', known')"
    and s: "same_blocks (application_blocks m') (application_blocks (workspace_model w))"
    and n: "length (application_blocks m') = length (application_blocks m)"
      "application_name (workspace_model w) = application_name m'"
    by (rule create_workspace_blocks [OF assms])
  note ok = validate_application_ok [OF property_tree.trims [OF assms(1)] v]
  have "block_ok known' blk \<and> one_knowledge blk" if "blk \<in> set (application_blocks (workspace_model w))" for blk
    by (rule same_blocks_mem [OF s that]) (auto intro: block_ok_with_ops ok(2))
  moreover have "length (application_blocks (workspace_model w)) = length (application_blocks m)"
    using s n(1) by (auto simp: same_blocks_def dest: list_all2_lengthD)
  ultimately show ?thesis using ok(1) n(2) by simp
qed

definition plain_application :: "agora_model \<Rightarrow> application_model" where
  "plain_application ag = \<lparr>application_name = ''app'', application_version = [], application_blocks =
     [learning_block\<lparr>block_agora := ag,
        block_monitors := map (\<lambda>m. m\<lparr>initialization_parameters := [], start_parameters := []\<rparr>) (block_monitors learning_block),
        block_states := map (\<lambda>s. s\<lparr>state_constraints := []\<rparr>) (block_states learning_block)\<rparr>]\<rparr>"

definition sample_op_tree :: tree where
  "sample_op_tree = Node [] [(''b'', Node [] [([], Node []
     [(''features'', Node [] [(''size'', Node ''10'' [])]), (''knobs'', Node [] [(''k'', Node ''2'' [])]),
      (''metrics'', Node [] [(''time'', Node [] [([], Node ''1.5'' []), ([], Node ''0.1'' [])])])])])]"

definition sample_files :: "agora_model \<Rightarrow> string \<Rightarrow> tree result" where
  "sample_files ag p =
     (if p = ''margot.json'' then compose_application std_boost (empty_tree std_boost) (plain_application ag)
      else if p = ''ops.json'' then Inr sample_op_tree else Inl (Runtime_error ''cannot open file''))"

theorem workspace_blocks_are_well_formed_witness:
  "\<exists>w known'. create_workspace std_boost (sample_files agora_default) ''/'' ''margot.json'' [''ops.json''] known_monitors = Inr (w, known')
     \<and> map (\<lambda>blk. length (block_ops blk)) (application_blocks (workspace_model w)) = [1]
     \<and> (\<forall>blk \<in> set (application_blocks (workspace_model w)). block_ok known' blk)"
proof -
  let ?c = "sample_files agora_default ''margot.json''"
  have "case ?c of Inl e \<Rightarrow> False | Inr c \<Rightarrow>
      (case parse_application std_boost c of Inl e \<Rightarrow> False | Inr m \<Rightarrow> application_blocks m \<noteq> [])"
    by code_simp
  then obtain c m where c: "?c = Inr c" "parse_application std_boost c = Inr m" "application_blocks m \<noteq> []"
    by (auto split: sum.splits)
  have "case create_workspace std_boost (sample_files agora_default) ''/'' ''margot.json'' [''ops.json''] known_monitors of
      Inl e \<Rightarrow> False
    | Inr r \<Rightarrow> map (\<lambda>blk. length (block_ops blk)) (application_blocks (workspace_model (fst r))) = [1]"
    by code_simp
  then obtain w known' where w:
    "create_workspace std_boost (sample_files agora_default) ''/'' ''margot.json'' [''ops.json''] known_monitors = Inr (w, known')"
    "map (\<lambda>blk. length (block_ops blk)) (application_blocks (workspace_model w)) = [1]"
    by (auto split: sum.splits)
  from workspace_blocks_are_well_formed [OF bp.property_tree_axioms c w(1)] w show ?thesis
    by (intro exI [of _ w] exI [of _ known']) simp
qed

section \<open>Valid descriptions are readable\<close>

text \<open>
  What validation does not ensure: the texts of the parameters, the distance of the features, that
  every state has a rank, and the order of the names, which defaults given during the validation may
  break.
\<close>

definition block_transmissible :: "block_model \<Rightarrow> bool" where
  "block_transmissible blk \<longleftrightarrow>
     (\<forall>m \<in> set (block_monitors blk). monitor_readable m) \<and> (\<forall>m \<in> set (block_metrics blk). metric_readable m)
     \<and> (\<forall>p \<in> set (doe_parameters (block_agora blk) @ clustering_parameters (block_agora blk)). simple_key (prop_key p))
     \<and> (feature_fields (block_features blk) \<noteq> [] \<longrightarrow> distance_type (block_features blk) \<noteq> Features_NONE)
     \<and> (\<forall>s \<in> set (block_states blk). rank_fields s \<noteq> [])
     \<and> sorted (map monitor_name (block_monitors blk)) \<and> sorted (map knob_name (block_knobs blk))
     \<and> sorted (map metric_name (block_metrics blk)) \<and> sorted (map feature_name (feature_fields (block_features blk)))"

lemma identifier_simple_key:
  assumes "is_valid_identifier name"
  shows "simple_key name"
proof -
  have "CHR ''.'' \<notin> set name" using valid_identifier_chars(2) [OF assms, of "CHR ''.''"] by (auto simp: is_alnum_def is_alpha_def is_digit_def)
  with valid_identifier_chars(1) [OF assms] show ?thesis by (simp add: simple_key_def)
qed

lemma subject_is_identifier:
  assumes "subject_kind_of ms ks name = Some k" and "\<forall>m \<in> set ms. metric_ok mons m" and "\<forall>k \<in> set ks. knob_ok k"
  shows "is_valid_identifier name"
  using assms by (auto simp: subject_kind_of_def list_ex_iff metric_ok_def knob_ok_def split: if_splits)

lemma valid_block_readable:
  assumes "block_ok known blk" and "block_transmissible blk"
  shows "block_readable blk"
proof -
  have ok: "\<forall>m \<in> set (block_metrics blk). metric_ok (block_monitors blk) m" "\<forall>k \<in> set (block_knobs blk). knob_ok k"
    "\<forall>s \<in> set (block_states blk). state_ok (block_metrics blk) (block_knobs blk) s"
    using assms(1) by (auto simp: block_ok_def)
  have "state_readable s" if s: "s \<in> set (block_states blk)" for s
  proof -
    have "state_ok (block_metrics blk) (block_knobs blk) s" "rank_fields s \<noteq> []"
      using ok(3) assms(2) s by (auto simp: block_transmissible_def)
    then show ?thesis
      using subject_is_identifier [OF _ ok(1,2)] by (auto simp: state_ok_def state_readable_def intro: identifier_simple_key)
  qed
  with assms(2) show ?thesis by (simp add: block_transmissible_def block_readable_def)
qed

section \<open>The description as a string literal\<close>

text \<open>
  The description becomes an argument in the generated code: quotes are escaped, every white space
  is a blank, and runs of blanks are cut to one.
\<close>

definition escape_char :: "char \<Rightarrow> string" where
  "escape_char c = (if c = CHR 0x22 then [CHR 0x5C, CHR 0x22] else if is_space c then [CHR 0x20] else [c])"

definition embed_description :: "string \<Rightarrow> string" where
  "embed_description app_description = strip_spaces (concat (map escape_char app_description))"

text \<open>
  The value of an ordinary string literal of C++ with that text between the quotes, for the escapes
  of the quote and of the backslash; a quote or a line break ends the literal too early.
\<close>

fun literal_value :: "string \<Rightarrow> string option" where
  "literal_value [] = Some []"
| "literal_value (c # s) =
     (if c = CHR 0x22 \<or> c = CHR 0x0A then None
      else if c = CHR 0x5C
      then (case s of [] \<Rightarrow> None
            | c' # s' \<Rightarrow> if c' = CHR 0x22 \<or> c' = CHR 0x5C then map_option (Cons c') (literal_value s') else None)
      else map_option (Cons c) (literal_value s))"

definition blank_char :: "char \<Rightarrow> char" where
  "blank_char c = (if is_space c then CHR 0x20 else c)"

definition normal_spaces :: "string \<Rightarrow> string" where
  "normal_spaces s = strip_spaces (map blank_char s)"

lemma strip_spaces_Cons:
  "\<not> is_space c \<or> (s \<noteq> [] \<longrightarrow> \<not> is_space (hd s)) \<Longrightarrow> strip_spaces (c # s) = c # strip_spaces s"
  by (cases s) (auto simp: strip_spaces_def)

lemma hd_escape: "s \<noteq> [] \<Longrightarrow> \<not> is_space (hd s) \<Longrightarrow> \<not> is_space (hd (concat (map escape_char s)))"
  by (cases s) (auto simp: escape_char_def is_space_def)

lemma escape_blank: "escape_char (blank_char c) = escape_char c"
  by (simp add: escape_char_def blank_char_def is_space_def)

lemma strip_spaces_pair: "is_space c \<Longrightarrow> is_space c' \<Longrightarrow> strip_spaces (c # c' # s) = strip_spaces (c # s)"
  by (simp add: strip_spaces_def)

lemma strip_escaped:
  "list_all (\<lambda>c. blank_char c = c) cs \<Longrightarrow>
     strip_spaces (concat (map escape_char cs)) = concat (map escape_char (strip_spaces cs))"
proof (induction "\<lambda>a b. is_space a \<and> is_space b" cs rule: std_unique.induct)
  case 1
  then show ?case by (simp add: strip_spaces_def)
next
  case (2 x)
  then show ?case by (auto simp: strip_spaces_def escape_char_def is_space_def)
next
  case (3 x y zs)
  let ?e = "\<lambda>cs. concat (map escape_char cs)"
  have blank: "c = CHR 0x20" if "is_space c" "blank_char c = c" for c using that by (simp add: blank_char_def)
  show ?case
  proof (cases "is_space x \<and> is_space y")
    case True
    with 3(3) have xy: "x = CHR 0x20" "y = CHR 0x20" using blank by auto
    then have "strip_spaces (?e (x # y # zs)) = strip_spaces (?e (x # zs))"
      using strip_spaces_pair [of "CHR 0x20" "CHR 0x20"] by (simp add: escape_char_def is_space_def)
    with 3(1,3) True strip_spaces_pair [of x y zs] show ?thesis by simp
  next
    case False
    have q: "strip_spaces (CHR 0x5C # CHR 0x22 # s) = CHR 0x5C # CHR 0x22 # strip_spaces s" for s
      using strip_spaces_Cons [of "CHR 0x5C"] strip_spaces_Cons [of "CHR 0x22"] by (simp add: is_space_def)
    have "strip_spaces (?e (x # y # zs)) = escape_char x @ strip_spaces (?e (y # zs))"
    proof (cases "x = CHR 0x22")
      case True
      then show ?thesis by (simp add: escape_char_def q)
    next
      case nq: False
      show ?thesis
      proof (cases "is_space x")
        case True
        with False have "\<not> is_space (hd (?e (y # zs)))" by (intro hd_escape) auto
        with True 3(3) blank [of x] strip_spaces_Cons [of x "?e (y # zs)"] show ?thesis by (simp add: escape_char_def)
      next
        case False
        with nq strip_spaces_Cons [of x "?e (y # zs)"] show ?thesis by (simp add: escape_char_def)
      qed
    qed
    moreover have "strip_spaces (x # y # zs) = x # strip_spaces (y # zs)" using False by (intro strip_spaces_Cons) auto
    ultimately show ?thesis using 3(2,3) False by simp
  qed
qed

definition literal_safe :: "string \<Rightarrow> bool" where
  "literal_safe s \<longleftrightarrow> (\<forall>c \<in> set s. c \<noteq> CHR 0x5C \<and> (is_space c \<longrightarrow> c = CHR 0x20))"

lemma literal_of_escaped:
  "literal_safe s \<Longrightarrow> literal_value (concat (map escape_char s) @ r) = map_option (append s) (literal_value r)"
proof (induction s)
  case Nil
  then show ?case by (cases "literal_value r") simp_all
next
  case (Cons c s)
  then have IH: "literal_value (concat (map escape_char s) @ r) = map_option (append s) (literal_value r)"
    and c: "c \<noteq> CHR 0x5C" "is_space c \<Longrightarrow> c = CHR 0x20"
    by (simp_all add: literal_safe_def)
  have "c \<noteq> CHR 0x22 \<Longrightarrow> escape_char c = [c] \<and> c \<noteq> CHR 0x0A" using c(2) by (auto simp: escape_char_def is_space_def)
  moreover have "escape_char (CHR 0x22) = [CHR 0x5C, CHR 0x22]" by (simp add: escape_char_def)
  ultimately show ?case using c(1) IH
    by (cases "c = CHR 0x22"; cases "literal_value r") simp_all
qed

lemma set_strip_spaces: "set (strip_spaces s) \<subseteq> set s"
  unfolding strip_spaces_def by (induction "\<lambda>a b. is_space a \<and> is_space b" s rule: std_unique.induct) auto

lemma embed_normal: "embed_description s = concat (map escape_char (normal_spaces s))"
proof -
  have "blank_char (blank_char c) = blank_char c" for c by (simp add: blank_char_def is_space_def)
  then have "strip_spaces (concat (map escape_char (map blank_char s))) = concat (map escape_char (normal_spaces s))"
    unfolding normal_spaces_def by (intro strip_escaped) (simp add: list_all_iff)
  then show ?thesis by (simp add: embed_description_def escape_blank comp_def)
qed

lemma strip_spaces_append: "\<not> is_space c \<Longrightarrow> strip_spaces (s @ c # t) = strip_spaces s @ strip_spaces (c # t)"
proof (induction "\<lambda>a b. is_space a \<and> is_space b" s rule: std_unique.induct)
  case (2 x)
  then show ?case by (simp add: strip_spaces_def)
next
  case (3 x y zs)
  then show ?case by (cases "is_space x \<and> is_space y") (auto simp: strip_spaces_def)
qed (simp add: strip_spaces_def)

lemma normal_spaces_safe: "CHR 0x5C \<notin> set s \<Longrightarrow> literal_safe (normal_spaces s)"
proof -
  assume s: "CHR 0x5C \<notin> set s"
  have "blank_char c \<noteq> CHR 0x5C \<and> (is_space (blank_char c) \<longrightarrow> blank_char c = CHR 0x20)" if "c \<in> set s" for c
    using s that by (cases "is_space c") (auto simp: blank_char_def)
  with set_strip_spaces [of "map blank_char s"] show ?thesis
    unfolding normal_spaces_def literal_safe_def by fastforce
qed

text \<open>
  A description without a backslash reaches the program as the same text with its white space
  normalised. The reading of the literal never fails, so the generated code compiles at that point.
\<close>

theorem embedded_description_reads_back:
  assumes "CHR 0x5C \<notin> set app_description"
  shows "literal_value (embed_description app_description) = Some (normal_spaces app_description)"
  using literal_of_escaped [OF normal_spaces_safe [OF assms], of "[]"] by (simp add: embed_normal)

theorem embedded_description_reads_back_witness:
  "literal_value (embed_description [CHR 0x7B, CHR 0x22, CHR ''a'', CHR 0x22, CHR 0x0A, CHR 0x20, CHR 0x7D])
     = Some [CHR 0x7B, CHR 0x22, CHR ''a'', CHR 0x22, CHR 0x20, CHR 0x7D]"
  using embedded_description_reads_back [of "[CHR 0x7B, CHR 0x22, CHR ''a'', CHR 0x22, CHR 0x0A, CHR 0x20, CHR 0x7D]"]
  by (simp add: normal_spaces_def strip_spaces_def blank_char_def is_space_def)

text \<open>
  A quote inside a value of the description, which a JSON document writes as a backslash and a
  quote, ends the literal too early: the backslash is not escaped, so that the generated code
  contains an escaped backslash followed by the closing quote.
\<close>

theorem quoted_values_break_the_literal:
  assumes "CHR 0x5C \<notin> set u"
  shows "literal_value (embed_description (u @ [CHR 0x5C, CHR 0x22] @ v)) = None"
proof -
  have "normal_spaces (u @ [CHR 0x5C, CHR 0x22] @ v) = normal_spaces u @ CHR 0x5C # strip_spaces (CHR 0x22 # map blank_char v)"
    using strip_spaces_append [of "CHR 0x5C" "map blank_char u"] strip_spaces_Cons [of "CHR 0x5C"]
    by (simp add: normal_spaces_def blank_char_def is_space_def)
  also have "strip_spaces (CHR 0x22 # map blank_char v) = CHR 0x22 # strip_spaces (map blank_char v)"
    by (rule strip_spaces_Cons) (simp add: is_space_def)
  finally show ?thesis
    using literal_of_escaped [OF normal_spaces_safe [OF assms]] by (simp add: embed_normal escape_char_def is_space_def)
qed

theorem quoted_values_break_the_literal_witness:
  "literal_value (embed_description [CHR 0x7B, CHR 0x5C, CHR 0x22, CHR 0x7D]) = None"
  using quoted_values_break_the_literal [of "[CHR 0x7B]" "[CHR 0x7D]"] by simp

end
