(* ===== verification/Agora_Message.thy ===== *)
theory Agora_Message
  imports Std_Strings
begin

text \<open>
  The messages that the clients and the server of the online autotuner exchange
  (\<^verbatim>\<open>model_message.hpp\<close>, \<^verbatim>\<open>agora_properties.hpp\<close>) and the sanitizer that every received message
  goes through (\<^verbatim>\<open>RemoteHandler::whitelist\<close>).

  The tokens of a message come from \<^verbatim>\<open>boost::split\<close> with \<^verbatim>\<open>is_any_of\<close>, which is not part of the
  sources: it is an argument of the definitions, and its documented behaviour is the locale
  \<open>tokenizer\<close>. The function \<open>split_any_of\<close> is a concrete splitter that has it.
\<close>

section \<open>Messages\<close>

record message_model =
  topic :: string
  payload :: string

definition MESSAGE_HEADER :: string where
  "MESSAGE_HEADER = ''margot''"

type_synonym splitter = "string \<Rightarrow> string \<Rightarrow> string list"

definition tokenize :: "splitter \<Rightarrow> string \<Rightarrow> string \<Rightarrow> string list" where
  "tokenize split message separator = split message separator"

section \<open>Identifiers of applications\<close>

record application_id =
  app_name :: string
  version :: string
  block_name :: string

definition aid_str :: "application_id \<Rightarrow> string" where
  "aid_str a = app_name a @ ''^'' @ version a @ ''^'' @ block_name a"

definition aid_eq :: "application_id \<Rightarrow> application_id \<Rightarrow> bool" where
  "aid_eq a b \<longleftrightarrow> app_name a = app_name b \<and> version a = version b \<and> block_name a = block_name b"

definition get_application_id :: "splitter \<Rightarrow> string \<Rightarrow> application_id result" where
  "get_application_id split t =
     (case tokenize split t ''^'' of
        a # v # b # _ \<Rightarrow> Inr \<lparr>app_name = a, version = v, block_name = b\<rparr>
      | _ \<Rightarrow> Inl (Runtime_error ''std::out_of_range''))"

section \<open>Kinds of messages\<close>

datatype AgoraMessageType = Invalid_Message | System | Welcome | Kia | Observation | Error

definition resolve_message_type :: "string \<Rightarrow> AgoraMessageType" where
  "resolve_message_type input =
     (case map_of [(''system'', System), (''welcome'', Welcome), (''kia'', Kia),
                   (''observation'', Observation), (''error'', Error)] input of
        Some t \<Rightarrow> t | None \<Rightarrow> Invalid_Message)"

datatype AgoraSystemCommandType = Invalid_Command | Shutdown | TestConnection

definition resolve_system_command_type :: "string \<Rightarrow> AgoraSystemCommandType" where
  "resolve_system_command_type input =
     (case map_of [(''shutdown'', Shutdown), (''test'', TestConnection)] input of
        Some t \<Rightarrow> t | None \<Rightarrow> Invalid_Command)"

section \<open>The sanitizer\<close>

definition topic_accepted_characters :: string where
  "topic_accepted_characters =
     ''abcdefghijklmnopqrstuvwxyzABCDEFGHIJKLMNOPQRSTUVWXYZ0123456789_/^.''"

definition payload_accepted_characters :: string where
  "payload_accepted_characters =
     ''abcdefghijklmnopqrstuvwxyzABCDEFGHIJKLMNOPQRSTUVWXYZ0123456789_ -.:,@<>=;()[]{}^*+''
     @ [CHR 0x27, CHR 0x22]"

definition whitelist :: "message_model \<Rightarrow> message_model" where
  "whitelist msg =
     (let topic_invalid = find (\<lambda>c. c \<notin> set topic_accepted_characters) (topic msg);
          payload_invalid = find (\<lambda>c. c \<notin> set payload_accepted_characters) (payload msg)
      in if topic_invalid \<noteq> None \<or> payload_invalid \<noteq> None
         then \<lparr>topic = MESSAGE_HEADER @ ''/error/'',
               payload = ''Input sanitizer: found non valid characters. ''
                 @ (case topic_invalid of None \<Rightarrow> [] | Some c \<Rightarrow> ''-> '' @ [c] @ '' <- in the topic of the message.'')
                 @ (case payload_invalid of None \<Rightarrow> [] | Some c \<Rightarrow> ''-> '' @ [c] @ '' <- in the payload of the message.'')\<rparr>
         else msg)"

definition accepted :: "message_model \<Rightarrow> bool" where
  "accepted msg \<longleftrightarrow> set (topic msg) \<subseteq> set topic_accepted_characters
                   \<and> set (payload msg) \<subseteq> set payload_accepted_characters"

lemma find_not_in: "find (\<lambda>c. c \<notin> A) s = None \<longleftrightarrow> set s \<subseteq> A"
  by (auto simp: find_None_iff)

lemma accepted_find:
  "accepted msg \<longleftrightarrow> find (\<lambda>c. c \<notin> set topic_accepted_characters) (topic msg) = None
     \<and> find (\<lambda>c. c \<notin> set payload_accepted_characters) (payload msg) = None"
  by (simp only: accepted_def find_not_in)

lemma whitelist_accepted [simp]: "accepted msg \<Longrightarrow> whitelist msg = msg"
  by (simp only: accepted_find whitelist_def Let_def) simp

lemma whitelist_rejected: "\<not> accepted msg \<Longrightarrow> topic (whitelist msg) = ''margot/error/''"
  by (simp only: accepted_find whitelist_def Let_def de_Morgan_conj if_True message_model.simps MESSAGE_HEADER_def append.simps)

lemma whitelist_topic: "set (topic (whitelist msg)) \<subseteq> set topic_accepted_characters"
  by (cases "accepted msg") (auto simp: whitelist_rejected accepted_def topic_accepted_characters_def)

section \<open>The splitting of strings\<close>

locale tokenizer =
  fixes split :: splitter
  assumes split_none: "set s \<inter> set sep = {} \<Longrightarrow> split s sep = [s]"
    and split_at: "set x \<inter> set sep = {} \<Longrightarrow> c \<in> set sep \<Longrightarrow> split (x @ c # y) sep = x # split y sep"
begin

lemma split_not_Nil: "split s sep \<noteq> []"
proof (cases "set s \<inter> set sep = {}")
  case True
  then show ?thesis by (simp add: split_none)
next
  case False
  then obtain x c y where "s = x @ c # y" "c \<in> set sep" "set x \<inter> set sep = {}"
    using split_list_first_prop [of s "\<lambda>c. c \<in> set sep"] by fastforce
  then show ?thesis by (simp add: split_at)
qed

lemma tokens_free: "t \<in> set (split s sep) \<Longrightarrow> set t \<inter> set sep = {}"
proof (induction s arbitrary: t rule: length_induct)
  case (1 s)
  show ?case
  proof (cases "set s \<inter> set sep = {}")
    case True
    with "1.prems" show ?thesis by (simp add: split_none)
  next
    case False
    then obtain x c y where s: "s = x @ c # y" "c \<in> set sep" "set x \<inter> set sep = {}"
      using split_list_first_prop [of s "\<lambda>c. c \<in> set sep"] by fastforce
    with "1.prems" have "t = x \<or> t \<in> set (split y sep)" by (simp add: split_at)
    moreover have "length y < length s" using s by simp
    ultimately show ?thesis using "1.IH" s(3) by blast
  qed
qed

lemma application_id_roundtrip:
  assumes "CHR ''^'' \<notin> set (app_name a)" and "CHR ''^'' \<notin> set (version a)" and "CHR ''^'' \<notin> set (block_name a)"
  shows "get_application_id split (aid_str a) = Inr a"
  using assms
  by (simp add: get_application_id_def tokenize_def aid_str_def split_at [of _ "''^''", simplified]
        split_none [of _ "''^''", simplified])

lemma topic_tokens:
  assumes "CHR ''/'' \<notin> set a" and "CHR ''/'' \<notin> set b" and "CHR ''/'' \<notin> set c"
  shows "tokenize split (''margot'' @ ''/'' @ a @ ''/'' @ b @ ''/'' @ c) ''/'' = [''margot'', a, b, c]"
  using assms split_at [of "''margot''" "''/''" "CHR ''/''"]
  by (simp add: tokenize_def split_at [of _ "''/''", simplified] split_none [of _ "''/''", simplified])

end

interpretation sp: tokenizer split_any_of
  by unfold_locales (simp_all add: split_any_of_none split_any_of_at)

end
