(* ===== verification/Agora_Models.thy ===== *)
theory Agora_Models
  imports Heel_Data Agora_Message "HOL-Library.Multiset"
begin

text \<open>
  The data the server keeps for an application: the design of experiments
  (\<^verbatim>\<open>model_doe.hpp\<close>), the centroids of the clusters (\<^verbatim>\<open>model_cluster.hpp\<close>) and the predicted
  operating points (\<^verbatim>\<open>model_prediction.hpp\<close>). A \<^verbatim>\<open>std::unordered_map\<close> is an association list with
  distinct keys, in insertion order.
\<close>

section \<open>Maps\<close>

text \<open>\<^verbatim>\<open>insert_or_assign\<close>, with the flag that tells whether the key was inserted.\<close>

fun insert_or_assign :: "'k \<Rightarrow> 'v \<Rightarrow> ('k \<times> 'v) list \<Rightarrow> bool \<times> ('k \<times> 'v) list" where
  "insert_or_assign k v [] = (True, [(k, v)])"
| "insert_or_assign k v (e # es) =
     (if fst e = k then (False, (k, v) # es)
      else let (inserted, es') = insert_or_assign k v es in (inserted, e # es'))"

definition map_erase :: "'k \<Rightarrow> ('k \<times> 'v) list \<Rightarrow> ('k \<times> 'v) list" where
  "map_erase k es = filter (\<lambda>e. fst e \<noteq> k) es"

lemma insert_or_assign_lookup:
  "map_of (snd (insert_or_assign k v es)) = (map_of es)(k \<mapsto> v)"
  by (induction es) (auto simp: fun_eq_iff split: prod.splits)

lemma insert_or_assign_inserted: "fst (insert_or_assign k v es) \<longleftrightarrow> k \<notin> fst ` set es"
  by (induction es) (auto split: prod.splits)

lemma insert_or_assign_not_Nil [simp]: "snd (insert_or_assign k v es) \<noteq> []"
  by (cases es) (auto split: prod.splits)

text \<open>\<^verbatim>\<open>std::unordered_map::at\<close>.\<close>

definition std_at :: "(string \<times> 'v) list \<Rightarrow> string \<Rightarrow> 'v result" where
  "std_at m k = (case map_of m k of None \<Rightarrow> Inl (Runtime_error ''std::out_of_range'') | Some v \<Rightarrow> Inr v)"

section \<open>Design of experiments\<close>

type_synonym configuration_t = "(string \<times> string) list"

record configuration_model =
  configuration_id :: string
  configuration :: configuration_t
  number_of_explorations :: int

record doe_model =
  required_explorations :: "configuration_model list"

definition doe_empty :: doe_model where
  "doe_empty = \<lparr>required_explorations = []\<rparr>"

definition add_config :: "string \<Rightarrow> configuration_t \<Rightarrow> int \<Rightarrow> doe_model \<Rightarrow> doe_model" where
  "add_config config_id config n d =
     d\<lparr>required_explorations :=
         \<lparr>configuration_id = config_id, configuration = config, number_of_explorations = n\<rparr> # required_explorations d\<rparr>"

definition get_next :: "doe_model \<Rightarrow> (configuration_model \<times> doe_model) option" where
  "get_next d =
     (case required_explorations d of
        [] \<Rightarrow> None
      | e # es \<Rightarrow>
          let ref = e\<lparr>number_of_explorations := number_of_explorations e - 1\<rparr>
          in Some (ref, d\<lparr>required_explorations := (if number_of_explorations ref > 0 then es @ [ref] else es)\<rparr>))"

definition doe_clear :: "doe_model \<Rightarrow> doe_model" where
  "doe_clear d = d\<lparr>required_explorations := []\<rparr>"

text \<open>All the configurations a design of experiments hands out, in order.\<close>

definition remaining :: "configuration_model \<Rightarrow> nat" where
  "remaining e = max 1 (nat (number_of_explorations e))"

definition explorations_left :: "doe_model \<Rightarrow> nat" where
  "explorations_left d = sum_list (map remaining (required_explorations d))"

lemma get_next_left: "get_next d = Some (e, d') \<Longrightarrow> explorations_left d = Suc (explorations_left d')"
  by (cases "required_explorations d")
     (auto simp: get_next_def explorations_left_def remaining_def Let_def split: if_splits)

function handed_out :: "doe_model \<Rightarrow> string list" where
  "handed_out d = (case get_next d of None \<Rightarrow> [] | Some (e, d') \<Rightarrow> configuration_id e # handed_out d')"
  by pat_completeness auto
termination
  by (relation "measure explorations_left") (auto dest: get_next_left)

declare handed_out.simps [simp del]

lemma handed_out_mset:
  "mset (handed_out d) =
     (\<Sum>e\<leftarrow>required_explorations d. replicate_mset (remaining e) (configuration_id e))"
proof (induction d rule: handed_out.induct)
  case (1 d)
  show ?case
  proof (cases "required_explorations d")
    case Nil
    then show ?thesis by (subst handed_out.simps) (simp add: get_next_def)
  next
    case (Cons e es)
    define ref where "ref = e\<lparr>number_of_explorations := number_of_explorations e - 1\<rparr>"
    define d' where "d' = d\<lparr>required_explorations := (if number_of_explorations ref > 0 then es @ [ref] else es)\<rparr>"
    have step: "get_next d = Some (ref, d')"
      by (simp add: get_next_def Cons ref_def d'_def Let_def)
    have "number_of_explorations ref > 0 \<Longrightarrow> remaining e = Suc (remaining ref)"
      and "\<not> number_of_explorations ref > 0 \<Longrightarrow> remaining e = 1"
      by (auto simp: ref_def remaining_def)
    with 1 [OF step refl] show ?thesis
      by (subst handed_out.simps) (auto simp: step Cons d'_def ref_def)
  qed
qed

text \<open>
  C32: asking a design of experiments for the next configuration until it is exhausted ends, and
  hands out every configuration exactly as often as it has to be explored, where a counter that
  is not positive counts as one.
\<close>

theorem doe_hands_out_every_configuration:
  "mset (handed_out d) =
     (\<Sum>e\<leftarrow>required_explorations d. replicate_mset (max 1 (nat (number_of_explorations e))) (configuration_id e))"
  using handed_out_mset [of d] by (simp add: remaining_def)

section \<open>Clusters\<close>

record cluster_model =
  centroids :: "(string \<times> string list) list"

definition cluster_empty :: cluster_model where
  "cluster_empty = \<lparr>centroids = []\<rparr>"

definition add_centroid :: "string \<Rightarrow> string list \<Rightarrow> cluster_model \<Rightarrow> bool \<times> cluster_model" where
  "add_centroid centroid_id centroid c =
     (let (inserted, m) = insert_or_assign centroid_id centroid (centroids c) in (\<not> inserted, c\<lparr>centroids := m\<rparr>))"

definition remove_centroid :: "string \<Rightarrow> cluster_model \<Rightarrow> cluster_model" where
  "remove_centroid centroid_id c = c\<lparr>centroids := map_erase centroid_id (centroids c)\<rparr>"

definition cluster_clear :: "cluster_model \<Rightarrow> cluster_model" where
  "cluster_clear c = c\<lparr>centroids := []\<rparr>"

section \<open>Predictions\<close>

record metric_value_model =
  avg :: string
  std :: string

type_synonym feature_values = "(string \<times> string) list"

type_synonym result_model = "(string \<times> metric_value_model) list"

record prediction_model =
  configurations :: "(string \<times> configuration_t) list"
  predicted_features :: "(string \<times> feature_values) list"
  predicted_results :: "(string \<times> result_model) list"

definition prediction_empty :: prediction_model where
  "prediction_empty = \<lparr>configurations = [], predicted_features = [], predicted_results = []\<rparr>"

text \<open>The disjunctions stop at the first insertion that replaced an entry.\<close>

definition add_result ::
    "string \<Rightarrow> configuration_t \<Rightarrow> feature_values \<Rightarrow> result_model \<Rightarrow> prediction_model \<Rightarrow> bool \<times> prediction_model" where
  "add_result pred_id config feat res p =
     (let (new_config, cs) = insert_or_assign pred_id config (configurations p);
          p1 = p\<lparr>configurations := cs\<rparr>
      in if \<not> new_config then (True, p1)
         else if feat \<noteq> []
         then let (new_feat, fs) = insert_or_assign pred_id feat (predicted_features p1);
                  p2 = p1\<lparr>predicted_features := fs\<rparr>
              in if \<not> new_feat then (True, p2)
                 else let (new_res, rs) = insert_or_assign pred_id res (predicted_results p2)
                      in (\<not> new_res, p2\<lparr>predicted_results := rs\<rparr>)
         else let (new_res, rs) = insert_or_assign pred_id res (predicted_results p1)
              in (\<not> new_res, p1\<lparr>predicted_results := rs\<rparr>))"

definition remove_result :: "string \<Rightarrow> prediction_model \<Rightarrow> prediction_model" where
  "remove_result pred_id p =
     p\<lparr>configurations := map_erase pred_id (configurations p),
       predicted_features := map_erase pred_id (predicted_features p),
       predicted_results := map_erase pred_id (predicted_results p)\<rparr>"

definition prediction_clear :: "prediction_model \<Rightarrow> prediction_model" where
  "prediction_clear p = p\<lparr>configurations := [], predicted_features := [], predicted_results := []\<rparr>"

text \<open>
  A second result for an identifier replaces the configuration but neither the features nor
  the predicted metrics, so the knowledge that is sent attributes the metrics of the first
  configuration to the second one.
\<close>

theorem second_result_mixes_configurations:
  assumes "pred_id \<in> fst ` set (configurations p)"
    and "add_result pred_id config feat res p = (replaced, q)"
  shows "replaced \<and> map_of (configurations q) pred_id = Some config
    \<and> predicted_results q = predicted_results p \<and> predicted_features q = predicted_features p"
proof -
  obtain b cs where i: "insert_or_assign pred_id config (configurations p) = (b, cs)"
    by (cases "insert_or_assign pred_id config (configurations p)")
  have "\<not> b"
    using insert_or_assign_inserted [of pred_id config "configurations p"] assms(1) i by simp
  moreover have "map_of cs pred_id = Some config"
    using insert_or_assign_lookup [of pred_id config "configurations p"] i by simp
  ultimately show ?thesis
    using assms(2) i by (auto simp: add_result_def)
qed

theorem second_result_mixes_configurations_witness:
  "\<exists>p q. add_result ''1'' [(''k'', ''2'')] [] [(''time'', \<lparr>avg = ''20'', std = ''0''\<rparr>)] p = (True, q)
     \<and> configurations q = [(''1'', [(''k'', ''2'')])]
     \<and> predicted_results q = [(''1'', [(''time'', \<lparr>avg = ''10'', std = ''0''\<rparr>)])]"
proof -
  define p where "p = snd (add_result ''1'' [(''k'', ''1'')] [] [(''time'', \<lparr>avg = ''10'', std = ''0''\<rparr>)] prediction_empty)"
  define r where "r = add_result ''1'' [(''k'', ''2'')] [] [(''time'', \<lparr>avg = ''20'', std = ''0''\<rparr>)] p"
  have p: "p = \<lparr>configurations = [(''1'', [(''k'', ''1'')])], predicted_features = [],
      predicted_results = [(''1'', [(''time'', \<lparr>avg = ''10'', std = ''0''\<rparr>)])]\<rparr>"
    by (simp add: p_def prediction_empty_def add_result_def)
  have "configurations (snd r) = [(''1'', [(''k'', ''2'')])]"
    by (simp add: r_def p add_result_def)
  moreover have "add_result ''1'' [(''k'', ''2'')] [] [(''time'', \<lparr>avg = ''20'', std = ''0''\<rparr>)] p = (fst r, snd r)"
    by (simp add: r_def)
  moreover note second_result_mixes_configurations [OF _ this, simplified p, simplified]
  ultimately show ?thesis
    unfolding p by (metis (full_types) p)
qed

end
