(* ===== verification/Agora_Plugins.thy ===== *)
theory Agora_Plugins
  imports Agora_Models "HOL-Library.List_Lexorder" "HOL-Library.Char_ord"
begin

text \<open>
  What the server hands to an external plugin: the configuration file with the names of the
  containers of the storage (\<^verbatim>\<open>plugin_configuration.hpp\<close>, \<^verbatim>\<open>fs_handler.cpp\<close>). The names depend on
  the implementation of the storage; they are the record \<open>containers\<close>.
\<close>

section \<open>Configurations of plugins\<close>

datatype PluginType = Plugin_DOE | Plugin_Model | Plugin_Cluster | Plugin_Prediction

record PluginConfiguration =
  properties :: "(string \<times> string) list"
  config_name :: string
  plugin_app_id :: application_id
  plugin_metric_name :: string
  plugin_iteration_number :: int

text \<open>
  Only the constructor for the plugins of a metric sets the iteration number; \<open>garbage\<close> is the
  uninitialised member of the others.
\<close>

definition PluginConfiguration :: "int \<Rightarrow> string \<Rightarrow> application_id \<Rightarrow> PluginConfiguration" where
  "PluginConfiguration garbage name a =
     \<lparr>properties = [], config_name = name, plugin_app_id = a, plugin_metric_name = [], plugin_iteration_number = garbage\<rparr>"

definition PluginConfiguration_metric :: "string \<Rightarrow> application_id \<Rightarrow> string \<Rightarrow> int \<Rightarrow> PluginConfiguration" where
  "PluginConfiguration_metric name a metric n =
     \<lparr>properties = [], config_name = metric @ ''_'' @ name, plugin_app_id = a, plugin_metric_name = metric,
      plugin_iteration_number = n\<rparr>"

text \<open>\<^verbatim>\<open>std::map::insert\<close> keeps the keys sorted and the value of a key that is present.\<close>

fun property_insert :: "string \<Rightarrow> string \<Rightarrow> (string \<times> string) list \<Rightarrow> (string \<times> string) list" where
  "property_insert k v [] = [(k, v)]"
| "property_insert k v (e # es) =
     (if k = fst e then e # es else if k < fst e then (k, v) # e # es else e # property_insert k v es)"

definition put_property :: "string \<Rightarrow> string \<Rightarrow> PluginConfiguration \<Rightarrow> PluginConfiguration" where
  "put_property k v pc = pc\<lparr>properties := property_insert k v (properties pc)\<rparr>"

definition print_properties :: "PluginConfiguration \<Rightarrow> string" where
  "print_properties pc = concat (map (\<lambda>e. fst e @ ''='' @ [CHR 0x22] @ snd e @ [CHR 0x22, CHR 0x0A]) (properties pc))"

section \<open>The containers of the storage\<close>

datatype fs_component = Description_fs | Doe_fs | Prediction_fs | Cluster_fs | Observation_fs

record containers =
  get_properties_name :: "application_id \<Rightarrow> string"
  get_knobs_name :: "application_id \<Rightarrow> string"
  get_metrics_name :: "application_id \<Rightarrow> string"
  get_features_name :: "application_id \<Rightarrow> string"
  get_doe_parameters_name :: "application_id \<Rightarrow> string"
  get_clustering_parameters_name :: "application_id \<Rightarrow> string"
  get_model_parameters_name :: "application_id \<Rightarrow> string \<Rightarrow> string"
  get_doe_name :: "application_id \<Rightarrow> string"
  get_total_configurations_name :: "application_id \<Rightarrow> string"
  get_prediction_name :: "application_id \<Rightarrow> string"
  get_model_name :: "application_id \<Rightarrow> string \<Rightarrow> string"
  get_models_path :: "application_id \<Rightarrow> string"
  get_cluster_name :: "application_id \<Rightarrow> string"
  get_observation_name :: "application_id \<Rightarrow> string"
  get_type :: "fs_component \<Rightarrow> string"

definition env_configuration_preamble :: "containers \<Rightarrow> PluginConfiguration \<Rightarrow> PluginConfiguration" where
  "env_configuration_preamble fs pc =
     (put_property ''OBSERVATION_FS_TYPE'' (get_type fs Observation_fs) \<circ> put_property ''CLUSTER_FS_TYPE'' (get_type fs Cluster_fs)
      \<circ> put_property ''PREDICTION_FS_TYPE'' (get_type fs Prediction_fs) \<circ> put_property ''DOE_FS_TYPE'' (get_type fs Doe_fs)
      \<circ> put_property ''DESCRIPTION_FS_TYPE'' (get_type fs Description_fs)
      \<circ> put_property ''AGORA_PROPERTIES_CONTAINER_NAME'' (get_properties_name fs (plugin_app_id pc)))
     (pc\<lparr>properties := []\<rparr>)"

fun create_env_configuration :: "PluginType \<Rightarrow> containers \<Rightarrow> PluginConfiguration \<Rightarrow> PluginConfiguration result" where
  "create_env_configuration Plugin_DOE fs pc =
     (let a = plugin_app_id pc
      in Inr ((put_property ''TOTAL_CONFIGURATIONS_CONTAINER_NAME'' (get_total_configurations_name fs a)
               \<circ> put_property ''DOE_PARAMETERS_CONTAINER_NAME'' (get_doe_parameters_name fs a)
               \<circ> put_property ''DOE_CONTAINER_NAME'' (get_doe_name fs a)
               \<circ> put_property ''KNOBS_CONTAINER_NAME'' (get_knobs_name fs a))
              (env_configuration_preamble fs pc)))"
| "create_env_configuration Plugin_Model fs pc =
     (let a = plugin_app_id pc; m = plugin_metric_name pc
      in if m = [] then Inl (Runtime_error ''PluginConfiguration: the metric name must be specified'')
         else if plugin_iteration_number pc < 0
         then Inl (Runtime_error ''PluginConfiguration: the iteration number must be specified and cannot be negative'')
         else Inr ((put_property ''MODEL_PARAMETERS_CONTAINER_NAME'' (get_model_parameters_name fs a m)
                    \<circ> put_property ''MODEL_CONTAINER_NAME'' (get_model_name fs a m)
                    \<circ> put_property ''OBSERVATION_CONTAINER_NAME'' (get_observation_name fs a)
                    \<circ> put_property ''FEATURES_CONTAINER_NAME'' (get_features_name fs a)
                    \<circ> put_property ''KNOBS_CONTAINER_NAME'' (get_knobs_name fs a)
                    \<circ> put_property ''METRIC_NAME'' m
                    \<circ> put_property ''ITERATION_NUMBER'' (std_to_string (plugin_iteration_number pc)))
                   (env_configuration_preamble fs pc)))"
| "create_env_configuration Plugin_Cluster fs pc =
     (let a = plugin_app_id pc
      in Inr ((put_property ''CLUSTER_PARAMETERS_CONTAINER_NAME'' (get_clustering_parameters_name fs a)
               \<circ> put_property ''CLUSTER_CONTAINER_NAME'' (get_cluster_name fs a)
               \<circ> put_property ''OBSERVATION_CONTAINER_NAME'' (get_observation_name fs a)
               \<circ> put_property ''FEATURES_CONTAINER_NAME'' (get_features_name fs a))
              (env_configuration_preamble fs pc)))"
| "create_env_configuration Plugin_Prediction fs pc =
     (let a = plugin_app_id pc
      in Inr ((put_property ''MODELS_CONTAINER'' (get_models_path fs a)
               \<circ> put_property ''PREDICTIONS_CONTAINER_NAME'' (get_prediction_name fs a)
               \<circ> put_property ''CLUSTER_CONTAINER_NAME'' (get_cluster_name fs a)
               \<circ> put_property ''TOTAL_CONFIGURATIONS_CONTAINER_NAME'' (get_total_configurations_name fs a)
               \<circ> put_property ''FEATURES_CONTAINER_NAME'' (get_features_name fs a)
               \<circ> put_property ''METRICS_CONTAINER_NAME'' (get_metrics_name fs a)
               \<circ> put_property ''KNOBS_CONTAINER_NAME'' (get_knobs_name fs a))
              (env_configuration_preamble fs pc)))"

declare create_env_configuration.simps [simp del]

lemma create_env_configuration_total:
  "t \<noteq> Plugin_Model \<or> plugin_metric_name pc \<noteq> [] \<and> 0 \<le> plugin_iteration_number pc
     \<Longrightarrow> \<exists>pc'. create_env_configuration t fs pc = Inr pc'"
  by (cases t) (auto simp: create_env_configuration.simps Let_def)

lemma put_property_frame [simp]:
  "config_name (put_property k v pc) = config_name pc" "plugin_app_id (put_property k v pc) = plugin_app_id pc"
  "plugin_metric_name (put_property k v pc) = plugin_metric_name pc"
  "plugin_iteration_number (put_property k v pc) = plugin_iteration_number pc"
  by (simp_all add: put_property_def)

end
