(* ===== verification/Agora_Handler.thy ===== *)
theory Agora_Handler
  imports Agora_Plugins "HOL-Library.Word"
begin

text \<open>
  The server side of the online autotuning of one application
  (\<^verbatim>\<open>application_handler.hpp\<close>, \<^verbatim>\<open>application_handler.cpp\<close>): the clients it knows, the phase it is in
  and the data its plugins produced. The storage and the plugin processes are a state \<open>'fs\<close> with
  the operations of the record \<open>services\<close>, an argument of every definition; the messages it
  sends are collected in \<open>sent\<close>.

  \<^verbatim>\<open>welcome_client\<close> and \<^verbatim>\<open>bye_client\<close> hold the mutex of the handler from the first to the last
  statement. \<^verbatim>\<open>process_observation\<close> releases it while it parses the observation and while it waits
  for plugins; it is a machine whose phases are the statements executed under one lock, so that
  other threads can run in between.
\<close>

unbundle bit_operations_syntax

section \<open>Status\<close>

datatype InternalStatus = RECOVERING | CLUELESS | UNDEFINED | WITH_INFORMATION | EXPLORING | BUILDING_DOE
  | WITH_DOE | BUILDING_CLUSTER | WITH_CLUSTER | BUILDING_MODEL | WITH_MODEL | BUILDING_PREDICTION
  | WITH_PREDICTION

type_synonym status_mask = "16 word"

fun status_position :: "InternalStatus \<Rightarrow> nat" where
  "status_position RECOVERING = 0"
| "status_position CLUELESS = 1"
| "status_position UNDEFINED = 2"
| "status_position WITH_INFORMATION = 3"
| "status_position EXPLORING = 4"
| "status_position BUILDING_DOE = 5"
| "status_position WITH_DOE = 6"
| "status_position BUILDING_CLUSTER = 7"
| "status_position WITH_CLUSTER = 8"
| "status_position BUILDING_MODEL = 9"
| "status_position WITH_MODEL = 10"
| "status_position BUILDING_PREDICTION = 11"
| "status_position WITH_PREDICTION = 12"

definition bits_of :: "InternalStatus \<Rightarrow> status_mask" where
  "bits_of s = push_bit (status_position s) 1"

definition mask_value :: status_mask where
  "mask_value = push_bit 1 (bits_of WITH_PREDICTION - 1) + 1"

definition mask_not :: "status_mask \<Rightarrow> status_mask" where
  "mask_not m = NOT m AND mask_value"

section \<open>The handler\<close>

record handler =
  handler_id :: application_id
  handler_status :: status_mask
  iteration_number :: int
  num_configurations_per_iteration :: int
  num_configurations_sent_per_iteration :: int
  active_clients :: "string list"
  description :: block_model
  doe :: doe_model
  cluster :: cluster_model
  prediction :: prediction_model
  doe_launcher :: "string option"
  cluster_launcher :: "string option"
  prediction_launcher :: "string option"
  model_launchers :: "string list"

record 'fs services =
  names :: containers
  load_doe :: "application_id \<Rightarrow> block_model \<Rightarrow> 'fs \<Rightarrow> doe_model"
  load_prediction :: "application_id \<Rightarrow> block_model \<Rightarrow> 'fs \<Rightarrow> prediction_model"
  load_cluster :: "application_id \<Rightarrow> block_model \<Rightarrow> 'fs \<Rightarrow> cluster_model"
  is_model_valid :: "application_id \<Rightarrow> string \<Rightarrow> 'fs \<Rightarrow> bool"
  store_description :: "application_id \<Rightarrow> block_model \<Rightarrow> 'fs \<Rightarrow> 'fs result"
  create_observation_table :: "application_id \<Rightarrow> block_model \<Rightarrow> 'fs \<Rightarrow> 'fs"
  insert_observation_entry :: "application_id \<Rightarrow> string \<Rightarrow> int \<Rightarrow> int \<Rightarrow> operating_point_model \<Rightarrow> 'fs \<Rightarrow> 'fs"
  initialize_workspace :: "string \<Rightarrow> application_id \<Rightarrow> 'fs \<Rightarrow> 'fs result"
  launch :: "string \<Rightarrow> PluginConfiguration \<Rightarrow> 'fs \<Rightarrow> (nat \<times> 'fs) result"
  wait_plugin :: "nat \<Rightarrow> 'fs \<Rightarrow> 'fs result"
  read_application :: "string \<Rightarrow> application_model result"
  read_observation :: "block_model \<Rightarrow> string \<Rightarrow> operating_point_model list result"
  configuration_to_json :: "block_model \<Rightarrow> configuration_t \<Rightarrow> string"
  prediction_to_json :: "block_model \<Rightarrow> prediction_model \<Rightarrow> string"

record 'fs world =
  handler :: handler
  storage :: 'fs
  sent :: "message_model list"

definition upd :: "(handler \<Rightarrow> handler) \<Rightarrow> 'fs world \<Rightarrow> 'fs world" where
  "upd f w = w\<lparr>handler := f (handler w)\<rparr>"

definition RemoteApplicationHandler :: "application_id \<Rightarrow> block_model \<Rightarrow> handler" where
  "RemoteApplicationHandler a blank =
     \<lparr>handler_id = a, handler_status = bits_of CLUELESS, iteration_number = 0, num_configurations_per_iteration = 0,
      num_configurations_sent_per_iteration = 0, active_clients = [], description = blank, doe = doe_empty,
      cluster = cluster_empty, prediction = prediction_empty, doe_launcher = None, cluster_launcher = None,
      prediction_launcher = None, model_launchers = []\<rparr>"

subsection \<open>Status and clients\<close>

definition set_status :: "status_mask \<Rightarrow> bool \<Rightarrow> handler \<Rightarrow> handler" where
  "set_status s clear h = h\<lparr>handler_status := (if clear then s else handler_status h OR s)\<rparr>"

definition unset_status :: "status_mask \<Rightarrow> handler \<Rightarrow> handler" where
  "unset_status s h = h\<lparr>handler_status := handler_status h AND mask_not s\<rparr>"

definition toggle_status :: "status_mask \<Rightarrow> handler \<Rightarrow> handler" where
  "toggle_status s h = h\<lparr>handler_status := handler_status h XOR s\<rparr>"

definition check_status :: "status_mask \<Rightarrow> handler \<Rightarrow> bool" where
  "check_status s h \<longleftrightarrow> handler_status h AND s = s"

abbreviation in_status :: "InternalStatus \<Rightarrow> handler \<Rightarrow> bool" where
  "in_status s \<equiv> check_status (bits_of s)"

definition add_client :: "string \<Rightarrow> handler \<Rightarrow> handler" where
  "add_client cid h = h\<lparr>active_clients := (if cid \<in> set (active_clients h) then active_clients h
                                           else active_clients h @ [cid])\<rparr>"

definition remove_client :: "string \<Rightarrow> handler \<Rightarrow> handler" where
  "remove_client cid h = h\<lparr>active_clients := removeAll cid (active_clients h)\<rparr>"

definition are_features_enabled :: "handler \<Rightarrow> bool" where
  "are_features_enabled h \<longleftrightarrow> feature_fields (block_features (description h)) \<noteq> []"

definition are_models_valid :: "'fs services \<Rightarrow> 'fs world \<Rightarrow> bool" where
  "are_models_valid sv w \<longleftrightarrow>
     (\<forall>m \<in> set (block_metrics (description (handler w))).
        is_model_valid sv (handler_id (handler w)) (metric_name m) (storage w))"

definition is_doe_valid :: "handler \<Rightarrow> bool" where
  "is_doe_valid h \<longleftrightarrow> required_explorations (doe h) \<noteq> []"

definition is_cluster_valid :: "handler \<Rightarrow> bool" where
  "is_cluster_valid h \<longleftrightarrow> centroids (cluster h) \<noteq> []"

definition is_prediction_valid :: "handler \<Rightarrow> bool" where
  "is_prediction_valid h \<longleftrightarrow> predicted_results (prediction h) \<noteq> []"

subsection \<open>Messages to the clients\<close>

definition client_topic :: "handler \<Rightarrow> string \<Rightarrow> string \<Rightarrow> string" where
  "client_topic h cid kind = MESSAGE_HEADER @ ''/'' @ aid_str (handler_id h) @ ''/'' @ cid @ ''/'' @ kind"

definition send_message :: "string \<Rightarrow> string \<Rightarrow> 'fs world \<Rightarrow> 'fs world" where
  "send_message t p w = w\<lparr>sent := sent w @ [\<lparr>topic = t, payload = p\<rparr>]\<rparr>"

definition send_abort_message :: "string \<Rightarrow> 'fs world \<Rightarrow> 'fs world" where
  "send_abort_message cid w = send_message (client_topic (handler w) cid ''abort'') [] w"

definition send_configuration :: "'fs services \<Rightarrow> string \<Rightarrow> 'fs world \<Rightarrow> bool \<times> 'fs world" where
  "send_configuration sv cid w =
     (case get_next (doe (handler w)) of
        None \<Rightarrow> (False, w)
      | Some (entry, d) \<Rightarrow>
          (True, upd (\<lambda>h. h\<lparr>num_configurations_sent_per_iteration := num_configurations_sent_per_iteration h + 1\<rparr>)
             (send_message (client_topic (handler w) cid ''explore'')
                (configuration_to_json sv (description (handler w)) (configuration entry))
                (upd (\<lambda>h. h\<lparr>doe := d\<rparr>) w))))"

definition send_prediction :: "'fs services \<Rightarrow> string \<Rightarrow> 'fs world \<Rightarrow> 'fs world" where
  "send_prediction sv cid w =
     send_message (client_topic (handler w) cid ''prediction'')
       (prediction_to_json sv (description (handler w)) (prediction (handler w))) w"

definition broadcast_prediction :: "'fs services \<Rightarrow> 'fs world \<Rightarrow> 'fs world" where
  "broadcast_prediction sv w =
     send_message (MESSAGE_HEADER @ ''/'' @ aid_str (handler_id (handler w)) @ ''/prediction'')
       (prediction_to_json sv (description (handler w)) (prediction (handler w))) w"

subsection \<open>Parsing\<close>

text \<open>
  The description is stored before \<^verbatim>\<open>stoi\<close> may throw, and every exception is caught. The result is
  the value the function returns.
\<close>

definition parse_informations :: "'fs services \<Rightarrow> string \<Rightarrow> handler \<Rightarrow> bool \<times> handler" where
  "parse_informations sv info h =
     (case read_application sv info of
        Inl e \<Rightarrow> (False, h)
      | Inr app \<Rightarrow>
          (case find (\<lambda>b. application_name app = app_name (handler_id h) \<and> application_version app = version (handler_id h)
                          \<and> block_id b = block_name (handler_id h)) (application_blocks app) of
             None \<Rightarrow> (False, h)
           | Some b \<Rightarrow>
               (case std_stoi (number_configurations_per_iteration (block_agora b)) of
                  Inl e \<Rightarrow> (False, h\<lparr>description := b\<rparr>)
                | Inr n \<Rightarrow> (True, set_status (bits_of WITH_INFORMATION) True
                                   (h\<lparr>description := b, num_configurations_per_iteration := n\<rparr>)))))"

definition parse_observation :: "'fs services \<Rightarrow> string \<Rightarrow> handler \<Rightarrow> operating_point_model option" where
  "parse_observation sv obs h =
     (case read_observation sv (description h) obs of
        Inl e \<Rightarrow> None
      | Inr [] \<Rightarrow> None
      | Inr (op # ops) \<Rightarrow> Some op)"

subsection \<open>Plugins\<close>

text \<open>
  A launcher is the name of its plugin. \<^verbatim>\<open>initialize_workspace\<close>, \<^verbatim>\<open>launch\<close> and \<^verbatim>\<open>wait\<close> throw when the file
  system or the process fails; calling a launcher that was never created dereferences a null
  pointer.
\<close>

definition initialize_launcher :: "'fs services \<Rightarrow> string \<Rightarrow> 'fs world \<Rightarrow> 'fs world result" where
  "initialize_launcher sv plugin w =
     bind_result (initialize_workspace sv plugin (handler_id (handler w)) (storage w)) (\<lambda>fs. Inr (w\<lparr>storage := fs\<rparr>))"

fun initialize_model_launchers :: "'fs services \<Rightarrow> metric_model list \<Rightarrow> 'fs world \<Rightarrow> 'fs world result" where
  "initialize_model_launchers sv [] w = Inr w"
| "initialize_model_launchers sv (m # ms) w =
     (if prediction_plugin m \<in> set (model_launchers (handler w)) then initialize_model_launchers sv ms w
      else bind_result (initialize_launcher sv (prediction_plugin m) w)
             (\<lambda>w'. initialize_model_launchers sv ms
                      (upd (\<lambda>h. h\<lparr>model_launchers := model_launchers h @ [prediction_plugin m]\<rparr>) w')))"

definition initialize_plugin_launchers :: "'fs services \<Rightarrow> 'fs world \<Rightarrow> 'fs world result" where
  "initialize_plugin_launchers sv w0 =
     (let ag = block_agora (description (handler w0));
          w1 = upd (\<lambda>h. h\<lparr>doe_launcher := Some (doe_plugin ag)\<rparr>) w0
      in bind_result (initialize_launcher sv (doe_plugin ag) w1)
           (\<lambda>w2. bind_result
              (if are_features_enabled (handler w2)
               then initialize_launcher sv (clustering_plugin ag) (upd (\<lambda>h. h\<lparr>cluster_launcher := Some (clustering_plugin ag)\<rparr>) w2)
               else Inr w2)
              (\<lambda>w3. bind_result
                 (initialize_launcher sv ''predict'' (upd (\<lambda>h. h\<lparr>prediction_launcher := Some ''predict''\<rparr>) w3))
                 (\<lambda>w4. initialize_model_launchers sv (block_metrics (description (handler w4))) w4))))"

definition run_launcher ::
    "'fs services \<Rightarrow> PluginType \<Rightarrow> string option \<Rightarrow> PluginConfiguration \<Rightarrow> 'fs world \<Rightarrow> (nat \<times> 'fs world) result" where
  "run_launcher sv t plugin pc w =
     bind_result (create_env_configuration t (names sv) pc)
       (\<lambda>pc'. case plugin of
                None \<Rightarrow> Inl (Undefined_behaviour ''null launcher'')
              | Some l \<Rightarrow> bind_result (launch sv l pc' (storage w)) (\<lambda>(pid, fs). Inr (pid, w\<lparr>storage := fs\<rparr>)))"

definition start_doe :: "'fs services \<Rightarrow> 'fs world \<Rightarrow> (nat \<times> 'fs world) result" where
  "start_doe sv w =
     (let w1 = upd (set_status (bits_of BUILDING_DOE) True) w
      in run_launcher sv Plugin_DOE (doe_launcher (handler w1))
           (PluginConfiguration 0 ''plugin_config.env'' (handler_id (handler w1))) w1)"

text \<open>
  The configurations of the model plugins are collected in a map from metric names first, which
  keeps the first of two equal names, and launched afterwards.
\<close>

fun model_configs :: "'fs services \<Rightarrow> handler \<Rightarrow> metric_model list \<Rightarrow> (string \<times> string \<times> PluginConfiguration) list
    \<Rightarrow> (string \<times> string \<times> PluginConfiguration) list result" where
  "model_configs sv h [] acc = Inr acc"
| "model_configs sv h (m # ms) acc =
     bind_result (create_env_configuration Plugin_Model (names sv)
                    (PluginConfiguration_metric ''plugin_config.env'' (handler_id h) (metric_name m) (iteration_number h)))
       (\<lambda>pc. model_configs sv h ms
                (if metric_name m \<in> fst ` set acc then acc else acc @ [(metric_name m, prediction_plugin m, pc)]))"

fun launch_models :: "'fs services \<Rightarrow> (string \<times> string \<times> PluginConfiguration) list \<Rightarrow> 'fs world
    \<Rightarrow> (nat list \<times> 'fs world) result" where
  "launch_models sv [] w = Inr ([], w)"
| "launch_models sv ((metric, plugin, pc) # cs) w =
     (if plugin \<notin> set (model_launchers (handler w)) then Inl (Runtime_error ''std::out_of_range'')
      else bind_result (launch sv plugin pc (storage w))
             (\<lambda>(pid, fs). bind_result (launch_models sv cs (w\<lparr>storage := fs\<rparr>)) (\<lambda>(pids, w'). Inr (pid # pids, w'))))"

definition start_modeling :: "'fs services \<Rightarrow> 'fs world \<Rightarrow> (nat list \<times> 'fs world) result" where
  "start_modeling sv w =
     (let w1 = upd (set_status (bits_of BUILDING_MODEL) True) w
      in bind_result (model_configs sv (handler w1) (block_metrics (description (handler w1))) [])
           (\<lambda>cs. launch_models sv cs w1))"

definition start_clustering :: "'fs services \<Rightarrow> 'fs world \<Rightarrow> (nat \<times> 'fs world) result" where
  "start_clustering sv w =
     (let w1 = upd (set_status (bits_of BUILDING_CLUSTER) False) w
      in run_launcher sv Plugin_Cluster (cluster_launcher (handler w1))
           (PluginConfiguration 0 ''plugin_config.env'' (handler_id (handler w1))) w1)"

definition start_prediction :: "'fs services \<Rightarrow> 'fs world \<Rightarrow> (nat \<times> 'fs world) result" where
  "start_prediction sv w =
     (let w1 = upd (set_status (bits_of BUILDING_PREDICTION) True) w
      in run_launcher sv Plugin_Prediction (prediction_launcher (handler w1))
           (PluginConfiguration 0 ''plugin_config.env'' (handler_id (handler w1))) w1)"

definition wait_for :: "'fs services \<Rightarrow> nat \<Rightarrow> 'fs world \<Rightarrow> 'fs world result" where
  "wait_for sv pid w = bind_result (wait_plugin sv pid (storage w)) (\<lambda>fs. Inr (w\<lparr>storage := fs\<rparr>))"

definition reload_doe :: "'fs services \<Rightarrow> 'fs world \<Rightarrow> 'fs world" where
  "reload_doe sv w = upd (\<lambda>h. h\<lparr>doe := load_doe sv (handler_id h) (description h) (storage w)\<rparr>) w"

definition reload_prediction :: "'fs services \<Rightarrow> 'fs world \<Rightarrow> 'fs world" where
  "reload_prediction sv w = upd (\<lambda>h. h\<lparr>prediction := load_prediction sv (handler_id h) (description h) (storage w)\<rparr>) w"

definition reload_cluster :: "'fs services \<Rightarrow> 'fs world \<Rightarrow> 'fs world" where
  "reload_cluster sv w =
     (if are_features_enabled (handler w)
      then upd (\<lambda>h. h\<lparr>cluster := load_cluster sv (handler_id h) (description h) (storage w)\<rparr>) w else w)"

section \<open>Clients that come and go\<close>

definition recover_doe :: "'fs services \<Rightarrow> 'fs world \<Rightarrow> 'fs world result" where
  "recover_doe sv w =
     (if is_doe_valid (handler w) then Inr (upd (set_status (bits_of EXPLORING OR bits_of WITH_DOE) True) w)
      else bind_result (start_doe sv w) (\<lambda>(pid, w1). bind_result (wait_for sv pid w1)
             (\<lambda>w2. let w3 = reload_doe sv w2
                   in if \<not> is_doe_valid (handler w3) then Inr (upd (set_status (bits_of UNDEFINED) True) w3)
                      else Inr (upd (set_status (bits_of WITH_DOE OR bits_of EXPLORING) True)
                             (w3\<lparr>storage := create_observation_table sv (handler_id (handler w3)) (description (handler w3))
                                              (storage w3)\<rparr>)))))"

definition start_recovering :: "'fs services \<Rightarrow> 'fs world \<Rightarrow> 'fs world result" where
  "start_recovering sv w =
     (let w1 = reload_cluster sv (reload_prediction sv (reload_doe sv (upd (set_status (bits_of RECOVERING) True) w)))
      in if is_prediction_valid (handler w1) then Inr (upd (set_status (bits_of WITH_PREDICTION) True) w1)
         else if (if are_features_enabled (handler w1) then is_cluster_valid (handler w1) \<and> are_models_valid sv w1
                  else are_models_valid sv w1)
         then bind_result (start_prediction sv (upd (set_status (bits_of WITH_MODEL OR bits_of WITH_CLUSTER) True) w1))
                (\<lambda>(pid, w2). bind_result (wait_for sv pid w2)
                   (\<lambda>w3. let w4 = reload_prediction sv w3
                         in if is_prediction_valid (handler w4)
                            then Inr (upd (set_status (bits_of WITH_PREDICTION) True) w4)
                            else recover_doe sv w4))
         else recover_doe sv w1)"

text \<open>What a client receives when it announces itself, depending on the phase.\<close>

definition answer_client :: "'fs services \<Rightarrow> string \<Rightarrow> 'fs world \<Rightarrow> 'fs world" where
  "answer_client sv cid w =
     (let h = handler w
      in if in_status BUILDING_DOE h then w
         else if in_status BUILDING_MODEL h \<or> in_status BUILDING_CLUSTER h then w
         else if in_status BUILDING_PREDICTION h then w
         else if in_status RECOVERING h then w
         else if in_status EXPLORING h then snd (send_configuration sv cid w)
         else if in_status WITH_PREDICTION h then send_prediction sv cid w
         else if in_status UNDEFINED h then send_abort_message cid w
         else w)"

definition welcome_client :: "'fs services \<Rightarrow> string \<Rightarrow> string \<Rightarrow> 'fs world \<Rightarrow> 'fs world result" where
  "welcome_client sv cid info w =
     (let w1 = upd (add_client cid) w
      in if in_status CLUELESS (handler w1)
         then let (found, h) = parse_informations sv info (handler w1);
                  w2 = w1\<lparr>handler := h\<rparr>
              in if \<not> found then Inr w2
                 else bind_result (store_description sv (handler_id h) (description h) (storage w2)) (\<lambda>fs.
                      bind_result (initialize_plugin_launchers sv (w2\<lparr>storage := fs\<rparr>)) (\<lambda>w3.
                      bind_result (start_recovering sv w3) (\<lambda>w4. Inr (answer_client sv cid w4))))
         else Inr (answer_client sv cid w1))"

definition bye_client :: "string \<Rightarrow> 'fs world \<Rightarrow> 'fs world" where
  "bye_client cid w =
     (let w1 = upd (remove_client cid) w
      in if active_clients (handler w1) = []
         then upd (\<lambda>h. (set_status (bits_of CLUELESS) True h)
                    \<lparr>doe := doe_clear (doe h), cluster := cluster_clear (cluster h),
                     prediction := prediction_clear (prediction h)\<rparr>) w1
         else w1)"

section \<open>Observations\<close>

datatype phase = Received string int int string | Parsing string int int string | Recorded string
  | Waiting_models "nat list" | Waiting_prediction nat | Loading_prediction | Waiting_doe nat | Loading_doe | Done

definition explore :: "'fs services \<Rightarrow> 'fs world \<Rightarrow> 'fs world" where
  "explore sv w =
     (let w1 = upd (set_status (bits_of WITH_DOE OR bits_of EXPLORING) True) w
      in fold (\<lambda>cid w'. snd (send_configuration sv cid w')) (active_clients (handler w1)) w1)"

definition restart_exploration :: "'fs services \<Rightarrow> 'fs world \<Rightarrow> (phase \<times> 'fs world) result" where
  "restart_exploration sv w =
     (if \<not> is_doe_valid (handler w)
      then bind_result (start_doe sv w) (\<lambda>(pid, w1). Inr (Waiting_doe pid, w1))
      else Inr (Done, explore sv w))"

definition begin_iteration :: "'fs services \<Rightarrow> 'fs world \<Rightarrow> (phase \<times> 'fs world) result" where
  "begin_iteration sv w =
     bind_result
       (start_modeling sv
          (upd (\<lambda>h. h\<lparr>iteration_number := iteration_number h + 1, num_configurations_sent_per_iteration := 0\<rparr>) w))
       (\<lambda>(pids, w1).
          if are_features_enabled (handler w1)
          then bind_result (start_clustering sv w1) (\<lambda>(pid, w2). Inr (Waiting_models (pids @ [pid]), w2))
          else Inr (Waiting_models pids, w1))"

definition check_models :: "'fs services \<Rightarrow> 'fs world \<Rightarrow> (phase \<times> 'fs world) result" where
  "check_models sv w =
     (let w1 = (if are_models_valid sv w then upd (set_status (bits_of WITH_MODEL) True) w else w);
          w2 = reload_cluster sv w1;
          w3 = (if are_features_enabled (handler w2) \<and> is_cluster_valid (handler w2)
                then upd (set_status (bits_of WITH_CLUSTER) False) w2 else w2)
      in if (if are_features_enabled (handler w3) then in_status WITH_MODEL (handler w3) \<and> in_status WITH_CLUSTER (handler w3)
             else in_status WITH_MODEL (handler w3))
         then bind_result (start_prediction sv w3) (\<lambda>(pid, w4). Inr (Waiting_prediction pid, w4))
         else restart_exploration sv w3)"

fun observation_step :: "'fs services \<Rightarrow> phase \<Rightarrow> 'fs world \<Rightarrow> (phase \<times> 'fs world) result" where
  "observation_step sv (Received cid duration_sec duration_ns obs) w =
     Inr (if in_status EXPLORING (handler w) then Parsing cid duration_sec duration_ns obs else Done, w)"
| "observation_step sv (Parsing cid duration_sec duration_ns obs) w =
     (case parse_observation sv obs (handler w) of
        None \<Rightarrow> Inr (Done, w)
      | Some op \<Rightarrow> Inr (Recorded cid, w\<lparr>storage := insert_observation_entry sv (handler_id (handler w)) cid
                                                      duration_sec duration_ns op (storage w)\<rparr>))"
| "observation_step sv (Recorded cid) w =
     (if is_doe_valid (handler w)
         \<and> num_configurations_sent_per_iteration (handler w) < num_configurations_per_iteration (handler w)
      then Inr (Done, snd (send_configuration sv cid w))
      else begin_iteration sv w)"
| "observation_step sv (Waiting_models (pid # pids)) w =
     bind_result (wait_for sv pid w) (\<lambda>w'. Inr (Waiting_models pids, w'))"
| "observation_step sv (Waiting_models []) w = check_models sv w"
| "observation_step sv (Waiting_prediction pid) w = bind_result (wait_for sv pid w) (\<lambda>w'. Inr (Loading_prediction, w'))"
| "observation_step sv Loading_prediction w =
     (let w1 = reload_prediction sv w
      in if is_prediction_valid (handler w1)
         then Inr (Done, broadcast_prediction sv (upd (set_status (bits_of WITH_PREDICTION) True) w1))
         else restart_exploration sv w1)"
| "observation_step sv (Waiting_doe pid) w = bind_result (wait_for sv pid w) (\<lambda>w'. Inr (Loading_doe, w'))"
| "observation_step sv Loading_doe w =
     (let w1 = reload_doe sv w
      in if \<not> is_doe_valid (handler w1) then Inr (Done, upd (set_status (bits_of UNDEFINED) True) w1)
         else Inr (Done, explore sv w1))"
| "observation_step sv Done w = Inr (Done, w)"

end
