(* ===== verification/Agora_Protocol.thy ===== *)
theory Agora_Protocol
  imports Agora_Handler
begin

text \<open>
  The behaviour of the application handler of the server: an observation processed without
  interference (\<open>process_observation\<close>), the interleaving of clients that come and go with any
  number of observations in progress (\<open>server_step\<close>), and the invariant of the phases.
\<close>

section \<open>One observation\<close>

fun phase_rank :: "phase \<Rightarrow> nat" where
  "phase_rank (Received cid s n obs) = 8"
| "phase_rank (Parsing cid s n obs) = 7"
| "phase_rank (Recorded cid) = 6"
| "phase_rank (Waiting_models pids) = 5"
| "phase_rank (Waiting_prediction pid) = 4"
| "phase_rank Loading_prediction = 3"
| "phase_rank (Waiting_doe pid) = 2"
| "phase_rank Loading_doe = 1"
| "phase_rank Done = 0"

fun pending_pids :: "phase \<Rightarrow> nat" where
  "pending_pids (Waiting_models pids) = length pids"
| "pending_pids p = 0"

lemma restart_exploration_phase:
  "restart_exploration sv w = Inr (p, w') \<Longrightarrow> phase_rank p \<le> 2"
  by (auto simp: restart_exploration_def split: if_splits prod.splits)

lemma begin_iteration_phase: "begin_iteration sv w = Inr (p, w') \<Longrightarrow> phase_rank p = 5"
  by (auto simp: begin_iteration_def split: if_splits prod.splits)

lemma check_models_phase: "check_models sv w = Inr (p, w') \<Longrightarrow> phase_rank p \<le> 4"
  by (auto simp: check_models_def Let_def split: if_splits prod.splits dest!: restart_exploration_phase)

lemma observation_step_progress:
  assumes "observation_step sv p w = Inr (p', w')" and "p \<noteq> Done"
  shows "phase_rank p' < phase_rank p \<or> phase_rank p' = phase_rank p \<and> pending_pids p' < pending_pids p"
  using assms
  by (cases "(sv, p, w)" rule: observation_step.cases)
     (fastforce simp: Let_def split: if_splits option.splits
        dest: restart_exploration_phase begin_iteration_phase check_models_phase)+

function run_phases :: "'fs services \<Rightarrow> phase \<Rightarrow> 'fs world \<Rightarrow> 'fs world result" where
  "run_phases sv p w =
     (if p = Done then Inr w else bind_result (observation_step sv p w) (\<lambda>(p', w'). run_phases sv p' w'))"
  by pat_completeness auto
termination
  by (relation "measures [\<lambda>(sv, p, w). phase_rank p, \<lambda>(sv, p, w). pending_pids p]")
     (auto dest: observation_step_progress)

declare run_phases.simps [simp del]

definition process_observation :: "'fs services \<Rightarrow> string \<Rightarrow> int \<Rightarrow> int \<Rightarrow> string \<Rightarrow> 'fs world \<Rightarrow> 'fs world result" where
  "process_observation sv cid duration_sec duration_ns obs w =
     run_phases sv (Received cid duration_sec duration_ns obs) w"

section \<open>The status as a set of flags\<close>

definition flags :: "status_mask \<Rightarrow> InternalStatus set" where
  "flags m = {s. bit m (status_position s)}"

lemma status_position_inject [simp]: "status_position s = status_position t \<longleftrightarrow> s = t"
  by (cases s; cases t) simp_all

lemma status_position_less: "status_position s < 13"
  by (cases s) simp_all

lemma bit_bits_of: "bit (bits_of s) n \<longleftrightarrow> n = status_position s"
  using status_position_less [of s] by (auto simp: bits_of_def bit_exp_iff)

lemma bit_mask_value: "bit mask_value n \<longleftrightarrow> n < 13"
proof -
  have "mask_value = mask 13"
    by (simp add: mask_value_def bits_of_def mask_eq_exp_minus_1)
  then show ?thesis
    unfolding \<open>mask_value = mask 13\<close> bit_mask_iff by auto
qed

lemma flags_bits_of [simp]: "flags (bits_of s) = {s}"
  by (auto simp: flags_def bit_bits_of)

lemma flags_or [simp]: "flags (a OR b) = flags a \<union> flags b"
  by (auto simp: flags_def bit_or_iff)

lemma flags_and [simp]: "flags (a AND b) = flags a \<inter> flags b"
  by (auto simp: flags_def bit_and_iff)

lemma flags_xor [simp]: "flags (a XOR b) = (flags a - flags b) \<union> (flags b - flags a)"
  by (auto simp: flags_def bit_xor_iff)

lemma flags_not [simp]: "flags (mask_not a) = - flags a"
proof -
  have "bit (mask_not a) (status_position s) \<longleftrightarrow> \<not> bit a (status_position s)" for s
    using status_position_less [of s] by (auto simp: mask_not_def bit_and_iff bit_not_iff bit_mask_value)
  then show ?thesis by (auto simp: flags_def)
qed

lemma in_status_flags: "in_status s h \<longleftrightarrow> s \<in> flags (handler_status h)"
proof
  assume "in_status s h"
  then have "bit (handler_status h AND bits_of s) (status_position s)"
    by (simp only: check_status_def bit_bits_of)
  then show "s \<in> flags (handler_status h)"
    by (simp add: flags_def bit_and_iff)
next
  assume "s \<in> flags (handler_status h)"
  then have "bit (handler_status h AND bits_of s) n = bit (bits_of s) n" for n
    by (auto simp: flags_def bit_and_iff bit_bits_of)
  then show "in_status s h"
    unfolding check_status_def by (rule bit_eqI)
qed

section \<open>What the parts of a call change\<close>

lemma upd_simps [simp]:
  "handler (upd f w) = f (handler w)" "storage (upd f w) = storage w" "sent (upd f w) = sent w"
  by (simp_all add: upd_def)

lemma set_status_simps [simp]:
  "handler_status (set_status s clear h) = (if clear then s else handler_status h OR s)"
  "handler_id (set_status s clear h) = handler_id h"
  "active_clients (set_status s clear h) = active_clients h" "iteration_number (set_status s clear h) = iteration_number h"
  "num_configurations_sent_per_iteration (set_status s clear h) = num_configurations_sent_per_iteration h"
  "num_configurations_per_iteration (set_status s clear h) = num_configurations_per_iteration h"
  "description (set_status s clear h) = description h" "doe (set_status s clear h) = doe h"
  "cluster (set_status s clear h) = cluster h" "prediction (set_status s clear h) = prediction h"
  "doe_launcher (set_status s clear h) = doe_launcher h" "cluster_launcher (set_status s clear h) = cluster_launcher h"
  "prediction_launcher (set_status s clear h) = prediction_launcher h"
  "model_launchers (set_status s clear h) = model_launchers h"
  "is_prediction_valid (set_status s clear h) = is_prediction_valid h" "is_doe_valid (set_status s clear h) = is_doe_valid h"
  "is_cluster_valid (set_status s clear h) = is_cluster_valid h"
  "are_features_enabled (set_status s clear h) = are_features_enabled h"
  by (simp_all add: set_status_def is_prediction_valid_def is_doe_valid_def is_cluster_valid_def are_features_enabled_def)

lemma run_launcher_frame:
  "run_launcher sv t plugin pc w = Inr (pid, w') \<Longrightarrow> handler w' = handler w \<and> sent w' = sent w"
  by (auto simp: run_launcher_def split: option.splits prod.splits)

lemma wait_for_frame: "wait_for sv pid w = Inr w' \<Longrightarrow> handler w' = handler w \<and> sent w' = sent w"
  by (auto simp: wait_for_def)

lemma launch_models_frame: "launch_models sv cs w = Inr (pids, w') \<Longrightarrow> handler w' = handler w \<and> sent w' = sent w"
proof (induction cs arbitrary: w pids w')
  case (Cons c cs)
  obtain metric plugin pc where "c = (metric, plugin, pc)" by (cases c)
  with Cons.prems show ?case
    by (auto split: if_splits prod.splits dest!: Cons.IH)
qed simp

lemma start_frames:
  "start_doe sv w = Inr (pid, w') \<Longrightarrow> handler w' = set_status (bits_of BUILDING_DOE) True (handler w) \<and> sent w' = sent w"
  "start_prediction sv w = Inr (pid, w') \<Longrightarrow> handler w' = set_status (bits_of BUILDING_PREDICTION) True (handler w) \<and> sent w' = sent w"
  "start_clustering sv w = Inr (pid, w') \<Longrightarrow> handler w' = set_status (bits_of BUILDING_CLUSTER) False (handler w) \<and> sent w' = sent w"
  "start_modeling sv w = Inr (pids, w') \<Longrightarrow> handler w' = set_status (bits_of BUILDING_MODEL) True (handler w) \<and> sent w' = sent w"
  by (auto simp: start_doe_def start_prediction_def start_clustering_def start_modeling_def Let_def
        dest!: run_launcher_frame launch_models_frame)

lemma send_message_simps [simp]:
  "handler (send_message t p w) = handler w" "storage (send_message t p w) = storage w"
  "sent (send_message t p w) = sent w @ [\<lparr>topic = t, payload = p\<rparr>]"
  by (simp_all add: send_message_def)

lemma send_simps [simp]:
  "handler (send_prediction sv cid w) = handler w" "handler (send_abort_message cid w) = handler w"
  "handler (broadcast_prediction sv w) = handler w" "storage (broadcast_prediction sv w) = storage w"
  by (simp_all add: send_prediction_def send_abort_message_def broadcast_prediction_def)

lemma reload_simps [simp]:
  "handler (reload_doe sv w) = (handler w)\<lparr>doe := load_doe sv (handler_id (handler w)) (description (handler w)) (storage w)\<rparr>"
  "handler (reload_prediction sv w) =
     (handler w)\<lparr>prediction := load_prediction sv (handler_id (handler w)) (description (handler w)) (storage w)\<rparr>"
  "handler (reload_cluster sv w) =
     (if are_features_enabled (handler w)
      then (handler w)\<lparr>cluster := load_cluster sv (handler_id (handler w)) (description (handler w)) (storage w)\<rparr> else handler w)"
  by (simp_all add: reload_doe_def reload_prediction_def reload_cluster_def)

text \<open>The members that neither the plugins nor the storage change.\<close>

definition counters :: "handler \<Rightarrow> string list \<times> int \<times> int" where
  "counters h = (active_clients h, iteration_number h, num_configurations_sent_per_iteration h)"

lemma counters_upd [simp]:
  "counters (set_status s clear h) = counters h" "counters (h\<lparr>doe := d\<rparr>) = counters h"
  "counters (h\<lparr>cluster := c\<rparr>) = counters h" "counters (h\<lparr>prediction := p\<rparr>) = counters h"
  "counters (h\<lparr>doe_launcher := l\<rparr>) = counters h" "counters (h\<lparr>cluster_launcher := l\<rparr>) = counters h"
  "counters (h\<lparr>prediction_launcher := l\<rparr>) = counters h" "counters (h\<lparr>model_launchers := ls\<rparr>) = counters h"
  "counters (h\<lparr>description := b\<rparr>) = counters h" "counters (h\<lparr>num_configurations_per_iteration := n\<rparr>) = counters h"
  by (simp_all add: counters_def)

lemma initialize_launcher_frame: "initialize_launcher sv plugin w = Inr w' \<Longrightarrow> handler w' = handler w \<and> sent w' = sent w"
  by (auto simp: initialize_launcher_def)

lemma initialize_model_launchers_frame:
  "initialize_model_launchers sv ms w = Inr w' \<Longrightarrow> counters (handler w') = counters (handler w) \<and> sent w' = sent w"
proof (induction ms arbitrary: w)
  case (Cons m ms)
  show ?case
  proof (cases "prediction_plugin m \<in> set (model_launchers (handler w))")
    case True
    with Cons show ?thesis by simp
  next
    case False
    with Cons.prems obtain w1 where "initialize_launcher sv (prediction_plugin m) w = Inr w1"
      and "initialize_model_launchers sv ms (upd (\<lambda>h. h\<lparr>model_launchers := model_launchers h @ [prediction_plugin m]\<rparr>) w1) = Inr w'"
      by auto
    then show ?thesis
      using Cons.IH initialize_launcher_frame by fastforce
  qed
qed simp

lemma initialize_plugin_launchers_frame:
  assumes "initialize_plugin_launchers sv w = Inr w'"
  shows "counters (handler w') = counters (handler w) \<and> sent w' = sent w"
  using assms
  by (auto simp: initialize_plugin_launchers_def Let_def split: if_splits
        dest!: initialize_launcher_frame initialize_model_launchers_frame)

section \<open>Interleavings\<close>

text \<open>
  The observations in progress, one phase for each thread that executes
  \<^verbatim>\<open>process_observation\<close>, and the world they share. A call that throws has no successor: the
  exception leaves the thread of the worker and terminates the server.
\<close>

inductive server_step :: "'fs services \<Rightarrow> phase list \<times> 'fs world \<Rightarrow> phase list \<times> 'fs world \<Rightarrow> bool" for sv where
  client_welcome: "welcome_client sv cid info w = Inr w' \<Longrightarrow> server_step sv (ps, w) (ps, w')"
| client_bye: "server_step sv (ps, w) (ps, bye_client cid w)"
| observation_arrives: "server_step sv (ps, w) (ps @ [Received cid duration_sec duration_ns obs], w)"
| observation_continues: "i < length ps \<Longrightarrow> observation_step sv (ps ! i) w = Inr (p, w') \<Longrightarrow> server_step sv (ps, w) (ps[i := p], w')"

inductive server_reachable :: "'fs services \<Rightarrow> phase list \<times> 'fs world \<Rightarrow> bool" for sv where
  created: "handler w = RemoteApplicationHandler a blank \<Longrightarrow> sent w = [] \<Longrightarrow> server_reachable sv ([], w)"
| step: "server_reachable sv st \<Longrightarrow> server_step sv st st' \<Longrightarrow> server_reachable sv st'"

definition visible_status :: "InternalStatus set set" where
  "visible_status = {{CLUELESS}, {UNDEFINED}, {EXPLORING, WITH_DOE}, {BUILDING_MODEL}, {BUILDING_MODEL, BUILDING_CLUSTER},
     {BUILDING_PREDICTION}, {WITH_PREDICTION}, {BUILDING_DOE}}"

definition handler_inv :: "handler \<Rightarrow> bool" where
  "handler_inv h \<longleftrightarrow> flags (handler_status h) \<in> visible_status
     \<and> (in_status WITH_PREDICTION h \<longrightarrow> is_prediction_valid h)
     \<and> (in_status CLUELESS h \<longrightarrow> \<not> is_doe_valid h \<and> \<not> is_cluster_valid h \<and> \<not> is_prediction_valid h)
     \<and> distinct (active_clients h) \<and> 0 \<le> iteration_number h \<and> 0 \<le> num_configurations_sent_per_iteration h"

definition counters_ok :: "handler \<Rightarrow> bool" where
  "counters_ok h \<longleftrightarrow> distinct (active_clients h) \<and> 0 \<le> iteration_number h \<and> 0 \<le> num_configurations_sent_per_iteration h"

lemma counters_ok_cong: "counters h = counters h' \<Longrightarrow> counters_ok h = counters_ok h'"
  by (simp add: counters_def counters_ok_def)

lemma counters_ok_upd [simp]:
  "counters_ok (set_status s clear h) = counters_ok h" "counters_ok (h\<lparr>doe := d\<rparr>) = counters_ok h"
  "counters_ok (h\<lparr>cluster := c\<rparr>) = counters_ok h" "counters_ok (h\<lparr>prediction := p\<rparr>) = counters_ok h"
  by (simp_all add: counters_ok_def)

text \<open>Every call that sets the status to one of these leaves the invariant behind it.\<close>

lemma set_status_inv [simp]:
  assumes "counters_ok h"
  shows "handler_inv (set_status (bits_of UNDEFINED) True h)"
    and "handler_inv (set_status (bits_of BUILDING_DOE) True h)"
    and "handler_inv (set_status (bits_of BUILDING_PREDICTION) True h)"
    and "handler_inv (set_status (bits_of BUILDING_MODEL) True h)"
    and "handler_inv (set_status (bits_of BUILDING_CLUSTER) False (set_status (bits_of BUILDING_MODEL) True h))"
    and "handler_inv (set_status (bits_of WITH_DOE OR bits_of EXPLORING) True h)"
    and "handler_inv (set_status (bits_of EXPLORING OR bits_of WITH_DOE) True h)"
    and "is_prediction_valid h \<Longrightarrow> handler_inv (set_status (bits_of WITH_PREDICTION) True h)"
  using assms by (auto simp: handler_inv_def counters_ok_def visible_status_def in_status_flags)

lemma exploring_inv:
  "counters_ok h \<Longrightarrow> flags (handler_status h) = {EXPLORING, WITH_DOE} \<Longrightarrow> handler_inv h"
  by (auto simp: handler_inv_def counters_ok_def visible_status_def in_status_flags)

lemma handler_inv_counters: "handler_inv h \<Longrightarrow> counters_ok h"
  by (simp add: handler_inv_def counters_ok_def)

lemma send_configuration_frame:
  assumes "send_configuration sv cid w = (b, w')"
  shows "handler_status (handler w') = handler_status (handler w) \<and> active_clients (handler w') = active_clients (handler w)
    \<and> prediction (handler w') = prediction (handler w) \<and> (counters_ok (handler w) \<longrightarrow> counters_ok (handler w'))
    \<and> storage w' = storage w \<and> description (handler w') = description (handler w) \<and> handler_id (handler w') = handler_id (handler w)"
  using assms by (auto simp: send_configuration_def counters_ok_def split: option.splits prod.splits)

lemma send_configuration_inv:
  assumes "\<not> in_status CLUELESS (handler w)" and "handler_inv (handler w)"
  shows "handler_inv (handler (snd (send_configuration sv cid w)))"
proof -
  obtain b w' where s: "send_configuration sv cid w = (b, w')" by (cases "send_configuration sv cid w")
  have "counters_ok (handler w')"
    using send_configuration_frame [OF s] handler_inv_counters [OF assms(2)] by blast
  then show ?thesis
    using send_configuration_frame [OF s] assms s
    by (auto simp: handler_inv_def counters_ok_def in_status_flags is_prediction_valid_def)
qed

lemma explore_inv:
  assumes "counters_ok (handler w)"
  shows "handler_inv (handler (explore sv w)) \<and> flags (handler_status (handler (explore sv w))) = {EXPLORING, WITH_DOE}"
proof -
  have loop: "handler_inv (handler (fold (\<lambda>cid w'. snd (send_configuration sv cid w')) cs w))
      \<and> flags (handler_status (handler (fold (\<lambda>cid w'. snd (send_configuration sv cid w')) cs w))) = {EXPLORING, WITH_DOE}"
    if "handler_inv (handler w)" "flags (handler_status (handler w)) = {EXPLORING, WITH_DOE}" for cs w
    using that
  proof (induction cs arbitrary: w)
    case (Cons cid cs)
    obtain b w' where s: "send_configuration sv cid w = (b, w')" by (cases "send_configuration sv cid w")
    have "handler_inv (handler w')"
      using send_configuration_inv [of w sv cid] Cons.prems s by (simp add: in_status_flags)
    moreover have "flags (handler_status (handler w')) = {EXPLORING, WITH_DOE}"
      using send_configuration_frame [OF s] Cons.prems by simp
    ultimately show ?case using Cons.IH s by simp
  qed simp
  show ?thesis
    unfolding explore_def Let_def using assms
    by (intro loop exploring_inv) auto
qed

lemma restart_exploration_inv:
  assumes "restart_exploration sv w = Inr (p, w')" and "counters_ok (handler w)"
  shows "handler_inv (handler w')"
proof (cases "is_doe_valid (handler w)")
  case True
  with assms explore_inv [OF assms(2), of sv] show ?thesis by (simp add: restart_exploration_def)
next
  case False
  with assms(1) obtain pid where "start_doe sv w = Inr (pid, w')"
    by (auto simp: restart_exploration_def)
  from start_frames(1) [OF this] assms(2) show ?thesis by simp
qed

lemma begin_iteration_inv:
  assumes "begin_iteration sv w = Inr (p, w')" and "counters_ok (handler w)"
  shows "handler_inv (handler w')"
proof -
  let ?w = "upd (\<lambda>h. h\<lparr>iteration_number := iteration_number h + 1, num_configurations_sent_per_iteration := 0\<rparr>) w"
  have ok: "counters_ok (handler ?w)" using assms(2) by (simp add: counters_ok_def)
  obtain pids w1 where m: "start_modeling sv ?w = Inr (pids, w1)"
    and rest: "(if are_features_enabled (handler w1)
        then bind_result (start_clustering sv w1) (\<lambda>(pid, w2). Inr (Waiting_models (pids @ [pid]), w2))
        else Inr (Waiting_models pids, w1)) = Inr (p, w')"
    using assms(1) unfolding begin_iteration_def by auto
  note h1 = start_frames(4) [OF m]
  show ?thesis
  proof (cases "are_features_enabled (handler w1)")
    case True
    with rest obtain pid where "start_clustering sv w1 = Inr (pid, w')" by auto
    from start_frames(3) [OF this] h1 ok show ?thesis by simp
  next
    case False
    with rest h1 ok show ?thesis by simp
  qed
qed

lemma check_models_inv:
  assumes "check_models sv w = Inr (p, w')" and "counters_ok (handler w)"
  shows "handler_inv (handler w')"
proof -
  define w1 where "w1 = (if are_models_valid sv w then upd (set_status (bits_of WITH_MODEL) True) w else w)"
  define w2 where "w2 = reload_cluster sv w1"
  define w3 where "w3 = (if are_features_enabled (handler w2) \<and> is_cluster_valid (handler w2)
      then upd (set_status (bits_of WITH_CLUSTER) False) w2 else w2)"
  have ok: "counters_ok (handler w3)"
    using assms(2) by (simp add: w1_def w2_def w3_def)
  have "(\<exists>pid. start_prediction sv w3 = Inr (pid, w')) \<or> restart_exploration sv w3 = Inr (p, w')"
    using assms(1) unfolding check_models_def Let_def w1_def [symmetric] w2_def [symmetric] w3_def [symmetric]
    by (auto split: if_splits)
  then show ?thesis
  proof (elim disjE exE)
    fix pid
    assume "start_prediction sv w3 = Inr (pid, w')"
    from start_frames(2) [OF this] ok show ?thesis by simp
  next
    assume "restart_exploration sv w3 = Inr (p, w')"
    then show ?thesis using restart_exploration_inv ok by blast
  qed
qed

lemma observation_step_inv:
  assumes "observation_step sv p w = Inr (p', w')" and "handler_inv (handler w)"
  shows "handler_inv (handler w')"
proof -
  note ok = handler_inv_counters [OF assms(2)]
  consider "handler w' = handler w" | cid where "p = Recorded cid" | "p = Waiting_models []"
    | "p = Loading_prediction" | "p = Loading_doe"
    using assms(1) by (cases "(sv, p, w)" rule: observation_step.cases) (auto split: option.splits dest: wait_for_frame)
  then show ?thesis
  proof cases
    case (2 cid)
    have "is_doe_valid (handler w) \<Longrightarrow> \<not> in_status CLUELESS (handler w)"
      using assms(2) by (auto simp: handler_inv_def)
    with 2 show ?thesis
      using assms begin_iteration_inv ok send_configuration_inv by (auto split: if_splits)
  next
    case 3
    then show ?thesis using assms(1) check_models_inv ok by simp
  next
    case 4
    then show ?thesis using assms(1) ok restart_exploration_inv [of sv "reload_prediction sv w" p' w']
      by (auto simp: Let_def split: if_splits)
  next
    case 5
    have "counters_ok (handler (reload_doe sv w))" using ok by simp
    with 5 show ?thesis using assms(1) explore_inv [THEN conjunct1, of "reload_doe sv w" sv]
      by (cases "is_doe_valid (handler (reload_doe sv w))") (auto simp: Let_def simp del: reload_simps)
  qed (use assms in simp)
qed

lemma remove_client_inv: "handler_inv h \<Longrightarrow> handler_inv (remove_client cid h)"
  by (simp add: handler_inv_def remove_client_def in_status_flags is_doe_valid_def is_cluster_valid_def
        is_prediction_valid_def distinct_removeAll)

lemma bye_client_inv:
  assumes "handler_inv (handler w)"
  shows "handler_inv (handler (bye_client cid w))"
proof -
  let ?h = "remove_client cid (handler w)"
  have h: "handler_inv ?h" using remove_client_inv assms by blast
  then have "handler_inv ((set_status (bits_of CLUELESS) True ?h)
      \<lparr>doe := doe_clear (doe ?h), cluster := cluster_clear (cluster ?h), prediction := prediction_clear (prediction ?h)\<rparr>)"
    by (simp add: handler_inv_def visible_status_def in_status_flags is_doe_valid_def is_cluster_valid_def
          is_prediction_valid_def doe_clear_def cluster_clear_def prediction_clear_def)
  with h show ?thesis
    by (simp add: bye_client_def Let_def)
qed

definition recovered :: "handler \<Rightarrow> bool" where
  "recovered h \<longleftrightarrow> handler_inv h \<and> flags (handler_status h) \<in> {{EXPLORING, WITH_DOE}, {WITH_PREDICTION}, {UNDEFINED}}"

lemma recover_doe_inv:
  assumes "recover_doe sv w = Inr w'" and "counters_ok (handler w)"
  shows "recovered (handler w') \<and> sent w' = sent w \<and> counters (handler w') = counters (handler w)"
proof (cases "is_doe_valid (handler w)")
  case True
  with assms show ?thesis by (auto simp: recover_doe_def recovered_def)
next
  case False
  with assms(1) obtain pid w1 w2 where d: "start_doe sv w = Inr (pid, w1)" and w: "wait_for sv pid w1 = Inr w2"
    and r: "(let w3 = reload_doe sv w2
         in if \<not> is_doe_valid (handler w3) then Inr (upd (set_status (bits_of UNDEFINED) True) w3)
            else Inr (upd (set_status (bits_of WITH_DOE OR bits_of EXPLORING) True)
               (w3\<lparr>storage := create_observation_table sv (handler_id (handler w3)) (description (handler w3)) (storage w3)\<rparr>)))
       = (Inr w' :: _ result)"
    unfolding recover_doe_def by auto
  define w3 where "w3 = reload_doe sv w2"
  have w3: "counters_ok (handler w3)" "sent w3 = sent w" "counters (handler w3) = counters (handler w)"
    using start_frames(1) [OF d] wait_for_frame [OF w] assms(2) by (simp_all add: w3_def reload_doe_def)
  from r show ?thesis
    unfolding w3_def [symmetric] Let_def using w3
    by (cases "is_doe_valid (handler w3)") (auto simp: recovered_def)
qed

lemma start_recovering_inv:
  assumes "start_recovering sv w = Inr w'" and "counters_ok (handler w)"
  shows "recovered (handler w') \<and> sent w' = sent w \<and> counters (handler w') = counters (handler w)"
proof -
  define w1 where "w1 = reload_cluster sv (reload_prediction sv (reload_doe sv (upd (set_status (bits_of RECOVERING) True) w)))"
  have w1: "counters_ok (handler w1)" "sent w1 = sent w" "counters (handler w1) = counters (handler w)"
    using assms(2) by (simp_all add: w1_def reload_cluster_def reload_prediction_def reload_doe_def)
  let ?w2 = "upd (set_status (bits_of WITH_MODEL OR bits_of WITH_CLUSTER) True) w1"
  consider "is_prediction_valid (handler w1)" "w' = upd (set_status (bits_of WITH_PREDICTION) True) w1"
    | "recover_doe sv w1 = Inr w'"
    | pid w2 w3 where "start_prediction sv ?w2 = Inr (pid, w2)" "wait_for sv pid w2 = Inr w3"
        "(if is_prediction_valid (handler (reload_prediction sv w3))
          then Inr (upd (set_status (bits_of WITH_PREDICTION) True) (reload_prediction sv w3))
          else recover_doe sv (reload_prediction sv w3)) = Inr w'"
  proof -
    define ready where "ready \<longleftrightarrow> (if are_features_enabled (handler w1) then is_cluster_valid (handler w1) \<and> are_models_valid sv w1
        else are_models_valid sv w1)"
    have r: "(if is_prediction_valid (handler w1) then Inr (upd (set_status (bits_of WITH_PREDICTION) True) w1)
        else if ready
        then bind_result (start_prediction sv ?w2)
               (\<lambda>(pid, w2). bind_result (wait_for sv pid w2)
                  (\<lambda>w3. if is_prediction_valid (handler (reload_prediction sv w3))
                        then Inr (upd (set_status (bits_of WITH_PREDICTION) True) (reload_prediction sv w3))
                        else recover_doe sv (reload_prediction sv w3)))
        else recover_doe sv w1) = Inr w'"
      using assms(1) by (simp only: start_recovering_def Let_def w1_def [symmetric] ready_def)
    show thesis
    proof (cases "is_prediction_valid (handler w1)")
      case True
      with r that(1) show thesis by simp
    next
      case invalid: False
      show thesis
      proof (cases ready)
        case True
        with r invalid obtain x where x: "start_prediction sv ?w2 = Inr x"
          and y: "(\<lambda>(pid, w2). bind_result (wait_for sv pid w2)
             (\<lambda>w3. if is_prediction_valid (handler (reload_prediction sv w3))
                   then Inr (upd (set_status (bits_of WITH_PREDICTION) True) (reload_prediction sv w3))
                   else recover_doe sv (reload_prediction sv w3))) x = Inr w'"
          by (auto simp del: reload_simps)
        obtain pid w2 where "x = (pid, w2)" by (cases x)
        with x y that(3) show thesis by (simp del: reload_simps) blast
      next
        case False
        with r invalid that(2) show thesis by simp
      qed
    qed
  qed
  then show ?thesis
  proof cases
    case 1
    with w1 show ?thesis by (simp add: recovered_def)
  next
    case 2
    from recover_doe_inv [OF 2 w1(1)] w1(2,3) show ?thesis by simp
  next
    case (3 pid w2 w3)
    then have w3: "handler w3 = set_status (bits_of BUILDING_PREDICTION) True (handler ?w2)" "sent w3 = sent w"
      using start_frames(2) [OF 3(1)] wait_for_frame [OF 3(2)] w1 by simp_all
    then have "counters_ok (handler (reload_prediction sv w3))" "sent (reload_prediction sv w3) = sent w"
      "counters (handler (reload_prediction sv w3)) = counters (handler w)"
      using w1 by (simp_all add: reload_prediction_def)
    with 3(3) recover_doe_inv [of sv "reload_prediction sv w3" w'] show ?thesis
      by (auto simp: recovered_def split: if_splits)
  qed
qed

lemma answer_client_inv:
  assumes "handler_inv (handler w)"
  shows "handler_inv (handler (answer_client sv cid w))"
proof (cases "in_status EXPLORING (handler w)")
  case True
  then have "\<not> in_status CLUELESS (handler w)"
    using assms by (auto simp: handler_inv_def visible_status_def in_status_flags)
  with assms True send_configuration_inv [of w sv cid] show ?thesis
    by (simp add: answer_client_def Let_def)
next
  case False
  with assms show ?thesis
    by (simp add: answer_client_def Let_def)
qed

lemma add_client_inv: "handler_inv h \<Longrightarrow> handler_inv (add_client cid h)"
  by (simp add: handler_inv_def add_client_def in_status_flags is_doe_valid_def is_cluster_valid_def is_prediction_valid_def)

lemma parse_informations_frame:
  assumes "parse_informations sv info h = (b, h')"
  shows "counters h' = counters h" and "\<not> b \<Longrightarrow> \<exists>d. h' = h\<lparr>description := d\<rparr>"
proof -
  have "(\<exists>d. h' = h\<lparr>description := d\<rparr>) \<and> \<not> b \<or>
      (\<exists>d n. h' = set_status (bits_of WITH_INFORMATION) True (h\<lparr>description := d, num_configurations_per_iteration := n\<rparr>)) \<and> b"
    using assms by (auto simp: parse_informations_def split: sum.splits option.splits intro: exI [of _ "description h"])
  then show "counters h' = counters h" and "\<not> b \<Longrightarrow> \<exists>d. h' = h\<lparr>description := d\<rparr>"
    by auto
qed

text \<open>What a call of \<^verbatim>\<open>welcome_client\<close> amounts to.\<close>

lemma welcome_client_cases:
  assumes "welcome_client sv cid info w = Inr w'" and "handler_inv (handler w)"
  obtains (known) "\<not> in_status CLUELESS (handler w)" "w' = answer_client sv cid (upd (add_client cid) w)"
  | (unparsed) d where "in_status CLUELESS (handler w)" "w' = upd (\<lambda>h. (add_client cid h)\<lparr>description := d\<rparr>) w"
  | (recovered) w4 where "in_status CLUELESS (handler w)" "recovered (handler w4)" "sent w4 = sent w"
      "cid \<in> set (active_clients (handler w4))" "w' = answer_client sv cid w4"
proof -
  define w1 where "w1 = upd (add_client cid) w"
  have st: "in_status CLUELESS (handler w1) = in_status CLUELESS (handler w)"
    by (simp add: w1_def add_client_def in_status_flags)
  obtain b h where p: "parse_informations sv info (handler w1) = (b, h)"
    by (cases "parse_informations sv info (handler w1)")
  show thesis
  proof (cases "in_status CLUELESS (handler w)")
    case False
    with assms(1) st show thesis
      by (intro known) (simp_all add: welcome_client_def Let_def w1_def)
  next
    case clueless: True
    show thesis
    proof (cases b)
      case False
      with parse_informations_frame(2) [OF p] obtain d where "h = (handler w1)\<lparr>description := d\<rparr>" by blast
      with assms(1) st clueless p False show thesis
        by (intro unparsed [of d]) (simp_all add: welcome_client_def Let_def w1_def [symmetric] upd_def, simp add: w1_def upd_def)
    next
      case True
      from assms(1) st clueless p True obtain fs w3 w4 where
        i: "initialize_plugin_launchers sv (w1\<lparr>handler := h, storage := fs\<rparr>) = Inr w3" and r: "start_recovering sv w3 = Inr w4"
        and w': "w' = answer_client sv cid w4"
        by (auto simp: welcome_client_def Let_def w1_def [symmetric])
      have "counters_ok (handler w1)"
        using handler_inv_counters [OF add_client_inv [OF assms(2)]] by (simp add: w1_def)
      moreover have "counters (handler w3) = counters (handler w1)" "sent w3 = sent w"
        using initialize_plugin_launchers_frame [OF i] parse_informations_frame(1) [OF p] by (simp_all add: w1_def)
      ultimately have w3: "counters_ok (handler w3)" "sent w3 = sent w" "counters (handler w3) = counters (handler w1)"
        using counters_ok_cong by blast+
      have "cid \<in> set (active_clients (handler w4))"
        using start_recovering_inv [OF r w3(1)] w3(3) by (auto simp: w1_def counters_def add_client_def split: if_splits)
      with start_recovering_inv [OF r w3(1)] w3(2) clueless w' show thesis
        by (intro recovered [of w4]) simp_all
    qed
  qed
qed

lemma welcome_client_inv:
  assumes "welcome_client sv cid info w = Inr w'" and "handler_inv (handler w)"
  shows "handler_inv (handler w')"
  using assms
proof (cases rule: welcome_client_cases)
  case known
  then show ?thesis using answer_client_inv [of "upd (add_client cid) w"] add_client_inv [OF assms(2)] by simp
next
  case (unparsed d)
  have "handler_inv (add_client cid (handler w))" using add_client_inv assms(2) by blast
  then show ?thesis
    by (simp add: unparsed handler_inv_def in_status_flags is_doe_valid_def is_cluster_valid_def is_prediction_valid_def)
next
  case (recovered w4)
  then show ?thesis using answer_client_inv [of w4 sv cid] by (simp add: recovered_def)
qed

lemma server_reachable_inv: "server_reachable sv st \<Longrightarrow> handler_inv (handler (snd st))"
proof (induction rule: server_reachable.induct)
  case (created w a blank)
  then show ?case
    by (simp add: RemoteApplicationHandler_def handler_inv_def visible_status_def in_status_flags is_doe_valid_def
          is_cluster_valid_def is_prediction_valid_def doe_empty_def cluster_empty_def prediction_empty_def)
next
  case (step st st')
  from step.hyps(2) step.IH show ?case
    by (cases rule: server_step.cases) (auto intro: welcome_client_inv bye_client_inv observation_step_inv)
qed

text \<open>
  C9: whatever the clients do and however the observations in progress are interleaved, between
  two calls the handler is in exactly one of eight phases; it has a prediction whenever it says
  so, it keeps no data of an application without clients in its initial phase, and it never
  registers a client twice.
\<close>

theorem server_phase_invariant:
  assumes "server_reachable sv (ps, w)"
  shows "flags (handler_status (handler w)) \<in> {{CLUELESS}, {UNDEFINED}, {EXPLORING, WITH_DOE}, {BUILDING_MODEL},
      {BUILDING_MODEL, BUILDING_CLUSTER}, {BUILDING_PREDICTION}, {WITH_PREDICTION}, {BUILDING_DOE}}
    \<and> (in_status WITH_PREDICTION (handler w) \<longrightarrow> is_prediction_valid (handler w))
    \<and> (in_status CLUELESS (handler w) \<longrightarrow>
         \<not> is_doe_valid (handler w) \<and> \<not> is_cluster_valid (handler w) \<and> \<not> is_prediction_valid (handler w))
    \<and> distinct (active_clients (handler w))"
  using server_reachable_inv [OF assms] by (simp add: handler_inv_def visible_status_def)

definition answer_to :: "'fs services \<Rightarrow> string \<Rightarrow> handler \<Rightarrow> message_model list \<Rightarrow> bool" where
  "answer_to sv cid h msgs \<longleftrightarrow>
     (if in_status WITH_PREDICTION h
      then msgs = [\<lparr>topic = client_topic h cid ''prediction'', payload = prediction_to_json sv (description h) (prediction h)\<rparr>]
      else if in_status UNDEFINED h then msgs = [\<lparr>topic = client_topic h cid ''abort'', payload = []\<rparr>]
      else if in_status EXPLORING h
      then msgs = [] \<or> (\<exists>conf. msgs = [\<lparr>topic = client_topic h cid ''explore'', payload = configuration_to_json sv (description h) conf\<rparr>])
      else msgs = [])"

lemma send_configuration_sent:
  "send_configuration sv cid w = (b, w') \<Longrightarrow> \<exists>msgs. sent w' = sent w @ msgs \<and>
     (msgs = [] \<or> (\<exists>conf. msgs = [\<lparr>topic = client_topic (handler w') cid ''explore'',
                                  payload = configuration_to_json sv (description (handler w')) conf\<rparr>]))"
  by (auto simp: send_configuration_def client_topic_def split: option.splits prod.splits)

lemma answer_client_answer:
  assumes "handler_inv (handler w)" and "w' = answer_client sv cid w"
  shows "active_clients (handler w') = active_clients (handler w) \<and> (\<exists>msgs. sent w' = sent w @ msgs \<and> answer_to sv cid (handler w') msgs)"
proof -
  obtain b v where s: "send_configuration sv cid w = (b, v)" by (cases "send_configuration sv cid w")
  note fr = send_configuration_frame [OF s]
  from assms(1) consider "flags (handler_status (handler w)) = {EXPLORING, WITH_DOE}"
    | "flags (handler_status (handler w)) = {WITH_PREDICTION}" | "flags (handler_status (handler w)) = {UNDEFINED}"
    | "flags (handler_status (handler w)) \<in> {{CLUELESS}, {BUILDING_MODEL}, {BUILDING_MODEL, BUILDING_CLUSTER}, {BUILDING_PREDICTION}, {BUILDING_DOE}}"
    by (auto simp: handler_inv_def visible_status_def)
  then show ?thesis
  proof cases
    case 1
    then have "w' = v" using assms(2) s by (simp add: answer_client_def Let_def in_status_flags)
    with 1 fr send_configuration_sent [OF s] show ?thesis by (simp add: answer_to_def in_status_flags)
  next
    case 2
    then have "w' = send_prediction sv cid w" using assms(2) by (simp add: answer_client_def Let_def in_status_flags)
    with 2 show ?thesis by (simp add: answer_to_def in_status_flags send_prediction_def)
  next
    case 3
    then have "w' = send_abort_message cid w" using assms(2) by (simp add: answer_client_def Let_def in_status_flags)
    with 3 show ?thesis by (simp add: answer_to_def in_status_flags send_abort_message_def)
  next
    case 4
    then have "w' = w" using assms(2) by (auto simp: answer_client_def Let_def in_status_flags)
    with 4 show ?thesis by (auto simp: answer_to_def in_status_flags)
  qed
qed


section \<open>Progress\<close>

text \<open>
  The plugins and the file system do not fail, and the launchers a description needs exist.
\<close>

definition plugins_succeed :: "'fs services \<Rightarrow> bool" where
  "plugins_succeed sv \<longleftrightarrow> (\<forall>plugin pc fs. \<exists>r. launch sv plugin pc fs = Inr r) \<and> (\<forall>pid fs. \<exists>r. wait_plugin sv pid fs = Inr r)
     \<and> (\<forall>plugin a fs. \<exists>r. initialize_workspace sv plugin a fs = Inr r)"

definition launchers_ready :: "handler \<Rightarrow> bool" where
  "launchers_ready h \<longleftrightarrow> doe_launcher h \<noteq> None \<and> prediction_launcher h \<noteq> None
     \<and> (are_features_enabled h \<longrightarrow> cluster_launcher h \<noteq> None)
     \<and> (\<forall>m \<in> set (block_metrics (description h)). prediction_plugin m \<in> set (model_launchers h) \<and> metric_name m \<noteq> [])"

lemma launchers_ready_upd [simp]:
  "launchers_ready (set_status s clear h) = launchers_ready h" "launchers_ready (h\<lparr>doe := d\<rparr>) = launchers_ready h"
  "launchers_ready (h\<lparr>cluster := c\<rparr>) = launchers_ready h" "launchers_ready (h\<lparr>prediction := p\<rparr>) = launchers_ready h"
  "launchers_ready (h\<lparr>iteration_number := i, num_configurations_sent_per_iteration := n\<rparr>) = launchers_ready h"
  by (simp_all add: launchers_ready_def are_features_enabled_def)

lemma wait_for_total: "plugins_succeed sv \<Longrightarrow> \<exists>w'. wait_for sv pid w = Inr w'"
  unfolding plugins_succeed_def wait_for_def by (metis bind_result.simps(2))

lemma run_launcher_total:
  assumes "plugins_succeed sv" and "t \<noteq> Plugin_Model" and "plugin \<noteq> None"
  shows "\<exists>pid w'. run_launcher sv t plugin pc w = Inr (pid, w')"
proof -
  obtain pc' where c: "create_env_configuration t (names sv) pc = Inr pc'"
    using create_env_configuration_total assms(2) by blast
  obtain l where l: "plugin = Some l" using assms(3) by blast
  obtain pid fs where "launch sv l pc' (storage w) = Inr (pid, fs)"
    using assms(1) unfolding plugins_succeed_def by (metis surj_pair)
  with c l show ?thesis by (simp add: run_launcher_def)
qed

lemma model_configs_total:
  assumes "\<forall>m \<in> set ms. metric_name m \<noteq> []" and "0 \<le> iteration_number h"
  shows "\<exists>cs. model_configs sv h ms acc = Inr cs \<and> fst ` snd ` set cs \<subseteq> fst ` snd ` set acc \<union> prediction_plugin ` set ms"
  using assms
proof (induction ms arbitrary: acc)
  case (Cons m ms)
  let ?pc = "PluginConfiguration_metric ''plugin_config.env'' (handler_id h) (metric_name m) (iteration_number h)"
  have "\<exists>pc. create_env_configuration Plugin_Model (names sv) ?pc = Inr pc"
    by (rule create_env_configuration_total) (use Cons.prems in \<open>simp add: PluginConfiguration_metric_def\<close>)
  then obtain pc where pc: "create_env_configuration Plugin_Model (names sv) ?pc = Inr pc" ..
  let ?acc = "if metric_name m \<in> fst ` set acc then acc else acc @ [(metric_name m, prediction_plugin m, pc)]"
  obtain cs where "model_configs sv h ms ?acc = Inr cs" "fst ` snd ` set cs \<subseteq> fst ` snd ` set ?acc \<union> prediction_plugin ` set ms"
    using Cons.IH [of ?acc] Cons.prems by auto
  with pc show ?case by (auto split: if_splits)
qed simp

lemma launch_models_total:
  assumes "plugins_succeed sv" and "fst ` snd ` set cs \<subseteq> set (model_launchers (handler w))"
  shows "\<exists>pids w'. launch_models sv cs w = Inr (pids, w')"
  using assms(2)
proof (induction cs arbitrary: w)
  case (Cons c cs)
  obtain metric plugin pc where c: "c = (metric, plugin, pc)" by (cases c)
  obtain pid fs where l: "launch sv plugin pc (storage w) = Inr (pid, fs)"
    using assms(1) unfolding plugins_succeed_def by (metis surj_pair)
  obtain pids w' where "launch_models sv cs (w\<lparr>storage := fs\<rparr>) = Inr (pids, w')"
    using Cons.IH [of "w\<lparr>storage := fs\<rparr>"] Cons.prems by auto
  with c l Cons.prems show ?case by auto
qed simp

lemma starts_total:
  assumes "plugins_succeed sv" and "launchers_ready (handler w)"
  shows "\<exists>pid w'. start_doe sv w = Inr (pid, w')"
    and "\<exists>pid w'. start_prediction sv w = Inr (pid, w')"
    and "are_features_enabled (handler w) \<Longrightarrow> \<exists>pid w'. start_clustering sv w = Inr (pid, w')"
    and "0 \<le> iteration_number (handler w) \<Longrightarrow> \<exists>pids w'. start_modeling sv w = Inr (pids, w')"
proof -
  show "\<exists>pid w'. start_doe sv w = Inr (pid, w')" and "\<exists>pid w'. start_prediction sv w = Inr (pid, w')"
    and "are_features_enabled (handler w) \<Longrightarrow> \<exists>pid w'. start_clustering sv w = Inr (pid, w')"
    using assms unfolding start_doe_def start_prediction_def start_clustering_def Let_def launchers_ready_def
    by (simp_all add: run_launcher_total)
  assume i: "0 \<le> iteration_number (handler w)"
  let ?w = "upd (set_status (bits_of BUILDING_MODEL) True) w"
  obtain cs where c: "model_configs sv (handler ?w) (block_metrics (description (handler ?w))) [] = Inr cs"
    and s: "fst ` snd ` set cs \<subseteq> prediction_plugin ` set (block_metrics (description (handler ?w)))"
    using model_configs_total [of "block_metrics (description (handler ?w))" "handler ?w" sv "[]"] assms(2) i
    by (auto simp: launchers_ready_def)
  have "prediction_plugin ` set (block_metrics (description (handler ?w))) \<subseteq> set (model_launchers (handler ?w))"
    using assms(2) by (auto simp: launchers_ready_def)
  with s have "fst ` snd ` set cs \<subseteq> set (model_launchers (handler ?w))"
    by (rule subset_trans)
  from launch_models_total [OF assms(1) this] c show "\<exists>pids w'. start_modeling sv w = Inr (pids, w')"
    by (simp add: start_modeling_def)
qed

lemma run_phases_Done [simp]: "run_phases sv Done w = Inr w"
  by (simp add: run_phases.simps)

lemma run_phases_step:
  "observation_step sv p w = Inr (p', w') \<Longrightarrow> p \<noteq> Done \<Longrightarrow> run_phases sv p w = run_phases sv p' w'"
  by (subst run_phases.simps) simp

definition knowledge_message :: "'fs services \<Rightarrow> handler \<Rightarrow> message_model" where
  "knowledge_message sv h = \<lparr>topic = MESSAGE_HEADER @ ''/'' @ aid_str (handler_id h) @ ''/prediction'',
     payload = prediction_to_json sv (description h) (prediction h)\<rparr>"

definition settles :: "'fs services \<Rightarrow> phase \<Rightarrow> 'fs world \<Rightarrow> bool" where
  "settles sv p w \<longleftrightarrow> (\<exists>w'. run_phases sv p w = Inr w' \<and> recovered (handler w')
     \<and> (in_status WITH_PREDICTION (handler w') \<longrightarrow> last (sent w') = knowledge_message sv (handler w')))"

lemma settles_step: "observation_step sv p w = Inr (p', w') \<Longrightarrow> settles sv p' w' \<Longrightarrow> p \<noteq> Done \<Longrightarrow> settles sv p w"
  by (simp add: settles_def run_phases_step)

lemma settles_explore: "counters_ok (handler w) \<Longrightarrow> settles sv Done (explore sv w)"
  using explore_inv [of w sv] by (simp add: settles_def recovered_def in_status_flags)

lemma settles_loading_doe: "counters_ok (handler w) \<Longrightarrow> settles sv Loading_doe w"
proof -
  assume ok: "counters_ok (handler w)"
  let ?w = "reload_doe sv w"
  have ok': "counters_ok (handler ?w)" using ok by simp
  show ?thesis
  proof (cases "is_doe_valid (handler ?w)")
    case True
    then have "observation_step sv Loading_doe w = Inr (Done, explore sv ?w)" by (simp add: Let_def)
    then show ?thesis by (rule settles_step) (use settles_explore [OF ok'] in simp_all)
  next
    case False
    then have "observation_step sv Loading_doe w = Inr (Done, upd (set_status (bits_of UNDEFINED) True) ?w)"
      by (simp add: Let_def)
    then show ?thesis
      by (rule settles_step) (use ok in \<open>simp_all add: settles_def recovered_def in_status_flags\<close>)
  qed
qed

lemma settles_waiting_doe: "plugins_succeed sv \<Longrightarrow> counters_ok (handler w) \<Longrightarrow> settles sv (Waiting_doe pid) w"
proof -
  assume ps: "plugins_succeed sv" and ok: "counters_ok (handler w)"
  obtain w' where w': "wait_for sv pid w = Inr w'" using wait_for_total [OF ps] by blast
  with wait_for_frame [OF w'] ok show ?thesis
    by (intro settles_step [of sv "Waiting_doe pid" w Loading_doe w'] settles_loading_doe) simp_all
qed

lemma restart_settles:
  assumes "plugins_succeed sv" and "launchers_ready (handler w)" and "counters_ok (handler w)"
  shows "\<exists>p' w'. restart_exploration sv w = Inr (p', w') \<and> settles sv p' w'"
proof (cases "is_doe_valid (handler w)")
  case True
  then show ?thesis using settles_explore assms(3) by (simp add: restart_exploration_def)
next
  case False
  obtain pid w' where d: "start_doe sv w = Inr (pid, w')" using starts_total(1) assms by blast
  then have "settles sv (Waiting_doe pid) w'"
    using start_frames(1) [OF d] assms by (intro settles_waiting_doe) simp_all
  with d False show ?thesis by (auto simp: restart_exploration_def)
qed

lemma settles_loading_prediction:
  assumes "plugins_succeed sv" and "launchers_ready (handler w)" and "counters_ok (handler w)"
  shows "settles sv Loading_prediction w"
proof (cases "is_prediction_valid (handler (reload_prediction sv w))")
  case True
  let ?w = "broadcast_prediction sv (upd (set_status (bits_of WITH_PREDICTION) True) (reload_prediction sv w))"
  have "observation_step sv Loading_prediction w = Inr (Done, ?w)"
    using True by (simp add: Let_def)
  moreover have "settles sv Done ?w"
    using True assms(3) by (simp add: settles_def recovered_def knowledge_message_def broadcast_prediction_def)
  ultimately show ?thesis by (rule settles_step) simp
next
  case False
  obtain p' w' where r: "restart_exploration sv (reload_prediction sv w) = Inr (p', w')" "settles sv p' w'"
    using restart_settles [of sv "reload_prediction sv w"] assms by auto
  with False have "observation_step sv Loading_prediction w = Inr (p', w')" by (simp add: Let_def)
  then show ?thesis by (rule settles_step) (use r in simp_all)
qed

lemma settles_waiting_prediction:
  assumes "plugins_succeed sv" and "launchers_ready (handler w)" and "counters_ok (handler w)"
  shows "settles sv (Waiting_prediction pid) w"
proof -
  obtain w' where w': "wait_for sv pid w = Inr w'" using wait_for_total [OF assms(1)] by blast
  with wait_for_frame [OF w'] assms show ?thesis
    by (intro settles_step [of sv "Waiting_prediction pid" w Loading_prediction w'] settles_loading_prediction) simp_all
qed

lemma settles_check_models:
  assumes "plugins_succeed sv" and "launchers_ready (handler w)" and "counters_ok (handler w)"
  shows "settles sv (Waiting_models []) w"
proof -
  define w1 where "w1 = (if are_models_valid sv w then upd (set_status (bits_of WITH_MODEL) True) w else w)"
  define w2 where "w2 = reload_cluster sv w1"
  define w3 where "w3 = (if are_features_enabled (handler w2) \<and> is_cluster_valid (handler w2)
      then upd (set_status (bits_of WITH_CLUSTER) False) w2 else w2)"
  have ok: "launchers_ready (handler w3)" "counters_ok (handler w3)"
    using assms by (simp_all add: w1_def w2_def w3_def)
  obtain p1 v1 where r: "restart_exploration sv w3 = Inr (p1, v1)" "settles sv p1 v1"
    using restart_settles [OF assms(1) ok] by blast
  obtain pid v2 where p: "start_prediction sv w3 = Inr (pid, v2)"
    using starts_total(2) [OF assms(1) ok(1)] by blast
  then have "settles sv (Waiting_prediction pid) v2"
    using start_frames(2) [OF p] ok assms(1) by (intro settles_waiting_prediction) simp_all
  with r p have "\<exists>p' w'. check_models sv w = Inr (p', w') \<and> settles sv p' w'"
    unfolding check_models_def Let_def w1_def [symmetric] w2_def [symmetric] w3_def [symmetric] by simp
  then show ?thesis
    by (elim exE conjE) (rule settles_step [of sv "Waiting_models []"], simp_all)
qed

lemma settles_waiting_models:
  assumes "plugins_succeed sv"
  shows "launchers_ready (handler w) \<Longrightarrow> counters_ok (handler w) \<Longrightarrow> settles sv (Waiting_models pids) w"
proof (induction pids arbitrary: w)
  case Nil
  with settles_check_models assms show ?case by blast
next
  case (Cons pid pids)
  obtain w' where w': "wait_for sv pid w = Inr w'" using wait_for_total [OF assms] by blast
  with wait_for_frame [OF w'] Cons show ?case
    by (intro settles_step [of sv "Waiting_models (pid # pids)" w "Waiting_models pids" w'] Cons.IH) simp_all
qed

lemma begin_iteration_settles:
  assumes "plugins_succeed sv" and "launchers_ready (handler w)" and "counters_ok (handler w)"
  shows "\<exists>p' w'. begin_iteration sv w = Inr (p', w') \<and> settles sv p' w'"
proof -
  let ?w = "upd (\<lambda>h. h\<lparr>iteration_number := iteration_number h + 1, num_configurations_sent_per_iteration := 0\<rparr>) w"
  have ok: "counters_ok (handler ?w)" "launchers_ready (handler ?w)" "0 \<le> iteration_number (handler ?w)"
    using assms by (simp_all add: counters_ok_def)
  obtain pids w1 where m: "start_modeling sv ?w = Inr (pids, w1)"
    using starts_total(4) [OF assms(1) ok(2,3)] by blast
  have ok1: "launchers_ready (handler w1)" "counters_ok (handler w1)"
    using start_frames(4) [OF m] ok by simp_all
  show ?thesis
  proof (cases "are_features_enabled (handler w1)")
    case True
    then obtain pid w2 where c: "start_clustering sv w1 = Inr (pid, w2)"
      using starts_total(3) [OF assms(1) ok1(1)] by blast
    then have "settles sv (Waiting_models (pids @ [pid])) w2"
      using start_frames(3) [OF c] ok1 by (intro settles_waiting_models assms(1)) simp_all
    with m c True show ?thesis by (simp add: begin_iteration_def)
  next
    case False
    with m settles_waiting_models [OF assms(1) ok1] show ?thesis by (simp add: begin_iteration_def)
  qed
qed

lemma settles_recorded:
  assumes "plugins_succeed sv" and "launchers_ready (handler w)" and "handler_inv (handler w)"
    and "flags (handler_status (handler w)) = {EXPLORING, WITH_DOE}"
  shows "settles sv (Recorded cid) w"
proof (cases "is_doe_valid (handler w)
    \<and> num_configurations_sent_per_iteration (handler w) < num_configurations_per_iteration (handler w)")
  case True
  obtain b w2 where s: "send_configuration sv cid w = (b, w2)" by (cases "send_configuration sv cid w")
  have "handler_inv (handler w2)"
    using send_configuration_inv [of w sv cid] assms s by (simp add: in_status_flags)
  then have "settles sv Done w2"
    using send_configuration_frame [OF s] assms(4) by (simp add: settles_def recovered_def in_status_flags)
  then show ?thesis using True s by (intro settles_step [of sv "Recorded cid" w Done w2]) simp_all
next
  case False
  obtain p' w2 where "begin_iteration sv w = Inr (p', w2)" "settles sv p' w2"
    using begin_iteration_settles [OF assms(1,2) handler_inv_counters [OF assms(3)]] by blast
  then show ?thesis using False by (intro settles_step [of sv "Recorded cid" w p' w2]) auto
qed


section \<open>Schedules\<close>

text \<open>Running the handler on a given sequence of events.\<close>

datatype server_event = Client_welcome string string | Client_bye string | Observation_arrives string int int string
  | Observation_continues nat

fun run_event :: "'fs services \<Rightarrow> server_event \<Rightarrow> phase list \<times> 'fs world \<Rightarrow> (phase list \<times> 'fs world) result" where
  "run_event sv (Client_welcome cid info) (ps, w) = bind_result (welcome_client sv cid info w) (\<lambda>w'. Inr (ps, w'))"
| "run_event sv (Client_bye cid) (ps, w) = Inr (ps, bye_client cid w)"
| "run_event sv (Observation_arrives cid duration_sec duration_ns obs) (ps, w) =
     Inr (ps @ [Received cid duration_sec duration_ns obs], w)"
| "run_event sv (Observation_continues i) (ps, w) =
     (if i < length ps then bind_result (observation_step sv (ps ! i) w) (\<lambda>(p, w'). Inr (ps[i := p], w'))
      else Inl (Undefined_behaviour ''no such thread''))"

fun server_run :: "'fs services \<Rightarrow> server_event list \<Rightarrow> phase list \<times> 'fs world \<Rightarrow> (phase list \<times> 'fs world) result" where
  "server_run sv [] st = Inr st"
| "server_run sv (e # es) st = bind_result (run_event sv e st) (server_run sv es)"

lemma run_event_step: "run_event sv e st = Inr st' \<Longrightarrow> server_step sv st st'"
  by (cases "(sv, e, st)" rule: run_event.cases) (auto intro: server_step.intros split: if_splits)

lemma server_run_reachable: "server_reachable sv st \<Longrightarrow> server_run sv es st = Inr st' \<Longrightarrow> server_reachable sv st'"
proof (induction es arbitrary: st)
  case (Cons e es)
  from Cons.prems(2) obtain st1 where "run_event sv e st = Inr st1" "server_run sv es st1 = Inr st'" by auto
  with Cons.IH Cons.prems(1) show ?case using server_reachable.step run_event_step by blast
qed simp

subsection \<open>A small application\<close>

definition sample_agora :: agora_model where
  "sample_agora = \<lparr>url = ''u'', username = [], password = [], qos = ''0'', broker_ca = [], client_cert = [], client_key = [],
     number_configurations_per_iteration = ''1'', number_observations_per_configuration = ''1'', max_number_iteration = ''1'',
     doe_plugin = ''doe'', clustering_plugin = ''cluster'', doe_parameters = [], clustering_parameters = []\<rparr>"

definition sample_block :: block_model where
  "sample_block = \<lparr>block_id = ''b'', block_monitors = [],
     block_knobs = [\<lparr>knob_name = ''k'', knob_type = ''int32_t'', knob_values = [''1'', ''2'']\<rparr>], knobs_segment_type = [],
     block_metrics = [\<lparr>metric_name = ''time'', metric_type = ''float'', distribution = False, prediction_plugin = ''model'',
                       observed_by = [], inertia = 0, prediction_parameters = []\<rparr>], metrics_segment_type = [],
     block_features = \<lparr>distance_type = Features_NONE, features_type = [], feature_fields = []\<rparr>,
     block_agora = sample_agora, block_states = [], block_ops = []\<rparr>"

definition sample_names :: containers where
  "sample_names = (let n = (\<lambda>a. aid_str a) in
     \<lparr>get_properties_name = n, get_knobs_name = n, get_metrics_name = n, get_features_name = n, get_doe_parameters_name = n,
      get_clustering_parameters_name = n, get_model_parameters_name = (\<lambda>a m. m), get_doe_name = n,
      get_total_configurations_name = n, get_prediction_name = n, get_model_name = (\<lambda>a m. m), get_models_path = n,
      get_cluster_name = n, get_observation_name = n, get_type = (\<lambda>c. ''csv'')\<rparr>)"

text \<open>The storage tells whether a plugin has run; before that there are neither models nor predictions.\<close>

definition sample_services :: "bool services" where
  "sample_services =
     \<lparr>names = sample_names,
      load_doe = (\<lambda>a b fs. \<lparr>required_explorations =
         [\<lparr>configuration_id = ''0'', configuration = [(''k'', ''1'')], number_of_explorations = 1\<rparr>]\<rparr>),
      load_prediction = (\<lambda>a b fs. if fs then \<lparr>configurations = [(''0'', [(''k'', ''2'')])], predicted_features = [],
         predicted_results = [(''0'', [(''time'', \<lparr>avg = ''3'', std = ''0''\<rparr>)])]\<rparr> else prediction_empty),
      load_cluster = (\<lambda>a b fs. cluster_empty), is_model_valid = (\<lambda>a m fs. fs), store_description = (\<lambda>a b fs. Inr fs),
      create_observation_table = (\<lambda>a b fs. fs), insert_observation_entry = (\<lambda>a cid s n op fs. fs),
      initialize_workspace = (\<lambda>plugin a fs. Inr fs), launch = (\<lambda>plugin pc fs. Inr (7, fs)),
      wait_plugin = (\<lambda>pid fs. Inr True),
      read_application = (\<lambda>s. Inr \<lparr>application_name = ''a'', application_version = ''1'', application_blocks = [sample_block]\<rparr>),
      read_observation = (\<lambda>b s. Inr [\<lparr>op_features = [], op_knobs = [], op_metrics = []\<rparr>]),
      configuration_to_json = (\<lambda>b c. ''configuration''), prediction_to_json = (\<lambda>b p. ''knowledge'')\<rparr>"

definition sample_world :: "bool world" where
  "sample_world = \<lparr>handler = RemoteApplicationHandler \<lparr>app_name = ''a'', version = ''1'', block_name = ''b''\<rparr> sample_block,
     storage = False, sent = []\<rparr>"

lemma sample_world_reachable: "server_reachable sample_services ([], sample_world)"
  by (rule server_reachable.created) (simp_all add: sample_world_def)

definition sample_events :: "server_event list" where
  "sample_events = [Client_welcome ''c1'' [], Observation_arrives ''c1'' 1 0 [], Observation_arrives ''c1'' 2 0 [],
     Observation_continues 0, Observation_continues 1, Observation_continues 0, Observation_continues 1,
     Observation_continues 0, Observation_continues 0, Observation_continues 0, Observation_continues 0, Observation_continues 0]"

definition race_outcome :: "phase list \<times> bool world \<Rightarrow> bool" where
  "race_outcome = (\<lambda>(ps, w). ps = [Done, Recorded ''c1''] \<and> in_status WITH_PREDICTION (handler w)
     \<and> last (sent w) = knowledge_message sample_services (handler w)
     \<and> (case observation_step sample_services (Recorded ''c1'') w of
          Inl e \<Rightarrow> False
        | Inr (p, w') \<Rightarrow> p = Waiting_models [7] \<and> handler_status (handler w') = bits_of BUILDING_MODEL))"

lemma race_outcome_run:
  "case server_run sample_services sample_events ([], sample_world) of Inl e \<Rightarrow> False | Inr st \<Rightarrow> race_outcome st"
  by code_simp

text \<open>
  The check that the handler explores and the handling of the observation are not one
  critical section. When two observations pass the check and the first one leads to a
  prediction that is broadcast, the second one throws the handler back into building models,
  although the knowledge exists.
\<close>

theorem second_observation_discards_prediction:
  "\<exists>w w'. server_reachable sample_services ([Done, Recorded ''c1''], w)
   \<and> in_status WITH_PREDICTION (handler w) \<and> last (sent w) = knowledge_message sample_services (handler w)
   \<and> server_step sample_services ([Done, Recorded ''c1''], w) ([Done, Waiting_models [7]], w')
   \<and> flags (handler_status (handler w')) = {BUILDING_MODEL}"
proof -
  obtain ps w where run: "server_run sample_services sample_events ([], sample_world) = Inr (ps, w)"
    and out: "race_outcome (ps, w)"
    using race_outcome_run by (auto split: sum.splits)
  then obtain w' where ps: "ps = [Done, Recorded ''c1'']" and pr: "in_status WITH_PREDICTION (handler w)"
    and la: "last (sent w) = knowledge_message sample_services (handler w)"
    and st: "observation_step sample_services (Recorded ''c1'') w = Inr (Waiting_models [7], w')"
    and b: "handler_status (handler w') = bits_of BUILDING_MODEL"
    unfolding race_outcome_def by (auto split: sum.splits simp del: observation_step.simps)
  have "observation_step sample_services (ps ! 1) w = Inr (Waiting_models [7], w')"
    using st ps by (simp only: nth_Cons_Suc One_nat_def nth_Cons_0)
  then have "server_step sample_services (ps, w) (ps[1 := Waiting_models [7]], w')"
    using ps by (intro server_step.observation_continues) simp_all
  moreover have "server_reachable sample_services (ps, w)"
    by (rule server_run_reachable [OF sample_world_reachable run])
  ultimately show ?thesis
    using ps pr la b by (intro exI [of _ w] exI [of _ w']) simp
qed

subsection \<open>The properties at work\<close>

lemma sample_services_succeed: "plugins_succeed sample_services"
  by (auto simp: plugins_succeed_def sample_services_def)

lemma sample_welcome:
  obtains w where "welcome_client sample_services ''c1'' [] sample_world = Inr w"
    and "server_reachable sample_services ([], w)" and "in_status EXPLORING (handler w)" and "launchers_ready (handler w)"
    and "\<not> in_status WITH_PREDICTION (handler w)" and "\<not> in_status UNDEFINED (handler w)"
proof -
  have "case welcome_client sample_services ''c1'' [] sample_world of Inl e \<Rightarrow> False
      | Inr w \<Rightarrow> in_status EXPLORING (handler w) \<and> launchers_ready (handler w)
          \<and> \<not> in_status WITH_PREDICTION (handler w) \<and> \<not> in_status UNDEFINED (handler w)"
    by code_simp
  then obtain w where w: "welcome_client sample_services ''c1'' [] sample_world = Inr w" "in_status EXPLORING (handler w)"
    "launchers_ready (handler w)" "\<not> in_status WITH_PREDICTION (handler w)" "\<not> in_status UNDEFINED (handler w)"
    by (auto split: sum.splits)
  moreover have "server_reachable sample_services ([], w)"
    by (rule server_reachable.step [OF sample_world_reachable server_step.client_welcome [OF w(1)]])
  ultimately show thesis using that by blast
qed

theorem server_phase_invariant_witness:
  "\<exists>w. server_reachable sample_services ([Done, Recorded ''c1''], w) \<and> in_status WITH_PREDICTION (handler w)
     \<and> is_prediction_valid (handler w) \<and> distinct (active_clients (handler w))"
proof -
  obtain ps w where run: "server_run sample_services sample_events ([], sample_world) = Inr (ps, w)"
    and out: "race_outcome (ps, w)"
    using race_outcome_run by (auto split: sum.splits)
  have r: "server_reachable sample_services (ps, w)"
    by (rule server_run_reachable [OF sample_world_reachable run])
  have "ps = [Done, Recorded ''c1'']" and "in_status WITH_PREDICTION (handler w)"
    using out unfolding race_outcome_def by simp_all
  with server_phase_invariant [OF r] r show ?thesis by blast
qed



end
