(* ===== verification/Server_Description.thy ===== *)
theory Server_Description
  imports Heel_Workspace Agora_Protocol
begin

text \<open>
  The way of a description from the configuration file to the server: the generator validates and
  composes it, the generated client holds it as a string literal and sends it when the server asks,
  and the handler of the server parses it.
\<close>

section \<open>The services of the server\<close>

text \<open>
  \<^verbatim>\<open>parse_informations\<close> and \<^verbatim>\<open>parse_observation\<close> read a document with \<^verbatim>\<open>read_json\<close> and parse it with the parsers
  of the generator. The block given to the latter has only a name, knobs, feature fields and metrics.
\<close>

definition read_application_with :: "'t boost \<Rightarrow> (string \<Rightarrow> 't result) \<Rightarrow> string \<Rightarrow> application_model result" where
  "read_application_with b read_json info = bind_result (read_json info) (parse_application b)"

definition blank_block :: block_model where
  "blank_block = \<lparr>block_id = [], block_monitors = [], block_knobs = [], knobs_segment_type = [], block_metrics = [],
     metrics_segment_type = [], block_features = \<lparr>distance_type = Features_NONE, features_type = [], feature_fields = []\<rparr>,
     block_agora = agora_default, block_states = [], block_ops = []\<rparr>"

definition read_observation_with ::
    "'t boost \<Rightarrow> (string \<Rightarrow> 't result) \<Rightarrow> block_model \<Rightarrow> string \<Rightarrow> operating_point_model list result" where
  "read_observation_with b read_json blk observation_values =
     (let op_description = features_fields_update (\<lambda>_. feature_fields (block_features blk))
            (blank_block\<lparr>block_id := block_id blk, block_knobs := block_knobs blk, block_metrics := block_metrics blk\<rparr>)
      in bind_result (read_json observation_values) (\<lambda>op_node.
         bind_result (parse_operating_points b op_description op_node) (\<lambda>blk'. Inr (block_ops blk'))))"

section \<open>From the configuration file to the handler\<close>

lemma find_by_id:
  assumes "x \<in> set xs" and "distinct (map name xs)"
  shows "find (\<lambda>y. name y = name x) xs = Some x"
  using assms by (induction xs) (auto simp: image_iff)

lemma find_map: "find p (map f xs) = map_option f (find (\<lambda>x. p (f x)) xs)"
  by (induction xs) auto

lemma same_blocks_ids: "same_blocks bs bs' \<Longrightarrow> map block_id bs' = map block_id bs"
  unfolding same_blocks_def by (induction rule: list_all2_induct) (auto simp: with_ops_def)

lemma validate_application_ids:
  assumes "validate_application trim m known = Inr (m', known')"
  shows "adjacent_distinct (map block_id (application_blocks m'))"
proof -
  obtain bs where u: "check_uniqueness block_id block_id_update ''block'' (application_blocks m) = Inr bs"
    and v: "validate_blocks trim bs known = Inr (application_blocks m', known')"
    using assms by (auto simp: validate_application_def Let_def split: if_splits)
  from named_blocks.check_uniqueness_adjacent [OF u] validate_blocks_names [OF v] show ?thesis by simp
qed


text \<open>
  A JSON library that knows one document, and services that read applications with it.
\<close>

definition sample_document :: string where
  "sample_document = ''{ sample }''"

definition sample_read_json :: "string \<Rightarrow> tree result" where
  "sample_read_json s =
     (if s = sample_document
      then (case create_workspace std_boost (sample_files learning_agora) ''/'' ''margot.json'' [] known_monitors of
              Inl e \<Rightarrow> Inl e
            | Inr r \<Rightarrow> compose_application std_boost (empty_tree std_boost) (workspace_model (fst r)))
      else Inl (Runtime_error ''read_json''))"

definition description_services :: "bool services" where
  "description_services = sample_services\<lparr>read_application := read_application_with std_boost sample_read_json,
     read_observation := read_observation_with std_boost sample_read_json\<rparr>"


end
