(* ===== verification/Agora_Json.thy ===== *)
theory Agora_Json
  imports Server_Description
begin

text \<open>
  The documents that the server sends to its clients: a configuration to explore and the predicted
  operating points (\<^verbatim>\<open>configuration_to_json\<close> and \<^verbatim>\<open>prediction_to_json\<close> of \<^verbatim>\<open>application_handler.cpp\<close>), and what
  the parser that the generator writes for the client (\<^verbatim>\<open>generator_cpp_application_geometry_src.cpp\<close>)
  reads from them. The conversion of a text to a number is a parameter.
\<close>

section \<open>The documents\<close>

definition put_all :: "'t boost \<Rightarrow> (string \<times> string) list \<Rightarrow> 't \<Rightarrow> 't" where
  "put_all b kvs n = fold (\<lambda>(k, v). put b k v) kvs n"

definition knob_text :: "knob_model \<Rightarrow> string \<Rightarrow> string" where
  "knob_text k v = (if knob_type k = ''string'' then CHR 0x22 # v @ [CHR 0x22] else v)"

definition knob_values_of :: "block_model \<Rightarrow> configuration_t \<Rightarrow> (string \<times> string) list result" where
  "knob_values_of blk c =
     traverse (\<lambda>k. bind_result (std_at c (knob_name k)) (\<lambda>v. Inr (knob_name k, knob_text k v))) (block_knobs blk)"

fun put_metrics :: "'t boost \<Rightarrow> (string \<times> bool \<times> string \<times> string) list \<Rightarrow> 't \<Rightarrow> 't result" where
  "put_metrics b [] n = Inr n"
| "put_metrics b ((name, distr, mean, deviation) # ms) n =
     bind_result (if distr then add_list b (compose_string b) n [mean, deviation] name else Inr (put b name mean n))
       (put_metrics b ms)"

definition configuration_op :: "'t boost \<Rightarrow> block_model \<Rightarrow> configuration_t \<Rightarrow> 't result" where
  "configuration_op b blk c =
     (let fields = feature_fields (block_features blk)
      in bind_result (knob_values_of blk c) (\<lambda>kvs.
         bind_result (add_child b tag_knobs (put_all b kvs (empty_tree b)) (empty_tree b)) (\<lambda>op1.
         bind_result
           (if fields \<noteq> []
            then add_child b tag_features (put_all b (map (\<lambda>f. (feature_name f, ''9999'')) fields) (empty_tree b)) op1
            else Inr op1) (\<lambda>op2.
         bind_result (put_metrics b (map (\<lambda>m. (metric_name m, distribution m, ''9999'', ''0'')) (block_metrics blk)) (empty_tree b))
           (\<lambda>ms. add_child b tag_metrics ms op2)))))"

definition configuration_tree :: "'t boost \<Rightarrow> block_model \<Rightarrow> configuration_t \<Rightarrow> 't result" where
  "configuration_tree b blk c =
     bind_result (configuration_op b blk c) (\<lambda>op.
       add_child b (block_id blk) (push_back b [] op (empty_tree b)) (empty_tree b))"

definition prediction_op :: "'t boost \<Rightarrow> block_model \<Rightarrow> prediction_model \<Rightarrow> string \<Rightarrow> 't result" where
  "prediction_op b blk p pred_id =
     (let fields = feature_fields (block_features blk)
      in bind_result
           (if fields \<noteq> []
            then bind_result (traverse (\<lambda>f. bind_result (std_at (predicted_features p) pred_id) (\<lambda>fs.
                   bind_result (std_at fs (feature_name f)) (\<lambda>v. Inr (feature_name f, v)))) fields) (\<lambda>fvs.
                   add_child b tag_features (put_all b fvs (empty_tree b)) (empty_tree b))
            else Inr (empty_tree b)) (\<lambda>op1.
         bind_result (traverse (\<lambda>k. bind_result (std_at (configurations p) pred_id) (\<lambda>c.
             bind_result (std_at c (knob_name k)) (\<lambda>v. Inr (knob_name k, knob_text k v)))) (block_knobs blk)) (\<lambda>kvs.
         bind_result (add_child b tag_knobs (put_all b kvs (empty_tree b)) op1) (\<lambda>op2.
         bind_result (traverse (\<lambda>m. bind_result (std_at (predicted_results p) pred_id) (\<lambda>r.
             bind_result (std_at r (metric_name m)) (\<lambda>v. Inr (metric_name m, distribution m, avg v, std v)))) (block_metrics blk)) (\<lambda>mvs.
         bind_result (put_metrics b mvs (empty_tree b)) (\<lambda>ms. add_child b tag_metrics ms op2))))))"

definition prediction_tree :: "'t boost \<Rightarrow> block_model \<Rightarrow> prediction_model \<Rightarrow> 't result" where
  "prediction_tree b blk p =
     bind_result (traverse (\<lambda>result. prediction_op b blk p (fst result)) (predicted_results p)) (\<lambda>ops.
       add_child b (block_id blk) (fold (push_back b []) ops (empty_tree b)) (empty_tree b))"

section \<open>The text\<close>

text \<open>
  \<^verbatim>\<open>std::regex_replace\<close> with a quoted unsigned number, or a line break, replaced by the number: the digits,
  an optional point and more digits.
\<close>

definition quoted_number :: "string \<Rightarrow> (string \<times> string) option" where
  "quoted_number s =
     (let ds = takeWhile is_digit s; s1 = dropWhile is_digit s;
          (point, s2) = (case s1 of c # s' \<Rightarrow> if c = CHR ''.'' then ([c], s') else ([], s1) | [] \<Rightarrow> ([], s1));
          fs = takeWhile is_digit s2; s3 = dropWhile is_digit s2
      in if ds = [] then None
         else (case s3 of c # s' \<Rightarrow> if c = CHR 0x22 then Some (ds @ point @ fs, s') else None | [] \<Rightarrow> None))"

lemma quoted_number_shorter: "quoted_number s = Some (n, s') \<Longrightarrow> length s' < length s"
proof -
  assume a: "quoted_number s = Some (n, s')"
  have 1: "length v < length u" if "dropWhile is_digit u = c # v" for u v c
    using length_dropWhile_le [of is_digit u] by (simp add: that)
  from a show ?thesis
    by (auto simp: quoted_number_def Let_def dest!: 1 split: list.splits if_splits)
qed

function unquote_numbers :: "string \<Rightarrow> string" where
  "unquote_numbers [] = []"
| "unquote_numbers (c # s) =
     (if c = CHR 0x0A then unquote_numbers s
      else if c = CHR 0x22
      then (case quoted_number s of Some (n, s') \<Rightarrow> n @ unquote_numbers s' | None \<Rightarrow> c # unquote_numbers s)
      else c # unquote_numbers s)"
  by pat_completeness auto
termination
  by (relation "measure length") (auto dest: quoted_number_shorter)

definition configuration_to_json_with ::
    "'t boost \<Rightarrow> ('t \<Rightarrow> string result) \<Rightarrow> block_model \<Rightarrow> configuration_t \<Rightarrow> string result" where
  "configuration_to_json_with b write_json blk c =
     bind_result (configuration_tree b blk c) (\<lambda>root_node. bind_result (write_json root_node) (\<lambda>s. Inr (unquote_numbers s)))"

definition prediction_to_json_with ::
    "'t boost \<Rightarrow> ('t \<Rightarrow> string result) \<Rightarrow> block_model \<Rightarrow> prediction_model \<Rightarrow> string result" where
  "prediction_to_json_with b write_json blk p =
     bind_result (prediction_tree b blk p) (\<lambda>root_node. bind_result (write_json root_node) (\<lambda>s. Inr (unquote_numbers s)))"

section \<open>The generated parser\<close>

text \<open>
  What the generated function does with a document: the features, the knobs and the metrics of each
  point, in the order in which it adds them to its result. A metric without a distribution gets the
  deviation zero. Going past the end of a node is undefined.
\<close>

definition get_number :: "'t boost \<Rightarrow> (string \<Rightarrow> 'v result) \<Rightarrow> string \<Rightarrow> 't \<Rightarrow> 'v result" where
  "get_number b read path n =
     (case get_child_optional b path n of None \<Rightarrow> Inl (Runtime_error ''ptree_bad_path'') | Some c \<Rightarrow> read (node_data b c))"

definition client_metric :: "'t boost \<Rightarrow> (string \<Rightarrow> 'v result) \<Rightarrow> 't \<Rightarrow> metric_model \<Rightarrow> ('v \<times> 'v :: zero) result" where
  "client_metric b read n m =
     (let path = tag_metrics @ ''.'' @ metric_name m
      in if distribution m
         then (case get_child_optional b path n of
                 None \<Rightarrow> Inl (Runtime_error ''ptree_bad_path'')
               | Some metric_node \<Rightarrow>
                   (case node_children b metric_node of
                      avg_elem # dev_elem # _ \<Rightarrow>
                        bind_result (read (node_data b (snd avg_elem))) (\<lambda>a.
                        bind_result (read (node_data b (snd dev_elem))) (\<lambda>d. Inr (a, d)))
                    | _ \<Rightarrow> Inl (Undefined_behaviour ''iterator past the end'')))
         else bind_result (get_number b read path n) (\<lambda>v. Inr (v, 0)))"

definition client_op ::
    "'t boost \<Rightarrow> (string \<Rightarrow> 'v result) \<Rightarrow> block_model \<Rightarrow> 't \<Rightarrow> ('v list \<times> 'v list \<times> ('v \<times> 'v :: zero) list) result" where
  "client_op b read blk n =
     bind_result (traverse (\<lambda>f. get_number b read (tag_features @ ''.'' @ feature_name f) n) (feature_fields (block_features blk))) (\<lambda>fs.
     bind_result (traverse (\<lambda>k. get_number b read (tag_knobs @ ''.'' @ knob_name k) n) (block_knobs blk)) (\<lambda>ks.
     bind_result (traverse (client_metric b read n) (block_metrics blk)) (\<lambda>ms. Inr (fs, ks, ms))))"

definition client_parse ::
    "'t boost \<Rightarrow> (string \<Rightarrow> 'v result) \<Rightarrow> block_model \<Rightarrow> 't \<Rightarrow> ('v list \<times> 'v list \<times> ('v \<times> 'v :: zero) list) list result" where
  "client_parse b read blk content =
     (case get_child_optional b (block_id blk) content of
        None \<Rightarrow> Inl (Runtime_error ''ptree_bad_path'')
      | Some block_node \<Rightarrow> traverse (\<lambda>node_pair. client_op b read blk (snd node_pair)) (node_children b block_node))"

section \<open>The shape of the documents\<close>

definition names_readable :: "block_model \<Rightarrow> bool" where
  "names_readable blk \<longleftrightarrow> simple_key (block_id blk)
     \<and> (\<forall>f \<in> set (feature_fields (block_features blk)). simple_key (feature_name f))
     \<and> distinct (map feature_name (feature_fields (block_features blk)))
     \<and> (\<forall>k \<in> set (block_knobs blk). simple_key (knob_name k)) \<and> distinct (map knob_name (block_knobs blk))
     \<and> (\<forall>m \<in> set (block_metrics blk). simple_key (metric_name m)) \<and> distinct (map metric_name (block_metrics blk))"

text \<open>The numbers of a prediction, read from the model itself.\<close>

definition feature_at :: "prediction_model \<Rightarrow> string \<Rightarrow> feature_model \<Rightarrow> string result" where
  "feature_at p pred_id f = bind_result (std_at (predicted_features p) pred_id) (\<lambda>fs. std_at fs (feature_name f))"

definition knob_at :: "prediction_model \<Rightarrow> string \<Rightarrow> knob_model \<Rightarrow> string result" where
  "knob_at p pred_id k = bind_result (std_at (configurations p) pred_id) (\<lambda>c. std_at c (knob_name k))"

definition metric_at :: "prediction_model \<Rightarrow> string \<Rightarrow> metric_model \<Rightarrow> metric_value_model result" where
  "metric_at p pred_id m = bind_result (std_at (predicted_results p) pred_id) (\<lambda>r. std_at r (metric_name m))"

definition prediction_complete :: "block_model \<Rightarrow> prediction_model \<Rightarrow> string \<Rightarrow> bool" where
  "prediction_complete blk p pred_id \<longleftrightarrow>
     (\<forall>f \<in> set (feature_fields (block_features blk)). \<exists>v. feature_at p pred_id f = Inr v)
     \<and> (\<forall>k \<in> set (block_knobs blk). \<exists>v. knob_at p pred_id k = Inr v)
     \<and> (\<forall>m \<in> set (block_metrics blk). \<exists>v. metric_at p pred_id m = Inr v)"

definition read_metric :: "(string \<Rightarrow> 'v result) \<Rightarrow> metric_model \<Rightarrow> string \<Rightarrow> string \<Rightarrow> ('v \<times> 'v :: zero) result" where
  "read_metric read m mean deviation =
     bind_result (read mean) (\<lambda>a. if distribution m then bind_result (read deviation) (\<lambda>d. Inr (a, d)) else Inr (a, 0))"

definition predicted_numbers ::
    "(string \<Rightarrow> 'v result) \<Rightarrow> block_model \<Rightarrow> prediction_model \<Rightarrow> string \<Rightarrow> ('v list \<times> 'v list \<times> ('v \<times> 'v :: zero) list) result" where
  "predicted_numbers read blk p pred_id =
     bind_result (traverse (\<lambda>f. bind_result (feature_at p pred_id f) read) (feature_fields (block_features blk))) (\<lambda>fs.
     bind_result (traverse (\<lambda>k. bind_result (knob_at p pred_id k) (\<lambda>v. read (knob_text k v))) (block_knobs blk)) (\<lambda>ks.
     bind_result (traverse (\<lambda>m. bind_result (metric_at p pred_id m) (\<lambda>v. read_metric read m (avg v) (std v))) (block_metrics blk))
       (\<lambda>ms. Inr (fs, ks, ms))))"

lemma traverse_of_map: "traverse f (map g xs) = traverse (\<lambda>x. f (g x)) xs"
  by (induction xs) simp_all

lemma bind_isl: "isl r \<Longrightarrow> isl (bind_result r f)" and bind_isl2: "(\<And>x. isl (f x)) \<Longrightarrow> isl (bind_result r f)"
  by (cases r; simp)+

lemma traverse_isl: "x \<in> set xs \<Longrightarrow> isl (f x) \<Longrightarrow> isl (traverse f xs)"
  by (induction xs) (auto intro: bind_isl bind_isl2)

lemma map_of_named: "distinct (map name xs) \<Longrightarrow> x \<in> set xs \<Longrightarrow> map_of (map (\<lambda>y. (name y, g y)) xs) (name x) = Some (g x)"
  by (induction xs) (auto simp: image_iff)

context property_tree begin

definition texts :: "string list \<Rightarrow> 't \<Rightarrow> bool" where
  "texts vs c \<longleftrightarrow> node_data b c = [] \<and> map (\<lambda>e. node_data b (snd e)) (node_children b c) = vs"

definition leaves :: "(string \<times> string) list \<Rightarrow> 't \<Rightarrow> bool" where
  "leaves kvs = shape [] (\<lambda>k. map_option leaf (map_of kvs k))"

definition metric_node :: "bool \<times> string \<times> string \<Rightarrow> 't \<Rightarrow> bool" where
  "metric_node v = (case v of (distr, mean, deviation) \<Rightarrow> if distr then texts [mean, deviation] else leaf mean)"

lemma put_all_leaves:
  assumes "\<forall>e \<in> set kvs. simple_key (fst e)" and "distinct (map fst kvs)"
  shows "leaves kvs (put_all b kvs (empty_tree b))"
  using shape_puts [OF shape_empty, of kvs] assms by (simp add: leaves_def put_all_def map_add_def)

lemma compose_strings:
  "texts us acc \<Longrightarrow> \<exists>n. compose_elements b (compose_string b) vs acc = Inr n \<and> texts (us @ vs) n"
proof (induction vs arbitrary: acc us)
  case (Cons v vs)
  have "texts (us @ [v]) (push_back b [] (put b [] v (empty_tree b)) acc)"
    using Cons.prems by (simp add: texts_def data_push_back children_push_back data_put_root)
  from Cons.IH [OF this] show ?case by (simp add: compose_string_def)
qed simp

lemma put_metrics_shape:
  assumes "shape d f t" and "\<forall>e \<in> set ms. simple_key (fst e) \<and> f (fst e) = None" and "distinct (map fst ms)"
  shows "\<exists>t'. put_metrics b ms t = Inr t' \<and> shape d (f ++ (\<lambda>k. map_option metric_node (map_of ms k))) t'"
  using assms
proof (induction ms arbitrary: f t)
  case (Cons e ms)
  obtain k distr mean deviation where e: "e = (k, distr, mean, deviation)" by (cases e)
  let ?P = "metric_node (distr, mean, deviation)"
  have k: "simple_key k" "f k = None" using Cons.prems(2) e by auto
  have "\<exists>t1. (if distr then add_list b (compose_string b) t [mean, deviation] k else Inr (put b k mean t)) = Inr t1
      \<and> shape d (f(k \<mapsto> ?P)) t1"
  proof (cases distr)
    case True
    have "texts [] (empty_tree b)" by (simp add: texts_def data_empty children_empty)
    from compose_strings [OF this, of "[mean, deviation]"] obtain n where
      n: "compose_elements b (compose_string b) [mean, deviation] (empty_tree b) = Inr n" "?P n"
      using True by (auto simp: metric_node_def)
    from shape_add_child [where P = ?P, OF Cons.prems(1) k n(2)] n(1) True show ?thesis
      by (simp add: add_list_def del: compose_elements.simps)
  next
    case False
    with shape_put [OF Cons.prems(1) k, of mean] show ?thesis by (simp add: metric_node_def)
  qed
  then obtain t1 where t1: "(if distr then add_list b (compose_string b) t [mean, deviation] k else Inr (put b k mean t)) = Inr t1"
    "shape d (f(k \<mapsto> ?P)) t1" by blast
  have "\<forall>e \<in> set ms. simple_key (fst e) \<and> (f(k \<mapsto> ?P)) (fst e) = None" "distinct (map fst ms)"
    using Cons.prems e by auto
  from Cons.IH [OF t1(2) this] obtain t' where
    t': "put_metrics b ms t1 = Inr t'" "shape d (f(k \<mapsto> ?P) ++ (\<lambda>k. map_option metric_node (map_of ms k))) t'" by blast
  have "map_of ms k = None" using Cons.prems(3) e by (simp add: map_of_eq_None_iff)
  then have "f(k \<mapsto> ?P) ++ (\<lambda>k. map_option metric_node (map_of ms k)) = f ++ (\<lambda>k. map_option metric_node (map_of (e # ms) k))"
    by (auto simp: e map_add_def fun_eq_iff split: option.splits)
  with t' t1(1) show ?case by (simp add: e)
qed (simp add: map_add_def)

text \<open>A point of a document with the given values, as a shape.\<close>

definition op_shape :: "block_model \<Rightarrow> (feature_model \<Rightarrow> string) \<Rightarrow> (knob_model \<Rightarrow> string) \<Rightarrow>
    (metric_model \<Rightarrow> string \<times> string) \<Rightarrow> 't \<Rightarrow> bool" where
  "op_shape blk fv kv mv n \<longleftrightarrow> (\<exists>G. shape [] G n
     \<and> (feature_fields (block_features blk) \<noteq> [] \<longrightarrow>
          G tag_features = Some (leaves (map (\<lambda>f. (feature_name f, fv f)) (feature_fields (block_features blk)))))
     \<and> G tag_knobs = Some (leaves (map (\<lambda>k. (knob_name k, kv k)) (block_knobs blk)))
     \<and> G tag_metrics = Some (shape [] (\<lambda>k. map_option metric_node
          (map_of (map (\<lambda>m. (metric_name m, distribution m, mv m)) (block_metrics blk)) k))))"

lemma path_child:
  assumes "shape d G n" and "simple_key key" and "G key = Some (shape d' H)" and "simple_key k" and "H k = Some P"
  shows "\<exists>c. get_child_optional b (key @ ''.'' @ k) n = Some c \<and> P c"
proof -
  from shape_child [OF assms(1,2)] assms(3) obtain c where c: "get_child_optional b key n = Some c" "shape d' H c" by auto
  from shape_child [OF c(2) assms(4)] assms(5) obtain c' where "get_child_optional b k c = Some c'" "P c'" by auto
  with c(1) child_path [OF assms(2), of k n] assms(4) show ?thesis by (auto simp: simple_key_def)
qed

lemma leaf_number:
  assumes "shape d G n" and "simple_key key" and "G key = Some (leaves (map (\<lambda>y. (name y, g y)) xs))"
    and "distinct (map name xs)" and "\<forall>x \<in> set xs. simple_key (name x)" and "x \<in> set xs"
  shows "get_number b read (key @ ''.'' @ name x) n = read (g x)"
proof -
  have "\<exists>c. get_child_optional b (key @ ''.'' @ name x) n = Some c \<and> leaf (g x) c"
    by (rule path_child [OF assms(1,2) assms(3) [unfolded leaves_def]]) (use assms(4-6) in \<open>simp_all add: map_of_named\<close>)
  then show ?thesis by (auto simp: get_number_def)
qed

lemma client_metric_shape:
  assumes "shape d G n" and "G tag_metrics = Some (shape [] (\<lambda>k. map_option metric_node
      (map_of (map (\<lambda>m. (metric_name m, distribution m, mv m)) ms) k)))"
    and "distinct (map metric_name ms)" and "\<forall>m \<in> set ms. simple_key (metric_name m)" and "m \<in> set ms"
  shows "client_metric b read n m = read_metric read m (fst (mv m)) (snd (mv m))"
proof -
  have "\<exists>c. get_child_optional b (tag_metrics @ ''.'' @ metric_name m) n = Some c \<and> metric_node (distribution m, mv m) c"
    by (rule path_child [OF assms(1) _ assms(2)]) (use assms(3-5) in \<open>simp_all add: map_of_named [where g = "\<lambda>m. (distribution m, mv m)"]\<close>)
  then obtain c where c: "get_child_optional b (tag_metrics @ ''.'' @ metric_name m) n = Some c"
    "metric_node (distribution m, mv m) c" by blast
  show ?thesis
  proof (cases "distribution m")
    case True
    with c(2) have "map (\<lambda>e. node_data b (snd e)) (node_children b c) = [fst (mv m), snd (mv m)]"
      by (simp add: metric_node_def texts_def case_prod_beta)
    then obtain x y where "node_children b c = [x, y]" "node_data b (snd x) = fst (mv m)" "node_data b (snd y) = snd (mv m)"
      by (auto simp: map_eq_Cons_conv)
    with True c(1) show ?thesis by (simp add: client_metric_def read_metric_def)
  next
    case False
    with c show ?thesis
      by (cases "read (fst (mv m))") (auto simp: client_metric_def read_metric_def get_number_def metric_node_def case_prod_beta)
  qed
qed

lemma client_op_shape:
  assumes "names_readable blk" and "op_shape blk fv kv mv n"
  shows "client_op b read blk n =
    bind_result (traverse (\<lambda>f. read (fv f)) (feature_fields (block_features blk))) (\<lambda>fs.
    bind_result (traverse (\<lambda>k. read (kv k)) (block_knobs blk)) (\<lambda>ks.
    bind_result (traverse (\<lambda>m. read_metric read m (fst (mv m)) (snd (mv m))) (block_metrics blk)) (\<lambda>ms. Inr (fs, ks, ms))))"
proof -
  note N = assms(1) [unfolded names_readable_def]
  from assms(2) obtain G where G: "shape [] G n"
    "feature_fields (block_features blk) \<noteq> [] \<Longrightarrow>
       G tag_features = Some (leaves (map (\<lambda>f. (feature_name f, fv f)) (feature_fields (block_features blk))))"
    "G tag_knobs = Some (leaves (map (\<lambda>k. (knob_name k, kv k)) (block_knobs blk)))"
    "G tag_metrics = Some (shape [] (\<lambda>k. map_option metric_node
       (map_of (map (\<lambda>m. (metric_name m, distribution m, mv m)) (block_metrics blk)) k)))"
    unfolding op_shape_def by blast
  have "get_number b read (tag_features @ ''.'' @ feature_name f) n = read (fv f)" if "f \<in> set (feature_fields (block_features blk))" for f
    by (rule leaf_number [OF G(1) _ G(2)]) (use N that in auto)
  moreover have "get_number b read (tag_knobs @ ''.'' @ knob_name k) n = read (kv k)" if "k \<in> set (block_knobs blk)" for k
    by (rule leaf_number [OF G(1) _ G(3)]) (use N that in auto)
  moreover have "client_metric b read n m = read_metric read m (fst (mv m)) (snd (mv m))" if "m \<in> set (block_metrics blk)" for m
    by (rule client_metric_shape [OF G(1,4)]) (use N that in auto)
  ultimately show ?thesis by (simp add: client_op_def cong: traverse_cong)
qed

lemma op_shape_build:
  assumes "names_readable blk"
    and "shape [] G0 n0" and "G0 tag_metrics = None"
    and "feature_fields (block_features blk) \<noteq> [] \<Longrightarrow>
      G0 tag_features = Some (leaves (map (\<lambda>f. (feature_name f, fv f)) (feature_fields (block_features blk))))"
    and "G0 tag_knobs = Some (leaves (map (\<lambda>k. (knob_name k, kv k)) (block_knobs blk)))"
  shows "\<exists>ms n. put_metrics b (map (\<lambda>m. (metric_name m, distribution m, mv m)) (block_metrics blk)) (empty_tree b) = Inr ms
    \<and> add_child b tag_metrics ms n0 = Inr n \<and> op_shape blk fv kv mv n"
proof -
  note N = assms(1) [unfolded names_readable_def]
  have "\<exists>t'. put_metrics b (map (\<lambda>m. (metric_name m, distribution m, mv m)) (block_metrics blk)) (empty_tree b) = Inr t'
      \<and> shape [] (Map.empty ++ (\<lambda>k. map_option metric_node (map_of (map (\<lambda>m. (metric_name m, distribution m, mv m)) (block_metrics blk)) k))) t'"
    by (rule put_metrics_shape [OF shape_empty]) (use N in \<open>auto simp: comp_def\<close>)
  then obtain ms where ms: "put_metrics b (map (\<lambda>m. (metric_name m, distribution m, mv m)) (block_metrics blk)) (empty_tree b) = Inr ms"
    "shape [] (\<lambda>k. map_option metric_node (map_of (map (\<lambda>m. (metric_name m, distribution m, mv m)) (block_metrics blk)) k)) ms"
    by (auto simp: map_add_def)
  let ?M = "shape [] (\<lambda>k. map_option metric_node (map_of (map (\<lambda>m. (metric_name m, distribution m, mv m)) (block_metrics blk)) k))"
  from shape_add_child [where P = ?M and k = tag_metrics, OF assms(2) _ assms(3) ms(2)] obtain n where
    n: "add_child b tag_metrics ms n0 = Inr n" "shape [] (G0(tag_metrics \<mapsto> ?M)) n" by auto
  have "op_shape blk fv kv mv n"
    unfolding op_shape_def
    by (intro exI [of _ "G0(tag_metrics \<mapsto> ?M)"] conjI impI n(2)) (use assms(4,5) in simp_all)
  with ms(1) n(1) show ?thesis by blast
qed

lemma leaves_named:
  "distinct (map name xs) \<Longrightarrow> \<forall>x \<in> set xs. simple_key (name x) \<Longrightarrow>
     leaves (map (\<lambda>y. (name y, g y)) xs) (put_all b (map (\<lambda>y. (name y, g y)) xs) (empty_tree b))"
  by (rule put_all_leaves) (auto simp: comp_def)

lemma configuration_op_shape:
  assumes "names_readable blk" and "\<forall>k \<in> set (block_knobs blk). \<exists>v. std_at c (knob_name k) = Inr v"
  shows "\<exists>n. configuration_op b blk c = Inr n
    \<and> op_shape blk (\<lambda>f. ''9999'') (\<lambda>k. knob_text k (projr (std_at c (knob_name k)))) (\<lambda>m. (''9999'', ''0'')) n"
proof -
  let ?kv = "\<lambda>k. knob_text k (projr (std_at c (knob_name k)))" and ?fs = "feature_fields (block_features blk)"
  let ?K = "leaves (map (\<lambda>k. (knob_name k, ?kv k)) (block_knobs blk))"
    and ?F = "leaves (map (\<lambda>f. (feature_name f, ''9999'')) ?fs)"
  note N = assms(1) [unfolded names_readable_def]
  have kvs: "knob_values_of blk c = Inr (map (\<lambda>k. (knob_name k, ?kv k)) (block_knobs blk))"
    unfolding knob_values_of_def by (rule traverse_Inr) (use assms(2) in auto)
  have K: "?K (put_all b (map (\<lambda>k. (knob_name k, ?kv k)) (block_knobs blk)) (empty_tree b))"
    by (rule leaves_named) (use N in auto)
  from shape_add_child [where P = ?K and k = tag_knobs, OF shape_empty _ _ K] obtain n1 where
    n1: "add_child b tag_knobs (put_all b (map (\<lambda>k. (knob_name k, ?kv k)) (block_knobs blk)) (empty_tree b)) (empty_tree b) = Inr n1"
      "shape [] [tag_knobs \<mapsto> ?K] n1" by auto
  have F: "?F (put_all b (map (\<lambda>f. (feature_name f, ''9999'')) ?fs) (empty_tree b))"
    by (rule leaves_named) (use N in auto)
  have "\<exists>n2 G. (if ?fs \<noteq> [] then add_child b tag_features (put_all b (map (\<lambda>f. (feature_name f, ''9999'')) ?fs) (empty_tree b)) n1
      else Inr n1) = Inr n2 \<and> shape [] G n2 \<and> G tag_metrics = None \<and> (?fs \<noteq> [] \<longrightarrow> G tag_features = Some ?F) \<and> G tag_knobs = Some ?K"
  proof (cases "?fs = []")
    case True
    with n1(2) show ?thesis by (intro exI [of _ n1] exI [of _ "[tag_knobs \<mapsto> ?K]"]) simp
  next
    case False
    from shape_add_child [where P = ?F and k = tag_features, OF n1(2) _ _ F] obtain n2 where
      "add_child b tag_features (put_all b (map (\<lambda>f. (feature_name f, ''9999'')) ?fs) (empty_tree b)) n1 = Inr n2"
      "shape [] ([tag_knobs \<mapsto> ?K](tag_features \<mapsto> ?F)) n2" by auto
    with False show ?thesis by (intro exI [of _ n2] exI [of _ "[tag_knobs \<mapsto> ?K](tag_features \<mapsto> ?F)"]) simp
  qed
  then obtain n2 G where n2: "(if ?fs \<noteq> [] then add_child b tag_features (put_all b (map (\<lambda>f. (feature_name f, ''9999'')) ?fs) (empty_tree b)) n1
      else Inr n1) = Inr n2" and G: "shape [] G n2" "G tag_metrics = None" "?fs \<noteq> [] \<Longrightarrow> G tag_features = Some ?F" "G tag_knobs = Some ?K"
    by blast
  from op_shape_build [OF assms(1) G, of "\<lambda>m. (''9999'', ''0'')"] n1(1) n2 kvs show ?thesis
    by (auto simp: configuration_op_def Let_def)
qed

lemma prediction_op_shape:
  assumes "names_readable blk" and "prediction_complete blk p i"
  shows "\<exists>n. prediction_op b blk p i = Inr n
    \<and> op_shape blk (\<lambda>f. projr (feature_at p i f)) (\<lambda>k. knob_text k (projr (knob_at p i k)))
        (\<lambda>m. (avg (projr (metric_at p i m)), std (projr (metric_at p i m)))) n"
proof -
  let ?fv = "\<lambda>f. projr (feature_at p i f)" and ?kv = "\<lambda>k. knob_text k (projr (knob_at p i k))"
    and ?mv = "\<lambda>m. (avg (projr (metric_at p i m)), std (projr (metric_at p i m)))" and ?fs = "feature_fields (block_features blk)"
  let ?K = "leaves (map (\<lambda>k. (knob_name k, ?kv k)) (block_knobs blk))" and ?F = "leaves (map (\<lambda>f. (feature_name f, ?fv f)) ?fs)"
  note N = assms(1) [unfolded names_readable_def] and C = assms(2) [unfolded prediction_complete_def]
  have fvs: "traverse (\<lambda>f. bind_result (std_at (predicted_features p) i) (\<lambda>fs.
      bind_result (std_at fs (feature_name f)) (\<lambda>v. Inr (feature_name f, v)))) ?fs = Inr (map (\<lambda>f. (feature_name f, ?fv f)) ?fs)"
    by (rule traverse_Inr) (use C in \<open>force simp: feature_at_def\<close>)
  have kvs: "traverse (\<lambda>k. bind_result (std_at (configurations p) i) (\<lambda>c.
      bind_result (std_at c (knob_name k)) (\<lambda>v. Inr (knob_name k, knob_text k v)))) (block_knobs blk)
      = Inr (map (\<lambda>k. (knob_name k, ?kv k)) (block_knobs blk))"
    by (rule traverse_Inr) (use C in \<open>force simp: knob_at_def\<close>)
  have mvs: "traverse (\<lambda>m. bind_result (std_at (predicted_results p) i) (\<lambda>r.
      bind_result (std_at r (metric_name m)) (\<lambda>v. Inr (metric_name m, distribution m, avg v, std v)))) (block_metrics blk)
      = Inr (map (\<lambda>m. (metric_name m, distribution m, ?mv m)) (block_metrics blk))"
    by (rule traverse_Inr) (use C in \<open>force simp: metric_at_def\<close>)
  have F: "?F (put_all b (map (\<lambda>f. (feature_name f, ?fv f)) ?fs) (empty_tree b))" by (rule leaves_named) (use N in auto)
  have K: "?K (put_all b (map (\<lambda>k. (knob_name k, ?kv k)) (block_knobs blk)) (empty_tree b))" by (rule leaves_named) (use N in auto)
  have "\<exists>n1 G. (if ?fs \<noteq> [] then add_child b tag_features (put_all b (map (\<lambda>f. (feature_name f, ?fv f)) ?fs) (empty_tree b)) (empty_tree b)
      else Inr (empty_tree b)) = Inr n1 \<and> shape [] G n1 \<and> G tag_metrics = None \<and> G tag_knobs = None \<and> (?fs \<noteq> [] \<longrightarrow> G tag_features = Some ?F)"
  proof (cases "?fs = []")
    case True
    with shape_empty show ?thesis by (intro exI [of _ "empty_tree b"] exI [of _ Map.empty]) simp
  next
    case False
    from shape_add_child [where P = ?F and k = tag_features, OF shape_empty _ _ F] obtain n1 where
      "add_child b tag_features (put_all b (map (\<lambda>f. (feature_name f, ?fv f)) ?fs) (empty_tree b)) (empty_tree b) = Inr n1"
      "shape [] [tag_features \<mapsto> ?F] n1" by auto
    with False show ?thesis by (intro exI [of _ n1] exI [of _ "[tag_features \<mapsto> ?F]"]) simp
  qed
  then obtain n1 G where n1: "(if ?fs \<noteq> [] then add_child b tag_features (put_all b (map (\<lambda>f. (feature_name f, ?fv f)) ?fs) (empty_tree b))
      (empty_tree b) else Inr (empty_tree b)) = Inr n1"
    and G: "shape [] G n1" "G tag_metrics = None" "G tag_knobs = None" "?fs \<noteq> [] \<Longrightarrow> G tag_features = Some ?F"
    by blast
  from shape_add_child [where P = ?K and k = tag_knobs, OF G(1) _ G(3) K] obtain n2 where
    n2: "add_child b tag_knobs (put_all b (map (\<lambda>k. (knob_name k, ?kv k)) (block_knobs blk)) (empty_tree b)) n1 = Inr n2"
      "shape [] (G(tag_knobs \<mapsto> ?K)) n2" by auto
  obtain ms n where "put_metrics b (map (\<lambda>m. (metric_name m, distribution m, ?mv m)) (block_metrics blk)) (empty_tree b) = Inr ms"
    "add_child b tag_metrics ms n2 = Inr n" "op_shape blk ?fv ?kv ?mv n"
    using op_shape_build [OF assms(1) n2(2), of ?fv ?kv ?mv] G(2,4) by auto
  with n1 n2(1) fvs kvs mvs show ?thesis
    by (intro exI [of _ n]) (simp add: prediction_op_def Let_def split: if_splits)
qed

lemma push_all_children:
  "node_children b (fold (push_back b []) ns t) = node_children b t @ map (Pair []) ns"
  by (induction ns arbitrary: t) (simp_all add: children_push_back)

lemma client_parse_root:
  assumes "simple_key (block_id blk)"
  shows "\<exists>t. add_child b (block_id blk) (fold (push_back b []) ns (empty_tree b)) (empty_tree b) = Inr t
    \<and> client_parse b read blk t = traverse (client_op b read blk) ns"
proof -
  let ?l = "fold (push_back b []) ns (empty_tree b)"
  from shape_add_child [where P = "\<lambda>c. c = ?l", OF shape_empty assms] obtain t where
    t: "add_child b (block_id blk) ?l (empty_tree b) = Inr t" "shape [] [block_id blk \<mapsto> (\<lambda>c. c = ?l)] t" by auto
  have "get_child_optional b (block_id blk) t = Some ?l" using shape_child [OF t(2) assms] by auto
  then have "client_parse b read blk t = traverse (\<lambda>e. client_op b read blk (snd e)) (map (Pair ([] :: string)) ns)"
    by (simp add: client_parse_def push_all_children children_empty)
  also have "\<dots> = traverse (client_op b read blk) ns" by (induction ns) simp_all
  finally show ?thesis using t(1) by blast
qed

lemma predicted_numbers_shape:
  assumes "names_readable blk" and "prediction_complete blk p i"
    and "op_shape blk (\<lambda>f. projr (feature_at p i f)) (\<lambda>k. knob_text k (projr (knob_at p i k)))
        (\<lambda>m. (avg (projr (metric_at p i m)), std (projr (metric_at p i m)))) n"
  shows "client_op b read blk n = predicted_numbers read blk p i"
proof -
  note C = assms(2) [unfolded prediction_complete_def]
  have "read (projr (feature_at p i f)) = bind_result (feature_at p i f) read" if "f \<in> set (feature_fields (block_features blk))" for f
    using C that by (cases "feature_at p i f") auto
  moreover have "read (knob_text k (projr (knob_at p i k))) = bind_result (knob_at p i k) (\<lambda>v. read (knob_text k v))"
    if "k \<in> set (block_knobs blk)" for k
    using C that by (cases "knob_at p i k") auto
  moreover have "read_metric read m (avg (projr (metric_at p i m))) (std (projr (metric_at p i m)))
      = bind_result (metric_at p i m) (\<lambda>v. read_metric read m (avg v) (std v))"
    if "m \<in> set (block_metrics blk)" for m
    using C that by (cases "metric_at p i m") auto
  ultimately show ?thesis
    by (simp add: client_op_shape [OF assms(1,3)] predicted_numbers_def cong: traverse_cong)
qed

lemma prediction_read_by_client:
  assumes "names_readable blk" and "\<forall>r \<in> set (predicted_results p). prediction_complete blk p (fst r)"
  shows "\<exists>t. prediction_tree b blk p = Inr t
    \<and> client_parse b read blk t = traverse (\<lambda>r. predicted_numbers read blk p (fst r)) (predicted_results p)"
proof -
  let ?g = "\<lambda>r. SOME n. prediction_op b blk p (fst r) = Inr n
      \<and> op_shape blk (\<lambda>f. projr (feature_at p (fst r) f)) (\<lambda>k. knob_text k (projr (knob_at p (fst r) k)))
          (\<lambda>m. (avg (projr (metric_at p (fst r) m)), std (projr (metric_at p (fst r) m)))) n"
  have g: "prediction_op b blk p (fst r) = Inr (?g r) \<and> client_op b read blk (?g r) = predicted_numbers read blk p (fst r)"
    if "r \<in> set (predicted_results p)" for r
    using someI_ex [OF prediction_op_shape [OF assms(1) bspec [OF assms(2) that]]]
      predicted_numbers_shape [OF assms(1) bspec [OF assms(2) that]] by blast
  have "traverse (\<lambda>r. prediction_op b blk p (fst r)) (predicted_results p) = Inr (map ?g (predicted_results p))"
    by (rule traverse_Inr) (use g in blast)
  moreover have "traverse (client_op b read blk) (map ?g (predicted_results p))
      = traverse (\<lambda>r. predicted_numbers read blk p (fst r)) (predicted_results p)"
    unfolding traverse_of_map by (rule traverse_cong) (use g in auto)
  ultimately show ?thesis
    using client_parse_root [of blk "map ?g (predicted_results p)" read] assms(1)
    by (auto simp: prediction_tree_def names_readable_def)
qed

end

section \<open>What the client reads\<close>


text \<open>
  A configuration to explore reaches the client as a single point with the values of its knobs
  and a placeholder for every feature and metric.
\<close>

theorem configuration_reaches_the_client:
  assumes "property_tree b" and "names_readable blk"
    and "\<forall>k \<in> set (block_knobs blk). \<exists>v. std_at c (knob_name k) = Inr v \<and> read (knob_text k v) = Inr (kv k)"
    and "read ''9999'' = Inr x" and "read ''0'' = Inr 0"
  shows "\<exists>t. configuration_tree b blk c = Inr t
    \<and> client_parse b read blk t
      = Inr [(map (\<lambda>_. x) (feature_fields (block_features blk)), map kv (block_knobs blk), map (\<lambda>_. (x, 0)) (block_metrics blk))]"
proof -
  have "\<forall>k \<in> set (block_knobs blk). \<exists>v. std_at c (knob_name k) = Inr v" using assms(3) by blast
  from property_tree.configuration_op_shape [OF assms(1,2) this] obtain n where
    n: "configuration_op b blk c = Inr n"
      "property_tree.op_shape b blk (\<lambda>f. ''9999'') (\<lambda>k. knob_text k (projr (std_at c (knob_name k)))) (\<lambda>m. (''9999'', ''0'')) n" by blast
  have ks: "traverse (\<lambda>k. read (knob_text k (projr (std_at c (knob_name k))))) (block_knobs blk) = Inr (map kv (block_knobs blk))"
    by (rule traverse_Inr) (use assms(3) in force)
  have ms: "traverse (\<lambda>m. read_metric read m ''9999'' ''0'') (block_metrics blk) = Inr (map (\<lambda>_. (x, 0)) (block_metrics blk))"
    by (rule traverse_Inr) (simp add: read_metric_def assms(4,5))
  have fs: "traverse (\<lambda>f. read ''9999'') (feature_fields (block_features blk)) = Inr (map (\<lambda>_. x) (feature_fields (block_features blk)))"
    by (rule traverse_Inr) (simp add: assms(4))
  have op: "client_op b read blk n
      = Inr (map (\<lambda>_. x) (feature_fields (block_features blk)), map kv (block_knobs blk), map (\<lambda>_. (x, 0)) (block_metrics blk))"
    using property_tree.client_op_shape [OF assms(1,2) n(2), of read] by (simp add: ks ms fs)
  have "simple_key (block_id blk)" using assms(2) by (simp add: names_readable_def)
  from property_tree.client_parse_root [OF assms(1) this, of "[n]" read] n(1) op show ?thesis
    by (auto simp: configuration_tree_def)
qed

text \<open>
  A block with a string knob cannot be driven by the server. Both documents put quotes into the
  value of the knob, and the parser of the client, which expects the number that stands for the
  string, fails on the first point it receives.
\<close>

theorem string_knobs_stop_the_client:
  assumes "property_tree b" and "names_readable blk" and "k \<in> set (block_knobs blk)" and "knob_type k = ''string''"
    and "\<forall>s. isl (read (CHR 0x22 # s))"
    and "predicted_results p \<noteq> []" and "\<forall>r \<in> set (predicted_results p). prediction_complete blk p (fst r)"
    and "\<forall>k \<in> set (block_knobs blk). \<exists>v. std_at c (knob_name k) = Inr v"
  shows "(\<exists>t. prediction_tree b blk p = Inr t \<and> isl (client_parse b read blk t))
    \<and> (\<exists>t. configuration_tree b blk c = Inr t \<and> isl (client_parse b read blk t))"
proof
  obtain r where r: "r \<in> set (predicted_results p)" using assms(6) by (cases "predicted_results p") auto
  then have "prediction_complete blk p (fst r)" using assms(7) by blast
  then obtain v where "knob_at p (fst r) k = Inr v" using assms(3) by (auto simp: prediction_complete_def)
  then have "isl (bind_result (knob_at p (fst r) k) (\<lambda>v. read (knob_text k v)))"
    using assms(4,5) by (simp add: knob_text_def)
  with assms(3) have "isl (traverse (\<lambda>k. bind_result (knob_at p (fst r) k) (\<lambda>v. read (knob_text k v))) (block_knobs blk))"
    by (rule traverse_isl)
  then have "isl (predicted_numbers read blk p (fst r))"
    by (simp add: predicted_numbers_def bind_isl bind_isl2)
  with r have "isl (traverse (\<lambda>r. predicted_numbers read blk p (fst r)) (predicted_results p))"
    by (rule traverse_isl [where f = "\<lambda>r. predicted_numbers read blk p (fst r)"])
  with property_tree.prediction_read_by_client [OF assms(1,2,7), of read]
  show "\<exists>t. prediction_tree b blk p = Inr t \<and> isl (client_parse b read blk t)" by auto
next
  from property_tree.configuration_op_shape [OF assms(1,2,8)] obtain n where
    n: "configuration_op b blk c = Inr n"
      "property_tree.op_shape b blk (\<lambda>f. ''9999'') (\<lambda>k. knob_text k (projr (std_at c (knob_name k)))) (\<lambda>m. (''9999'', ''0'')) n" by blast
  have "isl (read (knob_text k (projr (std_at c (knob_name k)))))" using assms(4,5) by (simp add: knob_text_def)
  with assms(3) have "isl (traverse (\<lambda>k. read (knob_text k (projr (std_at c (knob_name k))))) (block_knobs blk))"
    by (rule traverse_isl [where f = "\<lambda>k. read (knob_text k (projr (std_at c (knob_name k))))"])
  then have "isl (client_op b read blk n)"
    unfolding property_tree.client_op_shape [OF assms(1,2) n(2)] by (simp add: bind_isl bind_isl2)
  then have "isl (traverse (client_op b read blk) [n])" by (simp add: bind_isl)
  moreover have "simple_key (block_id blk)" using assms(2) by (simp add: names_readable_def)
  ultimately show "\<exists>t. configuration_tree b blk c = Inr t \<and> isl (client_parse b read blk t)"
    using property_tree.client_parse_root [OF assms(1), of blk "[n]" read] n(1) by (auto simp: configuration_tree_def)
qed

section \<open>Examples\<close>

definition read_natural :: "string \<Rightarrow> int result" where
  "read_natural s = (if s \<noteq> [] \<and> list_all is_digit s then Inr (int (nat_of_string s)) else Inl (Runtime_error ''ptree_bad_data''))"

definition natural_prediction :: "string \<Rightarrow> prediction_model" where
  "natural_prediction v =
     \<lparr>configurations = [(''0'', [(''k'', v)])], predicted_features = [(''0'', [(''size'', ''5'')])],
      predicted_results = [(''0'', [(''time'', \<lparr>avg = ''30'', std = ''2''\<rparr>)])]\<rparr>"

definition string_block :: block_model where
  "string_block = learning_block\<lparr>block_knobs := [\<lparr>knob_name = ''k'', knob_type = ''string'', knob_values = [''fast'', ''slow'']\<rparr>]\<rparr>"

lemma examples_readable: "names_readable learning_block" "names_readable string_block"
  by (simp_all add: names_readable_def learning_block_def string_block_def simple_key_def)

lemma example_complete:
  "\<forall>r \<in> set (predicted_results (natural_prediction v)). prediction_complete learning_block (natural_prediction v) (fst r)"
  "\<forall>r \<in> set (predicted_results (natural_prediction v)). prediction_complete string_block (natural_prediction v) (fst r)"
  by (simp_all add: prediction_complete_def natural_prediction_def learning_block_def string_block_def feature_at_def knob_at_def
      metric_at_def std_at_def)


theorem configuration_reaches_the_client_witness:
  "\<exists>t. configuration_tree std_boost learning_block [(''k'', ''7'')] = Inr t
     \<and> client_parse std_boost read_natural learning_block t = Inr [([9999], [7], [(9999, 0)])]"
  using configuration_reaches_the_client [OF bp.property_tree_axioms examples_readable(1),
      of "[(''k'', ''7'')]" read_natural "\<lambda>_. 7" 9999]
  by (simp add: learning_block_def std_at_def knob_text_def read_natural_def is_digit_def nat_of_string_def digit_value_def)

theorem string_knobs_stop_the_client_witness:
  "(\<exists>t. prediction_tree std_boost string_block (natural_prediction ''fast'') = Inr t
      \<and> isl (client_parse std_boost read_natural string_block t))
   \<and> (\<exists>t. configuration_tree std_boost string_block [(''k'', ''fast'')] = Inr t
      \<and> isl (client_parse std_boost read_natural string_block t))"
  by (rule string_knobs_stop_the_client [OF bp.property_tree_axioms examples_readable(2) _ _ _ _ example_complete(2),
        of "hd (block_knobs string_block)"])
    (simp_all add: string_block_def read_natural_def is_digit_def natural_prediction_def std_at_def)

end
