(* ===== verification/Agora_Queue.thy ===== *)
theory Agora_Queue
  imports Margot_Prelude
begin

text \<open>
  The job queue shared by the MQTT callback and the workers (\<^verbatim>\<open>safe_queue.hpp\<close>). New jobs are
  put at the front of a deque and taken from its back. \<^verbatim>\<open>dequeue\<close> waits on a condition variable,
  so it is modelled in two layers: \<open>try_dequeue\<close> is what a thread that holds the lock does, and
  the relation \<open>queue_step\<close> interleaves the threads that enter, sleep, wake up (also
  spuriously) and the calls that notify them.
\<close>

section \<open>The queue\<close>

record 'a queue =
  job_queue :: "'a list"
  signal_terminate :: bool

definition Queue :: "'a queue" where
  "Queue = \<lparr>job_queue = [], signal_terminate = False\<rparr>"

definition queue_size :: "'a queue \<Rightarrow> nat" where
  "queue_size q = length (job_queue q)"

definition queue_empty :: "'a queue \<Rightarrow> bool" where
  "queue_empty q \<longleftrightarrow> job_queue q = []"

definition send_terminate_signal :: "'a queue \<Rightarrow> 'a queue" where
  "send_terminate_signal q = q\<lparr>signal_terminate := True\<rparr>"

definition clear_terminate_signal :: "'a queue \<Rightarrow> 'a queue" where
  "clear_terminate_signal q = q\<lparr>signal_terminate := False\<rparr>"

definition enqueue :: "'a \<Rightarrow> 'a queue \<Rightarrow> 'a queue" where
  "enqueue input_job q = q\<lparr>job_queue := input_job # job_queue q\<rparr>"

datatype 'a dequeue_outcome = Waits | Terminated | Job 'a

definition try_dequeue :: "'a queue \<Rightarrow> 'a dequeue_outcome \<times> 'a queue" where
  "try_dequeue q =
     (if \<not> signal_terminate q \<and> queue_empty q then (Waits, q)
      else if signal_terminate q then (Terminated, q)
      else (Job (last (job_queue q)), q\<lparr>job_queue := butlast (job_queue q)\<rparr>))"

section \<open>First in, first out\<close>

locale fifo =
  fixes content :: "'q \<Rightarrow> 'a list" and enq :: "'a \<Rightarrow> 'q \<Rightarrow> 'q" and deq :: "'q \<Rightarrow> 'a dequeue_outcome \<times> 'q"
  assumes content_enq: "content (enq x q) = content q @ [x]"
    and deq_job: "deq q = (Job x, q') \<Longrightarrow> content q = x # content q'"
    and deq_idle: "deq q = (r, q') \<Longrightarrow> (\<forall>x. r \<noteq> Job x) \<Longrightarrow> content q' = content q"
    and deq_waits: "deq q = (Waits, q') \<Longrightarrow> content q = []"
begin

fun drain :: "nat \<Rightarrow> 'q \<Rightarrow> 'a list \<times> 'q" where
  "drain 0 q = ([], q)"
| "drain (Suc n) q = (case deq q of (Job x, q') \<Rightarrow> (let (xs, q'') = drain n q' in (x # xs, q'')) | _ \<Rightarrow> ([], q))"

lemma drain_prefix: "drain n q = (xs, q') \<Longrightarrow> content q = xs @ content q'"
proof (induction n arbitrary: q xs)
  case (Suc n)
  then show ?case
    by (auto split: prod.splits dequeue_outcome.splits dest!: deq_job)
qed simp

lemma content_enqs: "content (fold enq xs q) = content q @ xs"
  by (induction xs arbitrary: q) (simp_all add: content_enq)

end

interpretation jq: fifo "\<lambda>q. rev (job_queue q)" enqueue try_dequeue
proof unfold_locales
  show "rev (job_queue (enqueue x q)) = rev (job_queue q) @ [x]" for x and q :: "'a queue"
    by (simp add: enqueue_def)
  show "rev (job_queue q) = x # rev (job_queue q')" if "try_dequeue q = (Job x, q')" for x and q q' :: "'a queue"
    using that append_butlast_last_id [of "job_queue q"]
    by (cases "job_queue q" rule: rev_cases) (auto simp: try_dequeue_def queue_empty_def split: if_splits)
qed (auto simp: try_dequeue_def queue_empty_def split: if_splits)

section \<open>Threads on the queue\<close>

text \<open>
  \<open>waiting\<close> are the threads asleep on the condition variable, \<open>woken\<close> those that were notified
  and compete for the lock, \<open>returned\<close> the results of the calls of \<^verbatim>\<open>dequeue\<close> in the order they
  return, with \<open>None\<close> for \<^verbatim>\<open>false\<close>, and \<open>enqueued\<close> all the jobs in the order they arrived.
\<close>

record 'a queue_system =
  shared :: "'a queue"
  waiting :: "nat list"
  woken :: "nat list"
  returned :: "(nat \<times> 'a option) list"
  enqueued :: "'a list"

definition queue_start :: "'a queue_system" where
  "queue_start = \<lparr>shared = Queue, waiting = [], woken = [], returned = [], enqueued = []\<rparr>"

definition locked_dequeue :: "nat \<Rightarrow> 'a queue_system \<Rightarrow> 'a queue_system" where
  "locked_dequeue t s =
     (case try_dequeue (shared s) of
        (Waits, q) \<Rightarrow> s\<lparr>shared := q, waiting := waiting s @ [t]\<rparr>
      | (Terminated, q) \<Rightarrow> s\<lparr>shared := q, returned := returned s @ [(t, None)]\<rparr>
      | (Job x, q) \<Rightarrow> s\<lparr>shared := q, returned := returned s @ [(t, Some x)]\<rparr>)"

inductive queue_step :: "'a queue_system \<Rightarrow> 'a queue_system \<Rightarrow> bool" where
  call_dequeue: "queue_step s (locked_dequeue t s)"
| wake_up: "t \<in> set (woken s) \<Longrightarrow> queue_step s (locked_dequeue t (s\<lparr>woken := remove1 t (woken s)\<rparr>))"
| spurious: "t \<in> set (waiting s) \<Longrightarrow> queue_step s (s\<lparr>waiting := remove1 t (waiting s), woken := woken s @ [t]\<rparr>)"
| enqueue_notify: "t \<in> set (waiting s) \<Longrightarrow>
    queue_step s (s\<lparr>shared := enqueue x (shared s), enqueued := enqueued s @ [x],
                    waiting := remove1 t (waiting s), woken := woken s @ [t]\<rparr>)"
| enqueue_nobody: "waiting s = [] \<Longrightarrow>
    queue_step s (s\<lparr>shared := enqueue x (shared s), enqueued := enqueued s @ [x]\<rparr>)"
| terminate: "queue_step s (s\<lparr>shared := send_terminate_signal (shared s),
                waiting := [], woken := woken s @ waiting s\<rparr>)"
| clear_signal: "queue_step s (s\<lparr>shared := clear_terminate_signal (shared s)\<rparr>)"

inductive queue_reachable :: "'a queue_system \<Rightarrow> bool" where
  start: "queue_reachable queue_start"
| step: "queue_reachable s \<Longrightarrow> queue_step s s' \<Longrightarrow> queue_reachable s'"

abbreviation delivered :: "'a queue_system \<Rightarrow> 'a list" where
  "delivered s \<equiv> List.map_filter snd (returned s)"

definition queue_inv :: "'a queue_system \<Rightarrow> bool" where
  "queue_inv s \<longleftrightarrow> delivered s @ rev (job_queue (shared s)) = enqueued s
     \<and> (signal_terminate (shared s) \<longrightarrow> waiting s = [])
     \<and> (waiting s \<noteq> [] \<longrightarrow> length (job_queue (shared s)) \<le> length (woken s))"

lemma map_filter_snoc [simp]:
  "List.map_filter f (xs @ [x]) = List.map_filter f xs @ (case f x of None \<Rightarrow> [] | Some y \<Rightarrow> [y])"
  by (simp add: List.map_filter_def split: option.splits)

lemma try_dequeue_signal: "try_dequeue q = (r, q') \<Longrightarrow> signal_terminate q' = signal_terminate q"
  by (auto simp: try_dequeue_def split: if_splits)

lemma locked_dequeue_inv:
  assumes "delivered s @ rev (job_queue (shared s)) = enqueued s"
    and "signal_terminate (shared s) \<longrightarrow> waiting s = []"
    and "waiting s \<noteq> [] \<longrightarrow> length (job_queue (shared s)) \<le> Suc (length (woken s))"
  shows "queue_inv (locked_dequeue t s)"
proof (cases "try_dequeue (shared s)")
  case (Pair r q)
  then show ?thesis
    using assms jq.deq_job [of "shared s" _ q] try_dequeue_signal [of "shared s" r q]
    by (cases r) (auto simp: locked_dequeue_def queue_inv_def try_dequeue_def queue_empty_def split: if_splits)
qed

lemma queue_step_inv:
  assumes "queue_step s s'" and "queue_inv s"
  shows "queue_inv s'"
  using assms
proof (cases rule: queue_step.cases)
  case (call_dequeue t)
  show ?thesis
    unfolding call_dequeue by (rule locked_dequeue_inv) (use assms(2) in \<open>auto simp: queue_inv_def\<close>)
next
  case (wake_up t)
  then have "length (woken s) = Suc (length (remove1 t (woken s)))"
    by (metis One_nat_def Suc_pred length_pos_if_in_set length_remove1)
  then show ?thesis
    unfolding wake_up(1) by (intro locked_dequeue_inv) (use assms(2) in \<open>auto simp: queue_inv_def\<close>)
qed (use assms(2) in \<open>auto simp: queue_inv_def enqueue_def send_terminate_signal_def clear_terminate_signal_def\<close>)

lemma queue_reachable_inv: "queue_reachable s \<Longrightarrow> queue_inv s"
proof (induction rule: queue_reachable.induct)
  case start
  then show ?case by (simp add: queue_inv_def queue_start_def Queue_def List.map_filter_def)
qed (rule queue_step_inv)

text \<open>
  C12: in every interleaving of the threads the jobs are delivered in the order in which they
  were enqueued, each at most once, and no wake-up is lost: when threads sleep and jobs are
  available, there are at least as many woken threads as jobs, and after the termination signal
  nobody sleeps.
\<close>

theorem queue_fifo_no_lost_wakeup:
  assumes "queue_reachable s"
  shows "delivered s @ rev (job_queue (shared s)) = enqueued s
    \<and> (waiting s \<noteq> [] \<longrightarrow> queue_size (shared s) \<le> length (woken s))
    \<and> (signal_terminate (shared s) \<longrightarrow> waiting s = [])"
  using queue_reachable_inv [OF assms] by (simp add: queue_inv_def queue_size_def)

text \<open>A worker sleeps, another one too, and an arriving job wakes the first of them.\<close>

definition sample_queue :: "string queue_system" where
  "sample_queue = \<lparr>shared = enqueue ''job'' Queue, waiting = [1], woken = [0], returned = [], enqueued = [''job'']\<rparr>"

lemma sample_queue_reachable: "queue_reachable sample_queue"
proof -
  define s1 where "s1 = locked_dequeue 0 (queue_start :: string queue_system)"
  define s2 where "s2 = locked_dequeue 1 s1"
  have w: "waiting s2 = [0, 1]" "woken s2 = []" "shared s2 = Queue" "returned s2 = []" "enqueued s2 = []"
    by (simp_all add: s1_def s2_def locked_dequeue_def queue_start_def try_dequeue_def Queue_def queue_empty_def)
  have "queue_reachable s1"
    unfolding s1_def by (rule queue_reachable.step [OF queue_reachable.start queue_step.call_dequeue])
  then have "queue_reachable s2"
    unfolding s2_def by (rule queue_reachable.step [OF _ queue_step.call_dequeue])
  then have "queue_reachable (s2\<lparr>shared := enqueue ''job'' (shared s2), enqueued := enqueued s2 @ [''job''],
      waiting := remove1 0 (waiting s2), woken := woken s2 @ [0]\<rparr>)"
    by (rule queue_reachable.step) (rule queue_step.enqueue_notify, simp add: w)
  moreover have "s2\<lparr>shared := enqueue ''job'' (shared s2), enqueued := enqueued s2 @ [''job''],
      waiting := remove1 0 (waiting s2), woken := woken s2 @ [0]\<rparr> = sample_queue"
    by (cases s2) (use w in \<open>simp add: sample_queue_def\<close>)
  ultimately show ?thesis by simp
qed

theorem queue_fifo_no_lost_wakeup_witness:
  "queue_reachable sample_queue \<and> delivered sample_queue @ [''job''] = enqueued sample_queue
   \<and> queue_size (shared sample_queue) \<le> length (woken sample_queue)"
  using queue_fifo_no_lost_wakeup [OF sample_queue_reachable] sample_queue_reachable
  by (simp add: sample_queue_def enqueue_def Queue_def)

end
