(* ===== verification/Agora_Worker.thy ===== *)
theory Agora_Worker
  imports Agora_Protocol Agora_Queue
begin

text \<open>
  The workers of the server: the registry of application handlers
  (\<^verbatim>\<open>application_manager.hpp\<close>) and the dispatch of the messages by a single worker (\<^verbatim>\<open>worker.cpp\<close>); the
  workers together are in \<open>Agora_Pool\<close>. The registry is a \<^verbatim>\<open>std::unordered_map\<close> from the printed identifier to the
  handler. An exception that leaves a handler also leaves the thread of the worker, which has no
  handler of exceptions: the value \<open>Inl\<close> is the end of the server.
\<close>

section \<open>The registry of applications\<close>

record 'fs server =
  apps :: "(string \<times> handler) list"
  srv_storage :: 'fs
  srv_sent :: "message_model list"

definition get_application_handler :: "block_model \<Rightarrow> application_id \<Rightarrow> 'fs server \<Rightarrow> handler \<times> 'fs server" where
  "get_application_handler blank a srv =
     (case map_of (apps srv) (aid_str a) of
        Some h \<Rightarrow> (h, srv)
      | None \<Rightarrow> let h = RemoteApplicationHandler a blank in (h, srv\<lparr>apps := apps srv @ [(aid_str a, h)]\<rparr>))"

definition remove_application_handler :: "application_id \<Rightarrow> 'fs server \<Rightarrow> 'fs server" where
  "remove_application_handler a srv = srv\<lparr>apps := map_erase (aid_str a) (apps srv)\<rparr>"

text \<open>A method of the handler of an application, which is created on demand.\<close>

definition with_handler :: "block_model \<Rightarrow> application_id \<Rightarrow> ('fs world \<Rightarrow> 'fs world result) \<Rightarrow> 'fs server \<Rightarrow> 'fs server result" where
  "with_handler blank a f srv0 =
     (let (h, srv) = get_application_handler blank a srv0
      in bind_result (f \<lparr>handler = h, storage = srv_storage srv, sent = srv_sent srv\<rparr>)
           (\<lambda>w. Inr (srv\<lparr>apps := snd (insert_or_assign (aid_str a) (handler w) (apps srv)),
                         srv_storage := storage w, srv_sent := sent w\<rparr>)))"

section \<open>Dispatch of the messages\<close>

definition srv_send :: "string \<Rightarrow> string \<Rightarrow> 'fs server \<Rightarrow> 'fs server" where
  "srv_send t p srv = srv\<lparr>srv_sent := srv_sent srv @ [\<lparr>topic = t, payload = p\<rparr>]\<rparr>"

text \<open>The first component of the result tells whether the worker stops.\<close>

definition handle_system_message :: "splitter \<Rightarrow> string \<Rightarrow> string \<Rightarrow> string \<Rightarrow> 'fs server \<Rightarrow> bool \<times> 'fs server" where
  "handle_system_message split tid client_id command_message srv =
     (case tokenize split command_message ''@'' of
        [] \<Rightarrow> (False, srv)
      | command_type # args \<Rightarrow>
          (case resolve_system_command_type command_type of
             Shutdown \<Rightarrow> (True, srv_send (MESSAGE_HEADER @ ''/system/'' @ tid) ''shutdown'' srv)
           | TestConnection \<Rightarrow>
               (False, srv_send (MESSAGE_HEADER @ ''/'' @ client_id @ ''/test'') (''Hello from server '' @ client_id) srv)
           | Invalid_Command \<Rightarrow> (False, srv)))"

definition handle_observation ::
    "splitter \<Rightarrow> 'fs services \<Rightarrow> block_model \<Rightarrow> string \<Rightarrow> application_id \<Rightarrow> string \<Rightarrow> 'fs server \<Rightarrow> 'fs server result" where
  "handle_observation split sv blank client_id a message srv =
     (case tokenize split message ''@'' of
        [t0, t1, observation] \<Rightarrow>
          bind_result (std_stol t0) (\<lambda>timestamp_sec. bind_result (std_stol t1) (\<lambda>timestamp_ns.
            with_handler blank a (process_observation sv client_id timestamp_sec timestamp_ns observation) srv))
      | _ \<Rightarrow> Inr srv)"

definition handle_incoming_message ::
    "splitter \<Rightarrow> 'fs services \<Rightarrow> block_model \<Rightarrow> string \<Rightarrow> message_model \<Rightarrow> 'fs server \<Rightarrow> (bool \<times> 'fs server) result" where
  "handle_incoming_message split sv blank tid msg srv =
     (let topic_tokens = tokenize split (topic msg) ''/''
      in if length topic_tokens < 2 then Inr (False, srv)
         else let client_id = last topic_tokens; message_type = last (butlast topic_tokens);
                  running = (\<lambda>r. bind_result r (\<lambda>srv'. Inr (False, srv')))
              in (case resolve_message_type message_type of
                    System \<Rightarrow> Inr (handle_system_message split tid client_id (payload msg) srv)
                  | Welcome \<Rightarrow> running (bind_result (get_application_id split (topic_tokens ! 1))
                      (\<lambda>a. with_handler blank a (welcome_client sv client_id (payload msg)) srv))
                  | Kia \<Rightarrow> running (bind_result (get_application_id split (topic_tokens ! 1))
                      (\<lambda>a. with_handler blank a (\<lambda>w. Inr (bye_client client_id w)) srv))
                  | Observation \<Rightarrow> running (bind_result (get_application_id split (topic_tokens ! 1))
                      (\<lambda>a. handle_observation split sv blank client_id a (payload msg) srv))
                  | Error \<Rightarrow> Inr (False, srv)
                  | Invalid_Message \<Rightarrow> Inr (False, srv)))"

text \<open>
  The loop of a worker on the messages it gets from the inbox, each of which passes the
  sanitizer. It ends when a message asks for it or when the inbox is closed, which is the end of
  the list; the result has the messages that are left.
\<close>

fun worker_task ::
    "splitter \<Rightarrow> 'fs services \<Rightarrow> block_model \<Rightarrow> string \<Rightarrow> message_model list \<Rightarrow> 'fs server \<Rightarrow> (message_model list \<times> 'fs server) result" where
  "worker_task split sv blank tid [] srv = Inr ([], srv)"
| "worker_task split sv blank tid (msg # inbox) srv =
     bind_result (handle_incoming_message split sv blank tid (whitelist msg) srv)
       (\<lambda>(finished, srv'). if finished then Inr (inbox, srv') else worker_task split sv blank tid inbox srv')"

section \<open>Facts about the dispatch\<close>

lemma with_handler_lookup:
  assumes "with_handler blank a f srv = Inr srv'"
  obtains w where "f \<lparr>handler = (case map_of (apps srv) (aid_str a) of Some h \<Rightarrow> h | None \<Rightarrow> RemoteApplicationHandler a blank),
                     storage = srv_storage srv, sent = srv_sent srv\<rparr> = Inr w"
    and "map_of (apps srv') = (map_of (apps srv))(aid_str a \<mapsto> handler w)"
    and "srv_storage srv' = storage w" and "srv_sent srv' = sent w"
proof -
  let ?h = "case map_of (apps srv) (aid_str a) of Some h \<Rightarrow> h | None \<Rightarrow> RemoteApplicationHandler a blank"
  obtain srv1 where g: "get_application_handler blank a srv = (?h, srv1)" "srv_storage srv1 = srv_storage srv"
      "srv_sent srv1 = srv_sent srv"
    and m: "\<And>h. (map_of (apps srv1))(aid_str a \<mapsto> h) = (map_of (apps srv))(aid_str a \<mapsto> h)"
    by (cases "map_of (apps srv) (aid_str a)") (auto simp: get_application_handler_def Let_def map_add_def fun_eq_iff split: option.splits)
  with assms obtain w where w: "f \<lparr>handler = ?h, storage = srv_storage srv, sent = srv_sent srv\<rparr> = Inr w"
    and s: "srv' = srv1\<lparr>apps := snd (insert_or_assign (aid_str a) (handler w) (apps srv1)), srv_storage := storage w, srv_sent := sent w\<rparr>"
    by (auto simp: with_handler_def)
  show thesis
    by (rule that [OF w]) (simp_all add: s insert_or_assign_lookup m)
qed

lemma message_type_cases:
  "resolve_message_type ''welcome'' = Welcome" "resolve_message_type ''kia'' = Kia"
  "resolve_message_type ''observation'' = Observation" "resolve_message_type ''error'' = Error"
  "resolve_message_type ''system'' = System"
  by (simp_all add: resolve_message_type_def)

text \<open>The topics of the clients have four levels.\<close>

lemma client_topic_dispatch:
  assumes "tokenizer split" and "CHR ''/'' \<notin> set a" and "CHR ''/'' \<notin> set kind" and "CHR ''/'' \<notin> set cid"
  shows "handle_incoming_message split sv blank tid \<lparr>topic = MESSAGE_HEADER @ ''/'' @ a @ ''/'' @ kind @ ''/'' @ cid, payload = p\<rparr> srv =
    (let running = (\<lambda>r. bind_result r (\<lambda>srv'. Inr (False, srv')))
     in (case resolve_message_type kind of
           System \<Rightarrow> Inr (handle_system_message split tid cid p srv)
         | Welcome \<Rightarrow> running (bind_result (get_application_id split a) (\<lambda>i. with_handler blank i (welcome_client sv cid p) srv))
         | Kia \<Rightarrow> running (bind_result (get_application_id split a) (\<lambda>i. with_handler blank i (\<lambda>w. Inr (bye_client cid w)) srv))
         | Observation \<Rightarrow> running (bind_result (get_application_id split a) (\<lambda>i. handle_observation split sv blank cid i p srv))
         | Error \<Rightarrow> Inr (False, srv)
         | Invalid_Message \<Rightarrow> Inr (False, srv)))"
  using tokenizer.topic_tokens [OF assms]
  by (cases "resolve_message_type kind") (simp_all add: handle_incoming_message_def MESSAGE_HEADER_def Let_def)

lemma rejected_message_ignored:
  assumes "tokenizer split" and "\<not> accepted msg"
  shows "handle_incoming_message split sv blank tid (whitelist msg) srv = Inr (False, srv)"
proof -
  note at = tokenizer.split_at [OF assms(1), where sep = "''/''" and c = "CHR ''/''"]
  have "split ''margot/error/'' ''/'' = [''margot'', ''error'', []]"
    using at [of "''margot''" "''error/''"] at [of "''error''" "[]"] tokenizer.split_none [OF assms(1), of "[]" "''/''"] by simp
  then have "tokenize split (topic (whitelist msg)) ''/'' = [''margot'', ''error'', []]"
    using whitelist_rejected [OF assms(2)] by (simp add: tokenize_def)
  then show ?thesis
    by (simp add: handle_incoming_message_def Let_def message_type_cases)
qed

text \<open>
  A message with a character that is not accepted, in the topic or in the payload, changes
  nothing in the server: the sanitizer turns it into an error message, which the worker ignores.
\<close>

theorem rejected_message_is_ignored:
  assumes "tokenizer split" and "\<not> accepted msg"
  shows "worker_task split sv blank tid (msg # inbox) srv = worker_task split sv blank tid inbox srv"
  using rejected_message_ignored [OF assms, of sv blank tid srv] by simp

theorem rejected_message_is_ignored_witness:
  "worker_task split_any_of sample_services sample_block ''1'' [\<lparr>topic = ''$disconnect$'', payload = ''lost''\<rparr>]
     \<lparr>apps = [], srv_storage = False, srv_sent = []\<rparr> = Inr ([], \<lparr>apps = [], srv_storage = False, srv_sent = []\<rparr>)"
proof -
  have "\<not> accepted \<lparr>topic = ''$disconnect$'', payload = ''lost''\<rparr>"
    by (simp add: accepted_def topic_accepted_characters_def)
  from trans [OF rejected_message_is_ignored [OF sp.tokenizer_axioms this] worker_task.simps(1)] show ?thesis .
qed

text \<open>
  A welcome, goodbye or observation whose topic does not name an application, a version and
  a block ends the server: the missing part is read out of range, and the worker does not catch
  the exception. The goodbye of a server, which calls itself \<^verbatim>\<open>agora\<close>, is such a message.
\<close>

theorem malformed_topic_ends_server:
  assumes "tokenizer split" and "CHR ''^'' \<notin> set a" and "CHR ''/'' \<notin> set a" and "CHR ''/'' \<notin> set cid"
    and "kind \<in> {''welcome'', ''kia'', ''observation''}"
  shows "worker_task split sv blank tid
      (\<lparr>topic = MESSAGE_HEADER @ ''/'' @ a @ ''/'' @ kind @ ''/'' @ cid, payload = p\<rparr> # inbox) srv =
    (if accepted \<lparr>topic = MESSAGE_HEADER @ ''/'' @ a @ ''/'' @ kind @ ''/'' @ cid, payload = p\<rparr>
     then Inl (Runtime_error ''std::out_of_range'') else worker_task split sv blank tid inbox srv)"
proof (cases "accepted \<lparr>topic = MESSAGE_HEADER @ ''/'' @ a @ ''/'' @ kind @ ''/'' @ cid, payload = p\<rparr>")
  case False
  with rejected_message_ignored [OF assms(1) False, of sv blank tid srv] show ?thesis by simp
next
  case True
  have "CHR ''/'' \<notin> set kind" using assms(5) by auto
  moreover have "get_application_id split a = Inl (Runtime_error ''std::out_of_range'')"
    using tokenizer.split_none [OF assms(1), of a "''^''"] assms(2) by (simp add: get_application_id_def tokenize_def)
  ultimately show ?thesis
    using client_topic_dispatch [OF assms(1,3) _ assms(4), of kind sv blank tid p srv] assms(5) True
    by (auto simp: message_type_cases Let_def)
qed

theorem malformed_topic_ends_server_witness:
  "worker_task split_any_of sample_services sample_block ''1''
     [\<lparr>topic = MESSAGE_HEADER @ ''/'' @ ''agora'' @ ''/'' @ ''kia'' @ ''/'' @ ''140'', payload = ''Client has been disconnected.''\<rparr>]
     \<lparr>apps = [], srv_storage = False, srv_sent = []\<rparr> = Inl (Runtime_error ''std::out_of_range'')"
proof -
  have "accepted \<lparr>topic = MESSAGE_HEADER @ ''/'' @ ''agora'' @ ''/'' @ ''kia'' @ ''/'' @ ''140'', payload = ''Client has been disconnected.''\<rparr>"
    by (simp add: accepted_def topic_accepted_characters_def payload_accepted_characters_def MESSAGE_HEADER_def)
  then show ?thesis
    by (intro trans [OF malformed_topic_ends_server [OF sp.tokenizer_axioms] if_P]) simp_all
qed

section \<open>The messages of the clients\<close>

text \<open>
  An identifier whose parts can be put into a topic and found again, and what the dispatch does
  with a message of a client of that application.
\<close>

definition plain_id :: "application_id \<Rightarrow> bool" where
  "plain_id a \<longleftrightarrow> (\<forall>s \<in> {app_name a, version a, block_name a}. CHR ''^'' \<notin> set s \<and> CHR ''/'' \<notin> set s)"

lemma plain_id_topic: "plain_id a \<Longrightarrow> CHR ''/'' \<notin> set (aid_str a)"
  by (auto simp: plain_id_def aid_str_def)

lemma plain_id_roundtrip: "tokenizer split \<Longrightarrow> plain_id a \<Longrightarrow> get_application_id split (aid_str a) = Inr a"
  by (rule tokenizer.application_id_roundtrip) (auto simp: plain_id_def)

lemma client_message_dispatch:
  assumes "tokenizer split" and "plain_id a" and "CHR ''/'' \<notin> set cid"
    and "accepted \<lparr>topic = MESSAGE_HEADER @ ''/'' @ aid_str a @ ''/'' @ kind @ ''/'' @ cid, payload = p\<rparr>"
  shows "kind = ''welcome'' \<Longrightarrow> handle_incoming_message split sv blank tid
      (whitelist \<lparr>topic = MESSAGE_HEADER @ ''/'' @ aid_str a @ ''/'' @ kind @ ''/'' @ cid, payload = p\<rparr>) srv =
      bind_result (with_handler blank a (welcome_client sv cid p) srv) (\<lambda>srv'. Inr (False, srv'))"
    and "kind = ''kia'' \<Longrightarrow> handle_incoming_message split sv blank tid
      (whitelist \<lparr>topic = MESSAGE_HEADER @ ''/'' @ aid_str a @ ''/'' @ kind @ ''/'' @ cid, payload = p\<rparr>) srv =
      bind_result (with_handler blank a (\<lambda>w. Inr (bye_client cid w)) srv) (\<lambda>srv'. Inr (False, srv'))"
    and "kind = ''observation'' \<Longrightarrow> handle_incoming_message split sv blank tid
      (whitelist \<lparr>topic = MESSAGE_HEADER @ ''/'' @ aid_str a @ ''/'' @ kind @ ''/'' @ cid, payload = p\<rparr>) srv =
      bind_result (handle_observation split sv blank cid a p srv) (\<lambda>srv'. Inr (False, srv'))"
  using client_topic_dispatch [OF assms(1) plain_id_topic [OF assms(2)] _ assms(3), of kind sv blank tid p srv]
    plain_id_roundtrip [OF assms(1,2)] assms(4)
  by (simp_all add: message_type_cases Let_def)

lemma observation_tokens:
  assumes "tokenizer split" and "CHR ''@'' \<notin> set obs"
  shows "tokenize split (std_to_string s @ ''@'' @ std_to_string n @ ''@'' @ obs) ''@'' = [std_to_string s, std_to_string n, obs]"
proof -
  have free: "set (std_to_string i) \<inter> set ''@'' = {}" for i
    using std_to_string_chars digit_not_special(4) by fastforce
  show ?thesis
    using tokenizer.split_at [OF assms(1) free] tokenizer.split_none [OF assms(1), of obs "''@''"] assms(2)
    by (simp add: tokenize_def)
qed

end
