(* ===== verification/Agora_Mqtt.thy ===== *)
theory Agora_Mqtt
  imports Agora_Worker
begin

text \<open>
  The connection with the broker (\<^verbatim>\<open>paho_remote_handler.cpp\<close>, \<^verbatim>\<open>remote_configuration.hpp\<close>): the client that
  the server and the applications share, with the callbacks of the library. The Paho library is a
  parameter, a record of its calls on a network state \<open>'n\<close>; a call returns a code, zero on success.
  Its callbacks come from a thread of the library and are operations on the inbox.
\<close>

section \<open>Configuration\<close>

record remote_configuration =
  app_identifier :: string
  broker_url :: string
  broker_qos :: nat
  broker_username :: string
  broker_password :: string
  broker_certificate :: string
  client_certificate :: string
  certificate_key :: string

text \<open>The quality of service is stored in eight bits.\<close>

definition set_paho_handler_properties ::
    "string \<Rightarrow> string \<Rightarrow> nat \<Rightarrow> string \<Rightarrow> string \<Rightarrow> string \<Rightarrow> string \<Rightarrow> string \<Rightarrow> remote_configuration" where
  "set_paho_handler_properties app_id broker_address quality user pass broker_cert my_cert my_key =
     \<lparr>app_identifier = app_id, broker_url = broker_address, broker_qos = quality mod 256, broker_username = user,
      broker_password = pass, broker_certificate = broker_cert, client_certificate = my_cert, certificate_key = my_key\<rparr>"

section \<open>The library\<close>

record ssl_options =
  trust_store :: string
  key_store :: "string option"
  private_key :: "string option"

record connect_options =
  keep_alive_interval :: nat
  clean_session :: bool
  connect_username :: "string option"
  connect_password :: "string option"
  connect_ssl :: "ssl_options option"
  last_will :: message_model
  will_qos :: nat

record 'n paho =
  mqtt_create :: "string \<Rightarrow> string \<Rightarrow> 'n \<Rightarrow> int \<times> 'n"
  mqtt_set_callbacks :: "'n \<Rightarrow> int \<times> 'n"
  mqtt_connect :: "connect_options \<Rightarrow> 'n \<Rightarrow> int \<times> 'n"
  mqtt_publish :: "nat \<Rightarrow> message_model \<Rightarrow> 'n \<Rightarrow> int \<times> 'n"
  mqtt_subscribe :: "nat \<Rightarrow> string \<Rightarrow> 'n \<Rightarrow> int \<times> 'n"
  mqtt_unsubscribe :: "string \<Rightarrow> 'n \<Rightarrow> int \<times> 'n"
  mqtt_disconnect :: "nat \<Rightarrow> 'n \<Rightarrow> int \<times> 'n"
  mqtt_destroy :: "'n \<Rightarrow> 'n"

definition resolve_error_cause :: "int \<Rightarrow> string" where
  "resolve_error_cause error_code =
     (case map_of [(1, ''Unacceptable protocol version''), (2, ''Identifier rejected''), (3, ''Server unavailable''),
         (4, ''Bad user name or password''), (5, ''Not authorized''), (-1, ''Generic error indicating failure of an MQTT client''),
         (-2, ''MQTTCLIENT_PERSISTENCE_ERROR''), (-3, ''MQTTCLIENT_DISCONNECTED''), (-4, ''MQTTCLIENT_MAX_MESSAGES_INFLIGHT''),
         (-5, ''MQTTCLIENT_BAD_UTF8_STRING''), (-6, ''MQTTCLIENT_NULL_PARAMETER''), (-7, ''MQTTCLIENT_TOPICNAME_TRUNCATED''),
         (-8, ''MQTTCLIENT_BAD_STRUCTURE''), (-9, ''MQTTCLIENT_BAD_QOS''), (-10, ''MQTTCLIENT_SSL_NOT_SUPPORTED''),
         (-11, ''MQTTCLIENT_BAD_MQTT_VERSION''), (-14, ''MQTTCLIENT_BAD_PROTOCOL''), (-15, ''MQTTCLIENT_BAD_MQTT_OPTION''),
         (-16, ''MQTTCLIENT_WRONG_MQTT_VERSION''), (-17, ''MQTTCLIENT_0_LEN_WILL_TOPIC'')] error_code of
        Some s \<Rightarrow> s | None \<Rightarrow> ''Not reported in the documentation errno='' @ std_to_string error_code)"

section \<open>The client\<close>

record 'n PahoClient =
  client_id :: string
  is_connected :: bool
  qos_level :: nat
  goodbye_topic :: string
  inbox :: "message_model queue"
  network :: 'n

definition goodbye_payload :: string where
  "goodbye_payload = ''Client has been disconnected.''"

definition escape_client_id :: "string \<Rightarrow> string" where
  "escape_client_id s = map (\<lambda>c. if c = CHR ''.'' \<or> c = CHR ''-'' then CHR ''_'' else c) s"

text \<open>What the library, which takes C strings, sees of a string.\<close>

definition c_str :: "string \<Rightarrow> string" where
  "c_str s = takeWhile (\<lambda>x. x \<noteq> CHR 0x00) s"

definition optional_text :: "string \<Rightarrow> string option" where
  "optional_text s = (if s = [] then None else Some s)"

definition connection_options :: "remote_configuration \<Rightarrow> string \<Rightarrow> connect_options" where
  "connection_options cfg will_topic =
     \<lparr>keep_alive_interval = 30, clean_session = True, connect_username = optional_text (broker_username cfg),
      connect_password = optional_text (broker_password cfg),
      connect_ssl = (if broker_certificate cfg \<noteq> []
                     then Some \<lparr>trust_store = broker_certificate cfg, key_store = optional_text (client_certificate cfg),
                            private_key = optional_text (certificate_key cfg)\<rparr> else None),
      last_will = \<lparr>topic = c_str will_topic, payload = goodbye_payload\<rparr>, will_qos = broker_qos cfg\<rparr>"

text \<open>A call of the library whose failure is an exception with a message about its cause.\<close>

definition in_quotes :: "string \<Rightarrow> string" where
  "in_quotes s = [CHR 0x22] @ s @ [CHR 0x22]"

definition checked :: "(string \<Rightarrow> string) \<Rightarrow> ('n \<Rightarrow> int \<times> 'n) \<Rightarrow> 'n \<Rightarrow> 'n result" where
  "checked what call n = (case call n of (rc, n') \<Rightarrow> if rc = 0 then Inr n' else Inl (Runtime_error (what (resolve_error_cause rc))))"

definition connect_client :: "'n paho \<Rightarrow> remote_configuration \<Rightarrow> string \<Rightarrow> 'n \<Rightarrow> 'n PahoClient result" where
  "connect_client lib cfg thread_id n0 =
     (let cid = escape_client_id thread_id;
          goodbye = MESSAGE_HEADER @ ''/'' @ app_identifier cfg @ ''/kia/'' @ cid
      in bind_result (checked ((@) ''MQTT client: unable to initialize client structure, err='') (mqtt_create lib (broker_url cfg) cid) n0) (\<lambda>n1.
         bind_result (checked ((@) ''MQTT client: unable to set callbacks in client structure, err='') (mqtt_set_callbacks lib) n1) (\<lambda>n2.
         bind_result (checked (\<lambda>cause. ''MQTT client: unable to connect with broker due to '' @ in_quotes cause) (mqtt_connect lib (connection_options cfg goodbye)) n2) (\<lambda>n3.
           Inr \<lparr>client_id = cid, is_connected = True, qos_level = broker_qos cfg, goodbye_topic = goodbye, inbox = Queue, network = n3\<rparr>))))"

definition paho_send :: "'n paho \<Rightarrow> message_model \<Rightarrow> 'n PahoClient \<Rightarrow> 'n PahoClient result" where
  "paho_send lib msg c =
     (if \<not> is_connected c then Inr c
      else bind_result (checked ((@) ''MQTT client: unable to send a message, err='') (mqtt_publish lib (qos_level c) (msg\<lparr>topic := c_str (topic msg)\<rparr>)) (network c))
             (\<lambda>n. Inr (c\<lparr>network := n\<rparr>)))"

definition paho_subscribe :: "'n paho \<Rightarrow> string \<Rightarrow> 'n PahoClient \<Rightarrow> 'n PahoClient result" where
  "paho_subscribe lib t c =
     (if \<not> is_connected c then Inr c
      else bind_result (checked ((@) (''MQTT client: unable to subscribe for topic '' @ in_quotes t @ '', err='')) (mqtt_subscribe lib (qos_level c) (c_str t)) (network c))
             (\<lambda>n. Inr (c\<lparr>network := n\<rparr>)))"

definition paho_unsubscribe :: "'n paho \<Rightarrow> string \<Rightarrow> 'n PahoClient \<Rightarrow> 'n PahoClient result" where
  "paho_unsubscribe lib t c =
     (if \<not> is_connected c then Inr c
      else bind_result (checked ((@) (''MQTT client: unable to unsubscribe from topic '' @ in_quotes t @ '', err='')) (mqtt_unsubscribe lib (c_str t)) (network c))
             (\<lambda>n. Inr (c\<lparr>network := n\<rparr>)))"

text \<open>The return code of the disconnection is only logged; a goodbye that fails is an exception.\<close>

definition paho_disconnect :: "'n paho \<Rightarrow> 'n PahoClient \<Rightarrow> 'n PahoClient result" where
  "paho_disconnect lib c =
     bind_result
       (if is_connected c
        then bind_result (paho_send lib \<lparr>topic = goodbye_topic c, payload = goodbye_payload\<rparr> c)
               (\<lambda>c1. Inr (c1\<lparr>network := snd (mqtt_disconnect lib 10000 (network c1))\<rparr>))
        else Inr c)
       (\<lambda>c2. Inr (c2\<lparr>network := mqtt_destroy lib (network c2), is_connected := False, inbox := send_terminate_signal (inbox c2)\<rparr>))"

text \<open>
  \<^verbatim>\<open>recv_message\<close> returns a message that passed the sanitizer; when the queue was closed it returns
  false with the message it was given. \<open>None\<close> is a thread that waits.
\<close>

definition paho_recv :: "message_model \<Rightarrow> 'n PahoClient \<Rightarrow> (bool \<times> message_model \<times> 'n PahoClient) option" where
  "paho_recv input_message c =
     (case try_dequeue (inbox c) of
        (Waits, q) \<Rightarrow> None
      | (Terminated, q) \<Rightarrow> Some (False, whitelist input_message, c\<lparr>inbox := q\<rparr>)
      | (Job msg, q) \<Rightarrow> Some (True, whitelist msg, c\<lparr>inbox := q\<rparr>))"

section \<open>Callbacks\<close>

text \<open>The topic is a C string: it ends at the first null character.\<close>

definition recv_callback :: "string \<Rightarrow> string \<Rightarrow> 'n PahoClient \<Rightarrow> 'n PahoClient" where
  "recv_callback t p c = c\<lparr>inbox := enqueue \<lparr>topic = c_str t, payload = p\<rparr> (inbox c)\<rparr>"

text \<open>The cause of a lost connection may be a null pointer, from which no string can be built.\<close>

definition connlost_callback :: "string option \<Rightarrow> 'n PahoClient \<Rightarrow> 'n PahoClient result" where
  "connlost_callback cause c =
     (case cause of
        None \<Rightarrow> Inl (Undefined_behaviour ''std::string of a null pointer'')
      | Some s \<Rightarrow> Inr (c\<lparr>inbox := enqueue \<lparr>topic = ''$disconnect$'', payload = s\<rparr> (inbox c)\<rparr>))"

section \<open>The end of a session\<close>

lemma connect_clientE:
  assumes "connect_client lib cfg thread_id n0 = Inr c"
  shows "client_id c = escape_client_id thread_id" "is_connected c" "qos_level c = broker_qos cfg" "inbox c = Queue"
    "goodbye_topic c = MESSAGE_HEADER @ ''/'' @ app_identifier cfg @ ''/'' @ ''kia'' @ ''/'' @ client_id c"
  using assms by (auto simp: connect_client_def Let_def)

lemma c_str_id: "CHR 0x00 \<notin> set s \<Longrightarrow> c_str s = s"
  unfolding c_str_def by (induction s) auto

lemma accepted_c_str: "set s \<subseteq> set topic_accepted_characters \<Longrightarrow> c_str s = s"
  by (rule c_str_id) (auto simp: topic_accepted_characters_def)

lemma goodbye_payload_accepted: "set goodbye_payload \<subseteq> set payload_accepted_characters"
  by (simp add: goodbye_payload_def payload_accepted_characters_def)

lemma escape_client_id_free: "CHR ''/'' \<notin> set s \<Longrightarrow> CHR ''/'' \<notin> set (escape_client_id s)"
  by (auto simp: escape_client_id_def split: if_splits)

lemma kia_topic_accepted:
  assumes "set a \<subseteq> set topic_accepted_characters" and "set cid \<subseteq> set topic_accepted_characters"
  shows "set (MESSAGE_HEADER @ ''/'' @ a @ ''/'' @ ''kia'' @ ''/'' @ cid) \<subseteq> set topic_accepted_characters"
proof -
  have "set MESSAGE_HEADER \<union> set ''/'' \<union> set ''kia'' \<subseteq> set topic_accepted_characters"
    by (simp add: MESSAGE_HEADER_def topic_accepted_characters_def)
  with assms show ?thesis by (simp del: append.append_Cons)
qed

lemma with_handler_property:
  assumes "with_handler blank a f srv = Inr srv'" and "\<And>w w'. f w = Inr w' \<Longrightarrow> P (handler w')"
  shows "\<exists>h. map_of (apps srv') (aid_str a) = Some h \<and> P h"
  by (rule with_handler_lookup [OF assms(1)]) (auto intro: assms(2))

lemma bye_client_removes: "cid \<notin> set (active_clients (handler (bye_client cid w)))"
  by (simp add: bye_client_def Let_def upd_def remove_client_def set_status_def)


text \<open>A network that only records what is published.\<close>

definition sample_paho :: "message_model list paho" where
  "sample_paho = \<lparr>mqtt_create = (\<lambda>url cid n. (0, n)), mqtt_set_callbacks = (\<lambda>n. (0, n)), mqtt_connect = (\<lambda>opts n. (0, n)),
     mqtt_publish = (\<lambda>q m n. (0, n @ [m])), mqtt_subscribe = (\<lambda>q t n. (0, n)), mqtt_unsubscribe = (\<lambda>t n. (0, n)),
     mqtt_disconnect = (\<lambda>timeout n. (0, n)), mqtt_destroy = (\<lambda>n. n)\<rparr>"

definition sample_configuration :: remote_configuration where
  "sample_configuration = set_paho_handler_properties ''app^1^foo'' ''127.0.0.1:1883'' 2 [] [] [] [] []"


section \<open>Lost connections\<close>

text \<open>
  A lost connection goes unnoticed. The callback puts a message with the topic \<^verbatim>\<open>$disconnect$\<close> into
  the inbox, but the sanitizer rejects the dollar sign: the worker that takes the message ignores it,
  the client still counts as connected, and the next message the server sends ends in an exception when
  the library reports its failure. A cause that is a null pointer is undefined behaviour.
\<close>

theorem connection_loss_is_not_noticed:
  assumes "tokenizer split"
  shows "connlost_callback None c = Inl (Undefined_behaviour ''std::string of a null pointer'')
    \<and> (\<exists>msg c'. connlost_callback (Some cause) c = Inr c' \<and> is_connected c' = is_connected c
        \<and> job_queue (inbox c') = msg # job_queue (inbox c)
        \<and> handle_incoming_message split sv blank tid (whitelist msg) srv = Inr (False, srv)
        \<and> (is_connected c \<longrightarrow> fst (mqtt_publish lib (qos_level c) (m\<lparr>topic := c_str (topic m)\<rparr>) (network c)) = rc \<longrightarrow> rc \<noteq> 0 \<longrightarrow>
             paho_send lib m c' = Inl (Runtime_error (''MQTT client: unable to send a message, err='' @ resolve_error_cause rc))))"
proof -
  define c' where "c' = c\<lparr>inbox := enqueue \<lparr>topic = ''$disconnect$'', payload = cause\<rparr> (inbox c)\<rparr>"
  have "connlost_callback (Some cause) c = Inr c'" by (simp add: connlost_callback_def c'_def)
  moreover have "job_queue (inbox c') = \<lparr>topic = ''$disconnect$'', payload = cause\<rparr> # job_queue (inbox c)" "is_connected c' = is_connected c"
    by (simp_all add: c'_def enqueue_def)
  moreover have "\<not> accepted \<lparr>topic = ''$disconnect$'', payload = cause\<rparr>"
    by (simp add: accepted_def topic_accepted_characters_def)
  then have "handle_incoming_message split sv blank tid (whitelist \<lparr>topic = ''$disconnect$'', payload = cause\<rparr>) srv = Inr (False, srv)"
    by (rule rejected_message_ignored [OF assms])
  moreover have "is_connected c \<Longrightarrow> fst (mqtt_publish lib (qos_level c) (m\<lparr>topic := c_str (topic m)\<rparr>) (network c)) = rc \<Longrightarrow> rc \<noteq> 0 \<Longrightarrow>
      paho_send lib m c' = Inl (Runtime_error (''MQTT client: unable to send a message, err='' @ resolve_error_cause rc))"
    by (cases "mqtt_publish lib (qos_level c) (m\<lparr>topic := c_str (topic m)\<rparr>) (network c)") (simp add: paho_send_def checked_def c'_def)
  ultimately show ?thesis by (intro conjI exI [of _ "\<lparr>topic = ''$disconnect$'', payload = cause\<rparr>"] exI [of _ c'])
      (simp_all add: connlost_callback_def)
qed

theorem connection_loss_is_not_noticed_witness:
  "\<exists>msg c'. connlost_callback (Some ''timeout'')
      \<lparr>client_id = ''140'', is_connected = True, qos_level = 2, goodbye_topic = ''margot/agora/kia/140'', inbox = Queue, network = []\<rparr> = Inr c'
    \<and> job_queue (inbox c') = [msg]
    \<and> paho_send (sample_paho\<lparr>mqtt_publish := \<lambda>q m n. (-3, n)\<rparr>) \<lparr>topic = ''margot/app^1^foo/1/explore'', payload = ''x''\<rparr> c'
        = Inl (Runtime_error ''MQTT client: unable to send a message, err=MQTTCLIENT_DISCONNECTED'')"
  using connection_loss_is_not_noticed [OF sp.tokenizer_axioms, of
      "\<lparr>client_id = ''140'', is_connected = True, qos_level = 2, goodbye_topic = ''margot/agora/kia/140'', inbox = Queue, network = []\<rparr>"
      "''timeout''" sample_services sample_block "''1''" "\<lparr>apps = [], srv_storage = False, srv_sent = []\<rparr>"
      "sample_paho\<lparr>mqtt_publish := \<lambda>q m n. (-3, n)\<rparr>" "\<lparr>topic = ''margot/app^1^foo/1/explore'', payload = ''x''\<rparr>" "-3"]
  by (auto simp: resolve_error_cause_def Queue_def)

end
