(* ===== verification/Agora_Pool.thy ===== *)
theory Agora_Pool
  imports Agora_Mqtt
begin

text \<open>
  The workers of the server as threads on one inbox (\<^verbatim>\<open>worker.cpp\<close>, \<^verbatim>\<open>threadpool.hpp\<close>): how a request to
  shut down reaches all of them, and how the main thread waits for them. The broker is a parameter: the
  messages of the server that it sends back because the server subscribed to their topics.
\<close>

section \<open>The workers and their inbox\<close>

record 'fs pool =
  pool_server :: "'fs server"
  pool_inbox :: "message_model queue"
  running :: "string list"

text \<open>
  One iteration of the loop of a worker: \<open>None\<close> while the inbox is empty, which blocks the worker.
  The messages that the handling of a message adds to the sent ones go to the broker.
\<close>

definition worker_turn ::
    "splitter \<Rightarrow> 'fs services \<Rightarrow> block_model \<Rightarrow> (message_model \<Rightarrow> bool) \<Rightarrow> string \<Rightarrow> 'fs pool \<Rightarrow> 'fs pool result option" where
  "worker_turn split sv blank echoed tid p =
     (case try_dequeue (pool_inbox p) of
        (Waits, q) \<Rightarrow> None
      | (Terminated, q) \<Rightarrow> Some (Inr (p\<lparr>running := removeAll tid (running p)\<rparr>))
      | (Job msg, q) \<Rightarrow> Some (bind_result (handle_incoming_message split sv blank tid (whitelist msg) (pool_server p)) (\<lambda>(stop, srv).
          Inr (p\<lparr>pool_server := srv,
                 pool_inbox := fold enqueue (filter echoed (drop (length (srv_sent (pool_server p))) (srv_sent srv))) q,
                 running := (if stop then removeAll tid (running p) else running p)\<rparr>))))"

inductive pool_step ::
    "splitter \<Rightarrow> 'fs services \<Rightarrow> block_model \<Rightarrow> (message_model \<Rightarrow> bool) \<Rightarrow> 'fs pool \<Rightarrow> 'fs pool \<Rightarrow> bool"
  for split sv blank echoed where
  arrives: "pool_step split sv blank echoed p (p\<lparr>pool_inbox := enqueue m (pool_inbox p)\<rparr>)"
| works: "tid \<in> set (running p) \<Longrightarrow> worker_turn split sv blank echoed tid p = Some (Inr p') \<Longrightarrow>
    pool_step split sv blank echoed p p'"
| closes: "pool_step split sv blank echoed p (p\<lparr>pool_inbox := send_terminate_signal (pool_inbox p)\<rparr>)"

inductive pool_steps ::
    "splitter \<Rightarrow> 'fs services \<Rightarrow> block_model \<Rightarrow> (message_model \<Rightarrow> bool) \<Rightarrow> 'fs pool \<Rightarrow> 'fs pool \<Rightarrow> bool"
  for split sv blank echoed p where
  none: "pool_steps split sv blank echoed p p"
| more: "pool_steps split sv blank echoed p p' \<Longrightarrow> pool_step split sv blank echoed p' p'' \<Longrightarrow>
    pool_steps split sv blank echoed p p''"

section \<open>Requests to shut down\<close>

definition is_shutdown :: "splitter \<Rightarrow> message_model \<Rightarrow> bool" where
  "is_shutdown split msg \<longleftrightarrow>
     (let ts = tokenize split (topic (whitelist msg)) ''/''
      in 2 \<le> length ts \<and> resolve_message_type (last (butlast ts)) = System
         \<and> (case tokenize split (payload (whitelist msg)) ''@'' of [] \<Rightarrow> False | t # args \<Rightarrow> resolve_system_command_type t = Shutdown))"

definition shutdown_message :: "string \<Rightarrow> message_model" where
  "shutdown_message tid = \<lparr>topic = MESSAGE_HEADER @ ''/system/'' @ tid, payload = ''shutdown''\<rparr>"

lemma shutdown_handled:
  assumes "is_shutdown split msg"
  shows "handle_incoming_message split sv blank tid (whitelist msg) srv =
    Inr (True, srv\<lparr>srv_sent := srv_sent srv @ [shutdown_message tid]\<rparr>)"
  using assms
  by (auto simp: is_shutdown_def handle_incoming_message_def handle_system_message_def srv_send_def shutdown_message_def Let_def
      split: list.splits)

lemma stop_is_shutdown:
  assumes "handle_incoming_message split sv blank tid (whitelist msg) srv = Inr (True, srv')"
  shows "is_shutdown split msg"
  using assms
  by (auto simp: is_shutdown_def handle_incoming_message_def handle_system_message_def Let_def
      split: list.splits AgoraMessageType.splits AgoraSystemCommandType.splits if_splits)

definition thread_name :: "string \<Rightarrow> bool" where
  "thread_name tid \<longleftrightarrow> set tid \<subseteq> set topic_accepted_characters \<and> CHR ''/'' \<notin> set tid"

lemma system_topic_accepted:
  "set tid \<subseteq> set topic_accepted_characters \<Longrightarrow> set (MESSAGE_HEADER @ ''/system/'' @ tid) \<subseteq> set topic_accepted_characters"
  by (auto simp: MESSAGE_HEADER_def topic_accepted_characters_def)

lemma shutdown_message_is_shutdown:
  assumes "tokenizer split" and "thread_name tid"
  shows "is_shutdown split (shutdown_message tid)"
proof -
  note at = tokenizer.split_at [OF assms(1), where sep = "''/''" and c = "CHR ''/''"]
  have "accepted (shutdown_message tid)"
    using system_topic_accepted [of tid] assms(2)
    by (simp add: accepted_def shutdown_message_def thread_name_def payload_accepted_characters_def)
  moreover have "tokenize split (MESSAGE_HEADER @ ''/system/'' @ tid) ''/'' = [''margot'', ''system'', tid]"
    using at [of "''margot''" "''system/'' @ tid"] at [of "''system''" tid] tokenizer.split_none [OF assms(1), of tid "''/''"] assms(2)
    by (simp add: tokenize_def MESSAGE_HEADER_def thread_name_def)
  moreover have "tokenize split ''shutdown'' ''@'' = [''shutdown'']"
    using tokenizer.split_none [OF assms(1), of "''shutdown''" "''@''"] by (simp add: tokenize_def)
  ultimately show ?thesis
    by (simp add: is_shutdown_def shutdown_message_def message_type_cases resolve_system_command_type_def)
qed

section \<open>The request reaches every worker\<close>

definition shutdown_pending :: "splitter \<Rightarrow> 'fs pool \<Rightarrow> bool" where
  "shutdown_pending split p \<longleftrightarrow>
     running p = [] \<or> signal_terminate (pool_inbox p) \<or> (\<exists>msg \<in> set (job_queue (pool_inbox p)). is_shutdown split msg)"

lemma enqueue_all [simp]:
  "signal_terminate (fold enqueue ms q) = signal_terminate q" "job_queue (fold enqueue ms q) = rev ms @ job_queue q"
  by (induction ms arbitrary: q) (simp_all add: enqueue_def)

lemma worker_turn_pending:
  assumes "tokenizer split" and "thread_name tid" and "echoed (shutdown_message tid)"
    and "worker_turn split sv blank echoed tid p = Some (Inr p')" and "shutdown_pending split p"
  shows "shutdown_pending split p' \<and> set (running p') \<subseteq> set (running p)"
proof (cases "try_dequeue (pool_inbox p)")
  case (Pair r q)
  show ?thesis
  proof (cases r)
    case Waits
    with Pair assms(4) show ?thesis by (simp add: worker_turn_def)
  next
    case Terminated
    with Pair have "signal_terminate (pool_inbox p)" by (auto simp: try_dequeue_def split: if_splits)
    with Pair Terminated assms(4) show ?thesis by (auto simp: worker_turn_def shutdown_pending_def)
  next
    case (Job msg)
    with Pair have q: "job_queue (pool_inbox p) = job_queue q @ [msg]" "signal_terminate q = signal_terminate (pool_inbox p)"
      by (auto simp: try_dequeue_def queue_empty_def split: if_splits)
    from Pair Job assms(4) obtain stop srv where
      h: "handle_incoming_message split sv blank tid (whitelist msg) (pool_server p) = Inr (stop, srv)"
      and p': "p' = p\<lparr>pool_server := srv,
                 pool_inbox := fold enqueue (filter echoed (drop (length (srv_sent (pool_server p))) (srv_sent srv))) q,
                 running := (if stop then removeAll tid (running p) else running p)\<rparr>"
      by (auto simp: worker_turn_def)
    show ?thesis
    proof (cases "is_shutdown split msg")
      case True
      have "shutdown_message tid \<in> set (job_queue (pool_inbox p'))"
        using h shutdown_handled [OF True, of sv blank tid "pool_server p"] assms(3) by (auto simp: p')
      with shutdown_message_is_shutdown [OF assms(1,2)] show ?thesis
        by (auto simp: shutdown_pending_def p')
    next
      case False
      have "\<not> stop"
      proof
        assume stop
        with h have "handle_incoming_message split sv blank tid (whitelist msg) (pool_server p) = Inr (True, srv)" by simp
        from stop_is_shutdown [OF this] False show False by blast
      qed
      with False assms(5) q show ?thesis by (auto simp: shutdown_pending_def p')
    qed
  qed
qed

lemma pool_steps_pending:
  assumes "tokenizer split" and "\<And>tid. tid \<in> set (running p) \<Longrightarrow> thread_name tid \<and> echoed (shutdown_message tid)"
    and "pool_steps split sv blank echoed p p'" and "shutdown_pending split p"
  shows "shutdown_pending split p' \<and> set (running p') \<subseteq> set (running p)"
  using assms(3)
proof (induction rule: pool_steps.induct)
  case none
  with assms(4) show ?case by simp
next
  case (more p' p'')
  from more.hyps(2) show ?case
  proof (cases rule: pool_step.cases)
    case (works tid)
    with more.IH worker_turn_pending [OF assms(1)] assms(2) show ?thesis by blast
  qed (use more.IH in \<open>auto simp: shutdown_pending_def enqueue_def send_terminate_signal_def\<close>)
qed


lemma turn_shutdown:
  assumes "job_queue (pool_inbox p) = [request]" and "\<not> signal_terminate (pool_inbox p)" and "is_shutdown split request"
    and "echoed (shutdown_message tid)"
  shows "\<exists>p'. worker_turn split sv blank echoed tid p = Some (Inr p') \<and> job_queue (pool_inbox p') = [shutdown_message tid]
    \<and> \<not> signal_terminate (pool_inbox p') \<and> running p' = removeAll tid (running p)
    \<and> srv_sent (pool_server p') = srv_sent (pool_server p) @ [shutdown_message tid]"
proof -
  have "try_dequeue (pool_inbox p) = (Job request, (pool_inbox p)\<lparr>job_queue := []\<rparr>)"
    using assms(1,2) by (simp add: try_dequeue_def queue_empty_def)
  then show ?thesis
    using assms(2,4) shutdown_handled [OF assms(3), of sv blank tid "pool_server p"] by (simp add: worker_turn_def enqueue_def)
qed

lemma pool_steps_trans:
  "pool_steps split sv blank echoed p' p'' \<Longrightarrow> pool_steps split sv blank echoed p p' \<Longrightarrow> pool_steps split sv blank echoed p p''"
  by (induction rule: pool_steps.induct) (auto intro: pool_steps.more)

text \<open>
  C25: the workers can stop in any order. When the inbox holds nothing but a request to shut down, the
  workers that take their turns in any order all stop, and each of them has sent one request.
\<close>

theorem shutdown_stops_the_pool:
  assumes "tokenizer split" and "\<forall>tid \<in> set (running p). thread_name tid \<and> echoed (shutdown_message tid)"
    and "job_queue (pool_inbox p) = [request]" and "is_shutdown split request" and "\<not> signal_terminate (pool_inbox p)"
    and "distinct ws" and "set ws = set (running p)"
  shows "\<exists>p'. pool_steps split sv blank echoed p p' \<and> running p' = []
    \<and> srv_sent (pool_server p') = srv_sent (pool_server p) @ map shutdown_message ws"
  using assms(2-)
proof (induction ws arbitrary: p request)
  case Nil
  then show ?case by (intro exI [of _ p]) (simp add: pool_steps.none)
next
  case (Cons tid ws)
  have "echoed (shutdown_message tid)" using Cons.prems(1,6) by auto
  from turn_shutdown [where echoed = echoed and tid = tid and sv = sv and blank = blank, OF Cons.prems(2,4,3) this] obtain p1 where p1: "worker_turn split sv blank echoed tid p = Some (Inr p1)" "job_queue (pool_inbox p1) = [shutdown_message tid]"
      "\<not> signal_terminate (pool_inbox p1)" "running p1 = removeAll tid (running p)"
      "srv_sent (pool_server p1) = srv_sent (pool_server p) @ [shutdown_message tid]"
    by blast
  have running: "set ws = set (running p1)" using Cons.prems(5,6) p1(4) by auto
  have "pool_step split sv blank echoed p p1"
    using p1(1) Cons.prems(6) by (intro pool_step.works [of tid]) auto
  then have step: "pool_steps split sv blank echoed p p1" by (rule pool_steps.more [OF pool_steps.none])
  have "is_shutdown split (shutdown_message tid)"
    using shutdown_message_is_shutdown [OF assms(1)] Cons.prems(1,6) by auto
  with Cons.IH [OF _ p1(2) _ p1(3) _ running] Cons.prems(1,5) p1(4) obtain p' where
    "pool_steps split sv blank echoed p1 p'" "running p' = []" "srv_sent (pool_server p') = srv_sent (pool_server p1) @ map shutdown_message ws"
    by auto
  with step p1(5) show ?case by (intro exI [of _ p']) (simp add: pool_steps_trans)
qed

subsection \<open>An instance\<close>

definition sample_pool :: "bool pool" where
  "sample_pool = \<lparr>pool_server = \<lparr>apps = [], srv_storage = False, srv_sent = []\<rparr>,
     pool_inbox = enqueue \<lparr>topic = ''margot/system/console'', payload = ''shutdown''\<rparr> Queue, running = [''140'', ''141'']\<rparr>"

definition system_echo :: "message_model \<Rightarrow> bool" where
  "system_echo msg \<longleftrightarrow> take 14 (topic msg) = ''margot/system/''"

lemma sample_pool_request: "is_shutdown split_any_of \<lparr>topic = ''margot/system/console'', payload = ''shutdown''\<rparr>"
proof -
  have "\<lparr>topic = ''margot/system/console'', payload = ''shutdown''\<rparr> = shutdown_message ''console''"
    by (simp add: shutdown_message_def MESSAGE_HEADER_def)
  moreover have "thread_name ''console''" by (simp add: thread_name_def topic_accepted_characters_def)
  ultimately show ?thesis using shutdown_message_is_shutdown [OF sp.tokenizer_axioms] by simp
qed

lemma sample_pool_workers: "\<forall>tid \<in> set (running sample_pool). thread_name tid \<and> system_echo (shutdown_message tid)"
  by (simp add: sample_pool_def thread_name_def topic_accepted_characters_def system_echo_def shutdown_message_def MESSAGE_HEADER_def)


theorem shutdown_stops_the_pool_witness:
  "\<exists>p. pool_steps split_any_of sample_services sample_block system_echo sample_pool p \<and> running p = []
     \<and> srv_sent (pool_server p) = [\<lparr>topic = ''margot/system/141'', payload = ''shutdown''\<rparr>, \<lparr>topic = ''margot/system/140'', payload = ''shutdown''\<rparr>]"
  using shutdown_stops_the_pool [OF sp.tokenizer_axioms sample_pool_workers _ sample_pool_request, of "[''141'', ''140'']"
      sample_services sample_block]
  by (simp add: sample_pool_def enqueue_def Queue_def insert_commute shutdown_message_def MESSAGE_HEADER_def)

section \<open>The main thread\<close>

text \<open>
  The main thread visits the workers in order and waits for those that still run, on a condition
  variable and without a condition. \<open>flags_of\<close> are the members \<^verbatim>\<open>finished\<close> of the workers.
\<close>

datatype main_thread = Checking nat | About_to_wait nat | Asleep nat | Exited

record waiting_pool =
  finished_flags :: "bool list"
  main_at :: main_thread

definition start_workers :: "nat \<Rightarrow> waiting_pool" where
  "start_workers n = \<lparr>finished_flags = replicate n False, main_at = Checking 0\<rparr>"

definition worker_stop :: "nat \<Rightarrow> waiting_pool \<Rightarrow> waiting_pool" where
  "worker_stop j w =
     (if finished_flags w ! j then w
      else \<lparr>finished_flags = (finished_flags w)[j := True],
            main_at = (if main_at w = Asleep j then Checking (Suc j) else main_at w)\<rparr>)"

definition main_turn :: "waiting_pool \<Rightarrow> waiting_pool" where
  "main_turn w =
     (case main_at w of
        Checking i \<Rightarrow>
          if i < length (finished_flags w)
          then w\<lparr>main_at := (if finished_flags w ! i then Checking (Suc i) else About_to_wait i)\<rparr>
          else w\<lparr>main_at := Exited\<rparr>
      | About_to_wait i \<Rightarrow> w\<lparr>main_at := Asleep i\<rparr>
      | Asleep i \<Rightarrow> w
      | Exited \<Rightarrow> w)"

inductive wait_step :: "waiting_pool \<Rightarrow> waiting_pool \<Rightarrow> bool" where
  stops: "j < length (finished_flags w) \<Longrightarrow> wait_step w (worker_stop j w)"
| main: "wait_step w (main_turn w)"

inductive wait_reachable :: "nat \<Rightarrow> waiting_pool \<Rightarrow> bool" for n where
  begins: "wait_reachable n (start_workers n)"
| continues: "wait_reachable n w \<Longrightarrow> wait_step w w' \<Longrightarrow> wait_reachable n w'"

definition visited :: "waiting_pool \<Rightarrow> nat" where
  "visited w = (case main_at w of Checking i \<Rightarrow> i | About_to_wait i \<Rightarrow> i | Asleep i \<Rightarrow> i | Exited \<Rightarrow> length (finished_flags w))"

definition wait_inv :: "nat \<Rightarrow> waiting_pool \<Rightarrow> bool" where
  "wait_inv n w \<longleftrightarrow> length (finished_flags w) = n \<and> visited w \<le> n \<and> (\<forall>i < visited w. finished_flags w ! i)
     \<and> (case main_at w of About_to_wait i \<Rightarrow> i < n | Asleep i \<Rightarrow> i < n | _ \<Rightarrow> True)"

lemma wait_step_inv: "wait_step w w' \<Longrightarrow> wait_inv n w \<Longrightarrow> wait_inv n w'"
proof (induction rule: wait_step.induct)
  case (stops j w)
  then show ?case
    by (cases "main_at w") (auto simp: wait_inv_def worker_stop_def visited_def nth_list_update less_Suc_eq)
next
  case (main w)
  then show ?case
    by (cases "main_at w") (auto simp: wait_inv_def main_turn_def visited_def less_Suc_eq)
qed

lemma wait_reachable_inv: "wait_reachable n w \<Longrightarrow> wait_inv n w"
proof (induction rule: wait_reachable.induct)
  case begins
  then show ?case by (simp add: wait_inv_def start_workers_def visited_def)
qed (rule wait_step_inv)

text \<open>
  The main thread leaves only when all the workers have stopped, but it may wait for ever: a worker
  that stops between the check of its flag and the wait notifies nobody, and no step of any thread wakes
  the main thread up again. Spurious wake-ups apart, this state is final for the main thread.
\<close>

theorem main_thread_waits_for_all_or_for_ever:
  assumes "wait_reachable n w"
  shows "(main_at w = Exited \<longrightarrow> (\<forall>i < n. finished_flags w ! i))
    \<and> (0 < n \<longrightarrow> (\<exists>v. wait_reachable n v \<and> finished_flags v = replicate n True \<and> main_at v = Asleep 0
          \<and> (\<forall>v'. wait_step v v' \<longrightarrow> v' = v)))"
proof (rule conjI)
  show "main_at w = Exited \<longrightarrow> (\<forall>i < n. finished_flags w ! i)"
    using wait_reachable_inv [OF assms] by (auto simp: wait_inv_def visited_def)
  show "0 < n \<longrightarrow> (\<exists>v. wait_reachable n v \<and> finished_flags v = replicate n True \<and> main_at v = Asleep 0
      \<and> (\<forall>v'. wait_step v v' \<longrightarrow> v' = v))"
  proof
    assume n: "0 < n"
    let ?s = "\<lambda>k. \<lparr>finished_flags = replicate k True @ replicate (n - k) False, main_at = About_to_wait 0\<rparr>"
    have stopping: "wait_reachable n (?s k)" if "k \<le> n" for k
      using that
    proof (induction k)
      case 0
      have "main_turn (start_workers n) = ?s 0" using n by (simp add: main_turn_def start_workers_def)
      with wait_reachable.continues [OF wait_reachable.begins wait_step.main, of n] show ?case by simp
    next
      case (Suc k)
      then have "n - k = Suc (n - Suc k)" by simp
      then have "worker_stop k (?s k) = ?s (Suc k)"
        by (simp add: worker_stop_def nth_append list_update_append replicate_app_Cons_same)
      with Suc wait_reachable.continues [OF _ wait_step.stops, of n "?s k" k] show ?case by simp
    qed
    let ?v = "\<lparr>finished_flags = replicate n True, main_at = Asleep 0\<rparr>"
    have "main_turn (?s n) = ?v" by (simp add: main_turn_def)
    with wait_reachable.continues [OF stopping wait_step.main, of n] have "wait_reachable n ?v" by simp
    moreover have "v' = ?v" if "wait_step ?v v'" for v'
      using that by (cases rule: wait_step.cases) (simp_all add: worker_stop_def main_turn_def)
    ultimately show "\<exists>v. wait_reachable n v \<and> finished_flags v = replicate n True \<and> main_at v = Asleep 0
        \<and> (\<forall>v'. wait_step v v' \<longrightarrow> v' = v)" by (intro exI [of _ ?v]) simp
  qed
qed

theorem main_thread_waits_for_all_or_for_ever_witness:
  "\<exists>v. wait_reachable 3 v \<and> finished_flags v = [True, True, True] \<and> main_at v = Asleep 0"
  using main_thread_waits_for_all_or_for_ever [OF wait_reachable.begins [of 3]] by (simp add: numeral_3_eq_3) blast

end
