(* ===== verification/Agora_Storage.thy ===== *)
theory Agora_Storage
  imports Server_Description
begin

text \<open>
  The storage of the server: tables in CSV files (\<^verbatim>\<open>csv_fs_*.cpp\<close>) under a root directory, with one
  directory per application. A file system maps paths to contents; a file that cannot be opened for
  writing keeps its content. The CSV reader is vendored code and a parameter, with the law of the
  locale \<open>csv_library\<close>.
\<close>

section \<open>Files\<close>

type_synonym path = "string list"

record disk =
  files :: "path \<rightharpoonup> string"
  writable :: "path \<Rightarrow> bool"

definition write_file :: "path \<Rightarrow> string \<Rightarrow> disk \<Rightarrow> disk" where
  "write_file p content d = (if writable d p then d\<lparr>files := (files d)(p \<mapsto> content)\<rparr> else d)"

definition append_file :: "path \<Rightarrow> string \<Rightarrow> disk \<Rightarrow> disk" where
  "append_file p content d =
     write_file p ((case files d p of None \<Rightarrow> [] | Some old \<Rightarrow> old) @ content) d"

fun starts_with :: "path \<Rightarrow> path \<Rightarrow> bool" where
  "starts_with [] p = True"
| "starts_with (x # xs) [] = False"
| "starts_with (x # xs) (y # ys) \<longleftrightarrow> x = y \<and> starts_with xs ys"

definition remove_all :: "path \<Rightarrow> disk \<Rightarrow> disk" where
  "remove_all dir d = d\<lparr>files := (\<lambda>p. if starts_with dir p then None else files d p)\<rparr>"

definition path_string :: "path \<Rightarrow> string" where
  "path_string p = concat (map (\<lambda>c. CHR ''/'' # c) p)"

record storage_config =
  csv_storage_root_path :: path
  csv_separator :: char
  model_storage_root_path :: path

definition aid_path :: "application_id \<Rightarrow> path" where
  "aid_path a = [app_name a, version a, block_name a]"

definition csv_path :: "string \<Rightarrow> string \<Rightarrow> storage_config \<Rightarrow> application_id \<Rightarrow> path" where
  "csv_path dir name c a = csv_storage_root_path c @ [dir] @ aid_path a @ [name]"

abbreviation knobs_path :: "storage_config \<Rightarrow> application_id \<Rightarrow> path" where
  "knobs_path \<equiv> csv_path ''descriptions'' ''knobs.csv''"
abbreviation features_path :: "storage_config \<Rightarrow> application_id \<Rightarrow> path" where
  "features_path \<equiv> csv_path ''descriptions'' ''features.csv''"
abbreviation metrics_path :: "storage_config \<Rightarrow> application_id \<Rightarrow> path" where
  "metrics_path \<equiv> csv_path ''descriptions'' ''metrics.csv''"
abbreviation properties_path :: "storage_config \<Rightarrow> application_id \<Rightarrow> path" where
  "properties_path \<equiv> csv_path ''descriptions'' ''agora_properties.csv''"
abbreviation doe_parameters_path :: "storage_config \<Rightarrow> application_id \<Rightarrow> path" where
  "doe_parameters_path \<equiv> csv_path ''descriptions'' ''doe_parameters.csv''"
abbreviation clustering_parameters_path :: "storage_config \<Rightarrow> application_id \<Rightarrow> path" where
  "clustering_parameters_path \<equiv> csv_path ''descriptions'' ''clustering_parameters.csv''"
abbreviation model_parameters_path :: "storage_config \<Rightarrow> application_id \<Rightarrow> string \<Rightarrow> path" where
  "model_parameters_path c a metric \<equiv> csv_path ''descriptions'' (metric @ ''_model_parameters.csv'') c a"
abbreviation doe_path :: "storage_config \<Rightarrow> application_id \<Rightarrow> path" where
  "doe_path \<equiv> csv_path ''configurations'' ''doe_configs.csv''"
abbreviation total_configurations_path :: "storage_config \<Rightarrow> application_id \<Rightarrow> path" where
  "total_configurations_path \<equiv> csv_path ''configurations'' ''total_configs.csv''"
abbreviation prediction_path :: "storage_config \<Rightarrow> application_id \<Rightarrow> path" where
  "prediction_path \<equiv> csv_path ''predictions'' ''predictions.csv''"
abbreviation observation_path :: "storage_config \<Rightarrow> application_id \<Rightarrow> path" where
  "observation_path \<equiv> csv_path ''observations'' ''observations.csv''"
abbreviation cluster_path :: "storage_config \<Rightarrow> application_id \<Rightarrow> path" where
  "cluster_path \<equiv> csv_path ''clusters'' ''centroids.csv''"

definition models_path :: "storage_config \<Rightarrow> application_id \<Rightarrow> path" where
  "models_path c a = model_storage_root_path c @ aid_path a"

definition model_path :: "storage_config \<Rightarrow> application_id \<Rightarrow> string \<Rightarrow> path" where
  "model_path c a metric = models_path c a @ [metric @ ''_model.data'']"

section \<open>Tables\<close>

text \<open>A line of a table as the writers print it: always with commas.\<close>

fun separated :: "char \<Rightarrow> string list \<Rightarrow> string" where
  "separated sep [] = []"
| "separated sep [f] = f"
| "separated sep (f # g # fs) = f @ sep # separated sep (g # fs)"

definition csv_line :: "string list \<Rightarrow> string" where
  "csv_line fs = separated (CHR '','') fs @ [CHR 0x0A]"

definition quoted :: "string \<Rightarrow> string" where
  "quoted s = CHR 0x22 # s @ [CHR 0x22]"

type_synonym table = "string list \<times> string list list"

type_synonym csv_reader = "char \<Rightarrow> string \<Rightarrow> table result"

definition read_table :: "csv_reader \<Rightarrow> storage_config \<Rightarrow> path \<Rightarrow> disk \<Rightarrow> table result" where
  "read_table rd c p d =
     (case files d p of None \<Rightarrow> Inl (Runtime_error ''Cannot open file'') | Some content \<Rightarrow> rd (csv_separator c) content)"

text \<open>\<^verbatim>\<open>row[name]\<close>: the last column with that name, and an exception when there is none.\<close>

definition csv_at :: "string list \<Rightarrow> string list \<Rightarrow> string \<Rightarrow> string result" where
  "csv_at header row name =
     (case map_of (rev (zip header [0..<length header])) name of
        None \<Rightarrow> Inl (Runtime_error ''Can't find a column named'')
      | Some i \<Rightarrow> if i < length row then Inr (row ! i) else Inl (Runtime_error ''Index out of bounds.''))"

text \<open>
  The loop over the rows of a table inside a \<^verbatim>\<open>try\<close> block: an exception ends it, and what was read
  before stays.
\<close>

fun load_rows :: "('r \<Rightarrow> 'a \<Rightarrow> 'a result) \<Rightarrow> 'r list \<Rightarrow> 'a \<Rightarrow> 'a \<times> bool" where
  "load_rows step [] acc = (acc, True)"
| "load_rows step (r # rs) acc = (case step r acc of Inl e \<Rightarrow> (acc, False) | Inr acc' \<Rightarrow> load_rows step rs acc')"

definition load_table ::
    "csv_reader \<Rightarrow> storage_config \<Rightarrow> disk \<Rightarrow> path \<Rightarrow> (string list \<Rightarrow> string list \<Rightarrow> 'a \<Rightarrow> 'a result) \<Rightarrow> 'a \<times> bool \<Rightarrow> 'a \<times> bool" where
  "load_table rd c d p step st =
     (if snd st
      then (case read_table rd c p d of Inl e \<Rightarrow> (fst st, False) | Inr (header, rows) \<Rightarrow> load_rows (step header) rows (fst st))
      else st)"

section \<open>Design of experiments\<close>

definition doe_header :: "block_model \<Rightarrow> string list" where
  "doe_header blk = ''config_id'' # ''counter'' # map knob_name (block_knobs blk)"

definition doe_row :: "block_model \<Rightarrow> configuration_model \<Rightarrow> string list result" where
  "doe_row blk e =
     bind_result (traverse (\<lambda>k. std_at (configuration e) (knob_name k)) (block_knobs blk)) (\<lambda>vs.
       Inr (configuration_id e # std_to_string (number_of_explorations e) # vs))"

text \<open>A value that is missing throws while the rows are printed; the file that is left then is not described.\<close>

definition store_doe :: "storage_config \<Rightarrow> application_id \<Rightarrow> block_model \<Rightarrow> doe_model \<Rightarrow> disk \<Rightarrow> disk result" where
  "store_doe c a blk m d =
     bind_result (traverse (doe_row blk) (required_explorations m)) (\<lambda>rows.
       Inr (write_file (doe_path c a) (concat (map csv_line (doe_header blk # rows))) d))"

definition load_configuration :: "block_model \<Rightarrow> string list \<Rightarrow> string list \<Rightarrow> configuration_t result" where
  "load_configuration blk header row =
     traverse (\<lambda>k. bind_result (csv_at header row (knob_name k)) (\<lambda>v. Inr (knob_name k, v))) (block_knobs blk)"

definition load_doe_row :: "block_model \<Rightarrow> string list \<Rightarrow> string list \<Rightarrow> doe_model \<Rightarrow> doe_model result" where
  "load_doe_row blk header row m =
     bind_result (csv_at header row ''config_id'') (\<lambda>config_id.
     bind_result (bind_result (csv_at header row ''counter'') std_stoi) (\<lambda>counter.
       if counter > 0
       then bind_result (load_configuration blk header row) (\<lambda>config. Inr (add_config config_id config counter m))
       else Inr m))"

definition csv_load_doe :: "csv_reader \<Rightarrow> storage_config \<Rightarrow> application_id \<Rightarrow> block_model \<Rightarrow> disk \<Rightarrow> doe_model" where
  "csv_load_doe rd c a blk d = fst (load_table rd c d (doe_path c a) (load_doe_row blk) (doe_empty, True))"

definition empty_doe_entries :: "storage_config \<Rightarrow> application_id \<Rightarrow> block_model \<Rightarrow> disk \<Rightarrow> disk" where
  "empty_doe_entries c a blk d = write_file (doe_path c a) (csv_line (doe_header blk)) d"

section \<open>Observations\<close>

definition observation_header :: "block_model \<Rightarrow> string list" where
  "observation_header blk =
     [''sec'', ''nanosec'', ''client_id''] @ map knob_name (block_knobs blk)
       @ map feature_name (feature_fields (block_features blk)) @ map metric_name (block_metrics blk)"

definition csv_create_observation_table :: "storage_config \<Rightarrow> application_id \<Rightarrow> block_model \<Rightarrow> disk \<Rightarrow> disk" where
  "csv_create_observation_table c a blk d = write_file (observation_path c a) (csv_line (observation_header blk)) d"

definition observation_row :: "string \<Rightarrow> int \<Rightarrow> int \<Rightarrow> operating_point_model \<Rightarrow> string list" where
  "observation_row client_id duration_sec duration_ns op =
     [std_to_string duration_sec, std_to_string duration_ns, client_id]
       @ map value_mean (op_knobs op) @ map value_mean (op_features op) @ map value_mean (op_metrics op)"

definition csv_insert_observation_entry ::
    "storage_config \<Rightarrow> application_id \<Rightarrow> string \<Rightarrow> int \<Rightarrow> int \<Rightarrow> operating_point_model \<Rightarrow> disk \<Rightarrow> disk" where
  "csv_insert_observation_entry c a client_id duration_sec duration_ns op d =
     append_file (observation_path c a) (csv_line (observation_row client_id duration_sec duration_ns op)) d"

section \<open>Predictions\<close>

definition prediction_header :: "block_model \<Rightarrow> string list" where
  "prediction_header blk =
     ''pred_id'' # map knob_name (block_knobs blk) @ map feature_name (feature_fields (block_features blk))
       @ concat (map (\<lambda>m. [metric_name m @ ''_avg'', metric_name m @ ''_std'']) (block_metrics blk))"

definition prediction_row :: "block_model \<Rightarrow> prediction_model \<Rightarrow> string \<times> configuration_t \<Rightarrow> string list result" where
  "prediction_row blk p e =
     (let fs = feature_fields (block_features blk)
      in bind_result (traverse (\<lambda>k. std_at (snd e) (knob_name k)) (block_knobs blk)) (\<lambda>ks.
         bind_result
           (if fs \<noteq> []
            then bind_result (std_at (predicted_features p) (fst e)) (\<lambda>fvs. traverse (\<lambda>f. std_at fvs (feature_name f)) fs)
            else Inr []) (\<lambda>fvs.
         bind_result (std_at (predicted_results p) (fst e)) (\<lambda>mvs.
         bind_result (traverse (\<lambda>m. std_at mvs (metric_name m)) (block_metrics blk)) (\<lambda>ms.
           Inr (fst e # ks @ fvs @ concat (map (\<lambda>v. [avg v, std v]) ms)))))))"

definition store_prediction ::
    "storage_config \<Rightarrow> application_id \<Rightarrow> block_model \<Rightarrow> prediction_model \<Rightarrow> disk \<Rightarrow> disk result" where
  "store_prediction c a blk p d =
     bind_result (traverse (prediction_row blk p) (configurations p)) (\<lambda>rows.
       Inr (write_file (prediction_path c a) (concat (map csv_line (prediction_header blk # rows))) d))"

definition load_prediction_row :: "block_model \<Rightarrow> string list \<Rightarrow> string list \<Rightarrow> prediction_model \<Rightarrow> prediction_model result" where
  "load_prediction_row blk header row p =
     bind_result (load_configuration blk header row) (\<lambda>config.
     bind_result (traverse (\<lambda>f. bind_result (csv_at header row (feature_name f)) (\<lambda>v. Inr (feature_name f, v)))
         (feature_fields (block_features blk))) (\<lambda>fvs.
     bind_result (traverse (\<lambda>m. bind_result (csv_at header row (metric_name m @ ''_avg'')) (\<lambda>mean.
           bind_result (csv_at header row (metric_name m @ ''_std'')) (\<lambda>deviation.
             Inr (metric_name m, \<lparr>avg = mean, std = deviation\<rparr>)))) (block_metrics blk)) (\<lambda>output.
     bind_result (csv_at header row ''pred_id'') (\<lambda>pred_id. Inr (snd (add_result pred_id config fvs output p))))))"

definition csv_load_prediction ::
    "csv_reader \<Rightarrow> storage_config \<Rightarrow> application_id \<Rightarrow> block_model \<Rightarrow> disk \<Rightarrow> prediction_model" where
  "csv_load_prediction rd c a blk d =
     fst (load_table rd c d (prediction_path c a) (load_prediction_row blk) (prediction_empty, True))"

section \<open>Clusters\<close>

definition cluster_header :: "block_model \<Rightarrow> string list" where
  "cluster_header blk = ''centroid_id'' # map feature_name (feature_fields (block_features blk))"

definition store_cluster :: "storage_config \<Rightarrow> application_id \<Rightarrow> block_model \<Rightarrow> cluster_model \<Rightarrow> disk \<Rightarrow> disk" where
  "store_cluster c a blk m d =
     write_file (cluster_path c a)
       (concat (map csv_line (cluster_header blk # map (\<lambda>e. fst e # snd e) (centroids m)))) d"

definition load_cluster_row :: "block_model \<Rightarrow> string list \<Rightarrow> string list \<Rightarrow> cluster_model \<Rightarrow> cluster_model result" where
  "load_cluster_row blk header row m =
     bind_result (csv_at header row ''centroid_id'') (\<lambda>centroid_id.
     bind_result (traverse (\<lambda>f. csv_at header row (feature_name f)) (feature_fields (block_features blk))) (\<lambda>centroid.
       Inr (snd (add_centroid centroid_id centroid m))))"

definition csv_load_cluster :: "csv_reader \<Rightarrow> storage_config \<Rightarrow> application_id \<Rightarrow> block_model \<Rightarrow> disk \<Rightarrow> cluster_model" where
  "csv_load_cluster rd c a blk d = fst (load_table rd c d (cluster_path c a) (load_cluster_row blk) (cluster_empty, True))"

section \<open>Descriptions\<close>

definition write_checked :: "path \<Rightarrow> string \<Rightarrow> disk \<Rightarrow> disk result" where
  "write_checked p content d =
     (if writable d p then Inr (write_file p content d)
      else Inl (Runtime_error ''Csv description: unable to open/create file''))"

definition parameter_lines :: "pair_property list \<Rightarrow> string" where
  "parameter_lines ps =
     concat (map csv_line ([''parameter_name'', ''value''] # map (\<lambda>p. [prop_key p, quoted (prop_value p)]) ps))"

definition knob_row :: "knob_model \<Rightarrow> string list result" where
  "knob_row k =
     (case knob_values k of [] \<Rightarrow> Inl (Undefined_behaviour ''front of an empty vector'')
      | vs \<Rightarrow> Inr [knob_name k, knob_type k, separated (CHR '';'') vs])"

definition property_rows :: "agora_model \<Rightarrow> string list list" where
  "property_rows ag =
     [[''doe_plugin'', doe_plugin ag], [''clustering_plugin'', clustering_plugin ag],
      [''number_configurations_per_iteration'', number_configurations_per_iteration ag],
      [''number_observations_per_configuration'', number_observations_per_configuration ag],
      [''max_number_iteration'', max_number_iteration ag]]"

fun store_model_parameters :: "storage_config \<Rightarrow> application_id \<Rightarrow> metric_model list \<Rightarrow> disk \<Rightarrow> disk result" where
  "store_model_parameters c a [] d = Inr d"
| "store_model_parameters c a (m # ms) d =
     bind_result
       (if prediction_parameters m \<noteq> []
        then write_checked (model_parameters_path c a (metric_name m)) (parameter_lines (prediction_parameters m)) d
        else Inr d) (store_model_parameters c a ms)"

definition csv_store_description :: "storage_config \<Rightarrow> application_id \<Rightarrow> block_model \<Rightarrow> disk \<Rightarrow> disk result" where
  "csv_store_description c a blk d0 =
     bind_result (if writable d0 (knobs_path c a) then traverse knob_row (block_knobs blk)
                  else Inl (Runtime_error ''Csv description: unable to open/create file'')) (\<lambda>rows.
     bind_result (write_checked (knobs_path c a) (concat (map csv_line ([''name'', ''type'', ''values''] # rows))) d0) (\<lambda>d1.
     bind_result (write_checked (metrics_path c a) (concat (map csv_line ([''name'', ''type'', ''prediction'']
         # map (\<lambda>m. [metric_name m, metric_type m, prediction_plugin m]) (block_metrics blk)))) d1) (\<lambda>d2.
     bind_result (write_checked (features_path c a) (concat (map csv_line ([''name'', ''type'']
         # map (\<lambda>f. [feature_name f, feature_type f]) (feature_fields (block_features blk))))) d2) (\<lambda>d3.
     bind_result (write_checked (properties_path c a)
         (concat (map csv_line ([''property_name'', ''value''] # property_rows (block_agora blk)))) d3) (\<lambda>d4.
     bind_result (store_model_parameters c a (block_metrics blk) d4) (\<lambda>d5.
     bind_result (write_checked (doe_parameters_path c a) (parameter_lines (doe_parameters (block_agora blk))) d5) (\<lambda>d6.
       write_checked (clustering_parameters_path c a) (parameter_lines (clustering_parameters (block_agora blk))) d6)))))))"

text \<open>\<^verbatim>\<open>resolve_setting_type\<close> of \<^verbatim>\<open>agora_properties.hpp\<close>.\<close>

datatype AgoraSettingType = Invalid_Setting | Number_Config_Per_Iter | Number_Obs_Per_Config | Max_Number_Iter
  | Doe_Plugin | Clustering_Plugin | Storage_Type | Storage_Address | Storage_Username | Storage_Password

definition resolve_setting_type :: "string \<Rightarrow> AgoraSettingType" where
  "resolve_setting_type input =
     (case map_of [(''number_configurations_per_iteration'', Number_Config_Per_Iter),
         (''number_observations_per_configuration'', Number_Obs_Per_Config), (''max_number_iteration'', Max_Number_Iter),
         (''storage_type'', Storage_Type), (''storage_address'', Storage_Address), (''storage_username'', Storage_Username),
         (''storage_password'', Storage_Password), (''doe_plugin'', Doe_Plugin), (''clustering_plugin'', Clustering_Plugin)] input of
        None \<Rightarrow> Invalid_Setting | Some t \<Rightarrow> t)"

text \<open>The strings that \<^verbatim>\<open>std::getline\<close> reads up to a separator: nothing after the last separator.\<close>

definition getlines :: "char \<Rightarrow> string \<Rightarrow> string list" where
  "getlines sep s = (let ps = split_any_of s [sep] in if last ps = [] then butlast ps else ps)"

definition load_knob_row :: "string list \<Rightarrow> string list \<Rightarrow> block_model \<Rightarrow> block_model result" where
  "load_knob_row header row blk =
     bind_result (csv_at header row ''name'') (\<lambda>name.
     bind_result (csv_at header row ''type'') (\<lambda>type.
     bind_result (csv_at header row ''values'') (\<lambda>values.
       Inr (blk\<lparr>block_knobs := block_knobs blk @ [\<lparr>knob_name = name, knob_type = type, knob_values = getlines (CHR '';'') values\<rparr>]\<rparr>))))"

definition load_feature_row :: "string list \<Rightarrow> string list \<Rightarrow> block_model \<Rightarrow> block_model result" where
  "load_feature_row header row blk =
     bind_result (csv_at header row ''name'') (\<lambda>name.
     bind_result (csv_at header row ''type'') (\<lambda>type.
       Inr (features_fields_update
              (\<lambda>fs. fs @ [\<lparr>feature_name = name, feature_type = type, feature_comparison = Distance_LESS_OR_EQUAL\<rparr>]) blk)))"

definition load_metric_row :: "string list \<Rightarrow> string list \<Rightarrow> block_model \<Rightarrow> block_model result" where
  "load_metric_row header row blk =
     bind_result (csv_at header row ''name'') (\<lambda>name.
     bind_result (csv_at header row ''type'') (\<lambda>type.
     bind_result (csv_at header row ''prediction'') (\<lambda>predictor.
       Inr (blk\<lparr>block_metrics := block_metrics blk @ [\<lparr>metric_name = name, metric_type = type, distribution = False,
              prediction_plugin = predictor, observed_by = [], inertia = 0, prediction_parameters = []\<rparr>]\<rparr>))))"

definition load_property_row :: "string list \<Rightarrow> string list \<Rightarrow> block_model \<Rightarrow> block_model result" where
  "load_property_row header row blk =
     bind_result (csv_at header row ''property_name'') (\<lambda>property_name.
     bind_result (csv_at header row ''value'') (\<lambda>v.
       let ag = block_agora blk
       in Inr (blk\<lparr>block_agora :=
            (case resolve_setting_type property_name of
               Number_Config_Per_Iter \<Rightarrow> ag\<lparr>number_configurations_per_iteration := v\<rparr>
             | Number_Obs_Per_Config \<Rightarrow> ag\<lparr>number_observations_per_configuration := v\<rparr>
             | Max_Number_Iter \<Rightarrow> ag\<lparr>max_number_iteration := v\<rparr>
             | Doe_Plugin \<Rightarrow> ag\<lparr>doe_plugin := v\<rparr>
             | Clustering_Plugin \<Rightarrow> ag\<lparr>clustering_plugin := v\<rparr>
             | _ \<Rightarrow> ag)\<rparr>)))"

definition load_parameter ::
    "(pair_property \<Rightarrow> 'a \<Rightarrow> 'a) \<Rightarrow> string list \<Rightarrow> string list \<Rightarrow> 'a \<Rightarrow> 'a result" where
  "load_parameter add header row x =
     bind_result (csv_at header row ''parameter_name'') (\<lambda>k.
     bind_result (csv_at header row ''value'') (\<lambda>v. Inr (add \<lparr>prop_key = k, prop_value = v\<rparr> x)))"

definition add_model_parameter :: "nat \<Rightarrow> pair_property \<Rightarrow> block_model \<Rightarrow> block_model" where
  "add_model_parameter i param blk =
     blk\<lparr>block_metrics := (block_metrics blk)
       [i := (block_metrics blk ! i)\<lparr>prediction_parameters := prediction_parameters (block_metrics blk ! i) @ [param]\<rparr>]\<rparr>"

definition add_doe_parameter :: "pair_property \<Rightarrow> block_model \<Rightarrow> block_model" where
  "add_doe_parameter param blk =
     blk\<lparr>block_agora := (block_agora blk)\<lparr>doe_parameters := doe_parameters (block_agora blk) @ [param]\<rparr>\<rparr>"

definition add_clustering_parameter :: "pair_property \<Rightarrow> block_model \<Rightarrow> block_model" where
  "add_clustering_parameter param blk =
     blk\<lparr>block_agora := (block_agora blk)\<lparr>clustering_parameters := clustering_parameters (block_agora blk) @ [param]\<rparr>\<rparr>"

text \<open>
  One \<^verbatim>\<open>try\<close> block around all the tables: the first table or row that cannot be read ends the loading.
  The members that the loader does not write are those of the blank block.
\<close>

definition load_description :: "csv_reader \<Rightarrow> storage_config \<Rightarrow> application_id \<Rightarrow> disk \<Rightarrow> block_model" where
  "load_description rd c a d =
     (let st0 = (blank_block\<lparr>block_id := block_name a\<rparr>, True);
          st1 = load_table rd c d (knobs_path c a) load_knob_row st0;
          st2 = load_table rd c d (features_path c a) load_feature_row st1;
          st3 = load_table rd c d (metrics_path c a) load_metric_row st2;
          st4 = load_table rd c d (properties_path c a) load_property_row st3;
          st5 = fold (\<lambda>i st. load_table rd c d (model_parameters_path c a (metric_name (block_metrics (fst st) ! i)))
                               (load_parameter (add_model_parameter i)) st) [0..<length (block_metrics (fst st4))] st4;
          st6 = load_table rd c d (doe_parameters_path c a) (load_parameter add_doe_parameter) st5;
          st7 = load_table rd c d (clustering_parameters_path c a) (load_parameter add_clustering_parameter) st6
      in fst st7)"

section \<open>The storage as a service\<close>

definition csv_is_model_valid :: "storage_config \<Rightarrow> application_id \<Rightarrow> string \<Rightarrow> disk \<Rightarrow> bool" where
  "csv_is_model_valid c a metric d \<longleftrightarrow> files d (model_path c a metric) \<noteq> None"

definition csv_erase :: "storage_config \<Rightarrow> application_id \<Rightarrow> disk \<Rightarrow> disk" where
  "csv_erase c a d =
     fold remove_all [csv_storage_root_path c @ [''descriptions''] @ aid_path a, csv_storage_root_path c @ [''configurations''] @ aid_path a,
       csv_storage_root_path c @ [''predictions''] @ aid_path a, models_path c a,
       csv_storage_root_path c @ [''observations''] @ aid_path a, csv_storage_root_path c @ [''clusters''] @ aid_path a] d"

definition csv_names :: "storage_config \<Rightarrow> containers" where
  "csv_names c = \<lparr>get_properties_name = path_string \<circ> properties_path c, get_knobs_name = path_string \<circ> knobs_path c,
     get_metrics_name = path_string \<circ> metrics_path c, get_features_name = path_string \<circ> features_path c,
     get_doe_parameters_name = path_string \<circ> doe_parameters_path c,
     get_clustering_parameters_name = path_string \<circ> clustering_parameters_path c,
     get_model_parameters_name = (\<lambda>a m. path_string (model_parameters_path c a m)), get_doe_name = path_string \<circ> doe_path c,
     get_total_configurations_name = path_string \<circ> total_configurations_path c,
     get_prediction_name = path_string \<circ> prediction_path c, get_model_name = (\<lambda>a m. path_string (model_path c a m)),
     get_models_path = path_string \<circ> models_path c, get_cluster_name = path_string \<circ> cluster_path c,
     get_observation_name = path_string \<circ> observation_path c, get_type = (\<lambda>_. ''csv'')\<rparr>"

text \<open>\<^verbatim>\<open>FsHandler\<close> with the CSV storage: the other services stay as they are.\<close>

definition csv_services :: "csv_reader \<Rightarrow> storage_config \<Rightarrow> disk services \<Rightarrow> disk services" where
  "csv_services rd c sv = sv\<lparr>names := csv_names c, load_doe := csv_load_doe rd c, load_prediction := csv_load_prediction rd c,
     load_cluster := csv_load_cluster rd c, is_model_valid := csv_is_model_valid c,
     store_description := csv_store_description c, create_observation_table := csv_create_observation_table c,
     insert_observation_entry := csv_insert_observation_entry c\<rparr>"

end
