(* ===== verification/Agora_Storage_Laws.thy ===== *)
theory Agora_Storage_Laws
  imports Agora_Storage
begin

text \<open>
  What the storage gives back. The CSV reader enters through the locale \<open>csv_library\<close>: it reads the
  lines that the writers print, provided that the fields are free of special characters or quoted.
  A small reader with that law is the instance for the examples.
\<close>

section \<open>The reader\<close>

definition plain_field :: "char \<Rightarrow> string \<Rightarrow> bool" where
  "plain_field sep s \<longleftrightarrow> set s \<inter> {sep, CHR 0x22, CHR 0x0A, CHR 0x0D} = {}"

definition field_reads :: "char \<Rightarrow> string \<Rightarrow> string \<Rightarrow> bool" where
  "field_reads sep printed v \<longleftrightarrow>
     plain_field sep printed \<and> v = printed \<or> printed = quoted v \<and> set v \<inter> {CHR 0x22, CHR 0x0A, CHR 0x0D} = {}"

definition printed_line :: "char \<Rightarrow> string list \<Rightarrow> string" where
  "printed_line sep fs = separated sep fs @ [CHR 0x0A]"

locale csv_library =
  fixes csv_read :: csv_reader
  assumes reads: "sep \<notin> {CHR 0x22, CHR 0x0A, CHR 0x0D} \<Longrightarrow> list_all2 (list_all2 (field_reads sep)) printed (header # rows) \<Longrightarrow>
    header \<noteq> [] \<Longrightarrow> \<forall>r \<in> set rows. length r = length header \<Longrightarrow> [[]] \<notin> set printed \<Longrightarrow>
    csv_read sep (concat (map (printed_line sep) printed)) = Inr (header, rows)"

subsection \<open>An instance\<close>

fun split_fields :: "char \<Rightarrow> bool \<Rightarrow> string \<Rightarrow> string list" where
  "split_fields sep q [] = [[]]"
| "split_fields sep q (c # s) =
     (if c = CHR 0x22 then split_fields sep (\<not> q) s
      else if c = sep \<and> \<not> q then [] # split_fields sep False s
      else case split_fields sep q s of [] \<Rightarrow> [[c]] | t # ts \<Rightarrow> (c # t) # ts)"

definition std_csv_read :: csv_reader where
  "std_csv_read sep content =
     (case map (split_fields sep False) (butlast (split_any_of content [CHR 0x0A])) of
        [] \<Rightarrow> Inl (Runtime_error ''empty file'')
      | header # rows \<Rightarrow> Inr (header, filter (\<lambda>r. length r = length header) rows))"

lemma split_fields_not_Nil: "split_fields sep q s \<noteq> []"
  by (induction s arbitrary: q) (auto split: list.splits)

lemma split_fields_plain:
  "plain_field sep f \<Longrightarrow> split_fields sep False (f @ s) = (f @ hd (split_fields sep False s)) # tl (split_fields sep False s)"
proof (induction f)
  case Nil
  then show ?case by (simp add: split_fields_not_Nil)
qed (auto simp: plain_field_def)

lemma split_fields_inside:
  "CHR 0x22 \<notin> set v \<Longrightarrow> split_fields sep True (v @ CHR 0x22 # s) = (v @ hd (split_fields sep False s)) # tl (split_fields sep False s)"
  by (induction v) (auto simp: split_fields_not_Nil)

lemma split_fields_field:
  assumes "field_reads sep f v"
  shows "split_fields sep False (f @ s) = (v @ hd (split_fields sep False s)) # tl (split_fields sep False s)"
proof (cases "plain_field sep f \<and> v = f")
  case True
  with split_fields_plain show ?thesis by blast
next
  case False
  with assms have "f = quoted v" "CHR 0x22 \<notin> set v" by (auto simp: field_reads_def)
  with split_fields_inside [of v sep s] show ?thesis by (simp add: quoted_def)
qed

lemma split_fields_separated:
  assumes "sep \<noteq> CHR 0x22"
  shows "list_all2 (field_reads sep) fs vs \<Longrightarrow> fs \<noteq> [] \<Longrightarrow> split_fields sep False (separated sep fs) = vs"
proof (induction fs arbitrary: vs rule: induct_list012)
  case (2 f)
  then obtain v where "vs = [v]" "field_reads sep f v" by (auto simp: list_all2_Cons1)
  with split_fields_field [of sep f v "[]"] show ?case by simp
next
  case (3 f g fs)
  then obtain v vs' where v: "vs = v # vs'" "field_reads sep f v" "list_all2 (field_reads sep) (g # fs) vs'"
    by (auto simp: list_all2_Cons1)
  with 3 show ?case using assms split_fields_field [of sep f v "sep # separated sep (g # fs)"] by simp
qed simp

lemma field_reads_no_newline: "field_reads sep f v \<Longrightarrow> CHR 0x0A \<notin> set f"
  by (auto simp: field_reads_def plain_field_def quoted_def)

lemma separated_no_newline:
  assumes "sep \<noteq> CHR 0x0A"
  shows "list_all2 (field_reads sep) fs vs \<Longrightarrow> CHR 0x0A \<notin> set (separated sep fs)"
proof (induction fs arbitrary: vs rule: induct_list012)
  case (2 f)
  then show ?case by (auto simp: list_all2_Cons1 dest: field_reads_no_newline)
next
  case (3 f g fs)
  then obtain v vs' where v: "field_reads sep f v" "list_all2 (field_reads sep) (g # fs) vs'"
    by (auto simp: list_all2_Cons1)
  with 3 show ?case using assms by (auto dest: field_reads_no_newline)
qed simp

lemma list_all2_member: "list_all2 P xs ys \<Longrightarrow> x \<in> set xs \<Longrightarrow> \<exists>y \<in> set ys. P x y"
  by (induction rule: list_all2_induct) auto

lemma list_all2_map_eq: "list_all2 P xs ys \<Longrightarrow> (\<And>x y. P x y \<Longrightarrow> y \<in> set ys \<Longrightarrow> f x = y) \<Longrightarrow> map f xs = ys"
  by (induction rule: list_all2_induct) auto

lemma split_lines:
  assumes "\<And>l. l \<in> set ls \<Longrightarrow> CHR 0x0A \<notin> set l"
  shows "split_any_of (concat (map (\<lambda>l. l @ [CHR 0x0A]) ls)) [CHR 0x0A] = ls @ [[]]"
  using assms
proof (induction ls)
  case (Cons l ls)
  then show ?case using split_any_of_at [of l "[CHR 0x0A]" "CHR 0x0A"] by simp
qed simp

lemma std_csv_reads:
  assumes sep: "sep \<notin> {CHR 0x22, CHR 0x0A, CHR 0x0D}"
    and p: "list_all2 (list_all2 (field_reads sep)) printed (header # rows)"
    and h: "header \<noteq> []" "\<forall>r \<in> set rows. length r = length header"
  shows "std_csv_read sep (concat (map (printed_line sep) printed)) = Inr (header, rows)"
proof -
  have lines: "CHR 0x0A \<notin> set (separated sep fs)" if "fs \<in> set printed" for fs
    using list_all2_member [OF p that] sep separated_no_newline by blast
  have fields: "split_fields sep False (separated sep fs) = vs" if "list_all2 (field_reads sep) fs vs" "vs \<in> set (header # rows)" for fs vs
  proof -
    from that(2) h have "vs \<noteq> []" by auto
    with that(1) have "fs \<noteq> []" by auto
    with that(1) sep show ?thesis by (simp add: split_fields_separated)
  qed
  have "map (split_fields sep False \<circ> separated sep) printed = header # rows"
    by (rule list_all2_map_eq [OF p]) (simp only: o_apply fields)
  moreover have "concat (map (printed_line sep) printed) = concat (map (\<lambda>l. l @ [CHR 0x0A]) (map (separated sep) printed))"
    by (simp add: printed_line_def [abs_def] o_def)
  moreover have "split_any_of (concat (map (\<lambda>l. l @ [CHR 0x0A]) (map (separated sep) printed))) [CHR 0x0A] = map (separated sep) printed @ [[]]"
    by (rule split_lines) (use lines in auto)
  moreover have "filter (\<lambda>r. length r = length header) rows = rows" using h by (simp add: filter_id_conv)
  ultimately show ?thesis by (simp add: std_csv_read_def)
qed

interpretation std_csv: csv_library std_csv_read
  by unfold_locales (rule std_csv_reads)

section \<open>Tables that were written\<close>

abbreviation comma :: char where "comma \<equiv> CHR '',''"

abbreviation plain :: "string \<Rightarrow> bool" where "plain \<equiv> plain_field comma"

definition table_text :: "string list list \<Rightarrow> string" where
  "table_text printed = concat (map csv_line printed)"

lemma plain_reads [intro]: "plain_field sep f \<Longrightarrow> field_reads sep f f"
  by (simp add: field_reads_def)

lemma plain_number [simp]: "plain (std_to_string i)"
proof -
  have "\<not> (is_digit x \<or> x = CHR ''-'')" if "x \<in> {comma, CHR 0x22, CHR 0x0A, CHR 0x0D}" for x
    using that by (auto simp: is_digit_def)
  with std_to_string_chars [of _ i] show ?thesis unfolding plain_field_def by blast
qed

lemma plain_reads_list: "\<forall>f \<in> set fs. plain_field sep f \<Longrightarrow> list_all2 (field_reads sep) fs fs"
  by (intro list.rel_refl_strong plain_reads) blast

context csv_library begin

lemma read_written:
  assumes "csv_separator c = comma" and "files d p = Some (table_text printed)"
    and "list_all2 (list_all2 (field_reads comma)) printed (header # rows)"
    and "length header > 1" and "\<forall>r \<in> set rows. length r = length header"
  shows "read_table csv_read c p d = Inr (header, rows)"
proof -
  have "[[]] \<notin> set printed"
  proof
    assume "[[]] \<in> set printed"
    from list_all2_member [OF assms(3) this] obtain vs
      where vs: "vs \<in> set (header # rows)" "list_all2 (field_reads comma) [[]] vs" by blast
    from vs(2) have "length vs = 1" by (simp add: list_all2_lengthD [symmetric])
    moreover from vs(1) have "vs = header \<or> vs \<in> set rows" by simp
    ultimately show False using assms(4,5) by fastforce
  qed
  moreover have "table_text printed = concat (map (printed_line comma) printed)"
    by (simp add: table_text_def csv_line_def [abs_def] printed_line_def [abs_def])
  moreover have "header \<noteq> []" using assms(4) by auto
  ultimately have "csv_read comma (table_text printed) = Inr (header, rows)"
    using reads [OF _ assms(3)] assms(5) by simp
  then show ?thesis using assms(1,2) by (simp add: read_table_def)
qed

lemma load_written:
  assumes "csv_separator c = comma" and "files d p = Some (table_text printed)"
    and "list_all2 (list_all2 (field_reads comma)) printed (header # rows)"
    and "length header > 1" and "\<forall>r \<in> set rows. length r = length header"
    and "snd st"
  shows "load_table csv_read c d p step st = load_rows (step header) rows (fst st)"
  using read_written [OF assms(1-5)] assms(6) by (simp add: load_table_def)

end

lemma load_rows_fold:
  assumes "\<And>r acc. r \<in> set rs \<Longrightarrow> step r acc = Inr (f r acc)"
  shows "load_rows step rs acc = (fold f rs acc, True)"
  using assms by (induction rs arbitrary: acc) auto

lemma load_rows_map: "load_rows step (map g rs) acc = load_rows (\<lambda>r. step (g r)) rs acc"
  by (induction rs arbitrary: acc) (auto split: sum.split)

lemma csv_at_nth:
  assumes "distinct header" and "length row = length header" and "i < length header"
  shows "csv_at header row (header ! i) = Inr (row ! i)"
proof -
  have "map_of (rev (zip header [0..<length header])) (header ! i) = Some i"
    using assms by (simp add: map_of_eq_Some_iff rev_map [symmetric] in_set_zip) (auto intro!: exI [of _ i])
  then show ?thesis using assms by (simp add: csv_at_def)
qed

lemma csv_at_slice:
  assumes "distinct (hs @ ns @ hs')" and "length rs = length hs" and "length vs = length ns" and "length rs' = length hs'"
  shows "list_all2 (\<lambda>n v. csv_at (hs @ ns @ hs') (rs @ vs @ rs') n = Inr v) ns vs"
proof (rule list_all2_all_nthI)
  fix i assume i: "i < length ns"
  then show "csv_at (hs @ ns @ hs') (rs @ vs @ rs') (ns ! i) = Inr (vs ! i)"
    using csv_at_nth [of "hs @ ns @ hs'" "rs @ vs @ rs'" "length hs + i"] assms by (simp add: nth_append)
qed (use assms in simp)

section \<open>Design of experiments\<close>

text \<open>What is left of an entry: the values of the knobs of the block.\<close>

definition stored_values :: "block_model \<Rightarrow> configuration_t \<Rightarrow> configuration_t" where
  "stored_values blk config = map (\<lambda>k. (knob_name k, the (map_of config (knob_name k)))) (block_knobs blk)"

definition stored_entry :: "block_model \<Rightarrow> configuration_model \<Rightarrow> configuration_model" where
  "stored_entry blk e = e\<lparr>configuration := stored_values blk (configuration e)\<rparr>"

definition storable_configuration :: "block_model \<Rightarrow> configuration_t \<Rightarrow> bool" where
  "storable_configuration blk config \<longleftrightarrow>
     (\<forall>k \<in> set (block_knobs blk). \<exists>v. map_of config (knob_name k) = Some v \<and> plain v)"

definition storable_entry :: "block_model \<Rightarrow> configuration_model \<Rightarrow> bool" where
  "storable_entry blk e \<longleftrightarrow> plain (configuration_id e) \<and> storable_configuration blk (configuration e)
     \<and> - (2 ^ 31) \<le> number_of_explorations e \<and> number_of_explorations e < 2 ^ 31"

lemma storable_configuration_values:
  assumes "storable_configuration blk config"
  shows "traverse (\<lambda>k. std_at config (knob_name k)) (block_knobs blk) = Inr (map snd (stored_values blk config))"
    and "\<forall>v \<in> set (map snd (stored_values blk config)). plain v"
proof -
  have "traverse (\<lambda>k. std_at config (knob_name k)) (block_knobs blk)
      = Inr (map (\<lambda>k. the (map_of config (knob_name k))) (block_knobs blk))"
    using assms by (intro traverse_Inr) (auto simp: storable_configuration_def std_at_def)
  then show "traverse (\<lambda>k. std_at config (knob_name k)) (block_knobs blk) = Inr (map snd (stored_values blk config))"
    by (simp add: stored_values_def o_def)
  show "\<forall>v \<in> set (map snd (stored_values blk config)). plain v"
    using assms by (force simp: storable_configuration_def stored_values_def)
qed

lemma load_configuration_slice:
  assumes "distinct (hs @ map knob_name (block_knobs blk) @ hs')" and "length rs = length hs" and "length rs' = length hs'"
  shows "load_configuration blk (hs @ map knob_name (block_knobs blk) @ hs') (rs @ map snd (stored_values blk config) @ rs')
    = Inr (stored_values blk config)"
proof -
  have "list_all2 (\<lambda>n v. csv_at (hs @ map knob_name (block_knobs blk) @ hs') (rs @ map snd (stored_values blk config) @ rs') n = Inr v)
      (map knob_name (block_knobs blk)) (map snd (stored_values blk config))"
    by (rule csv_at_slice) (use assms in \<open>simp_all add: stored_values_def\<close>)
  then show ?thesis
    by (auto simp: load_configuration_def traverse_eq_Inr stored_values_def list_all2_conv_all_nth)
qed

definition doe_columns_ok :: "block_model \<Rightarrow> bool" where
  "doe_columns_ok blk \<longleftrightarrow> distinct (doe_header blk) \<and> (\<forall>n \<in> set (doe_header blk). plain n)"

definition doe_line :: "block_model \<Rightarrow> configuration_model \<Rightarrow> string list" where
  "doe_line blk e = configuration_id e # std_to_string (number_of_explorations e) # map snd (stored_values blk (configuration e))"

lemma load_doe_line:
  assumes "doe_columns_ok blk" and "storable_entry blk e"
  shows "load_doe_row blk (doe_header blk) (doe_line blk e) m =
    Inr (if number_of_explorations e > 0
         then add_config (configuration_id e) (stored_values blk (configuration e)) (number_of_explorations e) m else m)"
proof -
  have d: "distinct (doe_header blk)" and l: "length (doe_line blk e) = length (doe_header blk)"
    using assms(1) by (simp_all add: doe_columns_ok_def doe_line_def doe_header_def stored_values_def)
  have "csv_at (doe_header blk) (doe_line blk e) ''config_id'' = Inr (configuration_id e)"
    using csv_at_nth [OF d l, of 0] by (simp add: doe_header_def doe_line_def)
  moreover have "csv_at (doe_header blk) (doe_line blk e) ''counter'' = Inr (std_to_string (number_of_explorations e))"
    using csv_at_nth [OF d l, of 1] by (simp add: doe_header_def doe_line_def)
  moreover have "load_configuration blk (doe_header blk) (doe_line blk e) = Inr (stored_values blk (configuration e))"
    using load_configuration_slice [of "[''config_id'', ''counter'']" blk "[]"
        "[configuration_id e, std_to_string (number_of_explorations e)]" "[]" "configuration e"] d
    by (simp add: doe_header_def doe_line_def)
  ultimately show ?thesis using assms(2) by (simp add: load_doe_row_def storable_entry_def)
qed

lemma fold_add_config:
  "required_explorations (fold (\<lambda>e m. if p e then add_config (configuration_id e) (f (configuration e)) (number_of_explorations e) m else m) es m)
    = rev (map (\<lambda>e. e\<lparr>configuration := f (configuration e)\<rparr>) (filter p es)) @ required_explorations m"
  by (induction es arbitrary: m) (simp_all add: add_config_def)

lemma store_doe_lines:
  assumes "\<forall>e \<in> set (required_explorations m). storable_entry blk e"
  shows "store_doe c a blk m d =
    Inr (write_file (doe_path c a) (table_text (doe_header blk # map (doe_line blk) (required_explorations m))) d)"
proof -
  have "doe_row blk e = Inr (doe_line blk e)" if "e \<in> set (required_explorations m)" for e
    using that assms storable_configuration_values(1) [of blk "configuration e"] by (simp add: doe_row_def doe_line_def storable_entry_def)
  then have "traverse (doe_row blk) (required_explorations m) = Inr (map (doe_line blk) (required_explorations m))"
    by (rule traverse_Inr)
  then show ?thesis by (simp add: store_doe_def table_text_def)
qed

lemma load_rows_append:
  "load_rows step (xs @ ys) acc = (case load_rows step xs acc of (acc', ok) \<Rightarrow> if ok then load_rows step ys acc' else (acc', False))"
  by (induction xs arbitrary: acc) (auto split: sum.split)

lemma load_doe_lines:
  assumes "doe_columns_ok blk" and "\<forall>e \<in> set es. storable_entry blk e"
  shows "load_rows (load_doe_row blk (doe_header blk)) (map (doe_line blk) es) m =
    (m\<lparr>required_explorations := rev (map (stored_entry blk) (filter (\<lambda>e. number_of_explorations e > 0) es)) @ required_explorations m\<rparr>, True)"
proof -
  have "load_rows (load_doe_row blk (doe_header blk)) (map (doe_line blk) es) m =
    (fold (\<lambda>e m. if number_of_explorations e > 0
      then add_config (configuration_id e) (stored_values blk (configuration e)) (number_of_explorations e) m else m) es m, True)"
    using assms(2) by (subst load_rows_map) (auto intro!: load_rows_fold load_doe_line [OF assms(1)])
  then show ?thesis
    using fold_add_config [of "\<lambda>e. number_of_explorations e > 0" "stored_values blk" es m]
    by (simp add: stored_entry_def [abs_def] doe_model.equality)
qed

context csv_library begin

lemma load_stored_doe:
  assumes c: "csv_separator c = comma" and h: "doe_columns_ok blk"
    and e: "\<forall>e \<in> set (required_explorations m). storable_entry blk e"
    and f: "files d (doe_path c a) = Some (table_text (doe_header blk # map (doe_line blk) (required_explorations m)))"
  shows "required_explorations (csv_load_doe csv_read c a blk d) =
    rev (map (stored_entry blk) (filter (\<lambda>e. number_of_explorations e > 0) (required_explorations m)))"
proof -
  let ?ls = "doe_header blk # map (doe_line blk) (required_explorations m)"
  have "\<forall>fs \<in> set ?ls. \<forall>f \<in> set fs. plain f"
    using h e storable_configuration_values(2) by (auto simp: doe_columns_ok_def doe_line_def storable_entry_def)
  then have "list_all2 (list_all2 (field_reads comma)) ?ls ?ls"
    by (intro list.rel_refl_strong plain_reads_list) blast
  moreover have "length (doe_header blk) > 1" "\<forall>r \<in> set (map (doe_line blk) (required_explorations m)). length r = length (doe_header blk)"
    by (auto simp: doe_header_def doe_line_def stored_values_def)
  ultimately have "load_table csv_read c d (doe_path c a) (load_doe_row blk) (doe_empty, True) =
      load_rows (load_doe_row blk (doe_header blk)) (map (doe_line blk) (required_explorations m)) doe_empty"
    by (simp add: load_written [OF c f])
  then show ?thesis by (simp add: csv_load_doe_def load_doe_lines [OF h e] doe_empty_def)
qed

end

text \<open>
  A design of experiments survives the storage. What the server loads back has the entries that
  still have to be explored, each with its identifier, its counter and the values of the knobs of the
  block, in the opposite order.
\<close>

theorem doe_survives_the_storage:
  assumes "csv_library rd" and "csv_separator c = CHR '',''" and "writable d (doe_path c a)"
    and "doe_columns_ok blk" and "\<forall>e \<in> set (required_explorations m). storable_entry blk e"
  shows "\<exists>d'. store_doe c a blk m d = Inr d' \<and>
    required_explorations (csv_load_doe rd c a blk d') =
      rev (map (stored_entry blk) (filter (\<lambda>e. number_of_explorations e > 0) (required_explorations m)))"
proof -
  let ?d = "write_file (doe_path c a) (table_text (doe_header blk # map (doe_line blk) (required_explorations m))) d"
  have "files ?d (doe_path c a) = Some (table_text (doe_header blk # map (doe_line blk) (required_explorations m)))"
    using assms(3) by (simp add: write_file_def)
  from csv_library.load_stored_doe [OF assms(1,2,4,5) this] store_doe_lines [OF assms(5)] show ?thesis by blast
qed

definition knob_block :: "string list \<Rightarrow> block_model" where
  "knob_block ns = blank_block\<lparr>block_knobs := map (\<lambda>n. \<lparr>knob_name = n, knob_type = ''int'', knob_values = [''1'', ''2'']\<rparr>) ns\<rparr>"

definition sample_disk :: disk where
  "sample_disk = \<lparr>files = Map.empty, writable = (\<lambda>_. True)\<rparr>"

definition sample_storage :: storage_config where
  "sample_storage = \<lparr>csv_storage_root_path = [''data''], csv_separator = CHR '','', model_storage_root_path = [''models'']\<rparr>"

theorem doe_survives_the_storage_witness:
  "\<exists>d'. store_doe sample_storage \<lparr>app_name = ''app'', version = ''1'', block_name = ''foo''\<rparr> (knob_block [''k''])
      \<lparr>required_explorations = [\<lparr>configuration_id = ''7'', configuration = [(''x'', ''0''), (''k'', ''2'')], number_of_explorations = 3\<rparr>]\<rparr>
      sample_disk = Inr d'
    \<and> required_explorations (csv_load_doe std_csv_read sample_storage
        \<lparr>app_name = ''app'', version = ''1'', block_name = ''foo''\<rparr> (knob_block [''k'']) d')
      = [\<lparr>configuration_id = ''7'', configuration = [(''k'', ''2'')], number_of_explorations = 3\<rparr>]"
  using doe_survives_the_storage [OF std_csv.csv_library_axioms,
      of sample_storage sample_disk "\<lparr>app_name = ''app'', version = ''1'', block_name = ''foo''\<rparr>" "knob_block [''k'']"
        "\<lparr>required_explorations = [\<lparr>configuration_id = ''7'', configuration = [(''x'', ''0''), (''k'', ''2'')],
            number_of_explorations = 3\<rparr>]\<rparr>"]
  by (simp add: sample_storage_def sample_disk_def doe_columns_ok_def doe_header_def knob_block_def storable_entry_def
      storable_configuration_def plain_field_def stored_entry_def stored_values_def)

text \<open>
  A row of the table whose counter is not a number ends the loading, and what the rows before it
  held is returned; the warning of the program says that the design of experiments is empty.
\<close>

theorem broken_row_keeps_the_rows_before:
  assumes "read_table rd c (doe_path c a) d = Inr (doe_header blk, map (doe_line blk) es @ row # rest)"
    and "doe_columns_ok blk" and "\<forall>e \<in> set es. storable_entry blk e"
    and "csv_at (doe_header blk) row ''counter'' = Inr v" and "std_stoi v = Inl err"
  shows "required_explorations (csv_load_doe rd c a blk d) =
    rev (map (stored_entry blk) (filter (\<lambda>e. number_of_explorations e > 0) es))"
proof -
  have "\<exists>err. load_doe_row blk (doe_header blk) row m = Inl err" for m
    using assms(4,5) by (cases "csv_at (doe_header blk) row ''config_id''") (simp_all add: load_doe_row_def)
  then obtain err' where "load_doe_row blk (doe_header blk) row
      \<lparr>required_explorations = rev (map (stored_entry blk) (filter (\<lambda>e. number_of_explorations e > 0) es))\<rparr> = Inl err'" by blast
  then show ?thesis
    using assms(1) by (simp add: csv_load_doe_def load_table_def load_rows_append load_doe_lines [OF assms(2,3)] doe_empty_def)
qed

theorem broken_row_keeps_the_rows_before_witness:
  "\<exists>d. required_explorations (csv_load_doe std_csv_read sample_storage
        \<lparr>app_name = ''app'', version = ''1'', block_name = ''foo''\<rparr> (knob_block [''k'']) d)
      = [\<lparr>configuration_id = ''7'', configuration = [(''k'', ''2'')], number_of_explorations = 3\<rparr>]
    \<and> files d (doe_path sample_storage \<lparr>app_name = ''app'', version = ''1'', block_name = ''foo''\<rparr>) =
        Some (table_text [[''config_id'', ''counter'', ''k''], [''7'', ''3'', ''2''], [''8'', ''x'', ''1''], [''9'', ''1'', ''1'']])"
proof -
  let ?a = "\<lparr>app_name = ''app'', version = ''1'', block_name = ''foo''\<rparr>" and ?blk = "knob_block [''k'']"
  let ?e = "\<lparr>configuration_id = ''7'', configuration = [(''k'', ''2'')], number_of_explorations = 3\<rparr>"
  let ?rows = "[[''7'', ''3'', ''2''], [''8'', ''x'', ''1''], [''9'', ''1'', ''1'']]"
  define d where "d = sample_disk\<lparr>files := [doe_path sample_storage ?a \<mapsto> table_text (doe_header ?blk # ?rows)]\<rparr>"
  have h: "doe_header ?blk = [''config_id'', ''counter'', ''k'']"
    by (simp add: doe_header_def knob_block_def)
  have "list_all2 (list_all2 (field_reads comma)) (doe_header ?blk # ?rows) (doe_header ?blk # ?rows)"
    by (simp add: h field_reads_def plain_field_def)
  from std_csv.read_written [OF _ _ this, of sample_storage d "doe_path sample_storage ?a"]
  have "read_table std_csv_read sample_storage (doe_path sample_storage ?a) d = Inr (doe_header ?blk, ?rows)"
    by (simp add: d_def sample_storage_def h)
  moreover have "std_to_string 3 = ''3''" by (simp add: std_to_string_def string_of_nat.simps digit_char_def)
  then have "doe_line ?blk ?e = [''7'', ''3'', ''2'']"
    by (simp add: doe_line_def stored_values_def knob_block_def)
  ultimately have r: "read_table std_csv_read sample_storage (doe_path sample_storage ?a) d =
      Inr (doe_header ?blk, map (doe_line ?blk) [?e] @ [''8'', ''x'', ''1''] # [[''9'', ''1'', ''1'']])" by simp
  have "doe_columns_ok ?blk" by (simp add: doe_columns_ok_def h plain_field_def)
  moreover have "storable_entry ?blk ?e"
    by (simp add: storable_entry_def storable_configuration_def plain_field_def knob_block_def)
  moreover have "csv_at (doe_header ?blk) [''8'', ''x'', ''1''] ''counter'' = Inr ''x''"
    by (simp add: h csv_at_def upt_rec)
  moreover have "std_stoi ''x'' = Inl (Runtime_error ''std::invalid_argument'')"
    by (simp add: std_sto_def read_integer_def is_space_def is_digit_def)
  ultimately have "required_explorations (csv_load_doe std_csv_read sample_storage ?a ?blk d) = [?e]"
    using broken_row_keeps_the_rows_before [OF r, of "''x''"]
    by (simp add: stored_entry_def stored_values_def knob_block_def)
  then show ?thesis by (intro exI [of _ d]) (simp add: d_def h)
qed

section \<open>The log of observations\<close>

type_synonym logged = "string \<times> int \<times> int \<times> operating_point_model"

definition log_row :: "logged \<Rightarrow> string list" where
  "log_row = (\<lambda>(cid, s, ns, op). observation_row cid s ns op)"

definition log_observation :: "storage_config \<Rightarrow> application_id \<Rightarrow> logged \<Rightarrow> disk \<Rightarrow> disk" where
  "log_observation c a = (\<lambda>(cid, s, ns, op). csv_insert_observation_entry c a cid s ns op)"

definition loggable :: "block_model \<Rightarrow> logged \<Rightarrow> bool" where
  "loggable blk l \<longleftrightarrow> length (log_row l) = length (observation_header blk) \<and> (\<forall>f \<in> set (log_row l). plain f)"

lemma log_observation_appends:
  assumes "files d (observation_path c a) = Some (table_text rows)" and "writable d (observation_path c a)"
  shows "files (log_observation c a l d) (observation_path c a) = Some (table_text (rows @ [log_row l]))"
  using assms by (cases l) (simp add: log_observation_def log_row_def csv_insert_observation_entry_def append_file_def write_file_def table_text_def)

lemma log_observation_writable [simp]: "writable (log_observation c a l d) = writable d"
  by (cases l) (simp add: log_observation_def csv_insert_observation_entry_def append_file_def write_file_def)

lemma log_text:
  assumes "files d (observation_path c a) = Some (table_text rows)" and "writable d (observation_path c a)"
  shows "files (fold (log_observation c a) ls d) (observation_path c a) = Some (table_text (rows @ map log_row ls))"
  using assms
proof (induction ls arbitrary: d rows)
  case (Cons l ls)
  from Cons.IH [OF log_observation_appends [OF Cons.prems]] Cons.prems(2) show ?case by simp
qed simp

text \<open>
  C22: the table of the observations is a log. After it was created, every inserted observation adds one
  row at its end, and reading the table gives all of them, in the order in which they arrived.
\<close>

theorem observations_are_logged_in_order:
  assumes "csv_library rd" and "csv_separator c = CHR '',''" and "writable d (observation_path c a)"
    and "\<forall>f \<in> set (observation_header blk). plain f" and "\<forall>l \<in> set ls. loggable blk l"
  shows "read_table rd c (observation_path c a) (fold (log_observation c a) ls (csv_create_observation_table c a blk d))
    = Inr (observation_header blk, map log_row ls)"
proof -
  have "files (csv_create_observation_table c a blk d) (observation_path c a) = Some (table_text [observation_header blk])"
    and "writable (csv_create_observation_table c a blk d) (observation_path c a)"
    using assms(3) by (simp_all add: csv_create_observation_table_def write_file_def table_text_def)
  from log_text [OF this] have "files (fold (log_observation c a) ls (csv_create_observation_table c a blk d)) (observation_path c a)
      = Some (table_text (observation_header blk # map log_row ls))" by simp
  moreover have "\<forall>fs \<in> set (observation_header blk # map log_row ls). \<forall>f \<in> set fs. plain f"
    using assms(4,5) by (auto simp: loggable_def)
  then have "list_all2 (list_all2 (field_reads comma)) (observation_header blk # map log_row ls) (observation_header blk # map log_row ls)"
    by (intro list.rel_refl_strong plain_reads_list) blast
  ultimately show ?thesis
    using assms(5) by (intro csv_library.read_written [OF assms(1,2)]) (auto simp: observation_header_def loggable_def)
qed

theorem observations_are_logged_in_order_witness:
  "read_table std_csv_read sample_storage (observation_path sample_storage \<lparr>app_name = ''app'', version = ''1'', block_name = ''foo''\<rparr>)
     (fold (log_observation sample_storage \<lparr>app_name = ''app'', version = ''1'', block_name = ''foo''\<rparr>)
       [(''c1'', 5, 70, \<lparr>op_features = [], op_knobs = [\<lparr>value_mean = ''2'', value_standard_deviation = ''0''\<rparr>], op_metrics = []\<rparr>),
        (''c2'', 6, 10, \<lparr>op_features = [], op_knobs = [\<lparr>value_mean = ''1'', value_standard_deviation = ''0''\<rparr>], op_metrics = []\<rparr>)]
       (csv_create_observation_table sample_storage \<lparr>app_name = ''app'', version = ''1'', block_name = ''foo''\<rparr> (knob_block [''k'']) sample_disk))
    = Inr ([''sec'', ''nanosec'', ''client_id'', ''k''], [[''5'', ''70'', ''c1'', ''2''], [''6'', ''10'', ''c2'', ''1'']])"
proof -
  have n: "std_to_string 5 = ''5''" "std_to_string 70 = ''70''" "std_to_string 6 = ''6''" "std_to_string 10 = ''10''"
    by (simp_all add: std_to_string_def string_of_nat.simps digit_char_def)
  show ?thesis
    by (subst observations_are_logged_in_order [OF std_csv.csv_library_axioms])
       (simp_all add: sample_storage_def sample_disk_def observation_header_def knob_block_def blank_block_def loggable_def log_row_def
        observation_row_def plain_field_def n)
qed

section \<open>Erasing an application\<close>

lemma starts_with_iff: "starts_with xs ys \<longleftrightarrow> (\<exists>zs. ys = xs @ zs)"
  by (induction xs ys rule: starts_with.induct) auto

definition separate_roots :: "storage_config \<Rightarrow> bool" where
  "separate_roots c \<longleftrightarrow> \<not> starts_with (csv_storage_root_path c) (model_storage_root_path c)
     \<and> \<not> starts_with (model_storage_root_path c) (csv_storage_root_path c)"

definition table_directories :: "string list" where
  "table_directories = [''descriptions'', ''configurations'', ''predictions'', ''observations'', ''clusters'']"

lemma aid_path_eq [simp]: "aid_path a = aid_path b \<longleftrightarrow> a = b"
  by (cases a, cases b) (simp add: aid_path_def)

lemma aid_path_append [simp]: "aid_path a @ xs = aid_path b @ ys \<longleftrightarrow> a = b \<and> xs = ys"
  by (cases a, cases b) (simp add: aid_path_def)

lemma csv_path_eq [simp]: "csv_path dir name c a = csv_path dir' name' c b \<longleftrightarrow> dir = dir' \<and> name = name' \<and> a = b"
  by (simp add: csv_path_def) auto

lemma disjoint_roots:
  assumes "separate_roots c"
  shows "csv_storage_root_path c @ xs \<noteq> model_storage_root_path c @ ys"
proof
  assume "csv_storage_root_path c @ xs = model_storage_root_path c @ ys"
  then obtain us where "csv_storage_root_path c = model_storage_root_path c @ us \<or> model_storage_root_path c = csv_storage_root_path c @ us"
    unfolding append_eq_append_conv2 by metis
  with assms show False unfolding separate_roots_def starts_with_iff by blast
qed

definition application_directories :: "storage_config \<Rightarrow> application_id \<Rightarrow> path list" where
  "application_directories c a = models_path c a # map (\<lambda>dir. csv_storage_root_path c @ dir # aid_path a) table_directories"

lemma csv_erase_directories:
  "files (csv_erase c a d) p = (if \<exists>dir \<in> set (application_directories c a). starts_with dir p then None else files d p)"
  by (auto simp: csv_erase_def remove_all_def application_directories_def table_directories_def)

lemma csv_erase_tables:
  assumes "separate_roots c" and "dir \<in> set table_directories"
  shows "files (csv_erase c a d) (csv_path dir name c b) = (if a = b then None else files d (csv_path dir name c b))"
proof -
  have "\<not> starts_with (models_path c a) (csv_path dir name c b)"
    using disjoint_roots [OF assms(1)] by (simp add: starts_with_iff models_path_def csv_path_def)
  moreover have "starts_with (csv_storage_root_path c @ dir' # aid_path a) (csv_path dir name c b) \<longleftrightarrow> dir' = dir \<and> a = b" for dir'
    by (auto simp: starts_with_iff csv_path_def)
  ultimately have "(\<exists>dir' \<in> set (application_directories c a). starts_with dir' (csv_path dir name c b)) \<longleftrightarrow> a = b"
    using assms(2) by (simp add: application_directories_def)
  then show ?thesis by (simp add: csv_erase_directories)
qed

lemma csv_erase_models:
  assumes "separate_roots c"
  shows "files (csv_erase c a d) (model_path c b metric) = (if a = b then None else files d (model_path c b metric))"
proof -
  have "model_storage_root_path c @ ys \<noteq> csv_storage_root_path c @ xs" for xs ys
    using disjoint_roots [OF assms, of xs ys] by metis
  then have "\<not> starts_with (csv_storage_root_path c @ dir' # aid_path a) (model_path c b metric)" for dir'
    by (simp add: starts_with_iff models_path_def model_path_def)
  moreover have "starts_with (models_path c a) (model_path c b metric) \<longleftrightarrow> a = b"
    by (auto simp: starts_with_iff models_path_def model_path_def)
  ultimately have "(\<exists>dir' \<in> set (application_directories c a). starts_with dir' (model_path c b metric)) \<longleftrightarrow> a = b"
    by (simp add: application_directories_def)
  then show ?thesis by (simp add: csv_erase_directories)
qed

lemma load_table_files:
  "files d p = files d' p \<Longrightarrow> load_table rd c d p step st = load_table rd c d' p step st"
  by (simp add: load_table_def read_table_def)

lemma load_table_missing: "files d p = None \<Longrightarrow> fst (load_table rd c d p step st) = fst st"
  by (simp add: load_table_def read_table_def)

lemma load_description_files:
  assumes "\<And>name. files d (csv_path ''descriptions'' name c a) = files d' (csv_path ''descriptions'' name c a)"
  shows "load_description rd c a d = load_description rd c a d'"
  unfolding load_description_def by (simp only: load_table_files [OF assms])

lemma load_table_stopped: "\<not> snd st \<Longrightarrow> load_table rd c d p step st = st"
  by (simp add: load_table_def)

lemma load_description_missing:
  assumes "files d (knobs_path c a) = None"
  shows "load_description rd c a d = blank_block\<lparr>block_id := block_name a\<rparr>"
proof -
  have stopped: "fold (\<lambda>i st. load_table rd c d (f i st) (g i) st) xs (blk, False) = (blk, False)" for f g xs and blk :: block_model
    by (induction xs) (simp_all add: load_table_stopped)
  have "load_table rd c d (knobs_path c a) load_knob_row (blank_block\<lparr>block_id := block_name a\<rparr>, True)
      = (blank_block\<lparr>block_id := block_name a\<rparr>, False)"
    using assms by (simp add: load_table_def read_table_def)
  then show ?thesis by (simp add: load_description_def load_table_stopped Let_def stopped)
qed

text \<open>
  Erasing an application removes everything the storage has of it, and nothing of the other
  applications: the former loads as if it had never been seen, and for the latter every operation that
  reads gives what it gave before. The directory of the models and the one of the tables do not contain
  each other.
\<close>

theorem erase_concerns_one_application:
  assumes "separate_roots c" and "a \<noteq> b"
  shows "csv_load_doe rd c a blk (csv_erase c a d) = doe_empty \<and> csv_load_prediction rd c a blk (csv_erase c a d) = prediction_empty
      \<and> csv_load_cluster rd c a blk (csv_erase c a d) = cluster_empty \<and> \<not> csv_is_model_valid c a metric (csv_erase c a d)
      \<and> load_description rd c a (csv_erase c a d) = blank_block\<lparr>block_id := block_name a\<rparr>
      \<and> csv_load_doe rd c b blk (csv_erase c a d) = csv_load_doe rd c b blk d
      \<and> csv_load_prediction rd c b blk (csv_erase c a d) = csv_load_prediction rd c b blk d
      \<and> csv_load_cluster rd c b blk (csv_erase c a d) = csv_load_cluster rd c b blk d
      \<and> csv_is_model_valid c b metric (csv_erase c a d) = csv_is_model_valid c b metric d
      \<and> load_description rd c b (csv_erase c a d) = load_description rd c b d"
proof -
  have gone: "files (csv_erase c a d) (csv_path dir name c a) = None"
    and kept: "files (csv_erase c a d) (csv_path dir name c b) = files d (csv_path dir name c b)"
    if "dir \<in> set table_directories" for dir name
    using csv_erase_tables [OF assms(1) that] assms(2) by simp_all
  have "csv_load_doe rd c b blk (csv_erase c a d) = csv_load_doe rd c b blk d"
    unfolding csv_load_doe_def by (intro arg_cong [of _ _ fst] load_table_files kept) (simp add: table_directories_def)
  moreover have "csv_load_prediction rd c b blk (csv_erase c a d) = csv_load_prediction rd c b blk d"
    unfolding csv_load_prediction_def by (intro arg_cong [of _ _ fst] load_table_files kept) (simp add: table_directories_def)
  moreover have "csv_load_cluster rd c b blk (csv_erase c a d) = csv_load_cluster rd c b blk d"
    unfolding csv_load_cluster_def by (intro arg_cong [of _ _ fst] load_table_files kept) (simp add: table_directories_def)
  moreover have "load_description rd c b (csv_erase c a d) = load_description rd c b d"
    by (intro load_description_files kept) (simp add: table_directories_def)
  ultimately show ?thesis
    using assms(2) by (simp add: csv_load_doe_def csv_load_prediction_def csv_load_cluster_def csv_is_model_valid_def
        load_table_missing load_description_missing gone csv_erase_models [OF assms(1)] table_directories_def)
qed

theorem erase_concerns_one_application_witness:
  "csv_load_doe std_csv_read sample_storage \<lparr>app_name = ''app'', version = ''1'', block_name = ''foo''\<rparr> (knob_block [''k''])
     (csv_erase sample_storage \<lparr>app_name = ''app'', version = ''1'', block_name = ''foo''\<rparr> sample_disk) = doe_empty"
  using erase_concerns_one_application [of sample_storage "\<lparr>app_name = ''app'', version = ''1'', block_name = ''foo''\<rparr>"
      "\<lparr>app_name = ''app'', version = ''1'', block_name = ''bar''\<rparr>" std_csv_read "knob_block [''k'']" sample_disk]
  by (simp add: separate_roots_def sample_storage_def)

end
