(* ===== verification/Agora_Stored_Description.thy ===== *)
theory Agora_Stored_Description
  imports Agora_Storage_Laws
begin

text \<open>
  The description of an application in the storage: what \<^verbatim>\<open>store_description\<close> writes in its tables, what
  \<^verbatim>\<open>load_description\<close> reads from them, and what is lost on the way.
\<close>

section \<open>What the storage can hold\<close>

definition storable_values :: "string list \<Rightarrow> bool" where
  "storable_values vs \<longleftrightarrow> vs \<noteq> [] \<and> last vs \<noteq> [] \<and> (\<forall>v \<in> set vs. plain v \<and> CHR '';'' \<notin> set v)"

definition storable_parameter :: "pair_property \<Rightarrow> bool" where
  "storable_parameter p \<longleftrightarrow> plain (prop_key p) \<and> set (prop_value p) \<inter> {CHR 0x22, CHR 0x0A, CHR 0x0D} = {}"

definition storable_description :: "block_model \<Rightarrow> bool" where
  "storable_description blk \<longleftrightarrow>
     (\<forall>k \<in> set (block_knobs blk). plain (knob_name k) \<and> plain (knob_type k) \<and> storable_values (knob_values k))
     \<and> (\<forall>f \<in> set (feature_fields (block_features blk)). plain (feature_name f) \<and> plain (feature_type f))
     \<and> (\<forall>m \<in> set (block_metrics blk). plain (metric_name m) \<and> plain (metric_type m) \<and> plain (prediction_plugin m)
          \<and> (\<forall>p \<in> set (prediction_parameters m). storable_parameter p))
     \<and> distinct (map metric_name (block_metrics blk))
     \<and> (let ag = block_agora blk in
          (\<forall>s \<in> {doe_plugin ag, clustering_plugin ag, number_configurations_per_iteration ag,
              number_observations_per_configuration ag, max_number_iteration ag}. plain s)
          \<and> (\<forall>p \<in> set (doe_parameters ag @ clustering_parameters ag). storable_parameter p))"

text \<open>The members that the tables hold; the others are those of a blank block.\<close>

definition stored_metric :: "metric_model \<Rightarrow> metric_model" where
  "stored_metric m = m\<lparr>distribution := False, observed_by := [], inertia := 0\<rparr>"

definition stored_feature :: "feature_model \<Rightarrow> feature_model" where
  "stored_feature f = f\<lparr>feature_comparison := Distance_LESS_OR_EQUAL\<rparr>"

definition stored_agora :: "agora_model \<Rightarrow> agora_model" where
  "stored_agora ag = ag\<lparr>url := [], username := [], password := [], qos := [], broker_ca := [], client_cert := [], client_key := []\<rparr>"

definition stored_description :: "application_id \<Rightarrow> block_model \<Rightarrow> block_model" where
  "stored_description a blk =
     (features_fields_update (\<lambda>_. map stored_feature (feature_fields (block_features blk))) blank_block)
       \<lparr>block_id := block_name a, block_knobs := block_knobs blk, block_metrics := map stored_metric (block_metrics blk),
        block_agora := stored_agora (block_agora blk)\<rparr>"

section \<open>Writing\<close>

lemma model_parameters_name:
  "m @ ''_model_parameters.csv'' \<noteq> ''knobs.csv''" "m @ ''_model_parameters.csv'' \<noteq> ''metrics.csv''"
  "m @ ''_model_parameters.csv'' \<noteq> ''features.csv''" "m @ ''_model_parameters.csv'' \<noteq> ''agora_properties.csv''"
  "m @ ''_model_parameters.csv'' \<noteq> ''doe_parameters.csv''" "m @ ''_model_parameters.csv'' \<noteq> ''clustering_parameters.csv''"
proof -
  have "rev (m @ ''_model_parameters.csv'') \<noteq> rev s"
    if "s \<in> {''knobs.csv'', ''metrics.csv'', ''features.csv'', ''agora_properties.csv'', ''doe_parameters.csv'', ''clustering_parameters.csv''}" for s
    using that by auto
  then have "m @ ''_model_parameters.csv'' \<noteq> s"
    if "s \<in> {''knobs.csv'', ''metrics.csv'', ''features.csv'', ''agora_properties.csv'', ''doe_parameters.csv'', ''clustering_parameters.csv''}" for s
    using that by blast
  then show "m @ ''_model_parameters.csv'' \<noteq> ''knobs.csv''" "m @ ''_model_parameters.csv'' \<noteq> ''metrics.csv''"
    "m @ ''_model_parameters.csv'' \<noteq> ''features.csv''" "m @ ''_model_parameters.csv'' \<noteq> ''agora_properties.csv''"
    "m @ ''_model_parameters.csv'' \<noteq> ''doe_parameters.csv''" "m @ ''_model_parameters.csv'' \<noteq> ''clustering_parameters.csv''"
    by simp_all
qed

lemma files_write_file [simp]:
  "writable d p \<Longrightarrow> files (write_file p content d) = (files d)(p \<mapsto> content)" "writable (write_file p content d) = writable d"
  by (simp_all add: write_file_def)

lemma write_checked_ok: "writable d p \<Longrightarrow> write_checked p content d = Inr (write_file p content d)"
  by (simp add: write_checked_def)

definition write_model_parameters :: "storage_config \<Rightarrow> application_id \<Rightarrow> metric_model list \<Rightarrow> disk \<Rightarrow> disk" where
  "write_model_parameters c a ms = fold (\<lambda>m d. write_file (model_parameters_path c a (metric_name m))
      (parameter_lines (prediction_parameters m)) d) (filter (\<lambda>m. prediction_parameters m \<noteq> []) ms)"

lemma writable_write_model_parameters [simp]: "writable (write_model_parameters c a ms d) = writable d"
  by (induction ms arbitrary: d) (simp_all add: write_model_parameters_def)

lemma store_model_parameters_ok:
  assumes "\<And>p. writable d p"
  shows "store_model_parameters c a ms d = Inr (write_model_parameters c a ms d)"
  using assms by (induction ms arbitrary: d) (simp_all add: write_model_parameters_def write_checked_ok)

lemma write_model_parameters_other:
  assumes "\<And>p. writable d p" and "\<And>m. p \<noteq> model_parameters_path c a m"
  shows "files (write_model_parameters c a ms d) p = files d p"
  using assms by (induction ms arbitrary: d) (auto simp: write_model_parameters_def)

lemma write_model_parameters_name:
  assumes "\<And>p. writable d p" and "n \<notin> metric_name ` set ms"
  shows "files (write_model_parameters c a ms d) (model_parameters_path c a n) = files d (model_parameters_path c a n)"
  using assms by (induction ms arbitrary: d) (auto simp: write_model_parameters_def)

lemma write_model_parameters_of:
  assumes "\<And>p. writable d p" and "distinct (map metric_name ms)" and "m \<in> set ms"
  shows "files (write_model_parameters c a ms d) (model_parameters_path c a (metric_name m)) =
    (if prediction_parameters m = [] then files d (model_parameters_path c a (metric_name m))
     else Some (parameter_lines (prediction_parameters m)))"
  using assms
proof (induction ms arbitrary: d)
  case (Cons x ms)
  let ?d = "if prediction_parameters x = [] then d
    else write_file (model_parameters_path c a (metric_name x)) (parameter_lines (prediction_parameters x)) d"
  have w: "write_model_parameters c a (x # ms) d = write_model_parameters c a ms ?d"
    by (simp add: write_model_parameters_def)
  have d: "writable ?d p" for p using Cons.prems(1) by simp
  show ?case
  proof (cases "m = x")
    case True
    with Cons.prems write_model_parameters_name [OF d, of "metric_name x" ms c a] show ?thesis by (simp add: w)
  next
    case False
    with Cons.prems have m: "m \<in> set ms" by simp
    then have "metric_name m \<in> set (map metric_name ms)" by simp
    with Cons.prems(2) have "metric_name m \<noteq> metric_name x" by auto
    note this m
    with Cons.IH [OF d] Cons.prems show ?thesis by (simp add: w)
  qed
qed simp

definition knob_line :: "knob_model \<Rightarrow> string list" where
  "knob_line k = [knob_name k, knob_type k, separated (CHR '';'') (knob_values k)]"

definition metric_line :: "metric_model \<Rightarrow> string list" where
  "metric_line m = [metric_name m, metric_type m, prediction_plugin m]"

definition feature_line :: "feature_model \<Rightarrow> string list" where
  "feature_line f = [feature_name f, feature_type f]"

definition written :: "storage_config \<Rightarrow> application_id \<Rightarrow> block_model \<Rightarrow> disk \<Rightarrow> disk" where
  "written c a blk d =
     (let d4 = write_file (properties_path c a) (table_text ([''property_name'', ''value''] # property_rows (block_agora blk)))
          (write_file (features_path c a) (table_text ([''name'', ''type''] # map feature_line (feature_fields (block_features blk))))
          (write_file (metrics_path c a) (table_text ([''name'', ''type'', ''prediction''] # map metric_line (block_metrics blk)))
          (write_file (knobs_path c a) (table_text ([''name'', ''type'', ''values''] # map knob_line (block_knobs blk))) d)))
      in write_file (clustering_parameters_path c a) (parameter_lines (clustering_parameters (block_agora blk)))
          (write_file (doe_parameters_path c a) (parameter_lines (doe_parameters (block_agora blk)))
          (write_model_parameters c a (block_metrics blk) d4)))"

lemma store_description_written:
  assumes "\<And>p. writable d p" and "\<forall>k \<in> set (block_knobs blk). knob_values k \<noteq> []"
  shows "csv_store_description c a blk d = Inr (written c a blk d)"
proof -
  have "knob_row k = Inr (knob_line k)" if "k \<in> set (block_knobs blk)" for k
    using that assms(2) by (cases "knob_values k") (auto simp: knob_row_def knob_line_def)
  then have "traverse knob_row (block_knobs blk) = Inr (map knob_line (block_knobs blk))" by (rule traverse_Inr)
  then show ?thesis
    using assms(1) by (simp add: csv_store_description_def written_def write_checked_ok store_model_parameters_ok Let_def
        table_text_def metric_line_def [abs_def] feature_line_def [abs_def])
qed

lemma written_files:
  assumes w: "\<And>p. writable d p"
  shows "files (written c a blk d) (knobs_path c a) = Some (table_text ([''name'', ''type'', ''values''] # map knob_line (block_knobs blk)))"
    and "files (written c a blk d) (metrics_path c a) = Some (table_text ([''name'', ''type'', ''prediction''] # map metric_line (block_metrics blk)))"
    and "files (written c a blk d) (features_path c a) = Some (table_text ([''name'', ''type''] # map feature_line (feature_fields (block_features blk))))"
    and "files (written c a blk d) (properties_path c a) = Some (table_text ([''property_name'', ''value''] # property_rows (block_agora blk)))"
    and "files (written c a blk d) (doe_parameters_path c a) = Some (parameter_lines (doe_parameters (block_agora blk)))"
    and "files (written c a blk d) (clustering_parameters_path c a) = Some (parameter_lines (clustering_parameters (block_agora blk)))"
  using w by (simp_all add: written_def Let_def write_model_parameters_other model_parameters_name [symmetric])

lemma written_model_parameters:
  assumes "\<And>p. writable d p" and "distinct (map metric_name (block_metrics blk))" and "m \<in> set (block_metrics blk)"
  shows "files (written c a blk d) (model_parameters_path c a (metric_name m)) =
    (if prediction_parameters m = [] then files d (model_parameters_path c a (metric_name m))
     else Some (parameter_lines (prediction_parameters m)))"
  using assms by (simp add: written_def Let_def write_model_parameters_of model_parameters_name)

section \<open>Reading\<close>

lemma getlines_separated:
  assumes "storable_values vs"
  shows "getlines (CHR '';'') (separated (CHR '';'') vs) = vs"
proof -
  have "split_any_of (separated (CHR '';'') vs) '';'' = vs"
    if "vs \<noteq> []" "\<forall>v \<in> set vs. CHR '';'' \<notin> set v" for vs
    using that
  proof (induction vs rule: induct_list012)
    case (3 v w vs)
    then show ?case using split_any_of_at [of v "'';''" "CHR '';''"] by simp
  qed (simp_all add: split_any_of_none)
  with assms show ?thesis by (simp add: getlines_def storable_values_def)
qed

lemma plain_separated: "\<forall>v \<in> set vs. plain v \<Longrightarrow> plain (separated (CHR '';'') vs)"
  by (induction vs rule: induct_list012) (auto simp: plain_field_def)

lemma csv_at_two [simp]: "csv_at [h, h'] [x, y] n = (if n = h' then Inr y else if n = h then Inr x else Inl (Runtime_error ''Can't find a column named''))"
  by (simp add: csv_at_def upt_rec)

lemma csv_at_three [simp]:
  "csv_at [h, h', h''] [x, y, z] n =
    (if n = h'' then Inr z else if n = h' then Inr y else if n = h then Inr x else Inl (Runtime_error ''Can't find a column named''))"
  by (simp add: csv_at_def upt_rec)

lemma pair_property_eta [simp]: "\<lparr>prop_key = prop_key p, prop_value = prop_value p\<rparr> = p"
  by (cases p) simp

lemma load_parameters:
  "load_rows (load_parameter add [''parameter_name'', ''value'']) (map (\<lambda>p. [prop_key p, prop_value p]) ps) x = (fold add ps x, True)"
  by (induction ps arbitrary: x) (simp_all add: load_parameter_def)

lemma fold_add_doe_parameter:
  "fold add_doe_parameter ps blk = blk\<lparr>block_agora := (block_agora blk)\<lparr>doe_parameters := doe_parameters (block_agora blk) @ ps\<rparr>\<rparr>"
  by (induction ps arbitrary: blk) (simp_all add: add_doe_parameter_def)

lemma fold_add_clustering_parameter:
  "fold add_clustering_parameter ps blk =
    blk\<lparr>block_agora := (block_agora blk)\<lparr>clustering_parameters := clustering_parameters (block_agora blk) @ ps\<rparr>\<rparr>"
  by (induction ps arbitrary: blk) (simp_all add: add_clustering_parameter_def)

lemma fold_add_model_parameter:
  assumes "i < length (block_metrics blk)"
  shows "fold (add_model_parameter i) ps blk = blk\<lparr>block_metrics := (block_metrics blk)
    [i := (block_metrics blk ! i)\<lparr>prediction_parameters := prediction_parameters (block_metrics blk ! i) @ ps\<rparr>]\<rparr>"
  using assms by (induction ps arbitrary: blk) (simp_all add: add_model_parameter_def)

lemma load_knob_lines:
  assumes "\<forall>k \<in> set ks. storable_values (knob_values k)"
  shows "load_rows (load_knob_row [''name'', ''type'', ''values'']) (map knob_line ks) blk = (blk\<lparr>block_knobs := block_knobs blk @ ks\<rparr>, True)"
  using assms by (induction ks arbitrary: blk) (simp_all add: load_knob_row_def knob_line_def getlines_separated)

lemma load_feature_lines:
  "load_rows (load_feature_row [''name'', ''type'']) (map feature_line fs) blk =
    (features_fields_update (\<lambda>xs. xs @ map stored_feature fs) blk, True)"
  by (induction fs arbitrary: blk) (simp_all add: load_feature_row_def feature_line_def stored_feature_def features_fields_update_def)

definition bare_metric :: "metric_model \<Rightarrow> metric_model" where
  "bare_metric m = (stored_metric m)\<lparr>prediction_parameters := []\<rparr>"

lemma load_metric_lines:
  "load_rows (load_metric_row [''name'', ''type'', ''prediction'']) (map metric_line ms) blk =
    (blk\<lparr>block_metrics := block_metrics blk @ map bare_metric ms\<rparr>, True)"
  by (induction ms arbitrary: blk) (simp_all add: load_metric_row_def metric_line_def bare_metric_def stored_metric_def)

lemma load_property_lines:
  "load_rows (load_property_row [''property_name'', ''value'']) (property_rows ag) blk =
    (blk\<lparr>block_agora := (block_agora blk)\<lparr>doe_plugin := doe_plugin ag, clustering_plugin := clustering_plugin ag,
       number_configurations_per_iteration := number_configurations_per_iteration ag,
       number_observations_per_configuration := number_observations_per_configuration ag,
       max_number_iteration := max_number_iteration ag\<rparr>\<rparr>, True)"
  by (simp add: property_rows_def load_property_row_def resolve_setting_type_def Let_def)

section \<open>Loading what was stored\<close>

lemma field_reads_lines:
  assumes "\<forall>x \<in> set xs. \<forall>f \<in> set (line x). plain f" and "\<forall>f \<in> set header. plain f"
  shows "list_all2 (list_all2 (field_reads comma)) (header # map line xs) (header # map line xs)"
  using assms by (intro list.rel_refl_strong plain_reads_list) auto

lemma parameter_text: "parameter_lines ps =
    table_text ([''parameter_name'', ''value''] # map (\<lambda>p. [prop_key p, quoted (prop_value p)]) ps)"
  by (simp add: parameter_lines_def table_text_def)

lemma parameter_reads:
  assumes "\<forall>p \<in> set ps. storable_parameter p"
  shows "list_all2 (list_all2 (field_reads comma))
    ([''parameter_name'', ''value''] # map (\<lambda>p. [prop_key p, quoted (prop_value p)]) ps)
    ([''parameter_name'', ''value''] # map (\<lambda>p. [prop_key p, prop_value p]) ps)"
proof -
  have "list_all2 (list_all2 (field_reads comma)) (map (\<lambda>p. [prop_key p, quoted (prop_value p)]) ps) (map (\<lambda>p. [prop_key p, prop_value p]) ps)"
    using assms by (auto simp: list_all2_map1 list_all2_map2 storable_parameter_def field_reads_def intro!: list.rel_refl_strong)
  moreover have "field_reads comma ''parameter_name'' ''parameter_name''" "field_reads comma ''value'' ''value''"
    by (simp_all add: field_reads_def plain_field_def)
  ultimately show ?thesis by simp
qed

context csv_library begin

lemma load_parameter_table:
  assumes "csv_separator c = comma" and "files d p = Some (parameter_lines ps)" and "\<forall>p \<in> set ps. storable_parameter p"
  shows "load_table csv_read c d p (load_parameter add) (x, True) = (fold add ps x, True)"
  using assms(1,2) load_written [OF _ _ parameter_reads [OF assms(3)], of c d p "(x, True)" "load_parameter add"]
  by (simp add: parameter_text load_parameters)

lemma load_plain_table:
  assumes "csv_separator c = comma" and "files d p = Some (table_text (header # map line xs))"
    and "\<forall>x \<in> set xs. length (line x) = length header \<and> (\<forall>f \<in> set (line x). plain f)"
    and "\<forall>f \<in> set header. plain f" and "length header > 1"
    and "load_rows (step header) (map line xs) st = r"
  shows "load_table csv_read c d p step (st, True) = r"
  using load_written [OF assms(1,2) field_reads_lines, of "(st, True)" step] assms(3-6) by simp

end

definition described :: "application_id \<Rightarrow> block_model \<Rightarrow> metric_model list \<Rightarrow> pair_property list \<Rightarrow> pair_property list \<Rightarrow> block_model" where
  "described a blk ms dps cps =
     (stored_description a blk)\<lparr>block_metrics := ms,
        block_agora := (stored_agora (block_agora blk))\<lparr>doe_parameters := dps, clustering_parameters := cps\<rparr>\<rparr>"

definition parameters_loaded :: "nat \<Rightarrow> metric_model list \<Rightarrow> metric_model list" where
  "parameters_loaded n ms = map stored_metric (take n ms) @ map bare_metric (drop n ms)"

lemma parameters_loaded_Suc:
  assumes "n < length ms"
  shows "(parameters_loaded n ms)[n := (parameters_loaded n ms ! n)\<lparr>prediction_parameters :=
      prediction_parameters (parameters_loaded n ms ! n) @ prediction_parameters (ms ! n)\<rparr>] = parameters_loaded (Suc n) ms"
proof -
  have "drop n ms = ms ! n # drop (Suc n) ms" "take (Suc n) ms = take n ms @ [ms ! n]"
    using assms by (simp_all add: Cons_nth_drop_Suc take_Suc_conv_app_nth)
  with assms show ?thesis
    by (simp add: parameters_loaded_def nth_append list_update_append bare_metric_def stored_metric_def)
qed

lemma parameters_loaded_name:
  "n < length ms \<Longrightarrow> metric_name (parameters_loaded n ms ! n) = metric_name (ms ! n)"
  by (simp add: parameters_loaded_def nth_append bare_metric_def stored_metric_def)

lemma length_parameters_loaded [simp]: "length (parameters_loaded n ms) = length ms"
  by (simp add: parameters_loaded_def)

context csv_library begin

lemma load_model_parameters:
  assumes c: "csv_separator c = comma" and n: "n \<le> length ms"
    and f: "\<And>i. i < n \<Longrightarrow> files d (model_parameters_path c a (metric_name (ms ! i))) = Some (parameter_lines (prediction_parameters (ms ! i)))"
    and p: "\<And>i. i < n \<Longrightarrow> \<forall>p \<in> set (prediction_parameters (ms ! i)). storable_parameter p"
    and m: "block_metrics blk = map bare_metric ms"
  shows "fold (\<lambda>i st. load_table csv_read c d (model_parameters_path c a (metric_name (block_metrics (fst st) ! i)))
      (load_parameter (add_model_parameter i)) st) [0..<n] (blk, True) = (blk\<lparr>block_metrics := parameters_loaded n ms\<rparr>, True)"
  using n f p
proof (induction n)
  case 0
  then show ?case using m by (simp add: parameters_loaded_def)
next
  case (Suc n)
  let ?blk = "blk\<lparr>block_metrics := parameters_loaded n ms\<rparr>"
  have "load_table csv_read c d (model_parameters_path c a (metric_name (ms ! n))) (load_parameter (add_model_parameter n)) (?blk, True)
      = (fold (add_model_parameter n) (prediction_parameters (ms ! n)) ?blk, True)"
    using Suc.prems by (intro load_parameter_table [OF c]) auto
  also have "\<dots> = (blk\<lparr>block_metrics := parameters_loaded (Suc n) ms\<rparr>, True)"
    using Suc.prems(1) parameters_loaded_Suc [of n ms] by (simp add: fold_add_model_parameter)
  finally have step: "load_table csv_read c d (model_parameters_path c a (metric_name (ms ! n))) (load_parameter (add_model_parameter n)) (?blk, True)
      = (blk\<lparr>block_metrics := parameters_loaded (Suc n) ms\<rparr>, True)" .
  have "fold (\<lambda>i st. load_table csv_read c d (model_parameters_path c a (metric_name (block_metrics (fst st) ! i)))
      (load_parameter (add_model_parameter i)) st) [0..<n] (blk, True) = (?blk, True)"
  proof (rule Suc.IH)
    show "n \<le> length ms" using Suc.prems(1) by simp
  qed (use Suc.prems(2,3) less_SucI in blast)+
  then show ?case
    using Suc.prems(1) step parameters_loaded_name [of n ms] by simp
qed

lemma load_tables:
  fixes blk :: block_model and a :: application_id
  assumes c: "csv_separator c = comma" and s: "storable_description blk" and w: "\<And>p. writable d p"
  defines "d' \<equiv> written c a blk d"
  shows "load_table csv_read c d' (properties_path c a) load_property_row
     (load_table csv_read c d' (metrics_path c a) load_metric_row
     (load_table csv_read c d' (features_path c a) load_feature_row
     (load_table csv_read c d' (knobs_path c a) load_knob_row (blank_block\<lparr>block_id := block_name a\<rparr>, True))))
    = (described a blk (map bare_metric (block_metrics blk)) [] [], True)"
proof -
  note files = written_files [OF w, of c a blk, folded d'_def]
  have columns: "plain ''name''" "plain ''type''" "plain ''values''" "plain ''prediction''" "plain ''property_name''" "plain ''value''"
    and properties: "plain ''doe_plugin''" "plain ''clustering_plugin''" "plain ''number_configurations_per_iteration''"
      "plain ''number_observations_per_configuration''" "plain ''max_number_iteration''"
    by (simp_all add: plain_field_def)
  let ?b0 = "blank_block\<lparr>block_id := block_name a\<rparr>"
  let ?b1 = "?b0\<lparr>block_knobs := block_knobs blk\<rparr>"
  let ?b2 = "features_fields_update (\<lambda>_. map stored_feature (feature_fields (block_features blk))) ?b1"
  let ?b3 = "?b2\<lparr>block_metrics := map bare_metric (block_metrics blk)\<rparr>"
  have "load_table csv_read c d' (knobs_path c a) load_knob_row (?b0, True) = (?b1, True)"
    by (rule load_plain_table [OF c files(1)])
       (use s in \<open>simp_all add: knob_line_def load_knob_lines storable_description_def storable_values_def plain_separated
          columns blank_block_def\<close>)
  moreover have "load_table csv_read c d' (features_path c a) load_feature_row (?b1, True) = (?b2, True)"
    by (rule load_plain_table [OF c files(3)])
       (use s in \<open>simp_all add: feature_line_def load_feature_lines storable_description_def columns blank_block_def features_fields_update_def\<close>)
  moreover have "load_table csv_read c d' (metrics_path c a) load_metric_row (?b2, True) = (?b3, True)"
    by (rule load_plain_table [OF c files(2)])
       (use s in \<open>simp_all add: metric_line_def load_metric_lines storable_description_def columns blank_block_def features_fields_update_def\<close>)
  moreover have "load_table csv_read c d' (properties_path c a) load_property_row (?b3, True)
      = (described a blk (map bare_metric (block_metrics blk)) [] [], True)"
  proof (rule load_plain_table [where header = "[''property_name'', ''value'']" and line = "\<lambda>r. r" and xs = "property_rows (block_agora blk)", OF c])
    show "load_rows (load_property_row [''property_name'', ''value'']) (map (\<lambda>r. r) (property_rows (block_agora blk))) ?b3
        = (described a blk (map bare_metric (block_metrics blk)) [] [], True)"
      by (simp add: load_property_lines blank_block_def features_fields_update_def described_def stored_description_def
          stored_agora_def agora_default_def)
    show "\<forall>x \<in> set (property_rows (block_agora blk)). length x = length [''property_name'', ''value''] \<and> (\<forall>f \<in> set x. plain f)"
      using s by (simp add: property_rows_def properties storable_description_def Let_def)
  qed (simp_all add: files columns)
  ultimately show ?thesis by simp
qed

end

context csv_library begin

lemma load_written_description:
  fixes blk :: block_model and a :: application_id
  assumes c: "csv_separator c = comma" and s: "storable_description blk" and w: "\<And>p. writable d p"
    and n: "n \<le> length (block_metrics blk)" "\<And>i. i < n \<Longrightarrow> prediction_parameters (block_metrics blk ! i) \<noteq> []"
    and rest: "n < length (block_metrics blk) \<Longrightarrow> prediction_parameters (block_metrics blk ! n) = []
      \<and> files d (model_parameters_path c a (metric_name (block_metrics blk ! n))) = None"
  shows "load_description csv_read c a (written c a blk d) =
    (if n = length (block_metrics blk)
     then described a blk (map stored_metric (block_metrics blk)) (doe_parameters (block_agora blk)) (clustering_parameters (block_agora blk))
     else described a blk (parameters_loaded n (block_metrics blk)) [] [])"
proof -
  let ?d = "written c a blk d" and ?ms = "block_metrics blk"
  let ?step = "\<lambda>i st. load_table csv_read c ?d (model_parameters_path c a (metric_name (block_metrics (fst st) ! i)))
      (load_parameter (add_model_parameter i)) st"
  let ?b4 = "described a blk (map bare_metric ?ms) [] []" and ?b5 = "described a blk (parameters_loaded n ?ms) [] []"
  have metric: "?ms ! i \<in> set ?ms" "distinct (map metric_name ?ms)" if "i < length ?ms" for i
    using that s by (simp_all add: storable_description_def)
  have loop: "fold ?step [0..<n] (?b4, True) = (?b5, True)"
  proof -
    have "files ?d (model_parameters_path c a (metric_name (?ms ! i))) = Some (parameter_lines (prediction_parameters (?ms ! i)))"
      if "i < n" for i
      using written_model_parameters [OF w, of blk "?ms ! i" c a] that n metric [of i] by simp
    moreover have "\<forall>p \<in> set (prediction_parameters (?ms ! i)). storable_parameter p" if "i < n" for i
    proof -
      have "\<forall>m \<in> set ?ms. \<forall>p \<in> set (prediction_parameters m). storable_parameter p"
        using s by (simp add: storable_description_def)
      moreover have "?ms ! i \<in> set ?ms" using that n(1) by simp
      ultimately show ?thesis by blast
    qed
    ultimately have "fold ?step [0..<n] (?b4, True) = (?b4\<lparr>block_metrics := parameters_loaded n ?ms\<rparr>, True)"
      by (intro load_model_parameters [OF c n(1)]) (simp_all add: described_def)
    then show ?thesis by (simp add: described_def)
  qed
  have params: "\<forall>p \<in> set (doe_parameters (block_agora blk)). storable_parameter p"
      "\<forall>p \<in> set (clustering_parameters (block_agora blk)). storable_parameter p"
    using s by (simp_all add: storable_description_def Let_def)
  show ?thesis
  proof (cases "n = length ?ms")
    case True
    have "load_table csv_read c ?d (doe_parameters_path c a) (load_parameter add_doe_parameter) (?b5, True)
        = (described a blk (map stored_metric ?ms) (doe_parameters (block_agora blk)) [], True)"
      using True by (simp add: load_parameter_table [OF c written_files(5) [OF w, of c a blk] params(1)]
          fold_add_doe_parameter described_def parameters_loaded_def)
    moreover have "load_table csv_read c ?d (clustering_parameters_path c a) (load_parameter add_clustering_parameter)
          (described a blk (map stored_metric ?ms) (doe_parameters (block_agora blk)) [], True)
        = (described a blk (map stored_metric ?ms) (doe_parameters (block_agora blk)) (clustering_parameters (block_agora blk)), True)"
      by (simp add: load_parameter_table [OF c written_files(6) [OF w, of c a blk] params(2)]
          fold_add_clustering_parameter described_def)
    ultimately show ?thesis
      using loop True load_tables [OF c s w, of a] by (simp add: load_description_def Let_def described_def)
  next
    case False
    with n have len: "n < length ?ms" by simp
    have "files ?d (model_parameters_path c a (metric_name (?ms ! n))) = None"
      using written_model_parameters [OF w, of blk "?ms ! n" c a] rest [OF len] metric [OF len] by simp
    then have "?step n (?b5, True) = (?b5, False)"
      using parameters_loaded_name [OF len] by (simp add: load_table_def read_table_def described_def)
    moreover have "fold ?step js (b, False) = (b, False)" for js b
      by (induction js) (simp_all add: load_table_stopped)
    moreover have "[0..<length ?ms] = [0..<n] @ n # [Suc n..<length ?ms]"
      using upt_add_eq_append [of 0 n "length ?ms - n"] len by (simp add: upt_conv_Cons)
    ultimately have "fold ?step [0..<length ?ms] (?b4, True) = (?b5, False)" using loop by simp
    then show ?thesis
      using False load_tables [OF c s w, of a] by (simp add: load_description_def Let_def load_table_stopped described_def)
  qed
qed

end

text \<open>
  C21: a description survives the storage when every metric has parameters for its prediction. The server
  that finds it in the tables gets back the knobs, the names and types of the features and the metrics,
  the plugins and their parameters.
\<close>

theorem description_survives_the_storage:
  assumes "csv_library rd" and "csv_separator c = CHR '',''" and "storable_description blk" and "\<And>p. writable d p"
    and "\<forall>m \<in> set (block_metrics blk). prediction_parameters m \<noteq> []"
  shows "\<exists>d'. csv_store_description c a blk d = Inr d' \<and> load_description rd c a d' = stored_description a blk"
proof -
  have "csv_store_description c a blk d = Inr (written c a blk d)"
    using assms(3,4) by (intro store_description_written) (auto simp: storable_description_def storable_values_def)
  moreover have "load_description rd c a (written c a blk d) =
      described a blk (map stored_metric (block_metrics blk)) (doe_parameters (block_agora blk)) (clustering_parameters (block_agora blk))"
    using csv_library.load_written_description [OF assms(1-4), of "length (block_metrics blk)" a] assms(5) by simp
  moreover have "\<dots> = stored_description a blk"
    by (simp add: described_def stored_description_def stored_agora_def)
  ultimately show ?thesis by simp
qed

definition sample_metric :: "string \<Rightarrow> pair_property list \<Rightarrow> metric_model" where
  "sample_metric n ps = \<lparr>metric_name = n, metric_type = ''double'', distribution = True, prediction_plugin = ''linear'',
     observed_by = ''foo'', inertia = 2, prediction_parameters = ps\<rparr>"

definition described_block :: "metric_model list \<Rightarrow> block_model" where
  "described_block ms = (knob_block [''k''])\<lparr>block_id := ''foo'', block_metrics := ms,
     block_agora := agora_default\<lparr>url := ''127.0.0.1'', doe_plugin := ''random'', number_configurations_per_iteration := ''4'',
       doe_parameters := [\<lparr>prop_key = ''limits'', prop_value = ''a,b''\<rparr>]\<rparr>\<rparr>"

lemma described_block_storable:
  "storable_description (described_block [sample_metric ''time'' [\<lparr>prop_key = ''degree'', prop_value = ''2''\<rparr>]])"
  "storable_description (described_block [sample_metric ''time'' []])"
  by (simp_all add: storable_description_def described_block_def knob_block_def sample_metric_def blank_block_def agora_default_def
      storable_values_def storable_parameter_def plain_field_def)

theorem description_survives_the_storage_witness:
  "\<exists>d'. csv_store_description sample_storage \<lparr>app_name = ''app'', version = ''1'', block_name = ''foo''\<rparr>
      (described_block [sample_metric ''time'' [\<lparr>prop_key = ''degree'', prop_value = ''2''\<rparr>]]) sample_disk = Inr d'
    \<and> doe_parameters (block_agora (load_description std_csv_read sample_storage
        \<lparr>app_name = ''app'', version = ''1'', block_name = ''foo''\<rparr> d')) = [\<lparr>prop_key = ''limits'', prop_value = ''a,b''\<rparr>]"
proof -
  obtain d' where "csv_store_description sample_storage \<lparr>app_name = ''app'', version = ''1'', block_name = ''foo''\<rparr>
        (described_block [sample_metric ''time'' [\<lparr>prop_key = ''degree'', prop_value = ''2''\<rparr>]]) sample_disk = Inr d'"
      "load_description std_csv_read sample_storage \<lparr>app_name = ''app'', version = ''1'', block_name = ''foo''\<rparr> d'
        = stored_description \<lparr>app_name = ''app'', version = ''1'', block_name = ''foo''\<rparr>
            (described_block [sample_metric ''time'' [\<lparr>prop_key = ''degree'', prop_value = ''2''\<rparr>]])"
    using description_survives_the_storage [OF std_csv.csv_library_axioms _ described_block_storable(1),
        of sample_storage sample_disk "\<lparr>app_name = ''app'', version = ''1'', block_name = ''foo''\<rparr>"]
    by (auto simp: sample_storage_def sample_disk_def described_block_def sample_metric_def)
  then show ?thesis by (simp add: stored_description_def stored_agora_def described_block_def)
qed

text \<open>
  A metric without parameters for its prediction cuts the description. Its file was never written,
  the loader opens it nevertheless and gives up: the parameters of the metrics that follow, of the
  design of experiments and of the clustering are lost, without an error.
\<close>

theorem metric_without_parameters_cuts_the_description:
  assumes "csv_library rd" and "csv_separator c = CHR '',''" and "storable_description blk" and "\<And>p. writable d p"
    and "n < length (block_metrics blk)" and "\<forall>i < n. prediction_parameters (block_metrics blk ! i) \<noteq> []"
    and "prediction_parameters (block_metrics blk ! n) = []"
    and "files d (model_parameters_path c a (metric_name (block_metrics blk ! n))) = None"
  shows "\<exists>d'. csv_store_description c a blk d = Inr d'
    \<and> doe_parameters (block_agora (load_description rd c a d')) = []
    \<and> clustering_parameters (block_agora (load_description rd c a d')) = []
    \<and> map prediction_parameters (block_metrics (load_description rd c a d')) =
        map prediction_parameters (take n (block_metrics blk)) @ replicate (length (block_metrics blk) - n) []"
proof -
  have "csv_store_description c a blk d = Inr (written c a blk d)"
    using assms(3,4) by (intro store_description_written) (auto simp: storable_description_def storable_values_def)
  moreover have "load_description rd c a (written c a blk d) = described a blk (parameters_loaded n (block_metrics blk)) [] []"
    using csv_library.load_written_description [OF assms(1-4), of n a] assms(5-8) by simp
  ultimately show ?thesis
    by (simp add: described_def parameters_loaded_def o_def stored_metric_def bare_metric_def map_replicate_const)
qed

theorem metric_without_parameters_cuts_the_description_witness:
  "\<exists>d'. csv_store_description sample_storage \<lparr>app_name = ''app'', version = ''1'', block_name = ''foo''\<rparr>
      (described_block [sample_metric ''time'' []]) sample_disk = Inr d'
    \<and> doe_parameters (block_agora (load_description std_csv_read sample_storage
        \<lparr>app_name = ''app'', version = ''1'', block_name = ''foo''\<rparr> d')) = []
    \<and> doe_parameters (block_agora (described_block [sample_metric ''time'' []])) \<noteq> []"
  using metric_without_parameters_cuts_the_description [OF std_csv.csv_library_axioms _ described_block_storable(2),
      of sample_storage sample_disk 0 "\<lparr>app_name = ''app'', version = ''1'', block_name = ''foo''\<rparr>"]
  by (auto simp: sample_storage_def sample_disk_def described_block_def sample_metric_def)

end
