(* ===== verification/Agora_Recovery.thy ===== *)
theory Agora_Recovery
  imports Agora_Stored_Description
begin

text \<open>
  A server that is started again on the storage of the previous one: what it loads of the predictions
  that were stored, and what the handler of an application answers to the first client.
\<close>

section \<open>Predictions\<close>

definition stored_features :: "block_model \<Rightarrow> feature_values \<Rightarrow> feature_values" where
  "stored_features blk fvs = map (\<lambda>f. (feature_name f, the (map_of fvs (feature_name f)))) (feature_fields (block_features blk))"

definition stored_results :: "block_model \<Rightarrow> result_model \<Rightarrow> result_model" where
  "stored_results blk mvs = map (\<lambda>m. (metric_name m, the (map_of mvs (metric_name m)))) (block_metrics blk)"

definition features_of :: "block_model \<Rightarrow> prediction_model \<Rightarrow> string \<Rightarrow> feature_values" where
  "features_of blk p i = stored_features blk (the (map_of (predicted_features p) i))"

definition results_of :: "block_model \<Rightarrow> prediction_model \<Rightarrow> string \<Rightarrow> result_model" where
  "results_of blk p i = stored_results blk (the (map_of (predicted_results p) i))"

text \<open>What is left of a prediction: the values of the knobs, features and metrics of the block.\<close>

definition stored_prediction :: "block_model \<Rightarrow> prediction_model \<Rightarrow> prediction_model" where
  "stored_prediction blk p =
     \<lparr>configurations = map (\<lambda>e. (fst e, stored_values blk (snd e))) (configurations p),
      predicted_features = (if feature_fields (block_features blk) = [] then []
                            else map (\<lambda>e. (fst e, features_of blk p (fst e))) (configurations p)),
      predicted_results = map (\<lambda>e. (fst e, results_of blk p (fst e))) (configurations p)\<rparr>"

definition storable_prediction_entry :: "block_model \<Rightarrow> prediction_model \<Rightarrow> string \<times> configuration_t \<Rightarrow> bool" where
  "storable_prediction_entry blk p e \<longleftrightarrow>
     plain (fst e) \<and> storable_configuration blk (snd e)
     \<and> (feature_fields (block_features blk) \<noteq> [] \<longrightarrow>
          (\<exists>fvs. map_of (predicted_features p) (fst e) = Some fvs
            \<and> (\<forall>f \<in> set (feature_fields (block_features blk)). \<exists>v. map_of fvs (feature_name f) = Some v \<and> plain v)))
     \<and> (\<exists>mvs. map_of (predicted_results p) (fst e) = Some mvs
          \<and> (\<forall>m \<in> set (block_metrics blk). \<exists>v. map_of mvs (metric_name m) = Some v \<and> plain (avg v) \<and> plain (std v)))"

definition storable_prediction :: "block_model \<Rightarrow> prediction_model \<Rightarrow> bool" where
  "storable_prediction blk p \<longleftrightarrow>
     distinct (prediction_header blk) \<and> (\<forall>n \<in> set (prediction_header blk). plain n)
     \<and> distinct (map fst (configurations p)) \<and> (\<forall>e \<in> set (configurations p). storable_prediction_entry blk p e)"

definition metric_columns :: "block_model \<Rightarrow> string list" where
  "metric_columns blk = concat (map (\<lambda>m. [metric_name m @ ''_avg'', metric_name m @ ''_std'']) (block_metrics blk))"

definition metric_cells :: "result_model \<Rightarrow> string list" where
  "metric_cells rs = concat (map (\<lambda>r. [avg (snd r), std (snd r)]) rs)"

definition feature_names :: "block_model \<Rightarrow> string list" where
  "feature_names blk = map feature_name (feature_fields (block_features blk))"

definition prediction_line :: "block_model \<Rightarrow> prediction_model \<Rightarrow> string \<times> configuration_t \<Rightarrow> string list" where
  "prediction_line blk p e =
     fst e # map snd (stored_values blk (snd e)) @ map snd (features_of blk p (fst e)) @ metric_cells (results_of blk p (fst e))"

lemma prediction_header_columns:
  "prediction_header blk = ''pred_id'' # map knob_name (block_knobs blk) @ feature_names blk @ metric_columns blk"
  by (simp add: prediction_header_def feature_names_def metric_columns_def)

lemma length_metric_columns: "length (metric_columns blk) = 2 * length (block_metrics blk)"
proof -
  have "length (concat (map (\<lambda>m. [metric_name m @ ''_avg'', metric_name m @ ''_std'']) ms)) = 2 * length ms" for ms
    by (induction ms) simp_all
  then show ?thesis by (simp add: metric_columns_def)
qed

lemma length_metric_cells: "length (metric_cells rs) = 2 * length rs"
  unfolding metric_cells_def by (induction rs) simp_all

lemma length_prediction_line: "length (prediction_line blk p e) = length (prediction_header blk)"
  by (simp add: prediction_header_columns prediction_line_def length_metric_columns length_metric_cells feature_names_def
      stored_values_def features_of_def stored_features_def results_of_def stored_results_def)

subsection \<open>Writing\<close>

lemma prediction_row_line:
  assumes "storable_prediction_entry blk p e"
  shows "prediction_row blk p e = Inr (prediction_line blk p e)"
proof -
  obtain mvs where m: "map_of (predicted_results p) (fst e) = Some mvs"
      "\<forall>m \<in> set (block_metrics blk). \<exists>v. map_of mvs (metric_name m) = Some v \<and> plain (avg v) \<and> plain (std v)"
    using assms by (auto simp: storable_prediction_entry_def)
  have ms: "traverse (\<lambda>m. std_at mvs (metric_name m)) (block_metrics blk) = Inr (map (\<lambda>m. the (map_of mvs (metric_name m))) (block_metrics blk))"
    using m(2) by (intro traverse_Inr) (auto simp: std_at_def)
  have ks: "traverse (\<lambda>k. std_at (snd e) (knob_name k)) (block_knobs blk) = Inr (map snd (stored_values blk (snd e)))"
    using assms by (intro storable_configuration_values(1)) (simp add: storable_prediction_entry_def)
  have fs: "(if feature_fields (block_features blk) \<noteq> []
       then bind_result (std_at (predicted_features p) (fst e)) (\<lambda>fvs. traverse (\<lambda>f. std_at fvs (feature_name f)) (feature_fields (block_features blk)))
       else Inr []) = Inr (map snd (features_of blk p (fst e)))"
  proof (cases "feature_fields (block_features blk) = []")
    case True
    then show ?thesis by (simp add: features_of_def stored_features_def)
  next
    case False
    with assms obtain fvs where f: "map_of (predicted_features p) (fst e) = Some fvs"
      "\<forall>f \<in> set (feature_fields (block_features blk)). \<exists>v. map_of fvs (feature_name f) = Some v \<and> plain v"
      by (auto simp: storable_prediction_entry_def)
    have "traverse (\<lambda>f. std_at fvs (feature_name f)) (feature_fields (block_features blk))
        = Inr (map (\<lambda>f. the (map_of fvs (feature_name f))) (feature_fields (block_features blk)))"
      using f(2) by (intro traverse_Inr) (auto simp: std_at_def)
    with False f(1) show ?thesis by (simp add: std_at_def features_of_def stored_features_def o_def)
  qed
  show ?thesis
    by (simp add: prediction_row_def Let_def ks fs ms m(1) std_at_def [of "predicted_results p"] prediction_line_def
        results_of_def stored_results_def metric_cells_def o_def)
qed

lemma store_prediction_lines:
  assumes "\<forall>e \<in> set (configurations p). storable_prediction_entry blk p e"
  shows "store_prediction c a blk p d =
    Inr (write_file (prediction_path c a) (table_text (prediction_header blk # map (prediction_line blk p) (configurations p))) d)"
proof -
  have "traverse (prediction_row blk p) (configurations p) = Inr (map (prediction_line blk p) (configurations p))"
    using assms by (intro traverse_Inr prediction_row_line) blast
  then show ?thesis by (simp add: store_prediction_def table_text_def)
qed

lemma prediction_line_plain:
  assumes "storable_prediction_entry blk p e"
  shows "\<forall>f \<in> set (prediction_line blk p e). plain f"
proof -
  have "\<forall>v \<in> set (map snd (stored_values blk (snd e))). plain v"
    using assms by (intro storable_configuration_values(2)) (simp add: storable_prediction_entry_def)
  moreover have "\<forall>v \<in> set (map snd (features_of blk p (fst e))). plain v"
    using assms by (cases "feature_fields (block_features blk) = []")
      (fastforce simp: storable_prediction_entry_def features_of_def stored_features_def)+
  moreover have "\<forall>v \<in> set (metric_cells (results_of blk p (fst e))). plain v"
    using assms by (fastforce simp: storable_prediction_entry_def metric_cells_def results_of_def stored_results_def)
  ultimately show ?thesis using assms by (auto simp: prediction_line_def storable_prediction_entry_def)
qed

subsection \<open>Reading\<close>

lemma metric_cells_pairs:
  "list_all2 P (concat (map (\<lambda>m. [f m, g m]) ms)) (concat (map (\<lambda>m. [f' m, g' m]) ms)) \<longleftrightarrow>
    (\<forall>m \<in> set ms. P (f m) (f' m) \<and> P (g m) (g' m))"
  by (induction ms) auto

lemma load_prediction_line:
  assumes "distinct (prediction_header blk)"
  shows "load_prediction_row blk (prediction_header blk) (prediction_line blk p e) q =
    Inr (snd (add_result (fst e) (stored_values blk (snd e)) (features_of blk p (fst e)) (results_of blk p (fst e)) q))"
proof -
  let ?h = "prediction_header blk" and ?l = "prediction_line blk p e"
  have d: "distinct (''pred_id'' # map knob_name (block_knobs blk) @ feature_names blk @ metric_columns blk)"
    using assms by (simp add: prediction_header_columns)
  have id: "csv_at ?h ?l ''pred_id'' = Inr (fst e)"
    using csv_at_nth [OF assms length_prediction_line, of 0 p e] by (simp add: prediction_header_columns prediction_line_def)
  have ks: "load_configuration blk ?h ?l = Inr (stored_values blk (snd e))"
    using load_configuration_slice [of "[''pred_id'']" blk "feature_names blk @ metric_columns blk" "[fst e]"
        "map snd (features_of blk p (fst e)) @ metric_cells (results_of blk p (fst e))" "snd e"] d
    by (simp add: prediction_header_columns prediction_line_def length_metric_columns length_metric_cells feature_names_def
        features_of_def stored_features_def results_of_def stored_results_def)
  have "list_all2 (\<lambda>n v. csv_at ?h ?l n = Inr v) (feature_names blk) (map snd (features_of blk p (fst e)))"
    using csv_at_slice [of "''pred_id'' # map knob_name (block_knobs blk)" "feature_names blk" "metric_columns blk"
        "fst e # map snd (stored_values blk (snd e))" "map snd (features_of blk p (fst e))" "metric_cells (results_of blk p (fst e))"] d
    by (simp add: prediction_header_columns prediction_line_def length_metric_columns length_metric_cells feature_names_def
        stored_values_def features_of_def stored_features_def results_of_def stored_results_def)
  then have fs: "traverse (\<lambda>f. bind_result (csv_at ?h ?l (feature_name f)) (\<lambda>v. Inr (feature_name f, v)))
      (feature_fields (block_features blk)) = Inr (features_of blk p (fst e))"
    by (auto simp: traverse_eq_Inr feature_names_def features_of_def stored_features_def list_all2_conv_all_nth)
  have "list_all2 (\<lambda>n v. csv_at ?h ?l n = Inr v) (metric_columns blk) (metric_cells (results_of blk p (fst e)))"
    using csv_at_slice [of "''pred_id'' # map knob_name (block_knobs blk) @ feature_names blk" "metric_columns blk" "[]"
        "fst e # map snd (stored_values blk (snd e)) @ map snd (features_of blk p (fst e))" "metric_cells (results_of blk p (fst e))" "[]"] d
    by (simp add: prediction_header_columns prediction_line_def length_metric_columns length_metric_cells feature_names_def
        stored_values_def features_of_def stored_features_def results_of_def stored_results_def)
  moreover obtain mvs where mvs: "results_of blk p (fst e) = stored_results blk mvs" by (simp add: results_of_def)
  ultimately have "\<forall>m \<in> set (block_metrics blk). csv_at ?h ?l (metric_name m @ ''_avg'') = Inr (avg (the (map_of mvs (metric_name m))))
      \<and> csv_at ?h ?l (metric_name m @ ''_std'') = Inr (std (the (map_of mvs (metric_name m))))"
    by (simp add: metric_columns_def metric_cells_def stored_results_def o_def metric_cells_pairs)
  then have ms: "traverse (\<lambda>m. bind_result (csv_at ?h ?l (metric_name m @ ''_avg'')) (\<lambda>mean.
      bind_result (csv_at ?h ?l (metric_name m @ ''_std'')) (\<lambda>deviation. Inr (metric_name m, \<lparr>avg = mean, std = deviation\<rparr>))))
      (block_metrics blk) = Inr (results_of blk p (fst e))"
    unfolding mvs stored_results_def by (intro traverse_Inr) simp
  show ?thesis by (simp add: load_prediction_row_def ks fs ms id)
qed

lemma insert_new: "k \<notin> fst ` set es \<Longrightarrow> insert_or_assign k v es = (True, es @ [(k, v)])"
  by (induction es) auto

lemma add_new_result:
  assumes "i \<notin> fst ` set (configurations q)" "i \<notin> fst ` set (predicted_features q)" "i \<notin> fst ` set (predicted_results q)"
  shows "snd (add_result i config feat res q) =
    \<lparr>configurations = configurations q @ [(i, config)],
     predicted_features = predicted_features q @ (if feat = [] then [] else [(i, feat)]),
     predicted_results = predicted_results q @ [(i, res)]\<rparr>"
  using assms by (cases q) (simp add: add_result_def insert_new)

lemma load_prediction_lines:
  assumes "distinct (prediction_header blk)"
    and "distinct (map fst es)" and "\<forall>e \<in> set es. fst e \<notin> fst ` set (configurations q)
      \<and> fst e \<notin> fst ` set (predicted_features q) \<and> fst e \<notin> fst ` set (predicted_results q)"
  shows "load_rows (load_prediction_row blk (prediction_header blk)) (map (prediction_line blk p) es) q =
    (\<lparr>configurations = configurations q @ map (\<lambda>e. (fst e, stored_values blk (snd e))) es,
      predicted_features = predicted_features q @ (if feature_fields (block_features blk) = [] then []
        else map (\<lambda>e. (fst e, features_of blk p (fst e))) es),
      predicted_results = predicted_results q @ map (\<lambda>e. (fst e, results_of blk p (fst e))) es\<rparr>, True)"
  using assms(2,3)
proof (induction es arbitrary: q)
  case (Cons e es)
  have "features_of blk p (fst e) = [] \<longleftrightarrow> feature_fields (block_features blk) = []"
    by (simp add: features_of_def stored_features_def)
  moreover have "\<forall>x \<in> set es. fst x \<noteq> fst e" using Cons.prems(1) by (auto simp: image_iff)
  ultimately show ?case
    using Cons by (simp add: load_prediction_line [OF assms(1)] add_new_result)
qed simp

context csv_library begin

lemma load_stored_prediction:
  assumes c: "csv_separator c = comma" and s: "storable_prediction blk p" and n: "length (prediction_header blk) > 1"
    and f: "files d (prediction_path c a) = Some (table_text (prediction_header blk # map (prediction_line blk p) (configurations p)))"
  shows "csv_load_prediction csv_read c a blk d = stored_prediction blk p"
proof -
  have "load_table csv_read c d (prediction_path c a) (load_prediction_row blk) (prediction_empty, True) = (stored_prediction blk p, True)"
  proof (rule load_plain_table [OF c f _ _ n])
    show "\<forall>x \<in> set (configurations p). length (prediction_line blk p x) = length (prediction_header blk) \<and> (\<forall>f \<in> set (prediction_line blk p x). plain f)"
      using s prediction_line_plain length_prediction_line unfolding storable_prediction_def by blast
    show "\<forall>f \<in> set (prediction_header blk). plain f" using s by (simp add: storable_prediction_def)
    show "load_rows (load_prediction_row blk (prediction_header blk)) (map (prediction_line blk p) (configurations p)) prediction_empty
        = (stored_prediction blk p, True)"
      using s by (subst load_prediction_lines) (auto simp: storable_prediction_def prediction_empty_def stored_prediction_def)
  qed
  then show ?thesis by (simp add: csv_load_prediction_def)
qed

end

section \<open>The first client of a restarted server\<close>

text \<open>
  The workspaces of the plugins are directories of their own: creating them succeeds and does not
  touch the tables and the models.
\<close>

definition same_data :: "storage_config \<Rightarrow> disk \<Rightarrow> disk \<Rightarrow> bool" where
  "same_data c d d' \<longleftrightarrow>
     (\<forall>p. starts_with (csv_storage_root_path c) p \<or> starts_with (model_storage_root_path c) p \<longrightarrow> files d' p = files d p)"

definition workspaces_apart :: "storage_config \<Rightarrow> disk services \<Rightarrow> bool" where
  "workspaces_apart c sv \<longleftrightarrow> (\<forall>plugin a d. \<exists>d'. initialize_workspace sv plugin a d = Inr d' \<and> same_data c d d')"

definition same_task :: "storage_config \<Rightarrow> disk world \<Rightarrow> disk world \<Rightarrow> bool" where
  "same_task c w w' \<longleftrightarrow> handler_id (handler w') = handler_id (handler w) \<and> description (handler w') = description (handler w)
     \<and> sent w' = sent w \<and> same_data c (storage w) (storage w')"

lemma same_data_trans: "same_data c d d' \<Longrightarrow> same_data c d' d'' \<Longrightarrow> same_data c d d''"
  by (simp add: same_data_def)

lemma same_task_refl [simp]: "same_task c w w"
  by (simp add: same_task_def same_data_def)

lemma same_task_trans: "same_task c w w' \<Longrightarrow> same_task c w' w'' \<Longrightarrow> same_task c w w''"
  by (auto simp: same_task_def intro: same_data_trans)

lemma same_task_launchers [simp]:
  "same_task c (upd (\<lambda>h. h\<lparr>doe_launcher := l\<rparr>) w) w' = same_task c w w'"
  "same_task c (upd (\<lambda>h. h\<lparr>cluster_launcher := l\<rparr>) w) w' = same_task c w w'"
  "same_task c (upd (\<lambda>h. h\<lparr>prediction_launcher := l\<rparr>) w) w' = same_task c w w'"
  "same_task c (upd (\<lambda>h. h\<lparr>model_launchers := f h\<rparr>) w) w' = same_task c w w'"
  by (simp_all add: same_task_def)

lemma initialize_launcher_ok:
  assumes "workspaces_apart c sv"
  shows "\<exists>w'. initialize_launcher sv plugin w = Inr w' \<and> same_task c w w'"
proof -
  from assms obtain d' where "initialize_workspace sv plugin (handler_id (handler w)) (storage w) = Inr d'" "same_data c (storage w) d'"
    unfolding workspaces_apart_def by blast
  then show ?thesis by (simp add: initialize_launcher_def same_task_def)
qed

lemma initialize_model_launchers_ok:
  assumes "workspaces_apart c sv"
  shows "\<exists>w'. initialize_model_launchers sv ms w = Inr w' \<and> same_task c w w'"
proof (induction ms arbitrary: w)
  case (Cons m ms)
  obtain w1 where w1: "initialize_launcher sv (prediction_plugin m) w = Inr w1" "same_task c w w1"
    using initialize_launcher_ok [OF assms] by blast
  obtain w2 where w2: "initialize_model_launchers sv ms (upd (\<lambda>h. h\<lparr>model_launchers := model_launchers h @ [prediction_plugin m]\<rparr>) w1) = Inr w2"
      "same_task c w1 w2"
    using Cons.IH [of "upd (\<lambda>h. h\<lparr>model_launchers := model_launchers h @ [prediction_plugin m]\<rparr>) w1"] by auto
  show ?case
  proof (cases "prediction_plugin m \<in> set (model_launchers (handler w))")
    case True
    with Cons.IH [of w] show ?thesis by simp
  next
    case False
    with w1(1) w2(1) same_task_trans [OF w1(2) w2(2)] show ?thesis by (intro exI [of _ w2]) simp
  qed
qed simp

lemma initialize_plugin_launchers_ok:
  assumes "workspaces_apart c sv"
  shows "\<exists>w'. initialize_plugin_launchers sv w = Inr w' \<and> same_task c w w'"
proof -
  let ?ag = "block_agora (description (handler w))"
  obtain w1 where w1: "initialize_launcher sv (doe_plugin ?ag) (upd (\<lambda>h. h\<lparr>doe_launcher := Some (doe_plugin ?ag)\<rparr>) w) = Inr w1"
      "same_task c w w1"
    using initialize_launcher_ok [OF assms] same_task_launchers(1) by blast
  obtain w2 where w2: "(if are_features_enabled (handler w1)
        then initialize_launcher sv (clustering_plugin ?ag) (upd (\<lambda>h. h\<lparr>cluster_launcher := Some (clustering_plugin ?ag)\<rparr>) w1)
        else Inr w1) = Inr w2" "same_task c w1 w2"
    using initialize_launcher_ok [OF assms, of "clustering_plugin ?ag" "upd (\<lambda>h. h\<lparr>cluster_launcher := Some (clustering_plugin ?ag)\<rparr>) w1"]
    by (cases "are_features_enabled (handler w1)") auto
  obtain w3 where w3: "initialize_launcher sv ''predict'' (upd (\<lambda>h. h\<lparr>prediction_launcher := Some ''predict''\<rparr>) w2) = Inr w3"
      "same_task c w2 w3"
    using initialize_launcher_ok [OF assms] same_task_launchers(3) by blast
  obtain w4 where w4: "initialize_model_launchers sv (block_metrics (description (handler w3))) w3 = Inr w4" "same_task c w3 w4"
    using initialize_model_launchers_ok [OF assms] by blast
  have "same_task c w w4"
    using w1(2) w2(2) w3(2) w4(2) same_task_trans by blast
  moreover have "initialize_plugin_launchers sv w = Inr w4"
    by (simp only: initialize_plugin_launchers_def Let_def w1(1) w2(1) w3(1) w4(1) bind_result.simps sum.case)
  ultimately show ?thesis by blast
qed

lemma initialize_launcher_handler: "initialize_launcher sv plugin w = Inr w' \<Longrightarrow> handler w' = handler w"
  by (auto simp: initialize_launcher_def bind_result_eq_Inr)

lemma initialize_model_launchers_doe:
  "initialize_model_launchers sv ms w = Inr w' \<Longrightarrow> doe_launcher (handler w') = doe_launcher (handler w)"
  by (induction ms arbitrary: w) (auto simp: bind_result_eq_Inr initialize_launcher_handler split: if_splits)

lemma initialize_plugin_launchers_doe:
  "initialize_plugin_launchers sv w = Inr w' \<Longrightarrow> doe_launcher (handler w') = Some (doe_plugin (block_agora (description (handler w))))"
  by (auto simp: initialize_plugin_launchers_def Let_def bind_result_eq_Inr initialize_launcher_handler
      initialize_model_launchers_doe split: if_splits)

lemma written_elsewhere:
  assumes "\<And>p. writable d p" and "dir \<noteq> ''descriptions''"
  shows "files (written c a blk d) (csv_path dir name c b) = files d (csv_path dir name c b)"
  using assms by (simp add: written_def Let_def write_model_parameters_other)

lemma written_models:
  assumes "\<And>p. writable d p" and "separate_roots c"
  shows "files (written c a blk d) (model_path c b metric) = files d (model_path c b metric)"
proof -
  have "model_path c b metric \<noteq> csv_path dir name c a" for dir name
    using disjoint_roots [OF assms(2)] by (simp add: model_path_def models_path_def csv_path_def) metis
  then show ?thesis using assms(1) by (simp add: written_def Let_def write_model_parameters_other)
qed

text \<open>
  Up to the recovery: the description is stored, the workspaces of the plugins are created, and the
  tables and models of the previous server are still there.
\<close>

lemma welcome_until_recovery:
  assumes v: "workspaces_apart c sv" and w: "\<And>p. writable (storage w) p" and s: "in_status CLUELESS (handler w)"
    and parsed: "parse_informations sv info (add_client cid (handler w)) = (True, h)"
    and knobs: "\<forall>k \<in> set (block_knobs (description h)). knob_values k \<noteq> []"
    and store: "store_description sv = csv_store_description c"
  shows "\<exists>w3. welcome_client sv cid info w = bind_result (start_recovering sv w3) (\<lambda>w4. Inr (answer_client sv cid w4))
    \<and> handler_id (handler w3) = handler_id h \<and> description (handler w3) = description h \<and> sent w3 = sent w
    \<and> same_data c (written c (handler_id h) (description h) (storage w)) (storage w3)
    \<and> doe_launcher (handler w3) = Some (doe_plugin (block_agora (description h)))"
proof -
  let ?fs = "written c (handler_id h) (description h) (storage w)"
  let ?w2 = "(upd (add_client cid) w)\<lparr>handler := h, storage := ?fs\<rparr>"
  obtain w3 where w3: "initialize_plugin_launchers sv ?w2 = Inr w3" "same_task c ?w2 w3"
    using initialize_plugin_launchers_ok [OF v] by blast
  have "csv_store_description c (handler_id h) (description h) (storage w) = Inr ?fs"
    using w knobs by (rule store_description_written)
  moreover have "in_status CLUELESS (add_client cid (handler w))"
    using s by (simp add: add_client_def check_status_def)
  ultimately have "welcome_client sv cid info w = bind_result (start_recovering sv w3) (\<lambda>w4. Inr (answer_client sv cid w4))"
    using parsed store w3(1) by (simp add: welcome_client_def Let_def upd_def)
  then show ?thesis
    using w3(2) initialize_plugin_launchers_doe [OF w3(1)] by (intro exI [of _ w3]) (simp add: same_task_def upd_def)
qed

lemma same_data_tables: "same_data c d d' \<Longrightarrow> files d' (csv_path dir name c a) = files d (csv_path dir name c a)"
  unfolding same_data_def by (auto simp: starts_with_iff csv_path_def)

lemma same_data_models: "same_data c d d' \<Longrightarrow> files d' (model_path c a metric) = files d (model_path c a metric)"
  unfolding same_data_def by (auto simp: starts_with_iff model_path_def models_path_def)

text \<open>
  C19: a restarted server resumes with the knowledge of the previous one. When the predictions that were
  stored are still in the tables, the first client that sends its description brings the handler to its
  final phase, with these predictions, and receives them at once; no plugin runs.
\<close>

theorem restarted_server_sends_the_stored_predictions:
  assumes "csv_library rd" and "csv_separator c = CHR '',''" and "workspaces_apart c sv" and "\<And>p. writable (storage w) p"
    and "in_status CLUELESS (handler w)"
    and "parse_informations (csv_services rd c sv) info (add_client cid (handler w)) = (True, h)"
    and "block_knobs (description h) \<noteq> []" and "\<forall>k \<in> set (block_knobs (description h)). knob_values k \<noteq> []"
    and "storable_prediction (description h) p" and "configurations p \<noteq> []"
    and "store_prediction c (handler_id h) (description h) p d0 = Inr d1" and "writable d0 (prediction_path c (handler_id h))"
    and "files (storage w) (prediction_path c (handler_id h)) = files d1 (prediction_path c (handler_id h))"
  shows "\<exists>w'. welcome_client (csv_services rd c sv) cid info w = Inr w'
    \<and> flags (handler_status (handler w')) = {WITH_PREDICTION}
    \<and> prediction (handler w') = stored_prediction (description h) p
    \<and> sent w' = sent w @ [\<lparr>topic = client_topic h cid ''prediction'',
        payload = prediction_to_json sv (description h) (stored_prediction (description h) p)\<rparr>]"
proof -
  let ?sv = "csv_services rd c sv" and ?a = "handler_id h" and ?blk = "description h"
  have v: "workspaces_apart c ?sv" using assms(3) by (simp add: workspaces_apart_def csv_services_def)
  obtain w3 where w3: "welcome_client ?sv cid info w = bind_result (start_recovering ?sv w3) (\<lambda>w4. Inr (answer_client ?sv cid w4))"
      "handler_id (handler w3) = ?a" "description (handler w3) = ?blk" "sent w3 = sent w"
      "same_data c (written c ?a ?blk (storage w)) (storage w3)"
    using welcome_until_recovery [OF v assms(4,5,6,8)] by (auto simp: csv_services_def)
  have "files d1 (prediction_path c ?a) = Some (table_text (prediction_header ?blk # map (prediction_line ?blk p) (configurations p)))"
    using assms(9,11,12) by (auto simp: storable_prediction_def store_prediction_lines)
  then have "files (storage w3) (prediction_path c ?a) =
      Some (table_text (prediction_header ?blk # map (prediction_line ?blk p) (configurations p)))"
    using same_data_tables [OF w3(5)] written_elsewhere [OF assms(4)] assms(13) by simp
  moreover have "length (prediction_header ?blk) > 1" using assms(7) by (simp add: prediction_header_def)
  ultimately have loaded: "csv_load_prediction rd c ?a ?blk (storage w3) = stored_prediction ?blk p"
    using csv_library.load_stored_prediction [OF assms(1,2,9)] by blast
  moreover have "predicted_results (stored_prediction ?blk p) \<noteq> []" using assms(10) by (simp add: stored_prediction_def)
  ultimately have "\<exists>w4. start_recovering ?sv w3 = Inr w4 \<and> flags (handler_status (handler w4)) = {WITH_PREDICTION}
      \<and> prediction (handler w4) = stored_prediction ?blk p \<and> handler_id (handler w4) = ?a \<and> description (handler w4) = ?blk \<and> sent w4 = sent w3"
    using w3(2,3) by (simp add: start_recovering_def Let_def reload_cluster_def reload_prediction_def reload_doe_def csv_services_def
        is_prediction_valid_def are_features_enabled_def set_status_def)
  then obtain w4 where w4: "start_recovering ?sv w3 = Inr w4" "flags (handler_status (handler w4)) = {WITH_PREDICTION}"
      "prediction (handler w4) = stored_prediction ?blk p" "handler_id (handler w4) = ?a" "description (handler w4) = ?blk" "sent w4 = sent w3"
    by blast
  have "answer_client ?sv cid w4 = send_prediction ?sv cid w4"
    using w4(2) by (simp add: answer_client_def Let_def in_status_flags)
  with w3 w4 show ?thesis
    by (simp add: send_prediction_def send_message_def csv_services_def client_topic_def)
qed

text \<open>
  C20: a restarted server resumes the exploration. When the design of experiments of the previous one is
  in the tables, without predictions and with a model missing, the first client gets the last stored
  configuration that still has to be explored, and the plugin of the design is not run again.
\<close>

theorem restarted_server_resumes_the_exploration:
  assumes "csv_library rd" and "csv_separator c = CHR '',''" and "workspaces_apart c sv" and "\<And>p. writable (storage w) p"
    and "separate_roots c" and "in_status CLUELESS (handler w)"
    and "parse_informations (csv_services rd c sv) info (add_client cid (handler w)) = (True, h)"
    and "\<forall>k \<in> set (block_knobs (description h)). knob_values k \<noteq> []"
    and "files (storage w) (prediction_path c (handler_id h)) = None"
    and "m \<in> set (block_metrics (description h))" and "files (storage w) (model_path c (handler_id h) (metric_name m)) = None"
    and "doe_columns_ok (description h)" and "\<forall>e \<in> set (required_explorations dm). storable_entry (description h) e"
    and "store_doe c (handler_id h) (description h) dm d0 = Inr d1" and "writable d0 (doe_path c (handler_id h))"
    and "files (storage w) (doe_path c (handler_id h)) = files d1 (doe_path c (handler_id h))"
    and "es = filter (\<lambda>e. number_of_explorations e > 0) (required_explorations dm)" and "es \<noteq> []"
  shows "\<exists>w'. welcome_client (csv_services rd c sv) cid info w = Inr w'
    \<and> flags (handler_status (handler w')) = {EXPLORING, WITH_DOE}
    \<and> sent w' = sent w @ [\<lparr>topic = client_topic h cid ''explore'',
        payload = configuration_to_json sv (description h) (stored_values (description h) (configuration (last es)))\<rparr>]"
proof -
  let ?sv = "csv_services rd c sv" and ?a = "handler_id h" and ?blk = "description h"
  have v: "workspaces_apart c ?sv" using assms(3) by (simp add: workspaces_apart_def csv_services_def)
  obtain w3 where w3: "welcome_client ?sv cid info w = bind_result (start_recovering ?sv w3) (\<lambda>w4. Inr (answer_client ?sv cid w4))"
      "handler_id (handler w3) = ?a" "description (handler w3) = ?blk" "sent w3 = sent w"
      "same_data c (written c ?a ?blk (storage w)) (storage w3)"
    using welcome_until_recovery [OF v assms(4,6,7,8)] by (auto simp: csv_services_def)
  note tables = same_data_tables [OF w3(5)] written_elsewhere [OF assms(4)]
  have "files d1 (doe_path c ?a) = Some (table_text (doe_header ?blk # map (doe_line ?blk) (required_explorations dm)))"
    using assms(14,15) store_doe_lines [OF assms(13), of c ?a d0] by auto
  then have "files (storage w3) (doe_path c ?a) = Some (table_text (doe_header ?blk # map (doe_line ?blk) (required_explorations dm)))"
    using assms(16) tables by simp
  from csv_library.load_stored_doe [OF assms(1,2,12,13) this]
  have doe: "required_explorations (csv_load_doe rd c ?a ?blk (storage w3)) = rev (map (stored_entry ?blk) es)"
    using assms(17) by simp
  have "csv_load_prediction rd c ?a ?blk (storage w3) = prediction_empty"
    using assms(9) tables by (simp add: csv_load_prediction_def load_table_missing)
  moreover have "\<not> csv_is_model_valid c ?a (metric_name m) (storage w3)"
    using assms(11) same_data_models [OF w3(5)] written_models [OF assms(4,5)] by (simp add: csv_is_model_valid_def)
  ultimately have "\<exists>w4. start_recovering ?sv w3 = Inr w4 \<and> flags (handler_status (handler w4)) = {EXPLORING, WITH_DOE}
      \<and> required_explorations (doe (handler w4)) = rev (map (stored_entry ?blk) es) \<and> handler_id (handler w4) = ?a
      \<and> description (handler w4) = ?blk \<and> sent w4 = sent w3"
    using w3(2,3) doe assms(10,18)
    by (auto simp: start_recovering_def Let_def reload_cluster_def reload_prediction_def reload_doe_def csv_services_def recover_doe_def
        is_prediction_valid_def is_doe_valid_def are_models_valid_def are_features_enabled_def set_status_def prediction_empty_def)
  then obtain w4 where w4: "start_recovering ?sv w3 = Inr w4" "flags (handler_status (handler w4)) = {EXPLORING, WITH_DOE}"
      "required_explorations (doe (handler w4)) = rev (map (stored_entry ?blk) es)" "handler_id (handler w4) = ?a"
      "description (handler w4) = ?blk" "sent w4 = sent w3"
    by blast
  from assms(18) obtain es' where es: "rev (map (stored_entry ?blk) es) = stored_entry ?blk (last es) # es'"
    by (cases es rule: rev_cases) auto
  have "answer_client ?sv cid w4 = snd (send_configuration ?sv cid w4)"
    using w4(2) by (simp add: answer_client_def Let_def in_status_flags)
  moreover have "get_next (doe (handler w4)) \<noteq> None" "\<And>e d. get_next (doe (handler w4)) = Some (e, d) \<Longrightarrow>
      configuration e = stored_values ?blk (configuration (last es))"
    using w4(3) es by (auto simp: get_next_def Let_def stored_entry_def)
  ultimately show ?thesis
    using w3(1,4) w4 by (auto simp: send_configuration_def send_message_def csv_services_def client_topic_def)
qed

subsection \<open>An instance\<close>

definition sample_id :: application_id where
  "sample_id = \<lparr>app_name = ''app'', version = ''1'', block_name = ''foo''\<rparr>"

definition tuned_block :: block_model where
  "tuned_block = described_block [sample_metric ''time'' [\<lparr>prop_key = ''degree'', prop_value = ''2''\<rparr>]]"

definition disk_services :: "disk services" where
  "disk_services =
     \<lparr>names = csv_names sample_storage, load_doe = (\<lambda>a b fs. doe_empty), load_prediction = (\<lambda>a b fs. prediction_empty),
      load_cluster = (\<lambda>a b fs. cluster_empty), is_model_valid = (\<lambda>a m fs. False), store_description = (\<lambda>a b fs. Inr fs),
      create_observation_table = (\<lambda>a b fs. fs), insert_observation_entry = (\<lambda>a cid s n op fs. fs),
      initialize_workspace = (\<lambda>plugin a fs. Inr fs), launch = (\<lambda>plugin pc fs. Inr (7, fs)), wait_plugin = (\<lambda>pid fs. Inr fs),
      read_application = (\<lambda>s. Inr \<lparr>application_name = ''app'', application_version = ''1'', application_blocks = [tuned_block]\<rparr>),
      read_observation = (\<lambda>b s. Inr []), configuration_to_json = (\<lambda>b c. ''configuration''), prediction_to_json = (\<lambda>b p. ''knowledge'')\<rparr>"

definition sample_prediction :: prediction_model where
  "sample_prediction = \<lparr>configurations = [(''0'', [(''k'', ''2'')])], predicted_features = [],
     predicted_results = [(''0'', [(''time'', \<lparr>avg = ''3'', std = ''1''\<rparr>)])]\<rparr>"

definition restarted :: "disk \<Rightarrow> disk world" where
  "restarted d = \<lparr>handler = RemoteApplicationHandler sample_id blank_block, storage = d, sent = []\<rparr>"

definition informed :: handler where
  "informed = set_status (bits_of WITH_INFORMATION) True ((add_client ''c1'' (RemoteApplicationHandler sample_id blank_block))
     \<lparr>description := tuned_block, num_configurations_per_iteration := 4\<rparr>)"

lemma informed_simps [simp]: "description informed = tuned_block" "handler_id informed = sample_id"
  by (simp_all add: informed_def add_client_def set_status_def RemoteApplicationHandler_def)

lemma tuned_block_parsed:
  "parse_informations (csv_services rd c disk_services) info (add_client ''c1'' (RemoteApplicationHandler sample_id blank_block)) = (True, informed)"
proof -
  have "std_stoi ''4'' = Inr 4"
    by (simp add: std_sto_def read_integer_def is_space_def is_digit_def nat_of_string_def digit_value_def)
  then show ?thesis
    by (simp add: parse_informations_def csv_services_def disk_services_def tuned_block_def described_block_def restarted_def sample_id_def
        RemoteApplicationHandler_def add_client_def agora_default_def informed_def)
qed

lemma tuned_block_columns: "prediction_header tuned_block = [''pred_id'', ''k'', ''time_avg'', ''time_std'']"
  by (simp add: prediction_header_def tuned_block_def described_block_def knob_block_def blank_block_def sample_metric_def)

lemma sample_prediction_storable: "storable_prediction tuned_block sample_prediction"
proof -
  have "storable_prediction_entry tuned_block sample_prediction (''0'', [(''k'', ''2'')])"
    by (simp add: storable_prediction_entry_def storable_configuration_def sample_prediction_def tuned_block_def described_block_def
        knob_block_def blank_block_def sample_metric_def plain_field_def)
  then show ?thesis
    by (simp add: storable_prediction_def tuned_block_columns sample_prediction_def plain_field_def)
qed

theorem restarted_server_sends_the_stored_predictions_witness:
  "\<exists>d1 w'. store_prediction sample_storage sample_id tuned_block sample_prediction sample_disk = Inr d1
    \<and> welcome_client (csv_services std_csv_read sample_storage disk_services) ''c1'' [] (restarted d1) = Inr w'
    \<and> sent w' = [\<lparr>topic = ''margot/app^1^foo/c1/prediction'', payload = ''knowledge''\<rparr>]"
proof -
  have e: "\<forall>e \<in> set (configurations sample_prediction). storable_prediction_entry tuned_block sample_prediction e"
    using sample_prediction_storable by (simp add: storable_prediction_def)
  define d1 where "d1 = write_file (prediction_path sample_storage sample_id)
    (table_text (prediction_header tuned_block # map (prediction_line tuned_block sample_prediction) (configurations sample_prediction))) sample_disk"
  have d1: "store_prediction sample_storage sample_id tuned_block sample_prediction sample_disk = Inr d1"
    unfolding d1_def by (rule store_prediction_lines [OF e])
  have "in_status CLUELESS (handler (restarted d1))"
    by (simp add: restarted_def RemoteApplicationHandler_def in_status_flags)
  moreover have "workspaces_apart sample_storage disk_services"
    by (simp add: workspaces_apart_def disk_services_def same_data_def)
  moreover have "writable (storage (restarted d1)) p" for p
    by (simp add: restarted_def d1_def write_file_def sample_disk_def)
  moreover have "block_knobs tuned_block \<noteq> []" "\<forall>k \<in> set (block_knobs tuned_block). knob_values k \<noteq> []"
    by (simp_all add: tuned_block_def described_block_def knob_block_def)
  ultimately obtain w' where "welcome_client (csv_services std_csv_read sample_storage disk_services) ''c1'' [] (restarted d1) = Inr w'"
      "sent w' = sent (restarted d1) @ [\<lparr>topic = client_topic informed ''c1'' ''prediction'',
        payload = prediction_to_json disk_services tuned_block (stored_prediction tuned_block sample_prediction)\<rparr>]"
    using restarted_server_sends_the_stored_predictions [OF std_csv.csv_library_axioms, of sample_storage disk_services "restarted d1" "[]" "''c1''" informed
        sample_prediction sample_disk d1] d1 sample_prediction_storable
    by (auto simp: tuned_block_parsed restarted_def sample_storage_def sample_prediction_def sample_disk_def)
  with d1 show ?thesis
    by (intro exI [of _ d1] exI [of _ w']) (simp add: restarted_def client_topic_def aid_str_def sample_id_def MESSAGE_HEADER_def disk_services_def)
qed

theorem restarted_server_resumes_the_exploration_witness:
  "\<exists>d1 w'. store_doe sample_storage sample_id tuned_block
      \<lparr>required_explorations = [\<lparr>configuration_id = ''7'', configuration = [(''k'', ''2'')], number_of_explorations = 3\<rparr>]\<rparr> sample_disk = Inr d1
    \<and> welcome_client (csv_services std_csv_read sample_storage disk_services) ''c1'' [] (restarted d1) = Inr w'
    \<and> sent w' = [\<lparr>topic = ''margot/app^1^foo/c1/explore'', payload = ''configuration''\<rparr>]"
proof -
  let ?e = "\<lparr>configuration_id = ''7'', configuration = [(''k'', ''2'')], number_of_explorations = 3\<rparr>"
  let ?dm = "\<lparr>required_explorations = [?e]\<rparr>"
  have k: "block_knobs tuned_block = [\<lparr>knob_name = ''k'', knob_type = ''int'', knob_values = [''1'', ''2'']\<rparr>]"
    and ms: "block_metrics tuned_block = [sample_metric ''time'' [\<lparr>prop_key = ''degree'', prop_value = ''2''\<rparr>]]"
    by (simp_all add: tuned_block_def described_block_def knob_block_def)
  have e: "\<forall>e \<in> set (required_explorations ?dm). storable_entry tuned_block e"
    by (simp add: storable_entry_def storable_configuration_def k plain_field_def)
  have columns: "doe_columns_ok tuned_block" by (simp add: doe_columns_ok_def doe_header_def k plain_field_def)
  define d1 where "d1 = write_file (doe_path sample_storage sample_id)
    (table_text (doe_header tuned_block # map (doe_line tuned_block) (required_explorations ?dm))) sample_disk"
  have d1: "store_doe sample_storage sample_id tuned_block ?dm sample_disk = Inr d1"
    unfolding d1_def by (rule store_doe_lines [OF e])
  have "in_status CLUELESS (handler (restarted d1))"
    by (simp add: restarted_def RemoteApplicationHandler_def in_status_flags)
  moreover have "workspaces_apart sample_storage disk_services"
    by (simp add: workspaces_apart_def disk_services_def same_data_def)
  moreover have "writable (storage (restarted d1)) p" for p
    by (simp add: restarted_def d1_def write_file_def sample_disk_def)
  moreover have "files (storage (restarted d1)) (prediction_path sample_storage sample_id) = None"
      "files (storage (restarted d1)) (model_path sample_storage sample_id ''time'') = None"
    by (simp_all add: restarted_def d1_def write_file_def sample_disk_def csv_path_def model_path_def models_path_def sample_storage_def)
  moreover have "separate_roots sample_storage" by (simp add: separate_roots_def sample_storage_def)
  ultimately obtain w' where "welcome_client (csv_services std_csv_read sample_storage disk_services) ''c1'' [] (restarted d1) = Inr w'"
      "sent w' = sent (restarted d1) @ [\<lparr>topic = client_topic informed ''c1'' ''explore'',
        payload = configuration_to_json disk_services tuned_block (stored_values tuned_block (configuration (last [?e])))\<rparr>]"
    using restarted_server_resumes_the_exploration [OF std_csv.csv_library_axioms, of sample_storage disk_services "restarted d1" "[]" "''c1''" informed
        "sample_metric ''time'' [\<lparr>prop_key = ''degree'', prop_value = ''2''\<rparr>]" ?dm sample_disk d1 "[?e]"] d1 e columns
    by (auto simp: k ms tuned_block_parsed restarted_def sample_storage_def sample_disk_def sample_metric_def)
  with d1 show ?thesis
    by (intro exI [of _ d1] exI [of _ w']) (simp add: restarted_def client_topic_def aid_str_def sample_id_def MESSAGE_HEADER_def disk_services_def)
qed

end
