(* ===== verification/Agora_Launcher.thy ===== *)
theory Agora_Launcher
  imports Agora_Recovery Agora_Mqtt
begin

text \<open>
  The launching of the plugins (\<^verbatim>\<open>launcher.cpp\<close>, \<^verbatim>\<open>launcher_configuration.hpp\<close>): each application has a copy of
  the directory of every plugin, and a plugin runs on a file with its environment. The operating system
  is a parameter: which directories exist, which file is newer, whether a copy fails, and processes.
  The messages of the exceptions end without the error code of the system.
\<close>

section \<open>The operating system\<close>

record host =
  is_directory :: "path \<Rightarrow> disk \<Rightarrow> bool"
  path_exists :: "path \<Rightarrow> disk \<Rightarrow> bool"
  newer :: "path \<Rightarrow> path \<Rightarrow> disk \<Rightarrow> bool"
  copy_fails :: "path \<Rightarrow> path \<Rightarrow> disk \<Rightarrow> bool"
  fork_exec :: "path \<Rightarrow> path \<Rightarrow> disk \<Rightarrow> int \<times> disk"
  waitpid :: "nat \<Rightarrow> disk \<Rightarrow> int \<times> int \<times> disk"

text \<open>\<^verbatim>\<open>fs::copy\<close> of a directory with the options \<^verbatim>\<open>recursive\<close> and \<^verbatim>\<open>update_existing\<close>.\<close>

definition copy_tree :: "host \<Rightarrow> path \<Rightarrow> path \<Rightarrow> disk \<Rightarrow> disk" where
  "copy_tree os src dst d =
     d\<lparr>files := (\<lambda>p. if starts_with dst p
                     then let q = src @ drop (length dst) p
                          in case files d q of
                               None \<Rightarrow> files d p
                             | Some content \<Rightarrow> if files d p = None \<or> newer os q p d then Some content else files d p
                     else files d p)\<rparr>"

section \<open>The launcher\<close>

record launcher_configuration =
  plugins_path :: path
  workspace_path :: path
  config_file_name :: string
  script_file_name :: string

definition LauncherConfiguration :: "host \<Rightarrow> path \<Rightarrow> path \<Rightarrow> string \<Rightarrow> string \<Rightarrow> disk \<Rightarrow> launcher_configuration result" where
  "LauncherConfiguration os plugins workspace config script d =
     (if \<not> path_exists os workspace d \<or> \<not> path_exists os plugins d
      then Inl (Runtime_error ''Launcher configuration: workspace_path and/or plugin_path do not exist.'')
      else Inr \<lparr>plugins_path = plugins, workspace_path = workspace, config_file_name = config, script_file_name = script\<rparr>)"

record launcher =
  launcher_workspace :: path
  plugin_path :: path
  launcher_script :: string
  plugin_working_dir :: path
  last_env_configuration :: PluginConfiguration

definition Launcher :: "launcher_configuration \<Rightarrow> string \<Rightarrow> launcher" where
  "Launcher cfg plugin_name =
     \<lparr>launcher_workspace = workspace_path cfg, plugin_path = plugins_path cfg @ [plugin_name], launcher_script = script_file_name cfg,
      plugin_working_dir = [], last_env_configuration = PluginConfiguration 0 [] \<lparr>app_name = [], version = [], block_name = []\<rparr>\<rparr>"

definition copy_plugin_directory :: "host \<Rightarrow> path \<Rightarrow> path \<Rightarrow> disk \<Rightarrow> disk result" where
  "copy_plugin_directory os src dst d =
     (if \<not> is_directory os src d
      then Inl (Runtime_error (''Launcher: the input path to copy is not a directory'' @ path_string src))
      else if copy_fails os src dst d
      then Inl (Runtime_error (''Launcher: unable to copy the folder '' @ in_quotes (path_string src) @ '' into '' @ in_quotes (path_string dst)))
      else Inr (copy_tree os src dst d))"

definition launcher_initialize :: "host \<Rightarrow> application_id \<Rightarrow> launcher \<Rightarrow> disk \<Rightarrow> (launcher \<times> disk) result" where
  "launcher_initialize os a l d =
     (let dst = launcher_workspace l @ aid_path a @ [last (plugin_path l)]
      in bind_result (copy_plugin_directory os (plugin_path l) dst d) (\<lambda>d'. Inr (l\<lparr>plugin_working_dir := dst\<rparr>, d')))"

definition clear_workspace :: "launcher \<Rightarrow> disk \<Rightarrow> disk" where
  "clear_workspace l d = remove_all (plugin_working_dir l) d"

definition environment_line :: "string \<Rightarrow> string \<Rightarrow> string" where
  "environment_line k v = k @ ''='' @ [CHR 0x22] @ v @ [CHR 0x22, CHR 0x0A]"

definition set_plugin_configuration :: "host \<Rightarrow> PluginConfiguration \<Rightarrow> path \<Rightarrow> launcher \<Rightarrow> disk \<Rightarrow> disk result" where
  "set_plugin_configuration os env config_path l d =
     (if \<not> path_exists os (plugin_working_dir l) d
      then Inl (Runtime_error ''Launcher: the plugin working directory doesn't exist. Have you initiliazed the plugin launcher first?'')
      else Inr (write_file config_path
        (print_properties env @ environment_line ''WORKING_DIRECTORY'' (path_string (plugin_working_dir l))
           @ environment_line ''CONFIG_FILE_PATH'' (path_string config_path)) d))"

text \<open>In the parent; a child that cannot execute the script ends with an exception of its own.\<close>

definition start_plugin :: "host \<Rightarrow> path \<Rightarrow> path \<Rightarrow> disk \<Rightarrow> (nat \<times> disk) result" where
  "start_plugin os script config d =
     (case fork_exec os script config d of
        (pid, d') \<Rightarrow> if pid < 0 then Inl (Runtime_error ''Launcher: unable to fork for executing the plugin'') else Inr (nat pid, d'))"

definition launcher_launch :: "host \<Rightarrow> PluginConfiguration \<Rightarrow> launcher \<Rightarrow> disk \<Rightarrow> (nat \<times> launcher \<times> disk) result" where
  "launcher_launch os env l d =
     (let script = plugin_working_dir l @ [launcher_script l]; config = plugin_working_dir l @ [config_name env]
      in if \<not> path_exists os script d
         then Inl (Runtime_error (''Launcher: the plugin script file ['' @ path_string script @ ''] cannot be found. Have you initiliazed the plugin launcher?''))
         else bind_result (set_plugin_configuration os env config l d) (\<lambda>d1.
              bind_result (start_plugin os script config d1) (\<lambda>(pid, d2). Inr (pid, l\<lparr>last_env_configuration := env\<rparr>, d2))))"

definition launcher_relaunch :: "host \<Rightarrow> launcher \<Rightarrow> disk \<Rightarrow> (nat \<times> disk) result" where
  "launcher_relaunch os l d =
     (let script = plugin_working_dir l @ [launcher_script l]; config = plugin_working_dir l @ [config_name (last_env_configuration l)]
      in if \<not> path_exists os config d
         then Inl (Runtime_error ''Launcher: the environmental configuration file cannot be found. Is this the first time you launch this plugin?'')
         else start_plugin os script config d)"

definition launcher_wait :: "host \<Rightarrow> nat \<Rightarrow> disk \<Rightarrow> disk result" where
  "launcher_wait os pid d =
     (case waitpid os pid d of
        (rc, code, d') \<Rightarrow>
          if rc < 0 then Inl (Runtime_error (''Launcher: unable to wait the child '' @ in_quotes (std_to_string (int pid))))
          else if code \<noteq> 0 then Inl (Runtime_error (''Launcher: a plugin process terminated with return code:'' @ std_to_string code))
          else Inr d')"

section \<open>The launcher as a service\<close>

text \<open>
  The handler of an application has one launcher for each plugin, initialised for that application.
\<close>

definition app_launcher :: "launcher_configuration \<Rightarrow> string \<Rightarrow> application_id \<Rightarrow> launcher" where
  "app_launcher cfg plugin a =
     (Launcher cfg plugin)\<lparr>plugin_working_dir := workspace_path cfg @ aid_path a @ [plugin]\<rparr>"

definition launcher_services :: "host \<Rightarrow> launcher_configuration \<Rightarrow> disk services \<Rightarrow> disk services" where
  "launcher_services os cfg sv = sv
     \<lparr>initialize_workspace := \<lambda>plugin a d. bind_result (launcher_initialize os a (Launcher cfg plugin) d) (\<lambda>(l, d'). Inr d'),
      launch := \<lambda>plugin pc d. bind_result (launcher_launch os pc (app_launcher cfg plugin (plugin_app_id pc)) d) (\<lambda>(pid, l, d'). Inr (pid, d')),
      wait_plugin := launcher_wait os\<rparr>"

lemma launcher_initialized:
  "launcher_initialize os a (Launcher cfg plugin) d = Inr (l, d') \<Longrightarrow>
    l = app_launcher cfg plugin a \<and> d' = copy_tree os (plugins_path cfg @ [plugin]) (workspace_path cfg @ aid_path a @ [plugin]) d"
  by (auto simp: launcher_initialize_def Launcher_def app_launcher_def copy_plugin_directory_def Let_def split: if_splits)

section \<open>The workspaces\<close>

definition apart :: "path \<Rightarrow> path \<Rightarrow> bool" where
  "apart p q \<longleftrightarrow> \<not> starts_with p q \<and> \<not> starts_with q p"

definition plugins_installed :: "host \<Rightarrow> launcher_configuration \<Rightarrow> bool" where
  "plugins_installed os cfg \<longleftrightarrow>
     (\<forall>plugin d. is_directory os (plugins_path cfg @ [plugin]) d \<and> (\<forall>dst. \<not> copy_fails os (plugins_path cfg @ [plugin]) dst d))"

definition roots_apart :: "storage_config \<Rightarrow> launcher_configuration \<Rightarrow> bool" where
  "roots_apart c cfg \<longleftrightarrow> apart (workspace_path cfg) (csv_storage_root_path c) \<and> apart (workspace_path cfg) (model_storage_root_path c)"

lemma initialize_installed:
  "plugins_installed os cfg \<Longrightarrow> initialize_workspace (launcher_services os cfg sv) plugin a d =
    Inr (copy_tree os (plugins_path cfg @ [plugin]) (workspace_path cfg @ aid_path a @ [plugin]) d)"
  by (simp add: launcher_services_def launcher_initialize_def Launcher_def copy_plugin_directory_def plugins_installed_def Let_def)

lemma apart_prefix: "apart p q \<Longrightarrow> starts_with q r \<Longrightarrow> \<not> starts_with (p @ p') r"
  by (auto simp: apart_def starts_with_iff append_eq_append_conv2)

lemma copy_tree_elsewhere: "\<not> starts_with dst p \<Longrightarrow> files (copy_tree os src dst d) p = files d p"
  by (simp add: copy_tree_def)

lemma copy_tree_inside:
  "files (copy_tree os src dst d) (dst @ q) =
    (case files d (src @ q) of
       None \<Rightarrow> files d (dst @ q)
     | Some content \<Rightarrow> if files d (dst @ q) = None \<or> newer os (src @ q) (dst @ q) d then Some content else files d (dst @ q))"
proof -
  have "starts_with dst (dst @ q)" by (auto simp: starts_with_iff)
  then show ?thesis by (simp add: copy_tree_def Let_def)
qed

lemma copy_tree_same_data:
  "roots_apart c cfg \<Longrightarrow> same_data c d (copy_tree os src (workspace_path cfg @ p) d)"
  by (auto simp: same_data_def roots_apart_def intro!: copy_tree_elsewhere dest: apart_prefix)

lemma launcher_workspaces_apart:
  "plugins_installed os cfg \<Longrightarrow> roots_apart c cfg \<Longrightarrow> workspaces_apart c (launcher_services os cfg sv)"
  by (auto simp: workspaces_apart_def initialize_installed intro: copy_tree_same_data)

lemma working_directory_prefix:
  "starts_with (w @ aid_path a @ [plugin]) (w @ aid_path b @ [other] @ q) \<longleftrightarrow> a = b \<and> plugin = other"
  by (cases a; cases b) (auto simp: starts_with_iff aid_path_def)

text \<open>
  C26: when the plugins are installed, each application gets a workspace of its own for each of its
  plugins: it has the files of the plugin, a file that was there and is not older is kept, and neither
  the tables and models of the storage nor the workspaces of other applications or plugins change.
\<close>

theorem plugin_workspaces_are_private:
  assumes "plugins_installed os cfg" and "roots_apart c cfg"
  shows "\<exists>l d'. launcher_initialize os a (Launcher cfg plugin) d = Inr (l, d')
    \<and> plugin_working_dir l = workspace_path cfg @ aid_path a @ [plugin]
    \<and> (\<forall>q. files d' (plugin_working_dir l @ q) =
        (case files d (plugins_path cfg @ [plugin] @ q) of
           None \<Rightarrow> files d (plugin_working_dir l @ q)
         | Some content \<Rightarrow>
             if files d (plugin_working_dir l @ q) = None \<or> newer os (plugins_path cfg @ [plugin] @ q) (plugin_working_dir l @ q) d
             then Some content else files d (plugin_working_dir l @ q)))
    \<and> same_data c d d'
    \<and> (\<forall>b other q. b \<noteq> a \<or> other \<noteq> plugin \<longrightarrow>
        files d' (workspace_path cfg @ aid_path b @ [other] @ q) = files d (workspace_path cfg @ aid_path b @ [other] @ q))"
proof -
  let ?dst = "workspace_path cfg @ aid_path a @ [plugin]"
  let ?d' = "copy_tree os (plugins_path cfg @ [plugin]) ?dst d"
  have "launcher_initialize os a (Launcher cfg plugin) d = Inr (app_launcher cfg plugin a, ?d')"
    using assms(1) by (simp add: launcher_initialize_def Launcher_def app_launcher_def copy_plugin_directory_def plugins_installed_def Let_def)
  moreover have "files ?d' (workspace_path cfg @ aid_path b @ [other] @ q) = files d (workspace_path cfg @ aid_path b @ [other] @ q)"
    if "b \<noteq> a \<or> other \<noteq> plugin" for b other q
    using that working_directory_prefix [of "workspace_path cfg" a plugin b other q] by (intro copy_tree_elsewhere) auto
  moreover have "plugin_working_dir (app_launcher cfg plugin a) = ?dst" by (simp add: app_launcher_def)
  moreover note copy_tree_same_data [OF assms(2), of d os "plugins_path cfg @ [plugin]" "aid_path a @ [plugin]"]
  moreover have "files ?d' (?dst @ q) =
      (case files d (plugins_path cfg @ [plugin] @ q) of
         None \<Rightarrow> files d (?dst @ q)
       | Some content \<Rightarrow> if files d (?dst @ q) = None \<or> newer os (plugins_path cfg @ [plugin] @ q) (?dst @ q) d
                         then Some content else files d (?dst @ q))" for q
    using copy_tree_inside [of os "plugins_path cfg @ [plugin]" ?dst d q] by (simp only: append_assoc)
  ultimately show ?thesis
    by (intro exI [of _ "app_launcher cfg plugin a"] exI [of _ ?d'] conjI allI impI) (simp_all only: split: option.split)
qed

section \<open>The environment of a plugin\<close>

definition printable :: "string \<Rightarrow> bool" where
  "printable s \<longleftrightarrow> CHR 0x0A \<notin> set s"

definition environment_entry :: "string \<times> string \<Rightarrow> string" where
  "environment_entry e = fst e @ ''='' @ [CHR 0x22] @ snd e @ [CHR 0x22]"

lemma split_entries:
  assumes "\<forall>e \<in> set es. printable (fst e) \<and> printable (snd e)"
  shows "split_any_of (concat (map (\<lambda>e. environment_entry e @ [CHR 0x0A]) es)) [CHR 0x0A] = map environment_entry es @ [[]]"
  using assms
proof (induction es)
  case (Cons e es)
  then have "set (environment_entry e) \<inter> set [CHR 0x0A] = {}"
    by (simp add: environment_entry_def printable_def)
  then show ?case using Cons by (simp add: split_any_of_at)
qed simp

lemma entry_lines:
  "\<forall>e \<in> set es. printable (fst e) \<and> printable (snd e) \<Longrightarrow>
    getlines (CHR 0x0A) (concat (map (\<lambda>e. environment_entry e @ [CHR 0x0A]) es)) = map environment_entry es"
  by (simp add: getlines_def split_entries)

text \<open>
  Launching a plugin writes its environment first, then starts its script on the file. A line of
  the file is a property of the configuration, and the last two lines are the working directory and
  the file. The process is the one that the system forks; the launcher remembers the configuration.
\<close>

theorem launch_hands_over_the_environment:
  assumes "path_exists os (plugin_working_dir l @ [launcher_script l]) d" and "path_exists os (plugin_working_dir l) d"
    and "writable d (plugin_working_dir l @ [config_name env])"
    and "\<forall>e \<in> set (properties env). printable (fst e) \<and> printable (snd e)"
    and "\<forall>n \<in> set (config_name env # plugin_working_dir l). printable n"
  shows "\<exists>d1 text. files d1 = (files d)(plugin_working_dir l @ [config_name env] \<mapsto> text)
    \<and> getlines (CHR 0x0A) text = map environment_entry (properties env @
        [(''WORKING_DIRECTORY'', path_string (plugin_working_dir l)),
         (''CONFIG_FILE_PATH'', path_string (plugin_working_dir l @ [config_name env]))])
    \<and> launcher_launch os env l d =
        (case fork_exec os (plugin_working_dir l @ [launcher_script l]) (plugin_working_dir l @ [config_name env]) d1 of
           (pid, d2) \<Rightarrow> if pid < 0 then Inl (Runtime_error ''Launcher: unable to fork for executing the plugin'')
                        else Inr (nat pid, l\<lparr>last_env_configuration := env\<rparr>, d2))"
proof -
  let ?config = "plugin_working_dir l @ [config_name env]"
  let ?es = "properties env @ [(''WORKING_DIRECTORY'', path_string (plugin_working_dir l)), (''CONFIG_FILE_PATH'', path_string ?config)]"
  let ?text = "concat (map (\<lambda>e. environment_entry e @ [CHR 0x0A]) ?es)"
  have "printable (path_string p)" if "\<forall>n \<in> set p. printable n" for p
    using that by (auto simp: path_string_def printable_def)
  then have "\<forall>e \<in> set ?es. printable (fst e) \<and> printable (snd e)"
    using assms(4,5) by (auto simp: printable_def)
  then have "getlines (CHR 0x0A) ?text = map environment_entry ?es" by (rule entry_lines)
  moreover have "set_plugin_configuration os env ?config l d = Inr (write_file ?config ?text d)"
    using assms(2) by (simp add: set_plugin_configuration_def print_properties_def environment_line_def environment_entry_def)
  ultimately show ?thesis
    using assms(1,3)
    by (intro exI [of _ "write_file ?config ?text d"] exI [of _ ?text])
      (auto simp: launcher_launch_def Let_def start_plugin_def write_file_def split: prod.splits)
qed

section \<open>A plugin that fails\<close>

definition processes_end_with :: "host \<Rightarrow> int \<Rightarrow> bool" where
  "processes_end_with os code \<longleftrightarrow>
     (\<forall>p d. path_exists os p d) \<and> (\<forall>script config d. fst (fork_exec os script config d) \<ge> 0)
     \<and> (\<forall>pid d. \<exists>d'. waitpid os pid d = (int pid, code, d'))"

definition failed_plugin :: "int \<Rightarrow> margot_error" where
  "failed_plugin code = Runtime_error (''Launcher: a plugin process terminated with return code:'' @ std_to_string code)"

lemma failing_wait:
  assumes "processes_end_with os code" and "code \<noteq> 0"
  shows "wait_for (csv_services rd c (launcher_services os cfg sv)) pid w = Inl (failed_plugin code)"
proof -
  from assms(1) obtain d' where "waitpid os pid (storage w) = (int pid, code, d')"
    unfolding processes_end_with_def by blast
  with assms(2) show ?thesis
    by (simp add: wait_for_def csv_services_def launcher_services_def launcher_wait_def failed_plugin_def)
qed

lemma launch_succeeds:
  assumes "processes_end_with os code"
  shows "\<exists>pid d'. launch (csv_services rd c (launcher_services os cfg sv)) plugin pc d = Inr (pid, d')"
proof -
  have "path_exists os p d" "fst (fork_exec os script config d) \<ge> 0" for p script config d
    using assms by (auto simp: processes_end_with_def)
  then show ?thesis
    by (simp add: csv_services_def launcher_services_def launcher_launch_def set_plugin_configuration_def start_plugin_def Let_def
        case_prod_beta linorder_not_le [symmetric] del: linorder_not_le)
qed

lemma doe_plugin_fails:
  assumes "processes_end_with os code" and "code \<noteq> 0" and "doe_launcher (handler w) \<noteq> None"
  shows "bind_result (start_doe (csv_services rd c (launcher_services os cfg sv)) w)
      (\<lambda>(pid, w1). bind_result (wait_for (csv_services rd c (launcher_services os cfg sv)) pid w1) k) = Inl (failed_plugin code)"
proof -
  let ?sv = "csv_services rd c (launcher_services os cfg sv)"
  obtain pc where pc: "create_env_configuration Plugin_DOE (names ?sv)
      (PluginConfiguration 0 ''plugin_config.env'' (handler_id (handler w))) = Inr pc"
    using create_env_configuration_total by blast
  from assms(3) obtain plugin where plugin: "doe_launcher (handler w) = Some plugin" by auto
  obtain pid d' where "launch ?sv plugin pc (storage w) = Inr (pid, d')" using launch_succeeds [OF assms(1)] by blast
  with pc plugin show ?thesis
    by (simp add: start_doe_def run_launcher_def Let_def set_status_def failing_wait [OF assms(1,2)])
qed

lemma failed_doe_plugin:
  assumes "csv_library rd" and "plugins_installed os cfg" and "roots_apart c cfg" and "\<And>p. writable (storage w) p"
    and "separate_roots c" and "in_status CLUELESS (handler w)"
    and "parse_informations (csv_services rd c (launcher_services os cfg sv)) info (add_client cid (handler w)) = (True, h)"
    and "\<forall>k \<in> set (block_knobs (description h)). knob_values k \<noteq> []"
    and "files (storage w) (prediction_path c (handler_id h)) = None" and "files (storage w) (doe_path c (handler_id h)) = None"
    and "m \<in> set (block_metrics (description h))" and "files (storage w) (model_path c (handler_id h) (metric_name m)) = None"
    and working_processes: "processes_end_with os code" "code \<noteq> 0"
  shows "welcome_client (csv_services rd c (launcher_services os cfg sv)) cid info w = Inl (failed_plugin code)"
proof -
  let ?sv = "csv_services rd c (launcher_services os cfg sv)" and ?a = "handler_id h" and ?blk = "description h"
  have v: "workspaces_apart c ?sv"
    using launcher_workspaces_apart [OF assms(2,3), of sv] by (simp add: workspaces_apart_def csv_services_def)
  obtain w3 where w3: "welcome_client ?sv cid info w = bind_result (start_recovering ?sv w3) (\<lambda>w4. Inr (answer_client ?sv cid w4))"
      "handler_id (handler w3) = ?a" "description (handler w3) = ?blk"
      "same_data c (written c ?a ?blk (storage w)) (storage w3)" "doe_launcher (handler w3) = Some (doe_plugin (block_agora ?blk))"
    using welcome_until_recovery [OF v assms(4,6,7,8)] by (auto simp: csv_services_def)
  note tables = same_data_tables [OF w3(4)] written_elsewhere [OF assms(4)]
  have "csv_load_prediction rd c ?a ?blk (storage w3) = prediction_empty"
    using assms(9) tables by (simp add: csv_load_prediction_def load_table_missing)
  moreover have "csv_load_doe rd c ?a ?blk (storage w3) = doe_empty"
    using assms(10) tables by (simp add: csv_load_doe_def load_table_missing)
  moreover have "\<not> csv_is_model_valid c ?a (metric_name m) (storage w3)"
    using assms(12) same_data_models [OF w3(4)] written_models [OF assms(4,5)] by (simp add: csv_is_model_valid_def)
  ultimately have "\<exists>w4. start_recovering ?sv w3 = recover_doe ?sv w4 \<and> \<not> is_doe_valid (handler w4) \<and> doe_launcher (handler w4) \<noteq> None"
    using w3(2,3,5) assms(11)
    by (auto simp: start_recovering_def Let_def reload_cluster_def reload_prediction_def reload_doe_def csv_services_def
        is_prediction_valid_def is_doe_valid_def are_models_valid_def are_features_enabled_def set_status_def prediction_empty_def doe_empty_def)
  then obtain w4 where w4: "start_recovering ?sv w3 = recover_doe ?sv w4" "\<not> is_doe_valid (handler w4)" "doe_launcher (handler w4) \<noteq> None"
    by blast
  have "recover_doe ?sv w4 = Inl (failed_plugin code)"
    unfolding recover_doe_def using w4(2) by (simp add: doe_plugin_fails [OF working_processes w4(3)])
  with w3(1) w4(1) show ?thesis by simp
qed

text \<open>
  C27: the first client of an application of which nothing is stored makes the server run the plugin of
  the design of experiments. When that process ends with a code other than zero, the launcher throws,
  nobody catches the exception, and the worker, with the server, ends with the launcher's error.
\<close>

theorem failed_doe_plugin_ends_the_server:
  assumes "csv_library rd" and "plugins_installed os cfg" and "roots_apart c cfg" and "\<And>p. writable (srv_storage srv) p"
    and "separate_roots c" and "tokenizer split" and "plain_id a" and "CHR ''/'' \<notin> set cid"
    and "accepted \<lparr>topic = MESSAGE_HEADER @ ''/'' @ aid_str a @ ''/welcome/'' @ cid, payload = info\<rparr>"
    and "map_of (apps srv) (aid_str a) = None"
    and "parse_informations (csv_services rd c (launcher_services os cfg sv)) info (add_client cid (RemoteApplicationHandler a blank)) = (True, h)"
    and "\<forall>k \<in> set (block_knobs (description h)). knob_values k \<noteq> []"
    and "files (srv_storage srv) (prediction_path c (handler_id h)) = None" and "files (srv_storage srv) (doe_path c (handler_id h)) = None"
    and "m \<in> set (block_metrics (description h))" and "files (srv_storage srv) (model_path c (handler_id h) (metric_name m)) = None"
    and "processes_end_with os code" and "code \<noteq> 0"
  shows "worker_task split (csv_services rd c (launcher_services os cfg sv)) blank tid
      (\<lparr>topic = MESSAGE_HEADER @ ''/'' @ aid_str a @ ''/welcome/'' @ cid, payload = info\<rparr> # others) srv = Inl (failed_plugin code)"
proof -
  let ?sv = "csv_services rd c (launcher_services os cfg sv)"
  let ?w = "\<lparr>handler = RemoteApplicationHandler a blank, storage = srv_storage srv, sent = srv_sent srv\<rparr>"
  have "welcome_client ?sv cid info ?w = Inl (failed_plugin code)"
    using assms by (intro failed_doe_plugin [where h = h and m = m]) (simp_all add: RemoteApplicationHandler_def in_status_flags)
  then have "with_handler blank a (welcome_client ?sv cid info) srv = Inl (failed_plugin code)"
    using assms(10) by (simp add: with_handler_def get_application_handler_def Let_def)
  then show ?thesis
    using client_message_dispatch(1) [OF assms(6,7,8), of "''welcome''" info ?sv blank tid srv] assms(9) by simp
qed

section \<open>An instance\<close>

text \<open>A system on which the plugins are installed and every process ends with the code one.\<close>

definition sample_host :: host where
  "sample_host = \<lparr>is_directory = (\<lambda>p d. True), path_exists = (\<lambda>p d. True), newer = (\<lambda>p q d. False), copy_fails = (\<lambda>p q d. False),
     fork_exec = (\<lambda>script config d. (42, d)), waitpid = (\<lambda>pid d. (int pid, 1, d))\<rparr>"

definition sample_launchers :: launcher_configuration where
  "sample_launchers = \<lparr>plugins_path = [''plugins''], workspace_path = [''workspace''], config_file_name = ''plugin_config.env'',
     script_file_name = ''plugin_start.sh''\<rparr>"

lemma sample_host_laws:
  "plugins_installed sample_host cfg" "processes_end_with sample_host 1" "roots_apart sample_storage sample_launchers"
  by (simp_all add: plugins_installed_def processes_end_with_def roots_apart_def apart_def sample_host_def sample_launchers_def sample_storage_def)

theorem plugin_workspaces_are_private_witness:
  "\<exists>l d'. launcher_initialize sample_host sample_id (Launcher sample_launchers ''doe'')
      (write_file [''plugins'', ''doe'', ''plugin_start.sh''] ''exit 1'' sample_disk) = Inr (l, d')
    \<and> files d' [''workspace'', ''app'', ''1'', ''foo'', ''doe'', ''plugin_start.sh''] = Some ''exit 1''"
proof -
  let ?d = "write_file [''plugins'', ''doe'', ''plugin_start.sh''] ''exit 1'' sample_disk"
  obtain l d' where l: "launcher_initialize sample_host sample_id (Launcher sample_launchers ''doe'') ?d = Inr (l, d')"
      "plugin_working_dir l = workspace_path sample_launchers @ aid_path sample_id @ [''doe'']"
    and q: "\<And>q. files d' (plugin_working_dir l @ q) =
        (case files ?d (plugins_path sample_launchers @ [''doe''] @ q) of
           None \<Rightarrow> files ?d (plugin_working_dir l @ q)
         | Some content \<Rightarrow>
             if files ?d (plugin_working_dir l @ q) = None \<or> newer sample_host (plugins_path sample_launchers @ [''doe''] @ q) (plugin_working_dir l @ q) ?d
             then Some content else files ?d (plugin_working_dir l @ q))"
    using plugin_workspaces_are_private [OF sample_host_laws(1,3), of sample_id "''doe''" ?d] by blast
  then show ?thesis
    using q [of "[''plugin_start.sh'']"]
    by (intro exI [of _ l] exI [of _ d'])
      (simp add: sample_launchers_def sample_id_def aid_path_def write_file_def sample_disk_def)
qed

theorem launch_hands_over_the_environment_witness:
  "\<exists>d1 text. getlines (CHR 0x0A) text = [''METRIC_NAME='' @ [CHR 0x22] @ ''time'' @ [CHR 0x22],
        ''WORKING_DIRECTORY='' @ [CHR 0x22] @ ''/workspace/app/1/foo/doe'' @ [CHR 0x22],
        ''CONFIG_FILE_PATH='' @ [CHR 0x22] @ ''/workspace/app/1/foo/doe/plugin_config.env'' @ [CHR 0x22]]
    \<and> files d1 [''workspace'', ''app'', ''1'', ''foo'', ''doe'', ''plugin_config.env''] = Some text
    \<and> launcher_launch sample_host (put_property ''METRIC_NAME'' ''time'' (PluginConfiguration 0 ''plugin_config.env'' sample_id))
        (app_launcher sample_launchers ''doe'' sample_id) sample_disk =
      Inr (42, (app_launcher sample_launchers ''doe'' sample_id)
             \<lparr>last_env_configuration := put_property ''METRIC_NAME'' ''time'' (PluginConfiguration 0 ''plugin_config.env'' sample_id)\<rparr>, d1)"
proof -
  let ?env = "put_property ''METRIC_NAME'' ''time'' (PluginConfiguration 0 ''plugin_config.env'' sample_id)"
  let ?l = "app_launcher sample_launchers ''doe'' sample_id"
  have l: "plugin_working_dir ?l = [''workspace'', ''app'', ''1'', ''foo'', ''doe'']"
    by (simp add: app_launcher_def sample_launchers_def sample_id_def aid_path_def)
  have e: "properties ?env = [(''METRIC_NAME'', ''time'')]" "config_name ?env = ''plugin_config.env''"
    by (simp_all add: put_property_def PluginConfiguration_def)
  have h: "path_exists sample_host q sample_disk" "writable sample_disk q" for q
    by (simp_all add: sample_host_def sample_disk_def)
  have p: "\<forall>e \<in> set (properties ?env). printable (fst e) \<and> printable (snd e)" "\<forall>n \<in> set (config_name ?env # plugin_working_dir ?l). printable n"
    by (simp_all only: e l) (simp_all add: printable_def)
  obtain d1 content where "files d1 = (files sample_disk)(plugin_working_dir ?l @ [config_name ?env] \<mapsto> content)"
      "getlines (CHR 0x0A) content = map environment_entry (properties ?env @
        [(''WORKING_DIRECTORY'', path_string (plugin_working_dir ?l)),
         (''CONFIG_FILE_PATH'', path_string (plugin_working_dir ?l @ [config_name ?env]))])"
      "launcher_launch sample_host ?env ?l sample_disk =
        (case fork_exec sample_host (plugin_working_dir ?l @ [launcher_script ?l]) (plugin_working_dir ?l @ [config_name ?env]) d1 of
           (pid, d2) \<Rightarrow> if pid < 0 then Inl (Runtime_error ''Launcher: unable to fork for executing the plugin'')
                        else Inr (nat pid, ?l\<lparr>last_env_configuration := ?env\<rparr>, d2))"
    using launch_hands_over_the_environment [OF h(1) h(1) h(2) p] by blast
  then show ?thesis
    by (intro exI [of _ d1] exI [of _ content]) (simp del: put_property_frame add: l e sample_host_def environment_entry_def path_string_def)
qed

theorem failed_doe_plugin_ends_the_server_witness:
  "worker_task split_any_of (csv_services std_csv_read sample_storage (launcher_services sample_host sample_launchers disk_services)) blank_block ''1''
     [\<lparr>topic = MESSAGE_HEADER @ ''/'' @ aid_str sample_id @ ''/welcome/'' @ ''c1'', payload = []\<rparr>]
     \<lparr>apps = [], srv_storage = sample_disk, srv_sent = []\<rparr> = Inl (failed_plugin 1)"
proof -
  let ?sv = "csv_services std_csv_read sample_storage (launcher_services sample_host sample_launchers disk_services)"
  have "accepted \<lparr>topic = MESSAGE_HEADER @ ''/'' @ aid_str sample_id @ ''/welcome/'' @ ''c1'', payload = []\<rparr>"
    by (simp add: accepted_def topic_accepted_characters_def MESSAGE_HEADER_def aid_str_def sample_id_def)
  moreover have "parse_informations ?sv [] (add_client ''c1'' (RemoteApplicationHandler sample_id blank_block)) = (True, informed)"
    using tuned_block_parsed [of std_csv_read sample_storage "[]"]
    by (simp add: parse_informations_def csv_services_def launcher_services_def)
  moreover have "plain_id sample_id" "separate_roots sample_storage"
    by (simp_all add: plain_id_def sample_id_def separate_roots_def sample_storage_def)
  moreover have "\<forall>k \<in> set (block_knobs (description informed)). knob_values k \<noteq> []"
    by (simp add: tuned_block_def described_block_def knob_block_def)
  moreover have "sample_metric ''time'' [\<lparr>prop_key = ''degree'', prop_value = ''2''\<rparr>] \<in> set (block_metrics (description informed))"
    by (simp add: tuned_block_def described_block_def)
  ultimately show ?thesis
    by (intro failed_doe_plugin_ends_the_server [OF std_csv.csv_library_axioms sample_host_laws(1,3) _ _ sp.tokenizer_axioms,
        where h = informed and m = "sample_metric ''time'' [\<lparr>prop_key = ''degree'', prop_value = ''2''\<rparr>]"])
      (simp_all add: sample_host_laws sample_disk_def)
qed

end
