(* ===== verification/Goal_Model.thy ===== *)
theory Goal_Model
  imports Statistical_Provider
begin

text \<open>
  Goals (\<^verbatim>\<open>goal.hpp\<close>): a comparison function and a shared cell with the value to reach.
  The cell is shared between the application and every constraint built from the goal, so a
  goal holds the address of the cell and its operations read a store of goal values.
\<close>

section \<open>Operations\<close>

fun compare :: "ComparisonFunctions \<Rightarrow> real \<Rightarrow> real \<Rightarrow> bool" where
  "compare GREATER v g \<longleftrightarrow> v > g"
| "compare GREATER_OR_EQUAL v g \<longleftrightarrow> v \<ge> g"
| "compare LESS v g \<longleftrightarrow> v < g"
| "compare LESS_OR_EQUAL v g \<longleftrightarrow> v \<le> g"

type_synonym goal_store = "nat \<Rightarrow> real"

record goal =
  comparison_function :: ComparisonFunctions
  goal_value :: nat

definition Goal :: "nat \<Rightarrow> ComparisonFunctions \<Rightarrow> real \<Rightarrow> goal_store \<Rightarrow> goal \<times> goal_store" where
  "Goal a cf value gs = (\<lparr>comparison_function = cf, goal_value = a\<rparr>, gs(a := value))"

definition goal_set :: "goal \<Rightarrow> real \<Rightarrow> goal_store \<Rightarrow> goal_store" where
  "goal_set g new_value gs = gs(goal_value g := new_value)"

definition goal_get :: "goal \<Rightarrow> goal_store \<Rightarrow> real" where
  "goal_get g gs = gs (goal_value g)"

definition goal_check :: "goal \<Rightarrow> goal_store \<Rightarrow> real \<Rightarrow> bool" where
  "goal_check g gs v \<longleftrightarrow> compare (comparison_function g) v (goal_get g gs)"

definition goal_check2 :: "goal \<Rightarrow> real \<Rightarrow> real \<Rightarrow> bool" where
  "goal_check2 g v1 v2 \<longleftrightarrow> compare (comparison_function g) v1 v2"

definition goal_check_monitor :: "DataFunctions \<Rightarrow> goal \<Rightarrow> goal_store \<Rightarrow> provider \<Rightarrow> bool \<times> provider" where
  "goal_check_monitor df g gs p =
     (let (value, is_valid, q) = monitor_utils_get df p
      in (is_valid \<and> compare (comparison_function g) value (goal_get g gs), q))"

definition relative_error :: "goal \<Rightarrow> goal_store \<Rightarrow> real \<Rightarrow> real" where
  "relative_error g gs v =
     (if compare (comparison_function g) v (goal_get g gs) then 0
      else let safe_division = goal_get g gs \<noteq> 0;
               numerator = (if safe_division then v else v + 1);
               denumerator = (if safe_division then goal_get g gs else goal_get g gs + 1)
           in \<bar>numerator / denumerator - 1\<bar>)"

definition relative_error_monitor :: "DataFunctions \<Rightarrow> goal \<Rightarrow> goal_store \<Rightarrow> provider \<Rightarrow> real \<times> provider" where
  "relative_error_monitor df g gs p =
     (let (value, is_valid, q) = monitor_utils_get df p in (relative_error g gs value, q))"

definition absolute_error :: "goal \<Rightarrow> goal_store \<Rightarrow> real \<Rightarrow> real" where
  "absolute_error g gs v =
     (if compare (comparison_function g) v (goal_get g gs) then 0
      else let min_value = min v (goal_get g gs); max_value = max v (goal_get g gs)
           in max_value - min_value)"

definition absolute_error_monitor :: "DataFunctions \<Rightarrow> goal \<Rightarrow> goal_store \<Rightarrow> provider \<Rightarrow> real \<times> provider" where
  "absolute_error_monitor df g gs p =
     (let (value, is_valid, q) = monitor_utils_get df p in (absolute_error g gs value, q))"

section \<open>Properties\<close>

text \<open>
  How strict a goal value is: a value that meets \<open>g'\<close> meets every weaker \<open>g\<close>. For the
  greater-than functions a larger goal is stricter, for the less-than functions a smaller one.
\<close>

lemma compare_stricter:
  "compare cf g' g \<Longrightarrow> compare cf v g' \<Longrightarrow> compare cf v g"
  by (cases cf) auto

lemma compare_total: "compare cf a b \<or> compare cf b a \<or> a = b"
  by (cases cf) auto

lemma compare_looser: "g' \<noteq> g \<Longrightarrow> \<not> compare cf g' g \<Longrightarrow> compare cf g g'"
  using compare_total [of cf g g'] by auto

lemma compare_between:
  "compare cf v g \<Longrightarrow> \<not> compare cf v g' \<Longrightarrow> compare cf g' g \<Longrightarrow> min g g' \<le> v \<and> v \<le> max g g'"
  by (cases cf) auto

lemma goal_get_set [simp]: "goal_get g (goal_set h v gs) = (if goal_value g = goal_value h then v else goal_get g gs)"
  by (simp add: goal_get_def goal_set_def)

lemma relative_error_nonneg [simp]: "0 \<le> relative_error g gs v"
  by (simp add: relative_error_def Let_def)

lemma relative_error_value:
  "\<not> goal_check g gs v \<Longrightarrow>
     relative_error g gs v = (if goal_get g gs = 0 then \<bar>v\<bar> else \<bar>v - goal_get g gs\<bar> / \<bar>goal_get g gs\<bar>)"
  by (simp add: goal_check_def relative_error_def Let_def diff_divide_distrib flip: abs_divide)

lemma absolute_error_value:
  "\<not> goal_check g gs v \<Longrightarrow> absolute_error g gs v = \<bar>v - goal_get g gs\<bar>"
  by (simp add: goal_check_def absolute_error_def Let_def)

text \<open>
  Both errors are zero when the goal is met; otherwise the absolute error is the distance
  from the goal and the relative error is that distance divided by the magnitude of the goal,
  or the distance itself when the goal is zero, where the code shifts both operands by one to
  avoid the division by zero.
\<close>

theorem goal_errors_measure_distance:
  "relative_error g gs v =
     (if goal_check g gs v then 0
      else if goal_get g gs = 0 then \<bar>v - goal_get g gs\<bar>
      else \<bar>v - goal_get g gs\<bar> / \<bar>goal_get g gs\<bar>)
   \<and> absolute_error g gs v = (if goal_check g gs v then 0 else \<bar>v - goal_get g gs\<bar>)"
proof (cases "goal_check g gs v")
  case True
  then show ?thesis by (simp add: goal_check_def relative_error_def absolute_error_def)
next
  case False
  then show ?thesis by (simp add: relative_error_value absolute_error_value)
qed

end
