(* ===== verification/Field_Adaptor.thy ===== *)
theory Field_Adaptor
  imports Goal_Model
begin

text \<open>
  The feedback loop from the monitors to the application knowledge: the adaptor of one field
  (\<^verbatim>\<open>field_adaptor.hpp\<close>) and the array of adaptors of a manager
  (\<^verbatim>\<open>knowledge_adaptor.hpp\<close>).

  Adaptors, statistical providers and goal cells are shared through \<^verbatim>\<open>std::shared_ptr\<close>
  (a constraint reads the coefficient that the manager's adaptor array updates, an adaptor
  reads the provider that the application's monitor fills), so they live in a store, the
  record \<open>heap\<close>, and are referred to by address.
\<close>

section \<open>The adaptor of a field\<close>

record adaptor =
  ad_segment :: OperatingPointSegments
  ad_field_index :: nat
  inertia :: nat
  error_window :: "real list"
  average_coefficient_error :: real
  ad_next_element :: nat
  ad_buffer :: nat

definition OneSigmaAdaptor :: "OperatingPointSegments \<Rightarrow> nat \<Rightarrow> nat \<Rightarrow> nat \<Rightarrow> adaptor" where
  "OneSigmaAdaptor s i n monitor_buffer =
     \<lparr>ad_segment = s, ad_field_index = i, inertia = n, error_window = replicate n 1,
      average_coefficient_error = 1, ad_next_element = 0, ad_buffer = monitor_buffer\<rparr>"

text \<open>The lambda built by the constructor: the new coefficient, its validity, the provider.\<close>

definition adaptor_compute :: "adaptor \<Rightarrow> op_ptr \<Rightarrow> provider \<Rightarrow> real \<times> bool \<times> provider" where
  "adaptor_compute a op p =
     (let (observed_value, coefficient_is_valid, q) = monitor_utils_get AVERAGE p
      in if \<not> coefficient_is_valid then (1, coefficient_is_valid, q)
         else let expected_upper_bound = op_utils_get (ad_segment a) UPPER (ad_field_index a) 1 (deref op);
                  expected_lower_bound = op_utils_get (ad_segment a) LOWER (ad_field_index a) 1 (deref op)
              in if observed_value > expected_upper_bound \<or> observed_value < expected_lower_bound
                 then let expected_average_value = op_utils_get (ad_segment a) LOWER (ad_field_index a) 0 (deref op);
                          padding = (if observed_value \<noteq> 0 then 0 else 1)
                      in ((expected_average_value + padding) / (observed_value + padding), coefficient_is_valid, q)
                 else (1, coefficient_is_valid, q))"

text \<open>
  Storing a coefficient in the window and averaging. The window is a \<^verbatim>\<open>std::array\<close> of
  \<^verbatim>\<open>inertia\<close> elements; with an inertia of zero the write is out of range.
\<close>

definition store_coefficient :: "nat \<Rightarrow> real \<Rightarrow> adaptor \<Rightarrow> adaptor result" where
  "store_coefficient now new_coefficient a =
     (if ad_next_element a < length (error_window a)
      then let n = ad_next_element a + 1;
               w = (error_window a)[ad_next_element a := new_coefficient]
           in Inr (a\<lparr>error_window := w, ad_next_element := (if n = inertia a then 0 else n),
                     average_coefficient_error := average w\<rparr>)
      else Inl (Undefined_behaviour ''error_window[next_element] out of range''))"

definition adaptor_evaluate_error :: "op_ptr \<Rightarrow> adaptor \<Rightarrow> provider \<Rightarrow> (adaptor \<times> provider) result" where
  "adaptor_evaluate_error op a p =
     (let (new_coefficient, is_valid, q) = adaptor_compute a op p
      in if is_valid then bind_result (store_coefficient 0 new_coefficient a) (\<lambda>a'. Inr (a', q))
         else Inr (a, q))"

definition get_error_coefficient :: "adaptor \<Rightarrow> real" where
  "get_error_coefficient a = average_coefficient_error a"

definition clear_observations :: "adaptor \<Rightarrow> adaptor" where
  "clear_observations a = a\<lparr>error_window := replicate (length (error_window a)) 1\<rparr>"

section \<open>The store of shared objects\<close>

record heap =
  goals :: goal_store
  monitors :: "nat \<Rightarrow> provider"
  adaptor_cells :: "nat \<Rightarrow> adaptor"
  next_adaptor :: nat

section \<open>The adaptors of a manager\<close>

text \<open>
  One slot for each field of an operating point, software knobs first. The number of knobs is
  a template constant, kept here because the enumeration of the fields needs it.
\<close>

record knowledge_adaptor =
  ka_knobs :: nat
  adaptors :: "nat option list"

definition KnowledgeAdaptor :: "nat \<Rightarrow> nat \<Rightarrow> knowledge_adaptor" where
  "KnowledgeAdaptor nr_knobs nr_metrics =
     \<lparr>ka_knobs = nr_knobs, adaptors = replicate (nr_knobs + nr_metrics) None\<rparr>"

definition ka_emplace ::
  "OperatingPointSegments \<Rightarrow> nat \<Rightarrow> nat \<Rightarrow> nat \<Rightarrow> heap \<Rightarrow> knowledge_adaptor \<Rightarrow> heap \<times> knowledge_adaptor" where
  "ka_emplace s i n monitor_buffer h ka =
     (let a = next_adaptor h
      in (h\<lparr>adaptor_cells := (adaptor_cells h)(a := OneSigmaAdaptor s i n monitor_buffer), next_adaptor := Suc a\<rparr>,
          ka\<lparr>adaptors := (adaptors ka)[op_field_enumerator (ka_knobs ka) s i := Some a]\<rparr>))"

definition get_field_adaptor :: "OperatingPointSegments \<Rightarrow> nat \<Rightarrow> knowledge_adaptor \<Rightarrow> nat option" where
  "get_field_adaptor s i ka = adaptors ka ! op_field_enumerator (ka_knobs ka) s i"

fun evaluate_error_loop :: "op_ptr \<Rightarrow> nat option list \<Rightarrow> heap \<Rightarrow> heap result" where
  "evaluate_error_loop op [] h = Inr h"
| "evaluate_error_loop op (None # as) h = evaluate_error_loop op as h"
| "evaluate_error_loop op (Some a # as) h =
     (let c = adaptor_cells h a
      in bind_result (adaptor_evaluate_error op c (monitors h (ad_buffer c)))
           (\<lambda>(c', p'). evaluate_error_loop op as
              (h\<lparr>adaptor_cells := (adaptor_cells h)(a := c'), monitors := (monitors h)(ad_buffer c := p')\<rparr>)))"

definition ka_evaluate_error :: "op_ptr \<Rightarrow> knowledge_adaptor \<Rightarrow> heap \<Rightarrow> heap result" where
  "ka_evaluate_error current_op ka h = evaluate_error_loop current_op (adaptors ka) h"

fun reset_loop :: "nat option list \<Rightarrow> heap \<Rightarrow> heap" where
  "reset_loop [] h = h"
| "reset_loop (None # as) h = reset_loop as h"
| "reset_loop (Some a # as) h =
     reset_loop as (h\<lparr>adaptor_cells := (adaptor_cells h)(a := clear_observations (adaptor_cells h a))\<rparr>)"

definition ka_reset :: "knowledge_adaptor \<Rightarrow> heap \<Rightarrow> heap" where
  "ka_reset ka h = reset_loop (adaptors ka) h"

definition ka_clear :: "knowledge_adaptor \<Rightarrow> knowledge_adaptor" where
  "ka_clear ka = ka\<lparr>adaptors := replicate (length (adaptors ka)) None\<rparr>"

section \<open>The window of errors is a sliding window\<close>

definition ew_wf :: "adaptor \<Rightarrow> bool" where
  "ew_wf a \<longleftrightarrow> length (error_window a) = inertia a \<and> (inertia a = 0 \<or> ad_next_element a < inertia a)"

definition ew_contents :: "adaptor \<Rightarrow> real list" where
  "ew_contents a = drop (ad_next_element a) (error_window a) @ take (ad_next_element a) (error_window a)"

lemma ew_wf_new [simp]: "ew_wf (OneSigmaAdaptor s i n b)"
  by (cases n) (simp_all add: ew_wf_def OneSigmaAdaptor_def)

lemma ew_contents_new [simp]: "ew_contents (OneSigmaAdaptor s i n b) = replicate n 1"
  by (simp add: ew_contents_def OneSigmaAdaptor_def)

lemma ew_wf_clear [simp]: "ew_wf a \<Longrightarrow> ew_wf (clear_observations a)"
  by (simp add: ew_wf_def clear_observations_def)

lemma store_coefficient_frame [frame_simps]:
  "store_coefficient now c a = Inr a' \<Longrightarrow> inertia a' = inertia a"
  "store_coefficient now c a = Inr a' \<Longrightarrow> average_coefficient_error a' = average (error_window a')"
  "store_coefficient now c a = Inr a' \<Longrightarrow> ad_buffer a' = ad_buffer a"
  by (auto simp: store_coefficient_def Let_def split: if_splits)

lemma store_coefficient_contents:
  assumes wf: "ew_wf a" and st: "store_coefficient now c a = Inr a'"
  shows "ew_wf a' \<and> ew_contents a' = last_n (inertia a) (ew_contents a @ [c])"
proof -
  let ?n = "ad_next_element a" and ?w = "(error_window a)[ad_next_element a := c]"
  have n: "?n < length (error_window a)" and a': "a' = a\<lparr>error_window := ?w,
      ad_next_element := (if Suc ?n = inertia a then 0 else Suc ?n), average_coefficient_error := average ?w\<rparr>"
    using st by (auto simp: store_coefficient_def Let_def split: if_splits)
  have len: "length (error_window a) = inertia a" using wf by (simp add: ew_wf_def)
  have "ew_contents a' = drop (Suc ?n) ?w @ take (Suc ?n) ?w"
    using len by (simp add: a' ew_contents_def)
  also have "\<dots> = tl (ew_contents a) @ [c]"
    unfolding ew_contents_def by (rule rotate_update_next [OF n])
  also have "\<dots> = last_n (inertia a) (ew_contents a @ [c])"
    using len n by (subst last_n_snoc) (auto simp: ew_contents_def)
  finally show ?thesis using len n by (simp add: a' ew_wf_def)
qed

lemma store_coefficient_total:
  "ew_wf a \<Longrightarrow> 0 < inertia a \<Longrightarrow> \<exists>a'. store_coefficient now c a = Inr a'"
  by (auto simp: store_coefficient_def ew_wf_def Let_def)

interpretation ew: sliding_window store_coefficient ew_contents inertia ew_wf
  by unfold_locales (auto simp: store_coefficient_total store_coefficient_contents frame_simps)

lemma average_ew_contents: "ew_wf a \<Longrightarrow> average (error_window a) = average (ew_contents a)"
proof -
  have "sum_list (take k xs @ drop k xs) = sum_list (drop k xs @ take k xs)" for k and xs :: "real list"
    by (simp only: sum_list_append add.commute)
  then have "sum_list (error_window a) = sum_list (ew_contents a)"
    by (simp add: ew_contents_def)
  moreover have "length (ew_contents a) = length (error_window a)"
    by (simp add: ew_contents_def min_def)
  ultimately show ?thesis by (simp add: average_def foldl_plus_sum_list)
qed

text \<open>The coefficient after a sequence of valid errors.\<close>

fun store_all :: "real list \<Rightarrow> adaptor \<Rightarrow> adaptor result" where
  "store_all [] a = Inr a"
| "store_all (c # cs) a = bind_result (store_coefficient 0 c a) (store_all cs)"

lemma store_all_push_all: "store_all cs a = ew.push_all (map (Pair 0) cs) a"
proof (induction cs arbitrary: a)
  case (Cons c cs)
  then have "store_all cs = ew.push_all (map (Pair 0) cs)" by (simp add: fun_eq_iff)
  then show ?case by simp
qed simp

lemma store_all_coefficient:
  "store_all cs a = Inr a' \<Longrightarrow> average_coefficient_error a = average (error_window a) \<Longrightarrow>
     average_coefficient_error a' = average (error_window a')"
proof (induction cs arbitrary: a)
  case (Cons c cs)
  then obtain b where "store_coefficient 0 c a = Inr b" "store_all cs b = Inr a'" by auto
  then show ?case using Cons.IH [of b] store_coefficient_frame(2) [of 0 c a b] by simp
qed simp

section \<open>Properties\<close>

text \<open>
  With a positive inertia \<open>n\<close> the adaptor never writes outside its window, and its
  coefficient is always the mean of the last \<open>n\<close> measured errors, where the errors not
  measured yet count as one.
\<close>

theorem error_coefficient_is_window_mean:
  assumes "0 < n"
  shows "\<exists>a. store_all cs (OneSigmaAdaptor s i n b) = Inr a
    \<and> get_error_coefficient a = sum_list (last_n n (replicate n 1 @ cs)) / real n"
proof -
  let ?a = "OneSigmaAdaptor s i n b"
  have n: "inertia ?a = n" by (simp add: OneSigmaAdaptor_def)
  obtain a where a: "store_all cs ?a = Inr a" "ew_wf a" "ew_contents a = last_n n (replicate n 1 @ cs)"
    using ew.push_all_window [of ?a "map (Pair 0) cs"] assms n
    by (auto simp: store_all_push_all comp_def)
  have init: "average_coefficient_error ?a = average (error_window ?a)"
    using assms by (simp add: OneSigmaAdaptor_def average_replicate)
  have len: "length (ew_contents a) = n" using a(3) by simp
  then have "ew_contents a \<noteq> []" using assms by auto
  then have "average (ew_contents a) = sum_list (ew_contents a) / real n"
    using len by (simp add: average_sum)
  then show ?thesis
    using a store_all_coefficient [OF a(1) init] average_ew_contents [OF a(2)]
    by (simp add: get_error_coefficient_def)
qed

theorem error_coefficient_is_window_mean_witness:
  "\<exists>a. store_all [2, 4, 6] (OneSigmaAdaptor METRICS 0 2 7) = Inr a \<and> get_error_coefficient a = 5"
  using error_coefficient_is_window_mean [of 2 "[2, 4, 6]" METRICS 0 7]
  by (simp add: last_n_def numeral_eq_Suc)

text \<open>
  An observation within one standard deviation of the expected mean gives the neutral
  coefficient, any other gives the ratio between the expected and the observed value; the
  division is never by zero, since an observed zero is padded.
\<close>

theorem adaptor_coefficient_value:
  assumes "monitor_utils_get AVERAGE p = (obs, True, q)"
    and "m = op_utils_get (ad_segment a) LOWER (ad_field_index a) 0 (deref op)"
    and "d = op_utils_get (ad_segment a) UPPER (ad_field_index a) 1 (deref op) - m"
  shows "adaptor_compute a op p =
    (if \<bar>obs - m\<bar> \<le> d then 1 else if obs = 0 then m + 1 else m / obs, True, q)"
proof -
  have mean: "op_utils_get (ad_segment a) UPPER (ad_field_index a) 1 (deref op) = m + d"
    "op_utils_get (ad_segment a) LOWER (ad_field_index a) 1 (deref op) = m - d"
    using assms(2,3) by (cases "ad_segment a"; simp add: op_simps)+
  have "obs > m + d \<or> obs < m - d \<longleftrightarrow> \<not> \<bar>obs - m\<bar> \<le> d" by auto
  then show ?thesis
    using assms(1) by (simp add: adaptor_compute_def Let_def mean flip: assms(2))
qed

theorem adaptor_coefficient_value_witness:
  "adaptor_compute (OneSigmaAdaptor METRICS 0 1 0) sample_p
     (StatisticalProvider 0 0 1\<lparr>window := \<lparr>buffer = [2], next_element = 0, maximum_number_element = 1, last_change = 0\<rparr>,
                               previous_average := 2, average_computed_time := 0\<rparr>)
   = (1 / 2, True,
      StatisticalProvider 0 0 1\<lparr>window := \<lparr>buffer = [2], next_element = 0, maximum_number_element = 1, last_change = 0\<rparr>,
                               previous_average := 2, average_computed_time := 0\<rparr>)"
proof -
  let ?p = "StatisticalProvider 0 0 1\<lparr>window := \<lparr>buffer = [2], next_element = 0, maximum_number_element = 1, last_change = 0\<rparr>,
                               previous_average := 2, average_computed_time := 0\<rparr>"
  let ?a = "OneSigmaAdaptor METRICS 0 1 0"
  have "monitor_utils_get AVERAGE ?p = (2, True, ?p)" by code_simp
  from adaptor_coefficient_value [OF this refl refl, of ?a sample_p] show ?thesis
    by (simp add: OneSigmaAdaptor_def op_simps sample_p_def sample_point_def)
qed

text \<open>
  The documentation promises that clearing the observations puts the adaptor back into
  its initial state. The window is indeed refilled with ones, but the coefficient that the
  constraints read keeps its old value until the next valid observation.
\<close>

theorem clear_observations_keeps_coefficient:
  "\<exists>a. store_all [3] (OneSigmaAdaptor METRICS 0 1 b) = Inr a
     \<and> error_window (clear_observations a) = error_window (OneSigmaAdaptor METRICS 0 1 b)
     \<and> get_error_coefficient (clear_observations a) = 3 \<and> get_error_coefficient (OneSigmaAdaptor METRICS 0 1 b) = 1"
  by (simp add: OneSigmaAdaptor_def store_coefficient_def clear_observations_def get_error_coefficient_def
      average_def Let_def)

lemma ka_emplace_get:
  assumes "op_field_enumerator (ka_knobs ka) s i < length (adaptors ka)"
    and "ka_emplace s i n b h ka = (h', ka')"
  shows "get_field_adaptor s i ka' = Some (next_adaptor h)
    \<and> adaptor_cells h' (next_adaptor h) = OneSigmaAdaptor s i n b"
  using assms by (auto simp: ka_emplace_def get_field_adaptor_def Let_def)

lemma ka_evaluate_error_goals: "evaluate_error_loop op as h = Inr h' \<Longrightarrow> goals h' = goals h"
  by (induction op as h rule: evaluate_error_loop.induct) (auto simp: Let_def)

lemma reset_loop_frame [frame_simps]:
  "goals (reset_loop as h) = goals h" "monitors (reset_loop as h) = monitors h"
  "average_coefficient_error (adaptor_cells (reset_loop as h) x) = average_coefficient_error (adaptor_cells h x)"
  by (induction as h rule: reset_loop.induct) (auto simp: clear_observations_def)

end
