(* ===== verification/Knowledge_Base.thy ===== *)
theory Knowledge_Base
  imports Operating_Point
begin

text \<open>
  The application knowledge (\<^verbatim>\<open>knowledge_base.hpp\<close>): a hash table from the software knob
  segment of an operating point to a pointer to that point. The table is an association list
  in the iteration order of the \<^verbatim>\<open>std::unordered_map\<close>, searched with the segment
  equality; the standard leaves that order unspecified and no result below depends on it.
  The fresh address of a new operating point comes from a counter kept with the table.

  The locale \<open>knowledge_store\<close> states what the run-time manager relies on, and proves the
  two loops over it (adding and removing lists of operating points) once.
\<close>

section \<open>Operations\<close>

record knowledge_base =
  knowledge :: "(segment \<times> op_ptr) list"
  next_addr :: nat

definition Knowledge :: "knowledge_base" where
  "Knowledge = \<lparr>knowledge = [], next_addr = 0\<rparr>"

definition kb_find :: "segment \<Rightarrow> knowledge_base \<Rightarrow> op_ptr option" where
  "kb_find conf kb = al_find segment_eq conf (knowledge kb)"

text \<open>
  \<^verbatim>\<open>emplace\<close> inserts only when the key is new. The operating point is allocated in both
  cases.
\<close>

definition kb_add :: "operating_point \<Rightarrow> knowledge_base \<Rightarrow> op_ptr option \<times> knowledge_base" where
  "kb_add new_operating_point kb =
     (let new_op = OpPtr (next_addr kb) new_operating_point;
          kb' = kb\<lparr>next_addr := Suc (next_addr kb)\<rparr>
      in if kb_find (software_knobs (deref new_op)) kb = None
         then (Some new_op, kb'\<lparr>knowledge := knowledge kb @ [(software_knobs (deref new_op), new_op)]\<rparr>)
         else (None, kb'))"

definition kb_add_ptr :: "op_ptr \<Rightarrow> knowledge_base \<Rightarrow> op_ptr option \<times> knowledge_base" where
  "kb_add_ptr new_op kb =
     (if kb_find (software_knobs (deref new_op)) kb = None
      then (Some new_op, kb\<lparr>knowledge := knowledge kb @ [(software_knobs (deref new_op), new_op)]\<rparr>)
      else (None, kb))"

definition kb_remove :: "segment \<Rightarrow> knowledge_base \<Rightarrow> op_ptr option \<times> knowledge_base" where
  "kb_remove conf kb =
     (case kb_find conf kb of
        Some removed_op \<Rightarrow> (Some removed_op, kb\<lparr>knowledge := al_erase segment_eq conf (knowledge kb)\<rparr>)
      | None \<Rightarrow> (None, kb))"

definition kb_remove_op :: "operating_point \<Rightarrow> knowledge_base \<Rightarrow> op_ptr option \<times> knowledge_base" where
  "kb_remove_op op kb =
     (let conf = software_knobs op
      in case kb_find conf kb of
           Some removed_op \<Rightarrow> (Some removed_op, kb\<lparr>knowledge := al_erase segment_eq conf (knowledge kb)\<rparr>)
         | None \<Rightarrow> (None, kb))"

definition kb_remove_ptr :: "op_ptr \<Rightarrow> knowledge_base \<Rightarrow> op_ptr option \<times> knowledge_base" where
  "kb_remove_ptr op kb =
     (let conf = software_knobs (deref op)
      in case kb_find conf kb of
           Some removed_op \<Rightarrow> (Some removed_op, kb\<lparr>knowledge := al_erase segment_eq conf (knowledge kb)\<rparr>)
         | None \<Rightarrow> (None, kb))"

text \<open>\<^verbatim>\<open>set\<close> swaps the table with the one of the caller, which gets the old one back.\<close>

definition kb_set :: "(segment \<times> op_ptr) list \<Rightarrow> knowledge_base \<Rightarrow> (segment \<times> op_ptr) list \<times> knowledge_base" where
  "kb_set new_list kb = (knowledge kb, kb\<lparr>knowledge := new_list\<rparr>)"

definition kb_clear :: "knowledge_base \<Rightarrow> knowledge_base" where
  "kb_clear kb = kb\<lparr>knowledge := []\<rparr>"

definition kb_to_stream :: "knowledge_base \<Rightarrow> op_stream" where
  "kb_to_stream kb = map snd (knowledge kb)"

definition kb_empty :: "knowledge_base \<Rightarrow> bool" where
  "kb_empty kb \<longleftrightarrow> knowledge kb = []"

definition kb_size :: "knowledge_base \<Rightarrow> nat" where
  "kb_size kb = length (knowledge kb)"

text \<open>
  The loop with which a caller adds or removes a list of points, collecting the pointers of the
  operations that succeeded.
\<close>

fun collect_loop :: "('x \<Rightarrow> 'k \<Rightarrow> 'p option \<times> 'k) \<Rightarrow> 'x list \<Rightarrow> 'k \<Rightarrow> 'p list \<times> 'k" where
  "collect_loop f [] k = ([], k)"
| "collect_loop f (x # xs) k =
     (let (r, k') = f x k; (ps, k'') = collect_loop f xs k'
      in (case r of Some p \<Rightarrow> p # ps | None \<Rightarrow> ps, k''))"

section \<open>Invariant\<close>

text \<open>
  Keys are pairwise different, every key is the configuration of its operating point and
  every address was handed out by the counter to one entry only.
\<close>

abbreviation keys_differ :: "(segment \<times> op_ptr) list \<Rightarrow> bool" where
  "keys_differ es \<equiv> sorted_wrt (\<lambda>a b. \<not> segment_eq (fst a) (fst b)) es"

definition kb_wf :: "knowledge_base \<Rightarrow> bool" where
  "kb_wf kb \<longleftrightarrow>
     keys_differ (knowledge kb)
     \<and> (\<forall>e \<in> set (knowledge kb). fst e = software_knobs (deref (snd e)) \<and> addr (snd e) < next_addr kb)
     \<and> distinct (map addr (kb_to_stream kb))"

lemma kb_wf_init [simp]: "kb_wf Knowledge"
  by (simp add: kb_wf_def Knowledge_def kb_to_stream_def)

lemma kb_stream_init [simp]: "kb_to_stream Knowledge = []"
  by (simp add: Knowledge_def kb_to_stream_def)

lemma kb_wf_clear: "kb_wf kb \<Longrightarrow> kb_wf (kb_clear kb)"
  by (simp add: kb_wf_def kb_clear_def kb_to_stream_def)

lemma kb_stream_clear [simp]: "kb_to_stream (kb_clear kb) = []"
  by (simp add: kb_clear_def kb_to_stream_def)

lemma kb_wf_distinct: "kb_wf kb \<Longrightarrow> distinct (kb_to_stream kb)"
  by (simp add: kb_wf_def distinct_map)

lemma kb_wf_addr: "kb_wf kb \<Longrightarrow> p \<in> set (kb_to_stream kb) \<Longrightarrow> addr p < next_addr kb"
  by (auto simp: kb_wf_def kb_to_stream_def)

lemma kb_find_Some:
  "kb_wf kb \<Longrightarrow> kb_find conf kb = Some p \<Longrightarrow>
     p \<in> set (kb_to_stream kb) \<and> segment_eq (software_knobs (deref p)) conf"
  by (force simp: kb_find_def kb_wf_def kb_to_stream_def dest: al_find_Some_mem)

lemma kb_find_None:
  "kb_wf kb \<Longrightarrow> kb_find conf kb = None \<longleftrightarrow>
     (\<forall>p \<in> set (kb_to_stream kb). \<not> segment_eq (software_knobs (deref p)) conf)"
  by (force simp: kb_find_def kb_wf_def kb_to_stream_def al_find_eq_None)

lemma kb_unique:
  assumes "kb_wf kb" and "p \<in> set (kb_to_stream kb)" and "q \<in> set (kb_to_stream kb)"
    and "segment_eq (software_knobs (deref p)) (software_knobs (deref q))"
  shows "p = q"
proof -
  obtain i j where ij: "i < length (knowledge kb)" "j < length (knowledge kb)"
    "p = snd (knowledge kb ! i)" "q = snd (knowledge kb ! j)"
    using assms(2,3) by (auto simp: kb_to_stream_def in_set_conv_nth)
  have key: "fst (knowledge kb ! n) = software_knobs (deref (snd (knowledge kb ! n)))"
    if "n < length (knowledge kb)" for n
    using assms(1) that by (auto simp: kb_wf_def)
  have "\<not> segment_eq (fst (knowledge kb ! m)) (fst (knowledge kb ! n))" if "m < n" "n < length (knowledge kb)" for m n
    using assms(1) that by (auto simp: kb_wf_def sorted_wrt_iff_nth_less)
  then have "i = j"
    using ij key assms(4) segment_eq_sym by (metis linorder_neqE_nat)
  with ij show ?thesis by simp
qed

lemma al_erase_filter:
  "keys_differ es \<Longrightarrow> al_erase segment_eq k es = filter (\<lambda>e. \<not> segment_eq (fst e) k) es"
proof (induction es)
  case (Cons e es)
  show ?case
  proof (cases "segment_eq (fst e) k")
    case True
    have "\<not> segment_eq (fst f) k" if "f \<in> set es" for f
    proof
      assume "segment_eq (fst f) k"
      then have "segment_eq (fst e) (fst f)"
        by (rule segment_eq_trans [OF True segment_eq_sym])
      then show False using Cons.prems that by simp
    qed
    then show ?thesis using True by simp
  qed (use Cons in simp)
qed simp

text \<open>What adding an operating point does: nothing when its configuration is known.\<close>

lemma kb_add_cases:
  assumes wf: "kb_wf kb" and add: "kb_add op kb = (r, kb')"
  shows "kb_wf kb' \<and> next_addr kb' = Suc (next_addr kb)
    \<and> (case r of
         Some p \<Rightarrow> p = OpPtr (next_addr kb) op \<and> kb_find (software_knobs op) kb = None
                   \<and> kb_to_stream kb' = kb_to_stream kb @ [p]
       | None \<Rightarrow> kb_find (software_knobs op) kb \<noteq> None \<and> kb_to_stream kb' = kb_to_stream kb)"
proof (cases "kb_find (software_knobs op) kb = None")
  case True
  have "\<forall>e \<in> set (knowledge kb). \<not> segment_eq (fst e) (software_knobs op)"
    using True by (simp add: kb_find_def al_find_eq_None)
  moreover have "next_addr kb \<notin> addr ` set (kb_to_stream kb)"
    using kb_wf_addr [OF wf] by (metis imageE less_irrefl)
  ultimately show ?thesis
    using True wf add
    by (fastforce simp: kb_add_def kb_wf_def kb_to_stream_def Let_def sorted_wrt_append)
next
  case False
  then show ?thesis
    using wf add by (fastforce simp: kb_add_def kb_wf_def kb_to_stream_def Let_def)
qed

lemma kb_remove_cases:
  assumes wf: "kb_wf kb" and rem: "kb_remove conf kb = (r, kb')"
  shows "kb_wf kb' \<and> next_addr kb' = next_addr kb \<and> r = kb_find conf kb
    \<and> kb_to_stream kb' = filter (\<lambda>p. \<not> segment_eq (software_knobs (deref p)) conf) (kb_to_stream kb)"
proof -
  have key: "\<forall>e \<in> set (knowledge kb). fst e = software_knobs (deref (snd e))"
    using wf by (simp add: kb_wf_def)
  have keys: "filter (\<lambda>p. \<not> segment_eq (software_knobs (deref p)) conf) (kb_to_stream kb)
    = map snd (filter (\<lambda>e. \<not> segment_eq (fst e) conf) (knowledge kb))"
    using key by (auto simp: kb_to_stream_def filter_map comp_def intro!: arg_cong [where f = "map snd"] filter_cong)
  show ?thesis
  proof (cases "kb_find conf kb")
    case None
    have "filter (\<lambda>p. \<not> segment_eq (software_knobs (deref p)) conf) (kb_to_stream kb) = kb_to_stream kb"
      using None kb_find_None [OF wf] by (simp add: filter_id_conv)
    then show ?thesis using None wf rem by (simp add: kb_remove_def)
  next
    case (Some p)
    have kb': "kb' = kb\<lparr>knowledge := filter (\<lambda>e. \<not> segment_eq (fst e) conf) (knowledge kb)\<rparr>" "r = Some p"
      using Some rem wf by (auto simp: kb_remove_def al_erase_filter kb_wf_def)
    have "distinct (map addr (map snd (filter (\<lambda>e. \<not> segment_eq (fst e) conf) (knowledge kb))))"
      using wf by (simp add: kb_wf_def kb_to_stream_def distinct_map_filter)
    then show ?thesis
      using wf Some keys by (simp add: kb' kb_wf_def sorted_wrt_filter kb_to_stream_def del: map_map)
  qed
qed

section \<open>The interface the run-time manager uses\<close>

locale knowledge_store =
  fixes add :: "operating_point \<Rightarrow> 'k \<Rightarrow> op_ptr option \<times> 'k"
    and remove :: "segment \<Rightarrow> 'k \<Rightarrow> op_ptr option \<times> 'k"
    and stream :: "'k \<Rightarrow> op_stream"
    and invar :: "'k \<Rightarrow> bool"
  assumes invar_add: "invar k \<Longrightarrow> invar (snd (add op k))"
    and invar_remove: "invar k \<Longrightarrow> invar (snd (remove conf k))"
    and distinct_stream: "invar k \<Longrightarrow> distinct (stream k)"
    and add_Some: "invar k \<Longrightarrow> fst (add op k) = Some p \<Longrightarrow> stream (snd (add op k)) = stream k @ [p] \<and> p \<notin> set (stream k)"
    and add_None: "invar k \<Longrightarrow> fst (add op k) = None \<Longrightarrow> stream (snd (add op k)) = stream k"
    and remove_Some: "invar k \<Longrightarrow> fst (remove conf k) = Some p \<Longrightarrow>
          p \<in> set (stream k) \<and> set (stream (snd (remove conf k))) = set (stream k) - {p}"
    and remove_None: "invar k \<Longrightarrow> fst (remove conf k) = None \<Longrightarrow> stream (snd (remove conf k)) = stream k"
begin

lemma add_list_stream:
  "invar k \<Longrightarrow> collect_loop add ops k = (new_ops, k') \<Longrightarrow>
     invar k' \<and> stream k' = stream k @ new_ops \<and> distinct new_ops \<and> set new_ops \<inter> set (stream k) = {}"
proof (induction ops arbitrary: k new_ops k')
  case (Cons op ops)
  obtain r k1 where a: "add op k = (r, k1)" by fastforce
  obtain ps k2 where b: "collect_loop add ops k1 = (ps, k2)" by fastforce
  have k1: "invar k1" using invar_add [OF Cons.prems(1), of op] a by simp
  note IH = Cons.IH [OF k1 b]
  show ?case
  proof (cases r)
    case None
    then show ?thesis using IH Cons.prems a b add_None [OF Cons.prems(1), of op] by simp
  next
    case (Some p)
    then have "new_ops = p # ps" "k' = k2" using Cons.prems(2) a b by simp_all
    moreover have "stream k1 = stream k @ [p]" "p \<notin> set (stream k)"
      using add_Some [OF Cons.prems(1), of op p] a Some by simp_all
    ultimately show ?thesis using IH by auto
  qed
qed simp

lemma remove_list_stream:
  "invar k \<Longrightarrow> collect_loop remove confs k = (removed, k') \<Longrightarrow>
     invar k' \<and> set (stream k') = set (stream k) - set removed \<and> distinct removed
     \<and> set removed \<subseteq> set (stream k)"
proof (induction confs arbitrary: k removed k')
  case (Cons c cs)
  obtain r k1 where a: "remove c k = (r, k1)" by fastforce
  obtain ps k2 where b: "collect_loop remove cs k1 = (ps, k2)" by fastforce
  have k1: "invar k1" using invar_remove [OF Cons.prems(1), of c] a by simp
  note IH = Cons.IH [OF k1 b]
  show ?case
  proof (cases r)
    case None
    then show ?thesis using IH Cons.prems a b remove_None [OF Cons.prems(1), of c] by simp
  next
    case (Some p)
    then have "removed = p # ps" "k' = k2" using Cons.prems(2) a b by simp_all
    moreover have "p \<in> set (stream k)" "set (stream k1) = set (stream k) - {p}"
      using remove_Some [OF Cons.prems(1), of c p] a Some by simp_all
    ultimately show ?thesis using IH by auto
  qed
qed simp

end

lemma kb_find_remove_single:
  assumes "kb_wf kb" and "kb_find conf kb = Some p"
  shows "set (filter (\<lambda>q. \<not> segment_eq (software_knobs (deref q)) conf) (kb_to_stream kb))
    = set (kb_to_stream kb) - {p}"
proof -
  have p: "p \<in> set (kb_to_stream kb)" "segment_eq (software_knobs (deref p)) conf"
    using kb_find_Some [OF assms] by auto
  have "q = p" if "q \<in> set (kb_to_stream kb)" "segment_eq (software_knobs (deref q)) conf" for q
    using kb_unique [OF assms(1) that(1) p(1) segment_eq_trans [OF that(2) segment_eq_sym [OF p(2)]]] .
  moreover have "segment_eq (software_knobs (deref q)) conf" if "q = p" for q
    using p(2) that by simp
  ultimately have "\<forall>q \<in> set (kb_to_stream kb). segment_eq (software_knobs (deref q)) conf \<longleftrightarrow> q = p"
    by blast
  then show ?thesis by (simp add: set_eq_iff) blast
qed

interpretation kbs: knowledge_store kb_add kb_remove kb_to_stream kb_wf
proof (unfold_locales, goal_cases)
  case (1 k op)
  then show ?case using kb_add_cases [of k op "fst (kb_add op k)" "snd (kb_add op k)"] by simp
next
  case (2 k conf)
  then show ?case using kb_remove_cases [of k conf "fst (kb_remove conf k)" "snd (kb_remove conf k)"] by simp
next
  case (3 k)
  then show ?case by (rule kb_wf_distinct)
next
  case (4 k op p)
  have "p \<notin> set (kb_to_stream k)" if "p = OpPtr (next_addr k) op" for p
    using kb_wf_addr [OF 4(1), of p] that by auto
  then show ?case using 4 kb_add_cases [OF 4(1), of op "Some p" "snd (kb_add op k)"]
    by (simp add: prod_eq_iff)
next
  case (5 k op)
  then show ?case using kb_add_cases [OF 5(1), of op None "snd (kb_add op k)"] by (simp add: prod_eq_iff)
next
  case (6 k conf p)
  then show ?case
    using kb_remove_cases [OF 6(1), of conf "Some p" "snd (kb_remove conf k)"] kb_find_Some [OF 6(1), of conf p]
      kb_find_remove_single [OF 6(1), of conf p] by (simp add: prod_eq_iff)
next
  case (7 k conf)
  then show ?case
    using kb_remove_cases [OF 7(1), of conf None "snd (kb_remove conf k)"] kb_find_None [OF 7(1), of conf]
    by (simp add: prod_eq_iff filter_id_conv)
qed

section \<open>Properties\<close>

lemma kb_remove_ptr_eq: "kb_remove_ptr p kb = kb_remove (software_knobs (deref p)) kb"
  by (simp add: kb_remove_ptr_def kb_remove_def Let_def)

lemma kb_remove_op_eq: "kb_remove_op op kb = kb_remove (software_knobs op) kb"
  by (simp add: kb_remove_op_def kb_remove_def Let_def)

text \<open>
  Adding an operating point to a well-formed knowledge base and removing it again by its
  configuration returns the very pointer that was added and restores the previous content.
\<close>

theorem kb_add_remove_roundtrip:
  assumes "kb_wf kb" and "kb_find (software_knobs op) kb = None"
  shows "\<exists>p kb1 kb2. kb_add op kb = (Some p, kb1) \<and> kb_wf kb1 \<and> kb_find (software_knobs op) kb1 = Some p
    \<and> kb_remove (software_knobs op) kb1 = (Some p, kb2) \<and> kb_wf kb2 \<and> kb_to_stream kb2 = kb_to_stream kb"
proof -
  obtain r kb1 where add: "kb_add op kb = (r, kb1)" by fastforce
  then have r: "r = Some (OpPtr (next_addr kb) op)" using assms(2) by (auto simp: kb_add_def Let_def)
  obtain p where p: "p = OpPtr (next_addr kb) op" by simp
  have kb1: "kb_wf kb1" "kb_to_stream kb1 = kb_to_stream kb @ [p]"
    using kb_add_cases [OF assms(1) add] r p by auto
  have old: "\<forall>q \<in> set (kb_to_stream kb). \<not> segment_eq (software_knobs (deref q)) (software_knobs op)"
    using kb_find_None [OF assms(1)] assms(2) by auto
  have "kb_find (software_knobs op) kb1 \<noteq> None"
    using kb_find_None [OF kb1(1)] kb1(2) p by auto
  then obtain q where q: "kb_find (software_knobs op) kb1 = Some q" by auto
  then have "q = p" using kb_find_Some [OF kb1(1) q] kb1(2) old by auto
  obtain s kb2 where rem: "kb_remove (software_knobs op) kb1 = (s, kb2)" by fastforce
  from kb_remove_cases [OF kb1(1) rem] have "kb_wf kb2" "s = Some p"
    "kb_to_stream kb2 = filter (\<lambda>p. \<not> segment_eq (software_knobs (deref p)) (software_knobs op)) (kb_to_stream kb1)"
    using q \<open>q = p\<close> by auto
  moreover have "filter (\<lambda>p. \<not> segment_eq (software_knobs (deref p)) (software_knobs op)) (kb_to_stream kb1) = kb_to_stream kb"
    using kb1(2) old p by (simp add: filter_id_conv)
  ultimately show ?thesis using add r p kb1 q \<open>q = p\<close> rem by auto
qed

theorem kb_add_remove_roundtrip_witness:
  "\<exists>p kb1 kb2. kb_add (deref sample_q) (snd (kb_add (deref sample_p) Knowledge)) = (Some p, kb1)
     \<and> kb_remove (software_knobs (deref sample_q)) kb1 = (Some p, kb2)
     \<and> kb_to_stream kb2 = kb_to_stream (snd (kb_add (deref sample_p) Knowledge))"
proof -
  have "kb_wf (snd (kb_add (deref sample_p) Knowledge))" by (intro kbs.invar_add kb_wf_init)
  moreover have "kb_find (software_knobs (deref sample_q)) (snd (kb_add (deref sample_p) Knowledge)) = None" by code_simp
  ultimately show ?thesis using kb_add_remove_roundtrip by blast
qed

end
