(* ===== verification/Op_View.thy ===== *)
theory Op_View
  imports Operating_Point
begin

text \<open>
  The evaluation of an operating point by a composition of its fields (\<^verbatim>\<open>evaluator.hpp\<close>)
  and the sorted view of operating points built on it (\<^verbatim>\<open>view.hpp\<close>). The multimap of the
  source is a list of pairs sorted by the key. Iteration order is the order of the list.
\<close>

section \<open>Evaluators\<close>

record op_field =
  target_segment :: OperatingPointSegments
  target_bound :: BoundType
  field_index :: nat
  sigma :: int
  coefficient :: real

definition value_extractor :: "op_field \<Rightarrow> op_ptr \<Rightarrow> real" where
  "value_extractor f p =
     op_utils_get (target_segment f) (target_bound f) (field_index f) (sigma f) (deref p)"

text \<open>
  \<^verbatim>\<open>std::pow\<close> on finite arguments: an integral exponent keeps the sign of a negative base.
  Results that are infinite or not a number are outside the model.
\<close>

definition std_pow :: "real \<Rightarrow> real \<Rightarrow> real" where
  "std_pow x c =
     (if c = 0 then 1
      else if x = 0 then 0
      else if x < 0 \<and> c = of_int \<lfloor>c\<rfloor> then (if even \<lfloor>c\<rfloor> then 1 else -1) * (\<bar>x\<bar> powr c)
      else x powr c)"

definition evaluate_simple :: "op_field \<Rightarrow> op_ptr \<Rightarrow> real" where
  "evaluate_simple f p = value_extractor f p"

fun evaluate_linear :: "op_field \<Rightarrow> op_field list \<Rightarrow> op_ptr \<Rightarrow> real" where
  "evaluate_linear f [] p = value_extractor f p * coefficient f"
| "evaluate_linear f (g # gs) p = value_extractor f p * coefficient f + evaluate_linear g gs p"

fun evaluate_geometric :: "op_field \<Rightarrow> op_field list \<Rightarrow> op_ptr \<Rightarrow> real" where
  "evaluate_geometric f [] p = std_pow (value_extractor f p) (coefficient f)"
| "evaluate_geometric f (g # gs) p =
     std_pow (value_extractor f p) (coefficient f) * evaluate_geometric g gs p"

text \<open>
  The partial specialisations of \<^verbatim>\<open>Evaluator\<close>: there is at least one field, and exactly one
  for \<^verbatim>\<open>SIMPLE\<close>.
\<close>

fun evaluator :: "FieldComposer \<Rightarrow> op_field \<Rightarrow> op_field list \<Rightarrow> op_ptr \<Rightarrow> real" where
  "evaluator SIMPLE f fs = evaluate_simple f"
| "evaluator LINEAR f fs = evaluate_linear f fs"
| "evaluator GEOMETRIC f fs = evaluate_geometric f fs"

section \<open>Views\<close>

record view =
  evaluate :: "op_ptr \<Rightarrow> real"
  sorted_knowledge :: "(real \<times> op_ptr) list"

definition View_default :: view where
  "View_default = \<lparr>evaluate = (\<lambda>target_op. 0), sorted_knowledge = []\<rparr>"

definition View :: "FieldComposer \<Rightarrow> op_field \<Rightarrow> op_field list \<Rightarrow> view" where
  "View composer f fs = \<lparr>evaluate = evaluator composer f fs, sorted_knowledge = []\<rparr>"

definition view_add :: "op_ptr \<Rightarrow> view \<Rightarrow> view" where
  "view_add new_op v = v\<lparr>sorted_knowledge := mm_insert (evaluate v new_op) new_op (sorted_knowledge v)\<rparr>"

fun view_add_range :: "op_stream \<Rightarrow> view \<Rightarrow> view" where
  "view_add_range [] v = v"
| "view_add_range (op # ops) v = view_add_range ops (view_add op v)"

definition view_remove :: "op_ptr \<Rightarrow> view \<Rightarrow> view" where
  "view_remove target_op v =
     v\<lparr>sorted_knowledge := mm_erase (evaluate v target_op) target_op (sorted_knowledge v)\<rparr>"

definition view_clear :: "view \<Rightarrow> view" where
  "view_clear v = v\<lparr>sorted_knowledge := []\<rparr>"

definition view_size :: "view \<Rightarrow> nat" where
  "view_size v = length (sorted_knowledge v)"

definition view_empty :: "view \<Rightarrow> bool" where
  "view_empty v \<longleftrightarrow> sorted_knowledge v = []"

definition evaluate_op :: "view \<Rightarrow> op_ptr \<Rightarrow> real" where
  "evaluate_op v target_op = evaluate v target_op"

definition view_front :: "view \<Rightarrow> op_ptr option" where
  "view_front v = (if sorted_knowledge v = [] then None else Some (snd (hd (sorted_knowledge v))))"

definition view_back :: "view \<Rightarrow> op_ptr option" where
  "view_back v = (if sorted_knowledge v = [] then None else Some (snd (last (sorted_knowledge v))))"

definition view_range_all :: "view \<Rightarrow> op_stream" where
  "view_range_all v = map snd (sorted_knowledge v)"

definition view_range :: "real \<Rightarrow> real \<Rightarrow> view \<Rightarrow> op_stream" where
  "view_range a b v = map snd (mm_slice (min a b) (max a b) (sorted_knowledge v))"

section \<open>Invariant\<close>

definition view_wf :: "view \<Rightarrow> bool" where
  "view_wf v \<longleftrightarrow>
     mm_sorted (sorted_knowledge v)
     \<and> (\<forall>e \<in> set (sorted_knowledge v). fst e = evaluate v (snd e))
     \<and> distinct (view_range_all v)"

lemma view_wfD:
  assumes "view_wf v"
  shows "mm_sorted (sorted_knowledge v)" and "e \<in> set (sorted_knowledge v) \<Longrightarrow> fst e = evaluate v (snd e)"
    and "distinct (view_range_all v)"
  using assms by (auto simp: view_wf_def)

lemma view_wf_new [simp]: "view_wf View_default" "view_wf (View composer f fs)" "view_wf (view_clear v)"
  by (simp_all add: view_wf_def View_default_def View_def view_clear_def view_range_all_def)

lemma view_contents_new [simp]:
  "view_range_all View_default = []" "view_range_all (View composer f fs) = []" "view_range_all (view_clear v) = []"
  by (simp_all add: View_default_def View_def view_clear_def view_range_all_def)

lemma evaluate_frame [simp]:
  "evaluate (view_add p v) = evaluate v" "evaluate (view_remove p v) = evaluate v"
  "evaluate (view_clear v) = evaluate v" "evaluate (view_add_range ops v) = evaluate v"
  by (simp_all add: view_add_def view_remove_def view_clear_def)
     (induction ops arbitrary: v; simp add: view_add_def)

lemma view_entries: "view_wf v \<Longrightarrow> set (sorted_knowledge v) = (\<lambda>p. (evaluate v p, p)) ` set (view_range_all v)"
  by (force simp: view_wf_def view_range_all_def)

lemma set_view_add [view_simps]: "set (view_range_all (view_add p v)) = insert p (set (view_range_all v))"
  by (auto simp: view_add_def view_range_all_def)

lemma view_wf_add: "view_wf v \<Longrightarrow> p \<notin> set (view_range_all v) \<Longrightarrow> view_wf (view_add p v)"
  by (auto simp: view_wf_def view_add_def view_range_all_def sorted_mm_insert distinct_mm_insert)

lemma set_view_add_range [view_simps]:
  "set (view_range_all (view_add_range ops v)) = set ops \<union> set (view_range_all v)"
  by (induction ops arbitrary: v) (auto simp: view_simps)

lemma view_wf_add_range:
  "view_wf v \<Longrightarrow> distinct ops \<Longrightarrow> set ops \<inter> set (view_range_all v) = {} \<Longrightarrow> view_wf (view_add_range ops v)"
  by (induction ops arbitrary: v) (auto simp: view_wf_add view_simps)

lemma view_wf_remove: "view_wf v \<Longrightarrow> view_wf (view_remove p v)"
  using set_mm_erase_subset [of "evaluate v p" p "sorted_knowledge v"]
  by (auto simp: view_wf_def view_remove_def view_range_all_def sorted_mm_erase distinct_mm_erase)

lemma set_view_remove [view_simps]:
  assumes "view_wf v"
  shows "set (view_range_all (view_remove p v)) = set (view_range_all v) - {p}"
proof -
  have "distinct (sorted_knowledge v)"
    using assms by (simp add: view_wf_def view_range_all_def distinct_map)
  then have "set (mm_erase (evaluate v p) p (sorted_knowledge v)) = set (sorted_knowledge v) - {(evaluate v p, p)}"
    by (rule set_mm_erase)
  moreover have "snd ` (set (sorted_knowledge v) - {(evaluate v p, p)}) = snd ` set (sorted_knowledge v) - {p}"
    using assms by (force simp: view_wf_def)
  ultimately show ?thesis by (simp add: view_remove_def view_range_all_def)
qed

lemma view_front_least:
  assumes "view_wf v"
  shows "case view_front v of None \<Rightarrow> view_range_all v = []
    | Some p \<Rightarrow> p \<in> set (view_range_all v) \<and> (\<forall>q \<in> set (view_range_all v). evaluate v p \<le> evaluate v q)"
proof (cases "sorted_knowledge v")
  case (Cons e es)
  have "fst e \<le> fst e'" if "e' \<in> set (sorted_knowledge v)" for e'
    using mm_sorted_hd_min [OF view_wfD(1) [OF assms] that] Cons by simp
  then have "evaluate v (snd e) \<le> evaluate v (snd e')" if "e' \<in> set (sorted_knowledge v)" for e'
    using view_wfD(2) [OF assms, of e] view_wfD(2) [OF assms that] that Cons by (metis list.set_intros(1))
  then show ?thesis
    using Cons by (auto simp: view_front_def view_range_all_def)
qed (simp add: view_front_def view_range_all_def)

lemma view_back_greatest:
  assumes "view_wf v"
  shows "case view_back v of None \<Rightarrow> view_range_all v = []
    | Some p \<Rightarrow> p \<in> set (view_range_all v) \<and> (\<forall>q \<in> set (view_range_all v). evaluate v q \<le> evaluate v p)"
proof (cases "sorted_knowledge v = []")
  case False
  let ?e = "last (sorted_knowledge v)"
  have e: "?e \<in> set (sorted_knowledge v)" using False by simp
  have *: "fst e' \<le> fst ?e" if "e' \<in> set (sorted_knowledge v)" for e'
    by (rule mm_sorted_last_max [OF view_wfD(1) [OF assms] that])
  have "evaluate v q \<le> evaluate v (snd ?e)" if "q \<in> set (view_range_all v)" for q
  proof -
    have "q \<in> snd ` set (sorted_knowledge v)" using that by (simp add: view_range_all_def)
    then obtain e' where e': "e' \<in> set (sorted_knowledge v)" "q = snd e'" by (rule imageE) simp
    show ?thesis using * [OF e'(1)] view_wfD(2) [OF assms e] view_wfD(2) [OF assms e'(1)] e'(2) by simp
  qed
  then show ?thesis using False e by (auto simp: view_back_def view_range_all_def)
qed (simp add: view_back_def view_range_all_def)

lemma set_view_range [view_simps]:
  assumes "view_wf v"
  shows "set (view_range a b v) = {p \<in> set (view_range_all v). min a b \<le> evaluate v p \<and> evaluate v p \<le> max a b}"
  by (simp add: view_range_def set_mm_slice [OF view_wfD(1) [OF assms]] view_entries [OF assms]) force

lemma distinct_view_range: "view_wf v \<Longrightarrow> distinct (view_range a b v)"
  by (simp add: view_range_def mm_slice_eq_filter view_wf_def view_range_all_def distinct_map_filter)

section \<open>Properties\<close>

definition sample_field :: "nat \<Rightarrow> op_field" where
  "sample_field i = \<lparr>target_segment = METRICS, target_bound = LOWER, field_index = i, sigma = 0, coefficient = 1\<rparr>"

text \<open>A view built by adding distinct operating points one by one.\<close>

lemma view_build:
  assumes "distinct ops"
  shows "view_wf (view_add_range ops (View composer f fs))"
    and "set (view_range_all (view_add_range ops (View composer f fs))) = set ops"
  using assms by (simp_all add: view_wf_add_range view_simps)

text \<open>
  A view filled with distinct operating points enumerates exactly these points in
  ascending order of their evaluation, and a slice between two values (given in any order)
  is exactly the points whose evaluation lies between them, in the same order.
\<close>

theorem view_range_sorted_slice:
  assumes "distinct ops" and "v = view_add_range ops (View composer f fs)"
  shows "set (view_range_all v) = set ops \<and> sorted (map (evaluator composer f fs) (view_range_all v))
    \<and> view_range a b v = filter (\<lambda>p. min a b \<le> evaluator composer f fs p \<and> evaluator composer f fs p \<le> max a b)
                          (view_range_all v)"
proof -
  have wf: "view_wf v" and set: "set (view_range_all v) = set ops"
    using view_build [OF assms(1)] assms(2) by auto
  have ev: "evaluate v = evaluator composer f fs" by (simp add: assms(2)) (simp add: View_def)
  have keys: "map fst (sorted_knowledge v) = map (evaluator composer f fs) (view_range_all v)"
    using wf ev by (simp add: view_wf_def view_range_all_def)
  have "view_range a b v = map snd (filter (\<lambda>e. min a b \<le> fst e \<and> fst e \<le> max a b) (sorted_knowledge v))"
    using wf by (simp add: view_range_def mm_slice_eq_filter view_wf_def)
  also have "\<dots> = map snd (filter (\<lambda>e. min a b \<le> evaluate v (snd e) \<and> evaluate v (snd e) \<le> max a b) (sorted_knowledge v))"
    using wf by (auto simp: view_wf_def intro!: arg_cong [where f = "map snd"] filter_cong)
  finally show ?thesis
    using wf set keys ev by (simp add: view_wf_def view_range_all_def filter_map comp_def)
qed

theorem view_range_sorted_slice_witness:
  "set (view_range_all (view_add_range [sample_q, sample_p] (View SIMPLE (sample_field 0) []))) = {sample_q, sample_p}
   \<and> view_range 5 2 (view_add_range [sample_q, sample_p] (View SIMPLE (sample_field 0) []))
     = filter (\<lambda>p. 2 \<le> evaluator SIMPLE (sample_field 0) [] p \<and> evaluator SIMPLE (sample_field 0) [] p \<le> 5)
         (view_range_all (view_add_range [sample_q, sample_p] (View SIMPLE (sample_field 0) [])))"
proof -
  have "distinct [sample_q, sample_p]" by (simp add: sample_p_def sample_q_def)
  from view_range_sorted_slice [OF this refl, of SIMPLE "sample_field 0" "[]" 5 2] show ?thesis
    by (simp add: min_def max_def)
qed

end
