(* ===== verification/Rank_Model.thy ===== *)
theory Rank_Model
  imports Op_View
begin

text \<open>
  The objective function of an optimisation problem (\<^verbatim>\<open>rank.hpp\<close>): a view of the valid
  operating points together with the direction of the optimisation. The abstract class
  \<^verbatim>\<open>RankInterface\<close> is the locale \<open>rank_interface\<close>; \<^verbatim>\<open>Rank\<close> is its instance.
\<close>

section \<open>Operations\<close>

record rank =
  objective :: RankObjective
  ranking :: view

fun rank_compare_best :: "RankObjective \<Rightarrow> real \<Rightarrow> real \<Rightarrow> bool" where
  "rank_compare_best MAXIMIZE lhs rhs \<longleftrightarrow> lhs > rhs"
| "rank_compare_best MINIMIZE lhs rhs \<longleftrightarrow> lhs < rhs"

definition Rank_default :: "RankObjective \<Rightarrow> rank" where
  "Rank_default obj = \<lparr>objective = obj, ranking = View_default\<rparr>"

definition Rank :: "RankObjective \<Rightarrow> FieldComposer \<Rightarrow> op_field \<Rightarrow> op_field list \<Rightarrow> rank" where
  "Rank obj composer f fs = \<lparr>objective = obj, ranking = View composer f fs\<rparr>"

definition rank_create_sibling :: "rank \<Rightarrow> rank" where
  "rank_create_sibling r =
     (let sibling = Rank_default (objective r)
      in sibling\<lparr>ranking := (ranking sibling)\<lparr>evaluate := evaluate (ranking r)\<rparr>\<rparr>)"

fun rank_add :: "op_stream \<Rightarrow> rank \<Rightarrow> rank" where
  "rank_add [] r = r"
| "rank_add (op # new_ops) r = rank_add new_ops (r\<lparr>ranking := view_add op (ranking r)\<rparr>)"

fun rank_remove :: "op_stream \<Rightarrow> rank \<Rightarrow> rank" where
  "rank_remove [] r = r"
| "rank_remove (op # ops) r = rank_remove ops (r\<lparr>ranking := view_remove op (ranking r)\<rparr>)"

definition rank_clear :: "rank \<Rightarrow> rank" where
  "rank_clear r = r\<lparr>ranking := view_clear (ranking r)\<rparr>"

definition rank_best :: "rank \<Rightarrow> op_ptr option" where
  "rank_best r = (if objective r = MINIMIZE then view_front (ranking r) else view_back (ranking r))"

definition rank_best_of :: "op_stream \<Rightarrow> rank \<Rightarrow> op_ptr result" where
  "rank_best_of ops r =
     (case ops of
        [] \<Rightarrow> Inl (Assertion_failed ''Error: Rank is evaluating an empty Operating Point Stream'')
      | op # rest \<Rightarrow>
          Inr (min_element_from
                (\<lambda>lhs rhs. rank_compare_best (objective r) (evaluate (ranking r) lhs) (evaluate (ranking r) rhs))
                op rest))"

definition rank_to_stream :: "rank \<Rightarrow> op_stream" where
  "rank_to_stream r = view_range_all (ranking r)"

section \<open>Contents and order\<close>

definition rank_wf :: "rank \<Rightarrow> bool" where
  "rank_wf r \<longleftrightarrow> view_wf (ranking r)"

text \<open>\<open>p\<close> is at least as good as \<open>q\<close> for the objective function.\<close>

definition rank_leq :: "rank \<Rightarrow> op_ptr \<Rightarrow> op_ptr \<Rightarrow> bool" where
  "rank_leq r p q \<longleftrightarrow> \<not> rank_compare_best (objective r) (evaluate (ranking r) q) (evaluate (ranking r) p)"

lemma rank_compare_best_minus:
  "rank_compare_best obj a b \<longleftrightarrow> (if obj = MINIMIZE then a else - a) < (if obj = MINIMIZE then b else - b)"
  by (cases obj) auto

lemma rank_add_frame [simp]:
  "objective (rank_add ops r) = objective r" "evaluate (ranking (rank_add ops r)) = evaluate (ranking r)"
  by (induction ops arbitrary: r) simp_all

lemma rank_remove_frame [simp]:
  "objective (rank_remove ops r) = objective r" "evaluate (ranking (rank_remove ops r)) = evaluate (ranking r)"
  by (induction ops arbitrary: r) simp_all

lemma rank_clear_frame [simp]:
  "objective (rank_clear r) = objective r" "evaluate (ranking (rank_clear r)) = evaluate (ranking r)"
  "rank_wf (rank_clear r)" "rank_to_stream (rank_clear r) = []"
  by (simp_all add: rank_clear_def rank_wf_def rank_to_stream_def)

lemma ranking_add: "ranking (rank_add ops r) = view_add_range ops (ranking r)"
  by (induction ops arbitrary: r) auto

lemma rank_wf_remove:
  "rank_wf r \<Longrightarrow> rank_wf (rank_remove ops r) \<and> set (rank_to_stream (rank_remove ops r)) = set (rank_to_stream r) - set ops"
  by (induction ops arbitrary: r) (auto simp: rank_wf_def rank_to_stream_def view_wf_remove view_simps)

lemma rank_wf_sibling [simp]:
  "rank_wf (rank_create_sibling r)" "rank_to_stream (rank_create_sibling r) = []"
  "rank_leq (rank_create_sibling r) = rank_leq r"
  by (simp_all add: rank_create_sibling_def Rank_default_def View_default_def rank_wf_def view_wf_def
      rank_to_stream_def view_range_all_def rank_leq_def fun_eq_iff)

lemma rank_wf_new [simp]: "rank_wf (Rank obj composer f fs)" "rank_to_stream (Rank obj composer f fs) = []"
  by (simp_all add: Rank_def rank_wf_def rank_to_stream_def)

lemma rank_best_optimal:
  assumes "rank_wf r"
  shows "case rank_best r of None \<Rightarrow> rank_to_stream r = []
    | Some p \<Rightarrow> p \<in> set (rank_to_stream r) \<and> (\<forall>q \<in> set (rank_to_stream r). rank_leq r p q)"
proof (cases "objective r")
  case MINIMIZE
  then show ?thesis
    using view_front_least [of "ranking r"] assms
    by (auto simp: rank_best_def rank_wf_def rank_to_stream_def rank_leq_def not_less split: option.splits)
next
  case MAXIMIZE
  then show ?thesis
    using view_back_greatest [of "ranking r"] assms
    by (auto simp: rank_best_def rank_wf_def rank_to_stream_def rank_leq_def not_less split: option.splits)
qed

lemma rank_best_of_optimal:
  assumes "ops \<noteq> []"
  shows "\<exists>p. rank_best_of ops r = Inr p \<and> p \<in> set ops \<and> (\<forall>q \<in> set ops. rank_leq r p q)"
proof -
  obtain x xs where ops: "ops = x # xs" using assms by (cases ops) auto
  let ?k = "\<lambda>p. if objective r = MINIMIZE then evaluate (ranking r) p else - evaluate (ranking r) p"
  let ?p = "min_element_from (\<lambda>a b. ?k a < ?k b) x xs"
  have "rank_best_of ops r = Inr ?p"
    by (simp add: rank_best_of_def ops rank_compare_best_minus)
  moreover have "?p \<in> set ops" using min_element_from_mem [of "\<lambda>a b. ?k a < ?k b" x xs] by (simp add: ops)
  moreover have "rank_leq r ?p q" if "q \<in> set ops" for q
    using min_element_from_least [of q x xs ?k] that
    by (simp add: ops rank_leq_def rank_compare_best_minus not_less)
  ultimately show ?thesis by blast
qed

section \<open>The rank interface\<close>

locale rank_interface =
  fixes add :: "op_stream \<Rightarrow> 'r \<Rightarrow> 'r"
    and remove :: "op_stream \<Rightarrow> 'r \<Rightarrow> 'r"
    and clear :: "'r \<Rightarrow> 'r"
    and best :: "'r \<Rightarrow> op_ptr option"
    and best_of :: "op_stream \<Rightarrow> 'r \<Rightarrow> op_ptr result"
    and to_stream :: "'r \<Rightarrow> op_stream"
    and sibling :: "'r \<Rightarrow> 'r"
    and leq :: "'r \<Rightarrow> op_ptr \<Rightarrow> op_ptr \<Rightarrow> bool"
    and invar :: "'r \<Rightarrow> bool"
  assumes invar_add: "invar r \<Longrightarrow> distinct ops \<Longrightarrow> set ops \<inter> set (to_stream r) = {} \<Longrightarrow> invar (add ops r)"
    and set_add: "set (to_stream (add ops r)) = set ops \<union> set (to_stream r)"
    and invar_remove: "invar r \<Longrightarrow> invar (remove ops r)"
    and set_remove: "invar r \<Longrightarrow> set (to_stream (remove ops r)) = set (to_stream r) - set ops"
    and invar_clear: "invar (clear r)"
    and stream_clear: "to_stream (clear r) = []"
    and distinct_stream: "invar r \<Longrightarrow> distinct (to_stream r)"
    and best_None: "invar r \<Longrightarrow> best r = None \<longleftrightarrow> to_stream r = []"
    and best_Some: "invar r \<Longrightarrow> best r = Some p \<Longrightarrow> p \<in> set (to_stream r) \<and> (\<forall>q \<in> set (to_stream r). leq r p q)"
    and best_of_ex: "ops \<noteq> [] \<Longrightarrow> \<exists>p. best_of ops r = Inr p \<and> p \<in> set ops \<and> (\<forall>q \<in> set ops. leq r p q)"
    and leq_frame: "leq (add ops r) = leq r" "leq (remove ops r) = leq r" "leq (clear r) = leq r" "leq (sibling r) = leq r"
    and invar_sibling: "invar (sibling r)"
    and stream_sibling: "to_stream (sibling r) = []"
begin

lemma reset_add:
  assumes "distinct ops"
  shows "invar (add ops (clear r)) \<and> set (to_stream (add ops (clear r))) = set ops"
  using assms by (simp add: invar_add invar_clear set_add stream_clear)

lemma best_exists:
  assumes "invar r" and "to_stream r \<noteq> []"
  shows "\<exists>p. best r = Some p \<and> p \<in> set (to_stream r) \<and> (\<forall>q \<in> set (to_stream r). leq r p q)"
  using assms best_None [OF assms(1)] best_Some [OF assms(1)] by (cases "best r") auto

lemma best_sole:
  assumes "invar r" and "set (to_stream r) = {p}"
  shows "best r = Some p"
proof -
  have "to_stream r \<noteq> []" using assms(2) by auto
  then show ?thesis using best_exists [OF assms(1)] assms(2) by auto
qed

end

lemma rank_leq_frame [simp]:
  "rank_leq (rank_add ops r) = rank_leq r" "rank_leq (rank_remove ops r) = rank_leq r"
  "rank_leq (rank_clear r) = rank_leq r"
  by (simp_all add: rank_leq_def fun_eq_iff)

interpretation rk: rank_interface rank_add rank_remove rank_clear rank_best rank_best_of rank_to_stream
  rank_create_sibling rank_leq rank_wf
proof (unfold_locales, goal_cases)
  case (1 r ops)
  then show ?case by (simp add: rank_wf_def rank_to_stream_def ranking_add view_wf_add_range)
next
  case (2 ops r)
  show ?case by (simp add: rank_to_stream_def ranking_add view_simps)
next
  case (8 r)
  then show ?case
    using rank_best_optimal [of r] by (auto split: option.splits)
next
  case (9 r p)
  then show ?case using rank_best_optimal [of r] by simp
next
  case (10 ops r)
  then show ?case by (rule rank_best_of_optimal)
next
  case (7 r)
  then show ?case by (simp add: rank_wf_def rank_to_stream_def view_wfD)
qed (simp_all add: rank_wf_remove)

section \<open>Properties\<close>

text \<open>
  The best operating point of a rank that was filled with distinct operating points is
  one of them and no other has a strictly better value of the objective function, whether it
  is minimised or maximised; there is none exactly when the rank is empty.
\<close>

theorem rank_best_is_optimal:
  assumes "distinct ops"
  shows "case rank_best (rank_add ops (Rank obj composer f fs)) of
      None \<Rightarrow> ops = []
    | Some p \<Rightarrow> p \<in> set ops \<and>
        (\<forall>q \<in> set ops. \<not> rank_compare_best obj (evaluator composer f fs q) (evaluator composer f fs p))"
proof -
  let ?r = "rank_add ops (Rank obj composer f fs)"
  have wf: "rank_wf ?r" and set: "set (rank_to_stream ?r) = set ops"
    using rk.invar_add [OF rank_wf_new(1) assms] by (simp_all add: rk.set_add)
  have leq: "rank_leq ?r p q \<longleftrightarrow> \<not> rank_compare_best obj (evaluator composer f fs q) (evaluator composer f fs p)" for p q
    by (simp add: rank_leq_def Rank_def View_def)
  show ?thesis
    using rk.best_None [OF wf] rk.best_Some [OF wf] set leq by (auto split: option.splits)
qed

theorem rank_best_is_optimal_witness:
  "rank_best (rank_add [sample_q, sample_p] (Rank MAXIMIZE SIMPLE (sample_field 0) [])) = Some sample_q"
proof -
  have d: "distinct [sample_q, sample_p]" by (simp add: sample_p_def sample_q_def)
  have v: "evaluator SIMPLE (sample_field 0) [] sample_q = 2" "evaluator SIMPLE (sample_field 0) [] sample_p = 1"
    by (simp_all add: evaluate_simple_def value_extractor_def sample_field_def sample_p_def sample_q_def sample_point_def op_simps)
  show ?thesis
    using rank_best_is_optimal [OF d, of MAXIMIZE SIMPLE "sample_field 0" "[]"] v
    by (auto split: option.splits)
qed

end
