(* ===== verification/Constraint_Model.thy ===== *)
theory Constraint_Model
  imports Field_Adaptor Knowledge_Base Rank_Model
begin

text \<open>
  A constraint of an optimisation problem (\<^verbatim>\<open>constraint.hpp\<close>). A constraint keeps a view of
  the whole application knowledge, the set of operating points it blocks, and the goal value
  of the last check; the goal itself and the adaptor of its field are shared and read from the
  store. The blocked operating points, a \<^verbatim>\<open>std::unordered_set\<close>, are a list without
  repetitions in iteration order; the results do not depend on that order.

  The results characterise every stream a constraint produces: the closest blocked points and
  the narrowing of a stream by reference definitions, the filters and the update after a change
  of the goal by the exact sets of points that are blocked and released.
\<close>

section \<open>Operations\<close>


record constraint =
  c_segment :: OperatingPointSegments
  c_field_index :: nat
  c_sigma :: int
  target_goal :: goal
  last_check_value :: real
  knowledge_view :: view
  blocked_ops :: op_stream
  c_adaptor :: "nat option"

fun get_bound :: "ComparisonFunctions \<Rightarrow> BoundType" where
  "get_bound GREATER = LOWER"
| "get_bound GREATER_OR_EQUAL = LOWER"
| "get_bound LESS = UPPER"
| "get_bound LESS_OR_EQUAL = UPPER"

definition ConstraintField :: "OperatingPointSegments \<Rightarrow> nat \<Rightarrow> int \<Rightarrow> goal \<Rightarrow> op_field" where
  "ConstraintField s i sig g =
     \<lparr>target_segment = s, target_bound = get_bound (comparison_function g), field_index = i,
      sigma = sig, coefficient = 1\<rparr>"

definition Constraint :: "OperatingPointSegments \<Rightarrow> nat \<Rightarrow> int \<Rightarrow> goal \<Rightarrow> heap \<Rightarrow> constraint" where
  "Constraint s i sig g h =
     \<lparr>c_segment = s, c_field_index = i, c_sigma = sig, target_goal = g,
      last_check_value = goal_get g (goals h),
      knowledge_view = View SIMPLE (ConstraintField s i sig g) [],
      blocked_ops = [], c_adaptor = None\<rparr>"

definition c_create_sibling :: "heap \<Rightarrow> constraint \<Rightarrow> constraint" where
  "c_create_sibling h c = Constraint (c_segment c) (c_field_index c) (c_sigma c) (target_goal c) h"

definition c_add :: "op_ptr \<Rightarrow> constraint \<Rightarrow> constraint" where
  "c_add new_op c = c\<lparr>knowledge_view := view_add new_op (knowledge_view c)\<rparr>"

definition c_remove :: "op_ptr \<Rightarrow> constraint \<Rightarrow> constraint" where
  "c_remove op c = c\<lparr>knowledge_view := view_remove op (knowledge_view c),
                     blocked_ops := remove1 op (blocked_ops c)\<rparr>"

definition c_set :: "knowledge_base \<Rightarrow> constraint \<Rightarrow> constraint" where
  "c_set kb c =
     c\<lparr>knowledge_view := view_add_range (kb_to_stream kb) (view_clear (knowledge_view c))\<rparr>"

definition c_set_field_adaptor :: "knowledge_adaptor \<Rightarrow> constraint \<Rightarrow> constraint" where
  "c_set_field_adaptor ka c = c\<lparr>c_adaptor := get_field_adaptor (c_segment c) (c_field_index c) ka\<rparr>"

text \<open>The value of an operating point for the constraint, and the check against the last goal value.\<close>

definition c_value :: "constraint \<Rightarrow> op_ptr \<Rightarrow> real" where
  "c_value c op = evaluate_op (knowledge_view c) op"

definition c_check :: "constraint \<Rightarrow> op_ptr \<Rightarrow> bool" where
  "c_check c op \<longleftrightarrow> goal_check2 (target_goal c) (c_value c op) (last_check_value c)"

fun closest_loop :: "constraint \<Rightarrow> op_stream \<Rightarrow> real \<Rightarrow> op_stream \<Rightarrow> op_stream" where
  "closest_loop c [] closest_op_value closest_ops = closest_ops"
| "closest_loop c (op # ops) closest_op_value closest_ops =
     (let op_value = c_value c op
      in if op_value = closest_op_value then closest_loop c ops closest_op_value (closest_ops @ [op])
         else if goal_check2 (target_goal c) op_value closest_op_value then closest_loop c ops op_value [op]
         else closest_loop c ops closest_op_value closest_ops)"

definition get_closest :: "constraint \<Rightarrow> op_stream" where
  "get_closest c = (case blocked_ops c of [] \<Rightarrow> [] | op # ops \<Rightarrow> closest_loop c ops (c_value c op) [op])"

fun narrow_loop :: "constraint \<Rightarrow> op_stream \<Rightarrow> real \<Rightarrow> bool \<Rightarrow> op_stream \<Rightarrow> op_stream" where
  "narrow_loop c [] best_op_value best_op_is_valid best_ops = best_ops"
| "narrow_loop c (op # ops) best_op_value best_op_is_valid best_ops =
     (let op_value = c_value c op; is_valid = c_check c op
      in if is_valid
         then (if \<not> best_op_is_valid then narrow_loop c ops best_op_value True [op]
               else narrow_loop c ops best_op_value best_op_is_valid (best_ops @ [op]))
         else if \<not> best_op_is_valid \<and> op_value = best_op_value
         then narrow_loop c ops best_op_value best_op_is_valid (best_ops @ [op])
         else if \<not> best_op_is_valid \<and> goal_check2 (target_goal c) op_value best_op_value
         then narrow_loop c ops op_value best_op_is_valid [op]
         else narrow_loop c ops best_op_value best_op_is_valid best_ops)"

definition narrow :: "op_stream \<Rightarrow> constraint \<Rightarrow> op_stream" where
  "narrow ops c = (case ops of [] \<Rightarrow> [] | op # rest \<Rightarrow> narrow_loop c rest (c_value c op) (c_check c op) [op])"

definition c_to_stream :: "constraint \<Rightarrow> op_stream" where
  "c_to_stream c = blocked_ops c"

definition append_to :: "constraint \<Rightarrow> op_stream \<Rightarrow> op_stream" where
  "append_to c ops = ops @ blocked_ops c"

definition remove_blocked_ops_from :: "op_stream \<Rightarrow> constraint \<Rightarrow> op_stream" where
  "remove_blocked_ops_from input c = filter (\<lambda>op. op \<notin> set (blocked_ops c)) input"

definition c_clear :: "constraint \<Rightarrow> constraint" where
  "c_clear c = c\<lparr>blocked_ops := []\<rparr>"

text \<open>Insertion into the set of blocked operating points.\<close>

definition us_insert :: "'a \<Rightarrow> 'a list \<Rightarrow> 'a list" where
  "us_insert x xs = (if x \<in> set xs then xs else xs @ [x])"

definition block_op :: "op_ptr \<Rightarrow> constraint \<Rightarrow> constraint" where
  "block_op op c = c\<lparr>blocked_ops := us_insert op (blocked_ops c)\<rparr>"

definition release_op :: "op_ptr \<Rightarrow> constraint \<Rightarrow> constraint" where
  "release_op op c = c\<lparr>blocked_ops := remove1 op (blocked_ops c)\<rparr>"

fun filter_initialize :: "op_stream \<Rightarrow> constraint \<Rightarrow> constraint \<times> op_stream" where
  "filter_initialize [] c = (c, [])"
| "filter_initialize (op # input) c =
     (if \<not> c_check c op
      then (let (c', blocked) = filter_initialize input (block_op op c) in (c', op # blocked))
      else filter_initialize input c)"

fun filter_add :: "op_stream \<Rightarrow> constraint \<Rightarrow> constraint \<times> op_stream" where
  "filter_add [] c = (c, [])"
| "filter_add (op # input) c =
     (if c_check c op
      then (let (c', out) = filter_add input c in (c', op # out))
      else filter_add input (block_op op c))"

fun filter_remove :: "op_stream \<Rightarrow> constraint \<Rightarrow> constraint \<times> op_stream" where
  "filter_remove [] c = (c, [])"
| "filter_remove (op # input) c =
     (if op \<in> set (blocked_ops c) then filter_remove input (release_op op c)
      else (let (c', out) = filter_remove input c in (c', op # out)))"

text \<open>The loop of \<^verbatim>\<open>update\<close> for a goal that became easier to reach.\<close>

fun validate_loop :: "op_stream \<Rightarrow> real \<Rightarrow> constraint \<Rightarrow> constraint \<times> op_stream" where
  "validate_loop [] final_goal_value c = (c, [])"
| "validate_loop (op # diff_stream) final_goal_value c =
     (if op \<in> set (blocked_ops c) \<and> goal_check2 (target_goal c) (c_value c op) final_goal_value
      then (let (c', validated) = validate_loop diff_stream final_goal_value (release_op op c)
            in (c', op # validated))
      else validate_loop diff_stream final_goal_value c)"

definition error_coef :: "heap \<Rightarrow> constraint \<Rightarrow> real" where
  "error_coef h c = (case c_adaptor c of Some a \<Rightarrow> get_error_coefficient (adaptor_cells h a) | None \<Rightarrow> 1)"

definition final_goal :: "heap \<Rightarrow> constraint \<Rightarrow> real" where
  "final_goal h c = goal_get (target_goal c) (goals h) * error_coef h c"

definition c_update :: "heap \<Rightarrow> constraint \<Rightarrow> constraint \<times> op_stream \<times> op_stream" where
  "c_update h c =
     (let final_goal_value = final_goal h c
      in if final_goal_value = last_check_value c then (c, [], [])
         else let diff_stream = view_range (last_check_value c) final_goal_value (knowledge_view c)
              in if goal_check2 (target_goal c) final_goal_value (last_check_value c)
                 then (c\<lparr>last_check_value := final_goal_value\<rparr>,
                       filter (\<lambda>op. \<not> goal_check2 (target_goal c) (c_value c op) final_goal_value) diff_stream, [])
                 else (let (c', validated) = validate_loop diff_stream final_goal_value c
                       in (c'\<lparr>last_check_value := final_goal_value\<rparr>, [], validated)))"

section \<open>Streams produced by the filters\<close>

lemma set_us_insert [simp]: "set (us_insert x xs) = insert x (set xs)"
  by (auto simp: us_insert_def)

lemma distinct_us_insert [simp]: "distinct xs \<Longrightarrow> distinct (us_insert x xs)"
  by (simp add: us_insert_def)

lemma block_release_frame [simp]:
  "c_check (block_op op c) = c_check c" "c_check (release_op op c) = c_check c"
  "c_value (block_op op c) = c_value c" "c_value (release_op op c) = c_value c"
  "set (blocked_ops (block_op op c)) = insert op (set (blocked_ops c))"
  "distinct (blocked_ops c) \<Longrightarrow> set (blocked_ops (release_op op c)) = set (blocked_ops c) - {op}"
  "distinct (blocked_ops c) \<Longrightarrow> distinct (blocked_ops (block_op op c))"
  "distinct (blocked_ops c) \<Longrightarrow> distinct (blocked_ops (release_op op c))"
  "knowledge_view (block_op op c) = knowledge_view c" "knowledge_view (release_op op c) = knowledge_view c"
  "target_goal (block_op op c) = target_goal c" "target_goal (release_op op c) = target_goal c"
  "c_adaptor (block_op op c) = c_adaptor c" "c_adaptor (release_op op c) = c_adaptor c"
  "last_check_value (block_op op c) = last_check_value c" "last_check_value (release_op op c) = last_check_value c"
  by (simp_all add: block_op_def release_op_def fun_eq_iff c_check_def c_value_def)

text \<open>Everything of a constraint but the blocked operating points.\<close>

definition same_problem :: "constraint \<Rightarrow> constraint \<Rightarrow> bool" where
  "same_problem c d \<longleftrightarrow>
     c_segment c = c_segment d \<and> c_field_index c = c_field_index d \<and> c_sigma c = c_sigma d
     \<and> target_goal c = target_goal d \<and> last_check_value c = last_check_value d
     \<and> knowledge_view c = knowledge_view d \<and> c_adaptor c = c_adaptor d"

lemma same_problem_refl [simp]: "same_problem c c"
  by (simp add: same_problem_def)

lemma same_problem_block [simp]:
  "same_problem c (block_op op d) = same_problem c d" "same_problem (block_op op c) d = same_problem c d"
  "same_problem c (release_op op d) = same_problem c d" "same_problem (release_op op c) d = same_problem c d"
  by (simp_all add: same_problem_def block_op_def release_op_def)

lemma same_problem_check: "same_problem c d \<Longrightarrow> c_check c = c_check d" "same_problem c d \<Longrightarrow> c_value c = c_value d"
  by (simp_all add: same_problem_def c_check_def c_value_def fun_eq_iff)

lemma filter_initialize_stream:
  "filter_initialize ops c = (c', out) \<Longrightarrow> distinct (blocked_ops c) \<Longrightarrow>
     out = filter (\<lambda>p. \<not> c_check c p) ops \<and> same_problem c' c \<and> distinct (blocked_ops c')
     \<and> set (blocked_ops c') = set (blocked_ops c) \<union> {p \<in> set ops. \<not> c_check c p}"
proof (induction ops arbitrary: c c' out)
  case (Cons op ops)
  show ?case
  proof (cases "c_check c op")
    case True
    then have "filter_initialize ops c = (c', out)" using Cons.prems(1) by simp
    from Cons.IH [OF this Cons.prems(2)] True show ?thesis by auto
  next
    case False
    then obtain rest where rest: "filter_initialize ops (block_op op c) = (c', rest)" and out: "out = op # rest"
      using Cons.prems(1) by (auto split: prod.splits)
    from Cons.IH [OF rest] Cons.prems(2) False show ?thesis by (simp add: out) auto
  qed
qed simp

lemma filter_add_stream:
  "filter_add ops c = (c', out) \<Longrightarrow> distinct (blocked_ops c) \<Longrightarrow>
     out = filter (c_check c) ops \<and> same_problem c' c \<and> distinct (blocked_ops c')
     \<and> set (blocked_ops c') = set (blocked_ops c) \<union> {p \<in> set ops. \<not> c_check c p}"
proof (induction ops arbitrary: c c' out)
  case (Cons op ops)
  show ?case
  proof (cases "c_check c op")
    case True
    then obtain rest where rest: "filter_add ops c = (c', rest)" and out: "out = op # rest"
      using Cons.prems(1) by (auto split: prod.splits)
    from Cons.IH [OF rest Cons.prems(2)] True show ?thesis by (simp add: out) auto
  next
    case False
    then have "filter_add ops (block_op op c) = (c', out)" using Cons.prems(1) by simp
    from Cons.IH [OF this] Cons.prems(2) False show ?thesis by simp auto
  qed
qed simp

lemma filter_remove_stream:
  "filter_remove ops c = (c', out) \<Longrightarrow> distinct (blocked_ops c) \<Longrightarrow> distinct ops \<Longrightarrow>
     out = filter (\<lambda>p. p \<notin> set (blocked_ops c)) ops \<and> same_problem c' c \<and> distinct (blocked_ops c')
     \<and> set (blocked_ops c') = set (blocked_ops c) - set ops"
proof (induction ops arbitrary: c c' out)
  case (Cons op ops)
  show ?case
  proof (cases "op \<in> set (blocked_ops c)")
    case True
    then have "filter_remove ops (release_op op c) = (c', out)" using Cons.prems(1) by simp
    moreover have "filter (\<lambda>p. p \<notin> set (blocked_ops c) - {op}) ops = filter (\<lambda>p. p \<notin> set (blocked_ops c)) ops"
      using Cons.prems(3) by (auto intro!: filter_cong)
    ultimately show ?thesis using Cons.IH [of "release_op op c"] Cons.prems(2,3) True by simp blast
  next
    case False
    then obtain rest where rest: "filter_remove ops c = (c', rest)" and out: "out = op # rest"
      using Cons.prems(1) by (auto split: prod.splits)
    from Cons.IH [OF rest Cons.prems(2)] Cons.prems(3) False show ?thesis by (simp add: out)
  qed
qed simp

lemma validate_loop_stream:
  "validate_loop ops g c = (c', out) \<Longrightarrow> distinct (blocked_ops c) \<Longrightarrow> distinct ops \<Longrightarrow>
     out = filter (\<lambda>p. p \<in> set (blocked_ops c) \<and> goal_check2 (target_goal c) (c_value c p) g) ops
     \<and> same_problem c' c \<and> distinct (blocked_ops c')
     \<and> set (blocked_ops c') = set (blocked_ops c) - set out"
proof (induction ops arbitrary: c c' out)
  case (Cons op ops)
  let ?P = "\<lambda>p. goal_check2 (target_goal c) (c_value c p) g"
  show ?case
  proof (cases "op \<in> set (blocked_ops c) \<and> ?P op")
    case True
    then obtain rest where rest: "validate_loop ops g (release_op op c) = (c', rest)" and out: "out = op # rest"
      using Cons.prems(1) by (auto split: prod.splits)
    moreover have "filter (\<lambda>p. p \<in> set (blocked_ops c) - {op} \<and> ?P p) ops
        = filter (\<lambda>p. p \<in> set (blocked_ops c) \<and> ?P p) ops"
      using Cons.prems(3) by (auto intro!: filter_cong)
    ultimately show ?thesis using Cons.IH [OF rest] Cons.prems(2,3) True by simp blast
  next
    case False
    then have rest: "validate_loop ops g c = (c', out)" using Cons.prems(1) by auto
    from Cons.IH [OF rest Cons.prems(2)] Cons.prems(3) False show ?thesis by auto
  qed
qed simp

section \<open>Closest points and narrowing\<close>

text \<open>\<open>a\<close> is at least as close to satisfying the comparison as \<open>b\<close>.\<close>

fun at_least :: "ComparisonFunctions \<Rightarrow> real \<Rightarrow> real \<Rightarrow> bool" where
  "at_least GREATER a b \<longleftrightarrow> a \<ge> b"
| "at_least GREATER_OR_EQUAL a b \<longleftrightarrow> a \<ge> b"
| "at_least LESS a b \<longleftrightarrow> a \<le> b"
| "at_least LESS_OR_EQUAL a b \<longleftrightarrow> a \<le> b"

lemma at_least_compare: "at_least cf a b \<longleftrightarrow> a = b \<or> compare cf a b"
  by (cases cf) auto

lemma at_least_trans: "at_least cf a b \<Longrightarrow> at_least cf b c \<Longrightarrow> at_least cf a c"
  by (cases cf) auto

lemma at_least_refl [simp]: "at_least cf a a"
  by (cases cf) auto

lemma at_least_linear: "at_least cf a b \<or> at_least cf b a"
  by (cases cf) auto

lemma at_least_antisym: "at_least cf a b \<Longrightarrow> at_least cf b a \<Longrightarrow> a = b"
  by (cases cf) auto

text \<open>The points of a stream that are as close to the goal as any other of the stream.\<close>

definition closest_in :: "constraint \<Rightarrow> op_stream \<Rightarrow> op_stream" where
  "closest_in c ops =
     filter (\<lambda>p. \<forall>q \<in> set ops. at_least (comparison_function (target_goal c)) (c_value c p) (c_value c q)) ops"

definition narrow_spec :: "op_stream \<Rightarrow> constraint \<Rightarrow> op_stream" where
  "narrow_spec ops c =
     (if \<exists>p \<in> set ops. c_check c p then filter (c_check c) ops else closest_in c ops)"

lemma closest_in_const:
  "\<forall>p \<in> set ops. c_value c p = v \<Longrightarrow> closest_in c ops = ops"
  by (simp add: closest_in_def filter_id_conv)

lemma closest_in_prepend_worse:
  assumes "\<forall>p \<in> set acc. c_value c p = v"
    and "\<not> at_least (comparison_function (target_goal c)) v (c_value c op)"
  shows "closest_in c (acc @ op # ops) = closest_in c (op # ops)"
proof -
  let ?al = "\<lambda>p q. at_least (comparison_function (target_goal c)) (c_value c p) (c_value c q)"
  have acc: "filter (\<lambda>p. \<forall>q \<in> set (acc @ op # ops). ?al p q) acc = []"
    using assms by (auto simp: filter_empty_conv)
  have "(\<forall>q \<in> set (acc @ op # ops). ?al p q) \<longleftrightarrow> (\<forall>q \<in> set (op # ops). ?al p q)" for p
  proof
    assume *: "\<forall>q \<in> set (op # ops). ?al p q"
    have "at_least (comparison_function (target_goal c)) (c_value c op) v"
      using assms(2) at_least_linear by blast
    then have "?al p q" if "q \<in> set acc" for q
      using * assms(1) that at_least_trans by fastforce
    with * show "\<forall>q \<in> set (acc @ op # ops). ?al p q" by auto
  qed simp
  then show ?thesis using acc by (simp add: closest_in_def)
qed

lemma closest_in_insert_worse:
  assumes "\<forall>p \<in> set acc. c_value c p = v" and "acc \<noteq> []"
    and "\<not> at_least (comparison_function (target_goal c)) (c_value c op) v"
  shows "closest_in c (acc @ op # ops) = closest_in c (acc @ ops)"
proof -
  let ?al = "\<lambda>p q. at_least (comparison_function (target_goal c)) (c_value c p) (c_value c q)"
  obtain a where a: "a \<in> set acc" using assms(2) by (cases acc) auto
  have op: "\<not> (\<forall>q \<in> set (acc @ op # ops). ?al op q)"
    using a assms(1,3) by auto
  have "(\<forall>q \<in> set (acc @ op # ops). ?al p q) \<longleftrightarrow> (\<forall>q \<in> set (acc @ ops). ?al p q)" for p
  proof
    assume *: "\<forall>q \<in> set (acc @ ops). ?al p q"
    have "at_least (comparison_function (target_goal c)) v (c_value c op)"
      using assms(3) at_least_linear by blast
    moreover have "at_least (comparison_function (target_goal c)) (c_value c p) v"
      using * a assms(1) by auto
    ultimately have "?al p op" using at_least_trans by blast
    with * show "\<forall>q \<in> set (acc @ op # ops). ?al p q" by auto
  qed auto
  then show ?thesis using op by (simp add: closest_in_def)
qed

lemma goal_check2_strict:
  "a \<noteq> b \<Longrightarrow> goal_check2 g a b \<longleftrightarrow> \<not> at_least (comparison_function g) b a"
  using compare_total [of "comparison_function g" a b] at_least_antisym
  by (auto simp: goal_check2_def at_least_compare)

lemma closest_loop_spec:
  assumes "acc \<noteq> []" and "\<forall>p \<in> set acc. c_value c p = v"
  shows "closest_loop c ops v acc = closest_in c (acc @ ops)"
  using assms
proof (induction ops arbitrary: v acc)
  case Nil
  then show ?case by (simp add: closest_in_const [of acc c v])
next
  case (Cons op ops)
  show ?case
  proof (cases "c_value c op = v")
    case True
    then show ?thesis using Cons by simp
  next
    case False
    show ?thesis
    proof (cases "goal_check2 (target_goal c) (c_value c op) v")
      case True
      then have "closest_loop c (op # ops) v acc = closest_in c (op # ops)"
        using False Cons.IH [of "[op]" "c_value c op"] by (simp add: Let_def)
      then show ?thesis
        using closest_in_prepend_worse [OF Cons.prems(2)] True goal_check2_strict [OF False] by metis
    next
      case no: False
      then have "\<not> at_least (comparison_function (target_goal c)) (c_value c op) v"
        using goal_check2_strict [OF False] False at_least_antisym by blast
      then show ?thesis
        using False no Cons.IH [OF Cons.prems] closest_in_insert_worse [OF Cons.prems(2,1)]
        by (simp add: Let_def)
    qed
  qed
qed

lemma narrow_loop_valid: "narrow_loop c ops v True acc = acc @ filter (c_check c) ops"
  by (induction ops arbitrary: acc) (auto simp: Let_def)

lemma narrow_loop_invalid:
  assumes "acc \<noteq> []" and "\<forall>p \<in> set acc. c_value c p = v"
  shows "narrow_loop c ops v False acc =
    (if \<exists>p \<in> set ops. c_check c p then filter (c_check c) ops else closest_in c (acc @ ops))"
  using assms
proof (induction ops arbitrary: v acc)
  case Nil
  then show ?case by (simp add: closest_in_const [of acc c v])
next
  case (Cons op ops)
  show ?case
  proof (cases "c_check c op")
    case True
    then show ?thesis by (simp add: Let_def narrow_loop_valid)
  next
    case no: False
    consider (eq) "c_value c op = v"
      | (better) "c_value c op \<noteq> v" "goal_check2 (target_goal c) (c_value c op) v"
      | (worse) "c_value c op \<noteq> v" "\<not> goal_check2 (target_goal c) (c_value c op) v" by blast
    then show ?thesis
    proof cases
      case eq
      then show ?thesis using no Cons.IH [of "acc @ [op]" v] Cons.prems by (simp add: Let_def)
    next
      case better
      then have "closest_in c (acc @ op # ops) = closest_in c (op # ops)"
        using closest_in_prepend_worse [OF Cons.prems(2)] goal_check2_strict [OF better(1)] by blast
      then show ?thesis
        using no better Cons.IH [of "[op]" "c_value c op"] by (simp add: Let_def)
    next
      case worse
      then have "closest_in c (acc @ op # ops) = closest_in c (acc @ ops)"
        using closest_in_insert_worse [OF Cons.prems(2,1)] goal_check2_strict [OF worse(1)] worse(1)
          at_least_antisym by blast
      then show ?thesis using no worse Cons.IH [OF Cons.prems] by (simp add: Let_def)
    qed
  qed
qed

lemma get_closest_eq: "get_closest c = closest_in c (blocked_ops c)"
proof (cases "blocked_ops c")
  case (Cons op ops)
  then show ?thesis
    using closest_loop_spec [of "[op]" c "c_value c op" ops] by (simp add: get_closest_def)
qed (simp add: get_closest_def closest_in_def)

lemma narrow_eq: "narrow ops c = narrow_spec ops c"
proof (cases ops)
  case (Cons op rest)
  then show ?thesis
    using narrow_loop_invalid [of "[op]" c "c_value c op" rest]
    by (cases "c_check c op") (auto simp: narrow_def narrow_spec_def narrow_loop_valid)
qed (simp add: narrow_def narrow_spec_def closest_in_def)

lemma at_least_best_exists:
  "ops \<noteq> [] \<Longrightarrow> \<exists>p \<in> set ops. \<forall>q \<in> set ops. at_least cf (f p) (f q)"
proof (induction ops rule: list_nonempty_induct)
  case (cons x xs)
  then obtain p where p: "p \<in> set xs" "\<forall>q \<in> set xs. at_least cf (f p) (f q)" by auto
  show ?case
  proof (cases "at_least cf (f p) (f x)")
    case True
    then show ?thesis using p by auto
  next
    case False
    then have "at_least cf (f x) (f p)" using at_least_linear by blast
    then have "\<forall>q \<in> set (x # xs). at_least cf (f x) (f q)" using p at_least_trans by fastforce
    then show ?thesis by auto
  qed
qed simp

lemma closest_in_nonempty: "ops \<noteq> [] \<Longrightarrow> closest_in c ops \<noteq> []"
  using at_least_best_exists [of ops "comparison_function (target_goal c)" "c_value c"]
  by (auto simp: closest_in_def filter_empty_conv)

lemma closest_in_subset: "set (closest_in c ops) \<subseteq> set ops"
  by (auto simp: closest_in_def)

lemma narrow_subset: "set (narrow ops c) \<subseteq> set ops"
  by (auto simp: narrow_eq narrow_spec_def closest_in_def)

lemma narrow_nonempty: "ops \<noteq> [] \<Longrightarrow> narrow ops c \<noteq> []"
  by (auto simp: narrow_eq narrow_spec_def closest_in_nonempty filter_empty_conv)

text \<open>
  The two single-pass selection loops of a constraint compute their reference
  definitions. The closest points are the blocked points that no other blocked point improves
  on, and narrowing a stream keeps the points that satisfy the constraint, or, when there is
  none, the points of the stream closest to it; neither selection is empty on a non-empty
  input.
\<close>

theorem closest_and_narrow_reference:
  "get_closest c = closest_in c (blocked_ops c) \<and> narrow ops c = narrow_spec ops c
   \<and> (get_closest c = [] \<longleftrightarrow> blocked_ops c = []) \<and> (narrow ops c = [] \<longleftrightarrow> ops = [])"
proof -
  have "closest_in c [] = []" by (simp add: closest_in_def)
  then show ?thesis
    using closest_in_nonempty narrow_nonempty narrow_subset [of "[]" c] by (auto simp: get_closest_eq narrow_eq)
qed

section \<open>Update after a change of the goal or of the coefficient\<close>

text \<open>The view of a constraint holds the operating points of the knowledge base.\<close>

definition c_wf :: "op_ptr set \<Rightarrow> constraint \<Rightarrow> bool" where
  "c_wf K c \<longleftrightarrow>
     view_wf (knowledge_view c) \<and> set (view_range_all (knowledge_view c)) = K \<and> distinct (blocked_ops c)"

lemma c_wf_same_problem: "same_problem c d \<Longrightarrow> distinct (blocked_ops c) \<Longrightarrow> c_wf K d \<Longrightarrow> c_wf K c"
  by (simp add: c_wf_def same_problem_def)

lemma set_knowledge_range:
  "c_wf K c \<Longrightarrow> set (view_range a b (knowledge_view c)) = {p \<in> K. min a b \<le> c_value c p \<and> c_value c p \<le> max a b}"
  by (simp add: c_wf_def view_simps c_value_def evaluate_op_def)

lemma check_between:
  assumes "goal_check2 g v a" and "\<not> goal_check2 g v b" and "goal_check2 g b a"
  shows "min a b \<le> v \<and> v \<le> max a b"
  using assms compare_between unfolding goal_check2_def by blast

lemma c_update_unchanged:
  "final_goal h c = last_check_value c \<Longrightarrow> c_update h c = (c, [], [])"
  by (simp add: c_update_def)

lemma c_update_frame:
  assumes "c_update h c = (c', invalidated, validated)"
  shows "last_check_value c' = final_goal h c \<and> knowledge_view c' = knowledge_view c
    \<and> target_goal c' = target_goal c \<and> c_adaptor c' = c_adaptor c \<and> c_value c' = c_value c
    \<and> c_segment c' = c_segment c \<and> c_field_index c' = c_field_index c \<and> c_sigma c' = c_sigma c"
proof -
  have loop: "knowledge_view d' = knowledge_view d \<and> target_goal d' = target_goal d \<and> c_adaptor d' = c_adaptor d
    \<and> c_segment d' = c_segment d \<and> c_field_index d' = c_field_index d \<and> c_sigma d' = c_sigma d"
    if "validate_loop ops g d = (d', out)" for ops g d d' out
    using that
  proof (induction ops arbitrary: d d' out)
    case (Cons op ops)
    then show ?case by (fastforce simp: release_op_def split: if_splits prod.splits)
  qed simp
  show ?thesis
    using assms loop by (fastforce simp: c_update_def Let_def c_value_def fun_eq_iff split: if_splits prod.splits)
qed

lemma c_update_streams:
  assumes wf: "c_wf K c" and sub: "set (blocked_ops c) \<subseteq> K" and inv: "\<forall>p \<in> set (blocked_ops c). \<not> c_check c p"
    and upd: "c_update h c = (c', invalidated, validated)"
  shows "c_wf K c'" and "distinct invalidated" and "distinct validated"
    and "set invalidated \<subseteq> {p \<in> K. \<not> c_check c' p}"
    and "{p \<in> K. c_check c p \<and> \<not> c_check c' p} \<subseteq> set invalidated"
    and "set validated = {p \<in> set (blocked_ops c). c_check c' p}"
    and "set (blocked_ops c') = set (blocked_ops c) - set validated"
proof -
  let ?old = "last_check_value c" and ?new = "final_goal h c" and ?g = "target_goal c"
  let ?diff = "view_range ?old ?new (knowledge_view c)"
  note frame = c_update_frame [OF upd]
  have check': "c_check c' p \<longleftrightarrow> goal_check2 ?g (c_value c p) ?new" for p
    using frame by (simp add: c_check_def)
  have check: "c_check c p \<longleftrightarrow> goal_check2 ?g (c_value c p) ?old" for p
    by (simp add: c_check_def)
  have diff: "set ?diff = {p \<in> K. min ?old ?new \<le> c_value c p \<and> c_value c p \<le> max ?old ?new}"
    "distinct ?diff"
    using set_knowledge_range [OF wf] wf by (auto simp: c_wf_def distinct_view_range)
  have dist: "distinct (blocked_ops c)" using wf by (simp add: c_wf_def)
  have mono: "goal_check2 ?g v a" if "goal_check2 ?g b a" "goal_check2 ?g v b" for v a b
    using that compare_stricter unfolding goal_check2_def by blast
  consider (same) "?new = ?old" | (worse) "?new \<noteq> ?old" "goal_check2 ?g ?new ?old"
    | (better) "?new \<noteq> ?old" "\<not> goal_check2 ?g ?new ?old" by blast
  then have "c_wf K c' \<and> distinct invalidated \<and> distinct validated
    \<and> set invalidated \<subseteq> {p \<in> K. \<not> c_check c' p} \<and> {p \<in> K. c_check c p \<and> \<not> c_check c' p} \<subseteq> set invalidated
    \<and> set validated = {p \<in> set (blocked_ops c). c_check c' p}
    \<and> set (blocked_ops c') = set (blocked_ops c) - set validated"
  proof cases
    case same
    then show ?thesis using upd wf inv by (auto simp: c_update_def)
  next
    case worse
    then have eqs: "c' = c\<lparr>last_check_value := ?new\<rparr>" "validated = []"
      "invalidated = filter (\<lambda>op. \<not> goal_check2 ?g (c_value c op) ?new) ?diff"
      using upd by (auto simp: c_update_def Let_def)
    have "set invalidated = {p \<in> K. min ?old ?new \<le> c_value c p \<and> c_value c p \<le> max ?old ?new \<and> \<not> c_check c' p}"
      using diff(1) by (auto simp: eqs(3) check')
    moreover have "min ?old ?new \<le> c_value c p \<and> c_value c p \<le> max ?old ?new"
      if "c_check c p" "\<not> c_check c' p" for p
      using check_between [of ?g "c_value c p" ?old ?new] that worse(2) by (simp add: check check')
    moreover have "c_wf K c'" using wf by (simp add: eqs(1) c_wf_def)
    moreover have "\<not> c_check c' p" if "p \<in> set (blocked_ops c)" for p
      using inv that mono [OF worse(2)] by (auto simp: check check')
    ultimately show ?thesis using diff(2) by (auto simp: eqs)
  next
    case better
    have looser: "goal_check2 ?g ?old ?new"
      using compare_looser [OF better(1)] better(2) by (auto simp: goal_check2_def)
    obtain d where d: "validate_loop ?diff ?new c = (d, validated)"
      and eqs: "c' = d\<lparr>last_check_value := ?new\<rparr>" "invalidated = []"
      using upd better by (auto simp: c_update_def Let_def split: prod.splits)
    note loop = validate_loop_stream [OF d dist diff(2)]
    have "min ?old ?new \<le> c_value c p \<and> c_value c p \<le> max ?old ?new"
      if "p \<in> set (blocked_ops c)" "c_check c' p" for p
      using check_between [of ?g "c_value c p" ?new ?old] that inv looser by (auto simp: check check' min.commute max.commute)
    then have "set validated = {p \<in> set (blocked_ops c). c_check c' p}"
      using loop diff(1) sub by (auto simp: check')
    moreover have "c_wf K c'"
      using loop wf by (simp add: eqs(1) c_wf_def same_problem_def)
    moreover have "\<not> (c_check c p \<and> \<not> c_check c' p)" for p
      using mono [OF looser] by (auto simp: check check')
    ultimately show ?thesis using loop diff(2) by (auto simp: eqs)
  qed
  then show "c_wf K c'" and "distinct invalidated" and "distinct validated"
    and "set invalidated \<subseteq> {p \<in> K. \<not> c_check c' p}"
    and "{p \<in> K. c_check c p \<and> \<not> c_check c' p} \<subseteq> set invalidated"
    and "set validated = {p \<in> set (blocked_ops c). c_check c' p}"
    and "set (blocked_ops c') = set (blocked_ops c) - set validated"
    by blast+
qed

end
