(* ===== verification/Constraint_Stack.thy ===== *)
theory Constraint_Stack
  imports Constraint_Model
begin

text \<open>
  The stack of constraints of an optimisation problem, seen as a cascade of filters: the
  operating points that a constraint does not block flow to the constraint below it, and those
  that no constraint blocks end up in the rank. The loops with which the state of the run-time
  manager pushes a stream of points down the stack are \<open>cascade\<close> and \<open>prune\<close>.

  The locale \<open>constraint_handler\<close> states what these loops rely on (the abstract class
  \<^verbatim>\<open>ConstraintHandler\<close> of \<^verbatim>\<open>constraint.hpp\<close>); its lemmas show that the loops keep the
  partition of the application knowledge among the constraints and the rank. It is interpreted
  on the constraints of \<open>Constraint_Model\<close>.
\<close>

section \<open>Loops over the stack\<close>

text \<open>
  \<^verbatim>\<open>for (it ...) { input.swap(output); it->second->f(input, output); }\<close>, where \<open>f\<close> is
  \<^verbatim>\<open>filter_add\<close> or \<^verbatim>\<open>filter_remove\<close>, which clear the output stream first.
\<close>

fun cascade :: "('x list \<Rightarrow> 'c \<Rightarrow> 'c \<times> 'x list) \<Rightarrow> 'x list \<Rightarrow> ('k \<times> 'c) list \<Rightarrow> ('k \<times> 'c) list \<times> 'x list" where
  "cascade f ops [] = ([], ops)"
| "cascade f ops ((k, c) # cs) =
     (let (c', out) = f ops c; (cs', leftover) = cascade f out cs in ((k, c') # cs', leftover))"

text \<open>The same loop with \<^verbatim>\<open>remove_blocked_ops_from\<close>, which leaves the constraints alone.\<close>

fun prune :: "('x list \<Rightarrow> 'c \<Rightarrow> 'x list) \<Rightarrow> 'x list \<Rightarrow> ('k \<times> 'c) list \<Rightarrow> 'x list" where
  "prune f ops [] = ops"
| "prune f ops ((k, c) # cs) = prune f (f ops c) cs"

section \<open>The partition of the knowledge\<close>

text \<open>
  \<open>stack_ok P B A cs R\<close>: of the operating points \<open>A\<close> that reach the stack \<open>cs\<close>, each
  constraint blocks exactly those it receives and does not satisfy, and \<open>R\<close> is what is left.
\<close>

fun stack_ok :: "('c \<Rightarrow> 'x \<Rightarrow> bool) \<Rightarrow> ('c \<Rightarrow> 'x set) \<Rightarrow> 'x set \<Rightarrow> ('k \<times> 'c) list \<Rightarrow> 'x set \<Rightarrow> bool" where
  "stack_ok P B A [] R \<longleftrightarrow> R = A"
| "stack_ok P B A ((k, c) # cs) R \<longleftrightarrow> B c = {p \<in> A. \<not> P c p} \<and> stack_ok P B {p \<in> A. P c p} cs R"

text \<open>The points of \<open>A\<close> that satisfy every constraint of the stack.\<close>

definition survivors :: "('c \<Rightarrow> 'x \<Rightarrow> bool) \<Rightarrow> 'x set \<Rightarrow> ('k \<times> 'c) list \<Rightarrow> 'x set" where
  "survivors P A cs = {p \<in> A. \<forall>c \<in> set (map snd cs). P c p}"

lemma survivors_Cons [simp]: "survivors P A ((k, c) # cs) = survivors P {p \<in> A. P c p} cs"
  by (auto simp: survivors_def)

lemma survivors_Nil [simp]: "survivors P A [] = A"
  by (simp add: survivors_def)

lemma survivors_subset: "survivors P A cs \<subseteq> A"
  by (auto simp: survivors_def)

lemma stack_ok_rest: "stack_ok P B A cs R \<Longrightarrow> R = survivors P A cs"
  by (induction cs arbitrary: A) auto

lemma stack_ok_append:
  "stack_ok P B A (xs @ ys) R \<longleftrightarrow> stack_ok P B A xs (survivors P A xs) \<and> stack_ok P B (survivors P A xs) ys R"
  by (induction xs arbitrary: A) auto

lemma stack_ok_blocked_subset: "stack_ok P B A cs R \<Longrightarrow> (k, c) \<in> set cs \<Longrightarrow> B c \<subseteq> A \<and> (\<forall>p \<in> B c. \<not> P c p)"
  by (induction cs arbitrary: A) fastforce+

lemma stack_ok_disjoint: "stack_ok P B A cs R \<Longrightarrow> (k, c) \<in> set cs \<Longrightarrow> B c \<inter> R = {}"
proof (induction cs arbitrary: A)
  case (Cons e cs)
  obtain j d where e: "e = (j, d)" by force
  show ?case
  proof (cases "(k, c) = e")
    case True
    then show ?thesis using Cons.prems(1) e stack_ok_rest survivors_subset by fastforce
  next
    case False
    then show ?thesis using Cons e by auto
  qed
qed simp

text \<open>Every point is blocked by one constraint or is left, whatever the stack.\<close>

lemma stack_ok_cover: "stack_ok P B A cs R \<Longrightarrow> A = R \<union> \<Union> (B ` set (map snd cs))"
proof (induction cs arbitrary: A)
  case (Cons e cs)
  obtain k c where e: "e = (k, c)" by force
  have B: "B c = {p \<in> A. \<not> P c p}" and rest: "stack_ok P B {p \<in> A. P c p} cs R" using Cons.prems e by auto
  have "{p \<in> A. P c p} = R \<union> \<Union> (B ` set (map snd cs))" by (rule Cons.IH [OF rest])
  then have "A = {p \<in> A. \<not> P c p} \<union> (R \<union> \<Union> (B ` set (map snd cs)))" by blast
  then show ?case using B e by auto
qed simp

lemma cascade_empty: "(\<And>c. f [] c = (c, [])) \<Longrightarrow> cascade f [] cs = (cs, [])"
  by (induction cs) auto

section \<open>What the loops rely on\<close>

text \<open>
  \<open>frame c\<close> is what the filters leave unchanged in a constraint, \<open>wf K c\<close> its invariant for
  the application knowledge \<open>K\<close>.
\<close>

locale constraint_handler =
  fixes passes :: "'c \<Rightarrow> 'x \<Rightarrow> bool"
    and blocked :: "'c \<Rightarrow> 'x set"
    and frame :: "'c \<Rightarrow> 'f"
    and wf :: "'x set \<Rightarrow> 'c \<Rightarrow> bool"
    and fadd :: "'x list \<Rightarrow> 'c \<Rightarrow> 'c \<times> 'x list"
    and fremove :: "'x list \<Rightarrow> 'c \<Rightarrow> 'c \<times> 'x list"
    and unblocked :: "'x list \<Rightarrow> 'c \<Rightarrow> 'x list"
  assumes passes_frame: "frame c = frame d \<Longrightarrow> passes c = passes d"
    and fadd: "wf K c \<Longrightarrow> fadd ops c = (c', out) \<Longrightarrow>
          out = filter (passes c) ops \<and> frame c' = frame c \<and> wf K c'
          \<and> blocked c' = blocked c \<union> {p \<in> set ops. \<not> passes c p}"
    and fremove: "wf K c \<Longrightarrow> distinct ops \<Longrightarrow> fremove ops c = (c', out) \<Longrightarrow>
          out = filter (\<lambda>p. p \<notin> blocked c) ops \<and> frame c' = frame c \<and> wf K c'
          \<and> blocked c' = blocked c - set ops"
    and unblocked: "unblocked ops c = filter (\<lambda>p. p \<notin> blocked c) ops"
begin

abbreviation wf_stack :: "'x set \<Rightarrow> ('k \<times> 'c) list \<Rightarrow> bool" where
  "wf_stack K cs \<equiv> \<forall>e \<in> set cs. wf K (snd e)"

abbreviation partition :: "'x set \<Rightarrow> ('k \<times> 'c) list \<Rightarrow> 'x set \<Rightarrow> bool" where
  "partition \<equiv> stack_ok passes blocked"

lemma frames_survivors:
  "map (apsnd frame) xs = map (apsnd frame) ys \<Longrightarrow> survivors passes A xs = survivors passes A ys"
proof (induction xs ys arbitrary: A rule: list_induct2')
  case (4 x xs y ys)
  have "frame (snd x) = frame (snd y)" using 4 by (cases x; cases y) auto
  then have "passes (snd x) = passes (snd y)" by (rule passes_frame)
  then show ?case using 4 by (cases x; cases y) auto
qed auto

lemma cascade_add:
  assumes "cascade fadd ops cs = (cs', leftover)" and "wf_stack K cs" and "partition A cs R"
  shows "wf_stack K cs' \<and> map (apsnd frame) cs' = map (apsnd frame) cs
    \<and> partition (A \<union> set ops) cs' (R \<union> set leftover)
    \<and> leftover = filter (\<lambda>p. \<forall>c \<in> set (map snd cs). passes c p) ops"
  using assms
proof (induction cs arbitrary: ops A cs')
  case Nil
  then show ?case by auto
next
  case (Cons e cs)
  obtain k c where e: "e = (k, c)" by force
  obtain c1 out where f: "fadd ops c = (c1, out)" by force
  obtain cs1 where g: "cascade fadd out cs = (cs1, leftover)" and cs': "cs' = (k, c1) # cs1"
    using Cons.prems(1) e f by (auto split: prod.splits)
  have wf: "wf K c" and wfs: "wf_stack K cs" and B: "blocked c = {p \<in> A. \<not> passes c p}"
    and rest: "partition {p \<in> A. passes c p} cs R"
    using Cons.prems(2,3) e by auto
  note law = fadd [OF wf f]
  note IH = Cons.IH [OF g wfs rest]
  have same: "passes c1 = passes c" by (rule passes_frame) (simp add: law)
  have "{p \<in> A \<union> set ops. passes c p} = {p \<in> A. passes c p} \<union> set out" using law by auto
  then have "partition (A \<union> set ops) cs' (R \<union> set leftover)"
    using IH law B by (auto simp: cs' same)
  then show ?case using IH law by (simp add: cs' e filter_filter conj_commute)
qed

lemma cascade_remove:
  assumes "cascade fremove ops cs = (cs', leftover)" and "wf_stack K cs" and "partition A cs R" and "distinct ops"
  shows "wf_stack K cs' \<and> map (apsnd frame) cs' = map (apsnd frame) cs
    \<and> partition (A - set ops) cs' (R - set leftover) \<and> distinct leftover \<and> set leftover \<subseteq> set ops"
  using assms
proof (induction cs arbitrary: ops A cs')
  case Nil
  then show ?case by auto
next
  case (Cons e cs)
  obtain k c where e: "e = (k, c)" by force
  obtain c1 out where f: "fremove ops c = (c1, out)" by force
  obtain cs1 where g: "cascade fremove out cs = (cs1, leftover)" and cs': "cs' = (k, c1) # cs1"
    using Cons.prems(1) e f by (auto split: prod.splits)
  have wf: "wf K c" and wfs: "wf_stack K cs" and B: "blocked c = {p \<in> A. \<not> passes c p}"
    and rest: "partition {p \<in> A. passes c p} cs R"
    using Cons.prems(2,3) e by auto
  note law = fremove [OF wf Cons.prems(4) f]
  have out: "distinct out" using law Cons.prems(4) by simp
  note IH = Cons.IH [OF g wfs rest out]
  have same: "passes c1 = passes c" by (rule passes_frame) (simp add: law)
  have "{p \<in> A - set ops. passes c p} = {p \<in> A. passes c p} - set out" using law B by auto
  then have "partition (A - set ops) cs' (R - set leftover)"
    using IH law B by (auto simp: cs' same)
  then show ?case using IH law by (auto simp: cs' e)
qed

lemma prune_partition:
  assumes "partition A cs M" and "set ops \<subseteq> A"
  shows "set (prune unblocked ops cs) = set ops \<inter> survivors passes A cs
    \<and> (distinct ops \<longrightarrow> distinct (prune unblocked ops cs))"
  using assms
proof (induction cs arbitrary: ops A)
  case Nil
  then show ?case by auto
next
  case (Cons e cs)
  obtain k c where e: "e = (k, c)" by force
  have B: "blocked c = {p \<in> A. \<not> passes c p}" and rest: "partition {p \<in> A. passes c p} cs M"
    using Cons.prems(1) e by auto
  have sub: "set (unblocked ops c) = set ops \<inter> {p \<in> A. passes c p}"
    using Cons.prems(2) B by (auto simp: unblocked)
  then have "set (unblocked ops c) \<subseteq> {p \<in> A. passes c p}" by simp
  note IH = Cons.IH [OF rest this]
  have "survivors passes {p \<in> A. passes c p} cs \<subseteq> {p \<in> A. passes c p}" by (rule survivors_subset)
  then show ?case using IH sub by (auto simp: e unblocked)
qed

end

text \<open>A constraint whose goal or error coefficient changed, and what its update reports.\<close>

locale updatable_constraint = constraint_handler passes blocked frame wf fadd fremove unblocked
  for passes :: "'c \<Rightarrow> 'x \<Rightarrow> bool" and blocked and frame :: "'c \<Rightarrow> 'f" and wf and fadd and fremove and unblocked +
  fixes update :: "'c \<Rightarrow> 'c \<times> 'x list \<times> 'x list"
  assumes update: "wf K c \<Longrightarrow> blocked c \<subseteq> K \<Longrightarrow> \<forall>p \<in> blocked c. \<not> passes c p \<Longrightarrow>
        update c = (c', invalidated, validated) \<Longrightarrow>
        wf K c' \<and> distinct invalidated \<and> distinct validated
        \<and> set invalidated \<subseteq> {p \<in> K. \<not> passes c' p}
        \<and> {p \<in> K. passes c p \<and> \<not> passes c' p} \<subseteq> set invalidated
        \<and> set validated = {p \<in> blocked c. passes c' p}
        \<and> blocked c' = blocked c - set validated"
begin

text \<open>
  The step of the update loop at one constraint: the points it reports as invalidated, pruned
  by the constraints above it, can all be blocked, the partition up to this constraint holds
  again, and the validated points are what the constraints below still have to receive.
\<close>

lemma update_step:
  assumes ok: "partition K (higher @ (k, c) # lower) R" and wf: "wf K c"
    and upd: "update c = (c1, invalidated, validated)"
    and removed: "removed = prune unblocked invalidated higher"
    and blk: "fadd removed c1 = (c2, remainder)"
  shows "remainder = [] \<and> frame c2 = frame c1 \<and> wf K c2 \<and> distinct removed \<and> distinct validated
    \<and> partition K (higher @ [(k, c2)]) (survivors passes K (higher @ [(k, c2)]))
    \<and> survivors passes K (higher @ [(k, c)]) - set removed \<union> set validated
        = survivors passes K (higher @ [(k, c2)])
    \<and> set validated \<inter> survivors passes K (higher @ [(k, c)]) = {}
    \<and> partition (survivors passes K (higher @ [(k, c)])) lower R"
proof -
  let ?A = "survivors passes K higher"
  have parts: "partition K higher ?A" "blocked c = {p \<in> ?A. \<not> passes c p}" "partition {p \<in> ?A. passes c p} lower R"
    using ok by (simp_all add: stack_ok_append)
  have sub: "blocked c \<subseteq> K" using parts(2) survivors_subset [of passes K higher] by blast
  note law = update [OF wf sub _ upd]
  have law: "wf K c1" "distinct invalidated" "distinct validated" "set invalidated \<subseteq> {p \<in> K. \<not> passes c1 p}"
    "{p \<in> K. passes c p \<and> \<not> passes c1 p} \<subseteq> set invalidated" "set validated = {p \<in> blocked c. passes c1 p}"
    "blocked c1 = blocked c - set validated"
    using law parts(2) by auto
  have rem: "set removed = set invalidated \<inter> ?A" "distinct removed"
    using prune_partition [OF parts(1), of invalidated] law(2,4) removed by auto
  note add = fadd [OF law(1) blk]
  have same: "passes c2 = passes c1" by (rule passes_frame) (simp add: add)
  have cur: "survivors passes K (higher @ [(k, d)]) = {p \<in> ?A. passes d p}" for d
    by (auto simp: survivors_def)
  have invalid: "\<not> passes c1 p" if "p \<in> set removed" for p using that rem law(4) by auto
  then have "remainder = []" using add by (auto simp: filter_empty_conv)
  moreover have "blocked c2 = {p \<in> ?A. \<not> passes c2 p}"
    using add law rem parts(2) survivors_subset [of passes K higher] by (auto simp: same)
  moreover have "{p \<in> ?A. passes c p} - set removed \<union> set validated = {p \<in> ?A. passes c2 p}"
    using add law rem parts(2) survivors_subset [of passes K higher] by (auto simp: same)
  moreover have "set validated \<inter> {p \<in> ?A. passes c p} = {}" using law(6) parts(2) by auto
  ultimately show ?thesis
    using add rem law(3) parts by (auto simp: cur stack_ok_append)
qed

end

section \<open>The constraints of the program\<close>

lemma same_problem_iff: "same_problem c d \<longleftrightarrow> c_clear c = c_clear d"
  by (cases c; cases d) (auto simp: same_problem_def c_clear_def)

interpretation ch: constraint_handler c_check "\<lambda>c. set (blocked_ops c)" c_clear c_wf
  filter_add filter_remove remove_blocked_ops_from
proof (unfold_locales, goal_cases)
  case (1 c d)
  then show ?case by (simp add: same_problem_iff [symmetric] same_problem_check)
next
  case (2 K c ops c' out)
  then show ?case
    using filter_add_stream [OF 2(2)] c_wf_same_problem [of c' c K]
    by (simp add: same_problem_iff [symmetric]) (simp add: c_wf_def)
next
  case (3 K c ops c' out)
  then show ?case
    using filter_remove_stream [OF 3(3)] c_wf_same_problem [of c' c K]
    by (simp add: same_problem_iff [symmetric]) (simp add: c_wf_def)
next
  case (4 ops c)
  show ?case by (simp add: remove_blocked_ops_from_def)
qed

interpretation uc: updatable_constraint c_check "\<lambda>c. set (blocked_ops c)" c_clear c_wf
  filter_add filter_remove remove_blocked_ops_from "c_update h" for h
proof (unfold_locales, goal_cases)
  case (1 K c c' invalidated validated)
  then show ?case using c_update_streams [OF 1] by simp
qed

end
