(* ===== verification/State_Model.thy ===== *)
theory State_Model
  imports Constraint_Stack
begin

text \<open>
  An optimisation problem of the run-time manager (\<^verbatim>\<open>state.hpp\<close>): a stack of constraints
  ordered by priority over a rank of the valid operating points, and the cache of the last
  solution. The \<^verbatim>\<open>std::map\<close> of constraints is a list of pairs sorted by priority; the most
  important constraint, the one with the smallest key, comes first.

  The invariant is the partition of the application knowledge by the stack
  (\<open>Constraint_Stack\<close>). Every operation is shown to keep it, under the conditions the code
  needs, and the solution is characterised for a feasible and for an infeasible problem.
\<close>

section \<open>Operations\<close>

record state =
  constraints :: "(int \<times> constraint) list"
  st_rank :: rank
  problem_is_changed :: bool
  best_operating_point_found :: "op_ptr option"

definition dummy_field :: op_field where
  "dummy_field = \<lparr>target_segment = SOFTWARE_KNOBS, target_bound = LOWER, field_index = 0, sigma = 0, coefficient = 1\<rparr>"

definition State_init :: state where
  "State_init = \<lparr>constraints = [], st_rank = Rank MINIMIZE SIMPLE dummy_field [],
                 problem_is_changed = True, best_operating_point_found = None\<rparr>"

definition st_create_sibling :: "heap \<Rightarrow> state \<Rightarrow> state" where
  "st_create_sibling h s =
     State_init\<lparr>st_rank := rank_create_sibling (st_rank s),
                constraints := map (\<lambda>(priority, c). (priority, c_create_sibling h c)) (constraints s)\<rparr>"

text \<open>The constraints before and after the position of a priority, as \<^verbatim>\<open>std::map\<close> finds them.\<close>

definition higher_constraints :: "int \<Rightarrow> (int \<times> constraint) list \<Rightarrow> (int \<times> constraint) list" where
  "higher_constraints priority cs = takeWhile (\<lambda>e. fst e < priority) cs"

definition from_lower_bound :: "int \<Rightarrow> (int \<times> constraint) list \<Rightarrow> (int \<times> constraint) list" where
  "from_lower_bound priority cs = dropWhile (\<lambda>e. fst e < priority) cs"

definition from_upper_bound :: "int \<Rightarrow> (int \<times> constraint) list \<Rightarrow> (int \<times> constraint) list" where
  "from_upper_bound priority cs = dropWhile (\<lambda>e. fst e \<le> priority) cs"

fun append_all :: "(int \<times> constraint) list \<Rightarrow> op_stream \<Rightarrow> op_stream" where
  "append_all [] ops = ops"
| "append_all ((k, c) # cs) ops = append_all cs (append_to c ops)"

text \<open>
  The loop that removes the points blocked by a new constraint from the constraints below it.
  The body of the loop uses \<^verbatim>\<open>lower_it\<close>, which stays on the first of them, instead of the
  loop variable \<^verbatim>\<open>it\<close>.
\<close>

fun filter_remove_times :: "nat \<Rightarrow> op_stream \<Rightarrow> constraint \<Rightarrow> constraint \<times> op_stream" where
  "filter_remove_times 0 filtered_ops c = (c, filtered_ops)"
| "filter_remove_times (Suc n) filtered_ops c =
     (let (c', out) = filter_remove filtered_ops c in filter_remove_times n out c')"

fun remove_from_lower :: "op_stream \<Rightarrow> (int \<times> constraint) list \<Rightarrow> (int \<times> constraint) list \<times> op_stream" where
  "remove_from_lower filtered_ops [] = ([], filtered_ops)"
| "remove_from_lower filtered_ops ((k, c) # cs) =
     (let (c', out) = filter_remove_times (Suc (length cs)) filtered_ops c in ((k, c') # cs, out))"

definition new_constraint ::
    "OperatingPointSegments \<Rightarrow> nat \<Rightarrow> int \<Rightarrow> goal \<Rightarrow> knowledge_base \<Rightarrow> knowledge_adaptor \<Rightarrow> heap \<Rightarrow> constraint" where
  "new_constraint segment i sig g kb ka h =
     c_set_field_adaptor ka (c_set kb (Constraint segment i sig g h))"

definition st_add_constraint ::
    "OperatingPointSegments \<Rightarrow> nat \<Rightarrow> int \<Rightarrow> goal \<Rightarrow> int \<Rightarrow> knowledge_base \<Rightarrow> knowledge_adaptor \<Rightarrow> heap
     \<Rightarrow> state \<Rightarrow> state" where
  "st_add_constraint segment i sig g priority kb ka h s =
     (let available_ops = append_all (from_lower_bound priority (constraints s)) (rank_to_stream (st_rank s));
          (c, filtered_ops) = filter_initialize available_ops (new_constraint segment i sig g kb ka h);
          higher = higher_constraints priority (constraints s);
          lower = from_upper_bound priority (constraints s)
      in if filtered_ops = [] then s\<lparr>constraints := higher @ (priority, c) # lower\<rparr>
         else let (lower', out) = remove_from_lower filtered_ops lower
              in s\<lparr>constraints := higher @ (priority, c) # lower', problem_is_changed := True,
                   st_rank := rank_remove out (st_rank s)\<rparr>)"

definition st_remove_constraint :: "int \<Rightarrow> state \<Rightarrow> state" where
  "st_remove_constraint priority s =
     (case map_of (constraints s) priority of
        None \<Rightarrow> s
      | Some c \<Rightarrow>
          let available_ops = c_to_stream c;
              higher = higher_constraints priority (constraints s);
              lower = from_upper_bound priority (constraints s)
          in if available_ops = [] then s\<lparr>constraints := higher @ lower\<rparr>
             else let (lower', out) = cascade filter_add available_ops lower
                  in s\<lparr>constraints := higher @ lower', st_rank := rank_add out (st_rank s),
                       problem_is_changed := True\<rparr>)"

definition st_set_rank :: "RankObjective \<Rightarrow> FieldComposer \<Rightarrow> op_field \<Rightarrow> op_field list \<Rightarrow> state \<Rightarrow> state" where
  "st_set_rank obj composer f fs s =
     (let valid_ops = rank_to_stream (st_rank s); r = Rank obj composer f fs
      in if valid_ops = [] then s\<lparr>st_rank := r\<rparr>
         else s\<lparr>st_rank := rank_add valid_ops r, problem_is_changed := True\<rparr>)"

fun c_add_all :: "op_stream \<Rightarrow> constraint \<Rightarrow> constraint" where
  "c_add_all [] c = c"
| "c_add_all (op # ops) c = c_add_all ops (c_add op c)"

fun c_remove_all :: "op_stream \<Rightarrow> constraint \<Rightarrow> constraint" where
  "c_remove_all [] c = c"
| "c_remove_all (op # ops) c = c_remove_all ops (c_remove op c)"

definition st_add_operating_points :: "op_stream \<Rightarrow> state \<Rightarrow> state" where
  "st_add_operating_points new_ops s =
     (let viewed = map (apsnd (c_add_all new_ops)) (constraints s);
          (cs, new_ops_shrinkable) = cascade filter_add new_ops viewed
      in s\<lparr>constraints := cs, st_rank := rank_add new_ops_shrinkable (st_rank s), problem_is_changed := True\<rparr>)"

definition st_remove_operating_points :: "op_stream \<Rightarrow> state \<Rightarrow> state" where
  "st_remove_operating_points ops s =
     s\<lparr>constraints := map (apsnd (c_remove_all ops)) (constraints s),
       st_rank := rank_remove ops (st_rank s), problem_is_changed := True\<rparr>"

definition st_set_knowledge_base :: "knowledge_base \<Rightarrow> state \<Rightarrow> state" where
  "st_set_knowledge_base kb s =
     (let cleared = map (apsnd (\<lambda>c. c_clear (c_set kb c))) (constraints s);
          (cs, available_ops) = cascade filter_add (kb_to_stream kb) cleared
      in s\<lparr>constraints := cs, st_rank := rank_add available_ops (rank_clear (st_rank s)),
           problem_is_changed := True\<rparr>)"

definition st_set_knowledge_adaptor :: "knowledge_adaptor \<Rightarrow> state \<Rightarrow> state" where
  "st_set_knowledge_adaptor ka s =
     s\<lparr>constraints := map (apsnd (c_set_field_adaptor ka)) (constraints s), problem_is_changed := True\<rparr>"

text \<open>
  The update of the stack. The loop visits the constraints from the most important one,
  \<open>higher\<close> are those already visited.
\<close>

lemma length_cascade: "cascade f ops cs = (cs', out) \<Longrightarrow> length cs' = length cs"
  by (induction cs arbitrary: ops cs') (auto split: prod.splits)

lemmas length_cascade_sym = length_cascade [OF sym]

function update_loop ::
    "heap \<Rightarrow> (int \<times> constraint) list \<Rightarrow> (int \<times> constraint) list \<Rightarrow> rank \<Rightarrow> bool
     \<Rightarrow> ((int \<times> constraint) list \<times> rank \<times> bool) result" where
  "update_loop h higher [] r changed = Inr (higher, r, changed)"
| "update_loop h higher ((k, c) # lower) r changed =
     (let (c1, invalidated, validated) = c_update h c;
          removed = prune remove_blocked_ops_from invalidated higher
      in bind_result
           (if removed = [] then Inr (c1, lower, r, changed)
            else let (c2, remainder_ops) = filter_add removed c1;
                     (lower1, out) = cascade filter_remove removed lower
                 in guard_assert (remainder_ops = []) ''Error: on the update something went wrong, internal error''
                      (Inr (c2, lower1, rank_remove out r, True)))
           (\<lambda>(c2, lower1, r1, changed1).
              if validated = [] then update_loop h (higher @ [(k, c2)]) lower1 r1 changed1
              else let (lower2, out) = cascade filter_add validated lower1
                   in update_loop h (higher @ [(k, c2)]) lower2 (rank_add out r1) True))"

  by pat_completeness auto
termination
  by (relation "measure (\<lambda>(h, higher, lower, r, changed). length lower)")
     (auto simp: guard_assert_def dest!: length_cascade length_cascade_sym split: if_splits prod.splits)

definition st_update :: "heap \<Rightarrow> state \<Rightarrow> state result" where
  "st_update h s =
     bind_result (update_loop h [] (constraints s) (st_rank s) (problem_is_changed s))
       (\<lambda>(cs, r, changed). Inr (s\<lparr>constraints := cs, st_rank := r, problem_is_changed := changed\<rparr>))"

text \<open>The selection among the invalid points that are closest to a constraint.\<close>

fun narrow_down :: "op_stream \<Rightarrow> (int \<times> constraint) list \<Rightarrow> rank \<Rightarrow> op_ptr result" where
  "narrow_down input_ops [] r = rank_best_of input_ops r"
| "narrow_down input_ops ((k, c) # lower) r =
     (case narrow input_ops c of
        [op] \<Rightarrow> Inr op
      | ops \<Rightarrow> narrow_down ops lower r)"

definition get_best_from_stream :: "op_stream \<Rightarrow> (int \<times> constraint) list \<Rightarrow> rank \<Rightarrow> op_ptr result" where
  "get_best_from_stream input_ops lower r =
     (case input_ops of [op] \<Rightarrow> Inr op | ops \<Rightarrow> narrow_down ops lower r)"

text \<open>The relaxation of the constraints, from the least important: \<open>upper\<close> is in reverse order.\<close>

fun relax_loop :: "(int \<times> constraint) list \<Rightarrow> (int \<times> constraint) list \<Rightarrow> rank \<Rightarrow> op_ptr option result" where
  "relax_loop [] lower r = Inr None"
| "relax_loop ((k, c) # upper) lower r =
     (case get_closest c of
        [] \<Rightarrow> relax_loop upper ((k, c) # lower) r
      | op # ops \<Rightarrow> bind_result (get_best_from_stream (op # ops) lower r) (\<lambda>p. Inr (Some p)))"

definition st_get_best_operating_point :: "heap \<Rightarrow> state \<Rightarrow> (op_ptr option \<times> state) result" where
  "st_get_best_operating_point h s0 =
     bind_result (st_update h s0)
       (\<lambda>s. if \<not> problem_is_changed s then Inr (best_operating_point_found s, s)
            else case rank_best (st_rank s) of
                   Some best_op \<Rightarrow>
                     Inr (Some best_op, s\<lparr>problem_is_changed := False, best_operating_point_found := Some best_op\<rparr>)
                 | None \<Rightarrow>
                     bind_result (relax_loop (rev (constraints s)) [] (st_rank s))
                       (\<lambda>found. Inr (found, s\<lparr>problem_is_changed := False, best_operating_point_found := found\<rparr>)))"

section \<open>Invariant\<close>

abbreviation blocked_set :: "constraint \<Rightarrow> op_ptr set" where
  "blocked_set c \<equiv> set (blocked_ops c)"

abbreviation stack_wf :: "op_ptr set \<Rightarrow> (int \<times> constraint) list \<Rightarrow> bool" where
  "stack_wf K cs \<equiv> \<forall>e \<in> set cs. c_wf K (snd e)"

definition stack_inv :: "op_ptr set \<Rightarrow> (int \<times> constraint) list \<Rightarrow> rank \<Rightarrow> bool" where
  "stack_inv K cs r \<longleftrightarrow>
     sorted_wrt (<) (map fst cs) \<and> stack_wf K cs
     \<and> stack_ok c_check blocked_set K cs (set (rank_to_stream r)) \<and> rank_wf r"

definition state_inv :: "op_ptr set \<Rightarrow> state \<Rightarrow> bool" where
  "state_inv K s \<longleftrightarrow> stack_inv K (constraints s) (st_rank s)"

text \<open>
  The cached solution is a point of the knowledge, a best valid one when there is a valid one.
\<close>

definition cache_inv :: "op_ptr set \<Rightarrow> state \<Rightarrow> bool" where
  "cache_inv K s \<longleftrightarrow>
     (\<not> problem_is_changed s \<longrightarrow>
        (case best_operating_point_found s of None \<Rightarrow> K = {} | Some p \<Rightarrow> p \<in> K)
        \<and> (rank_to_stream (st_rank s) \<noteq> [] \<longrightarrow>
             (\<exists>p. best_operating_point_found s = Some p \<and> p \<in> set (rank_to_stream (st_rank s))
                  \<and> (\<forall>q \<in> set (rank_to_stream (st_rank s)). rank_leq (st_rank s) p q))))"

lemma cache_inv_changed [simp]: "problem_is_changed s \<Longrightarrow> cache_inv K s"
  by (simp add: cache_inv_def)

lemma cache_inv_frame:
  "cache_inv K s \<Longrightarrow> st_rank t = st_rank s \<Longrightarrow> problem_is_changed t = problem_is_changed s
   \<Longrightarrow> best_operating_point_found t = best_operating_point_found s \<Longrightarrow> cache_inv K t"
  by (simp add: cache_inv_def)

lemma map_apsnd_fst: "map (apsnd f) xs = map (apsnd g) ys \<Longrightarrow> map fst xs = map fst ys"
  by (metis fst_comp_apsnd list.map_comp)

lemma stack_invD:
  assumes "stack_inv K cs r"
  shows "sorted_wrt (<) (map fst cs)" "stack_wf K cs" "stack_ok c_check blocked_set K cs (set (rank_to_stream r))"
    "rank_wf r" "set (rank_to_stream r) = survivors c_check K cs"
  using assms stack_ok_rest [of c_check blocked_set K cs "set (rank_to_stream r)"] unfolding stack_inv_def by blast+

subsection \<open>Update\<close>

text \<open>The points of the knowledge that reach the goals of all constraints, with the current values.\<close>

definition satisfies :: "heap \<Rightarrow> constraint \<Rightarrow> op_ptr \<Rightarrow> bool" where
  "satisfies h c p \<longleftrightarrow> goal_check2 (target_goal c) (c_value c p) (final_goal h c)"

text \<open>The constraint with its goal value and coefficient read again, and nothing blocked.\<close>

definition refreshed :: "heap \<Rightarrow> constraint \<Rightarrow> constraint" where
  "refreshed h c = c_clear (c\<lparr>last_check_value := final_goal h c\<rparr>)"

lemma refreshed_update: "c_update h c = (c', i, v) \<Longrightarrow> c_clear c' = refreshed h c"
  using c_update_frame [of h c c' i v]
  by (cases c; cases c') (simp add: refreshed_def c_clear_def)

lemma refreshed_clear [simp]: "refreshed h (c_clear c) = refreshed h c"
  by (simp add: refreshed_def c_clear_def final_goal_def error_coef_def)

lemma refreshed_frame: "c_clear c = c_clear d \<Longrightarrow> refreshed h c = refreshed h d"
  by (metis refreshed_clear)

lemma c_check_refreshed: "c_check (refreshed h c) = satisfies h c"
  by (simp add: refreshed_def c_clear_def c_check_def satisfies_def fun_eq_iff c_value_def)

lemma filters_Nil [simp]: "filter_add [] c = (c, [])" "filter_remove [] c = (c, [])"
  by simp_all

lemma cascade_Nil [simp]: "cascade filter_add [] cs = (cs, [])" "cascade filter_remove [] cs = (cs, [])"
  by (simp_all add: cascade_empty)

text \<open>The body of the update loop without its case distinctions.\<close>

lemma update_loop_step:
  assumes "c_update h c = (c1, invalidated, validated)" and "removed = prune remove_blocked_ops_from invalidated higher"
    and "filter_add removed c1 = (c2, [])" and "cascade filter_remove removed lower = (lower1, out1)"
    and "cascade filter_add validated lower1 = (lower2, out2)"
  shows "update_loop h higher ((k, c) # lower) r changed =
    update_loop h (higher @ [(k, c2)]) lower2 (rank_add out2 (rank_remove out1 r))
      (changed \<or> removed \<noteq> [] \<or> validated \<noteq> [])"
proof (cases "removed = []")
  case True
  then show ?thesis using assms by (cases "validated = []") (auto simp: Let_def)
next
  case False
  then show ?thesis using assms by (cases "validated = []") (auto simp: Let_def)
qed

lemma update_step_inv:
  assumes inv: "stack_inv K (higher @ (k, c) # lower) r"
  shows "\<exists>c2 lower2 r2 changed2. (\<forall>changed. update_loop h higher ((k, c) # lower) r changed
        = update_loop h (higher @ [(k, c2)]) lower2 r2 (changed \<or> changed2))
    \<and> stack_inv K ((higher @ [(k, c2)]) @ lower2) r2 \<and> c_clear c2 = refreshed h c
    \<and> map (apsnd c_clear) lower2 = map (apsnd c_clear) lower \<and> rank_leq r2 = rank_leq r
    \<and> (\<not> changed2 \<longrightarrow> r2 = r)"
proof -
  note I = stack_invD [OF inv]
  let ?R = "set (rank_to_stream r)"
  obtain c1 invalidated validated where upd: "c_update h c = (c1, invalidated, validated)" by (metis prod_cases3)
  define removed where rem: "removed = prune remove_blocked_ops_from invalidated higher"
  obtain c2 remainder where blk: "filter_add removed c1 = (c2, remainder)" by force
  have wf: "c_wf K c" "stack_wf K lower" using I(2) by auto
  let ?A = "survivors c_check K (higher @ [(k, c)])" and ?A2 = "survivors c_check K (higher @ [(k, c2)])"
  have step: "remainder = []" "c_clear c2 = c_clear c1" "c_wf K c2" "distinct removed" "distinct validated"
    "stack_ok c_check blocked_set K (higher @ [(k, c2)]) ?A2" "?A - set removed \<union> set validated = ?A2"
    "set validated \<inter> ?A = {}" "stack_ok c_check blocked_set ?A lower ?R"
    using uc.update_step [OF I(3) wf(1) upd rem blk] by blast+
  obtain lower1 out1 where l1: "cascade filter_remove removed lower = (lower1, out1)" by force
  note rm = ch.cascade_remove [OF l1 wf(2) step(9,4)]
  obtain lower2 out2 where l2: "cascade filter_add validated lower1 = (lower2, out2)" by force
  note ad = ch.cascade_add [OF l2 conjunct1 [OF rm], of "?A - set removed" "?R - set out1"]
  let ?r2 = "rank_add out2 (rank_remove out1 r)" and ?ch2 = "removed \<noteq> [] \<or> validated \<noteq> []"
  have clear: "map (apsnd c_clear) lower2 = map (apsnd c_clear) lower" using rm ad by simp
  have rank: "rank_wf (rank_remove out1 r)" "set (rank_to_stream (rank_remove out1 r)) = ?R - set out1"
    using I(4) by (simp_all add: rank_wf_remove)
  have out2: "distinct out2" "set out2 \<subseteq> set validated" using ad rm step(5) by auto
  have "?R \<subseteq> ?A"
    by (subst stack_ok_rest [OF step(9)]) (rule survivors_subset)
  then have "set out2 \<inter> set (rank_to_stream (rank_remove out1 r)) = {}" using out2(2) step(8) rank(2) by blast
  then have r2: "rank_wf ?r2" "set (rank_to_stream ?r2) = ?R - set out1 \<union> set out2"
    using rk.invar_add [OF rank(1) out2(1)] rank(2) by (auto simp: rk.set_add)
  have "stack_ok c_check blocked_set ?A2 lower2 (?R - set out1 \<union> set out2)"
    unfolding step(7) [symmetric] using ad rm by blast
  then have ok: "stack_ok c_check blocked_set K ((higher @ [(k, c2)]) @ lower2) (set (rank_to_stream ?r2))"
    unfolding stack_ok_append [of _ _ _ "higher @ [(k, c2)]" lower2] r2(2) using step(6) by blast
  have "map fst lower2 = map fst lower" using map_apsnd_fst [OF clear] .
  then have "stack_inv K ((higher @ [(k, c2)]) @ lower2) ?r2"
    using I(1,2) step(3) r2(1) ok ad rm unfolding stack_inv_def by auto
  moreover have "\<forall>changed. update_loop h higher ((k, c) # lower) r changed
      = update_loop h (higher @ [(k, c2)]) lower2 ?r2 (changed \<or> ?ch2)"
    using update_loop_step [OF upd rem _ l1 l2] blk step(1) by simp
  moreover have "\<not> ?ch2 \<longrightarrow> ?r2 = r" using l1 l2 by auto
  moreover have "c_clear c2 = refreshed h c" using refreshed_update [OF upd] step(2) by simp
  moreover have "rank_leq ?r2 = rank_leq r" by simp
  ultimately show ?thesis using clear by blast
qed

lemma update_loop_inv:
  assumes "stack_inv K (higher @ lower) r"
  shows "\<exists>cs' r' changed'. update_loop h higher lower r changed = Inr (cs', r', changed') \<and> stack_inv K cs' r'
    \<and> map (apsnd c_clear) cs' = map (apsnd c_clear) higher @ map (apsnd (refreshed h)) lower
    \<and> rank_leq r' = rank_leq r \<and> (\<not> changed' \<longrightarrow> r' = r \<and> \<not> changed)"
  using assms
proof (induction lower arbitrary: higher r changed rule: measure_induct_rule [where f = length])
  case (less lower)
  show ?case
  proof (cases lower)
    case Nil
    then show ?thesis using less.prems by simp
  next
    case (Cons e rest)
    obtain k c where e: "e = (k, c)" by force
    obtain c2 lower2 r2 changed2 where step:
      "update_loop h higher ((k, c) # rest) r changed = update_loop h (higher @ [(k, c2)]) lower2 r2 (changed \<or> changed2)"
      "stack_inv K ((higher @ [(k, c2)]) @ lower2) r2" "c_clear c2 = refreshed h c"
      "map (apsnd c_clear) lower2 = map (apsnd c_clear) rest" "rank_leq r2 = rank_leq r" "\<not> changed2 \<longrightarrow> r2 = r"
      using update_step_inv [of K higher k c rest r h] less.prems Cons e by blast
    have len: "length lower2 < length lower" using step(4) Cons by (metis length_map length_Cons lessI)
    have "map (apsnd (refreshed h)) lower2 = map (apsnd (refreshed h)) rest"
    proof -
      have "map (apsnd (refreshed h)) xs = map (apsnd (refreshed h)) (map (apsnd c_clear) xs)"
        for xs :: "(int \<times> constraint) list" by auto
      then show ?thesis using step(4) by metis
    qed
    then show ?thesis
      using less.IH [OF len step(2), of "changed \<or> changed2"] step(1,3,5,6) by (auto simp: Cons e)
  qed
qed

abbreviation feasible :: "heap \<Rightarrow> op_ptr set \<Rightarrow> (int \<times> constraint) list \<Rightarrow> op_ptr set" where
  "feasible h K cs \<equiv> survivors (satisfies h) K cs"

lemma survivors_map: "survivors P A (map (apsnd g) cs) = survivors (\<lambda>c. P (g c)) A cs"
  by (auto simp: survivors_def)

lemma c_check_clear [simp]: "c_check (c_clear c) = c_check c"
  by (simp add: c_clear_def c_check_def c_value_def fun_eq_iff)

lemma satisfies_clear [simp]: "satisfies h (c_clear c) = satisfies h c"
  by (simp add: c_check_refreshed [symmetric])

lemma satisfies_refreshed [simp]: "satisfies h (refreshed h c) = satisfies h c"
  by (simp add: satisfies_def refreshed_def c_clear_def c_value_def final_goal_def error_coef_def fun_eq_iff)

lemma survivors_refreshed:
  assumes "map (apsnd c_clear) cs' = map (apsnd (refreshed h)) cs"
  shows "survivors c_check K cs' = feasible h K cs" "feasible h K cs' = feasible h K cs"
proof -
  have "survivors P K (map (apsnd c_clear) cs') = survivors P K (map (apsnd (refreshed h)) cs)" for P
    using assms by simp
  from this [of c_check] this [of "satisfies h"]
  show "survivors c_check K cs' = feasible h K cs" "feasible h K cs' = feasible h K cs"
    by (simp_all add: survivors_map c_check_refreshed)
qed

text \<open>The update never fails, keeps the invariants and leaves the feasible points in the rank.\<close>

lemma st_update_inv:
  assumes inv: "state_inv K s"
  shows "\<exists>s'. st_update h s = Inr s' \<and> state_inv K s'
    \<and> map (apsnd c_clear) (constraints s') = map (apsnd (refreshed h)) (constraints s)
    \<and> set (rank_to_stream (st_rank s')) = feasible h K (constraints s)
    \<and> rank_leq (st_rank s') = rank_leq (st_rank s) \<and> (cache_inv K s \<longrightarrow> cache_inv K s')
    \<and> (problem_is_changed s \<longrightarrow> problem_is_changed s')"
proof -
  obtain cs r changed where u: "update_loop h [] (constraints s) (st_rank s) (problem_is_changed s) = Inr (cs, r, changed)"
    "stack_inv K cs r" "map (apsnd c_clear) cs = map (apsnd (refreshed h)) (constraints s)" "rank_leq r = rank_leq (st_rank s)"
    "\<not> changed \<longrightarrow> r = st_rank s \<and> \<not> problem_is_changed s"
    using update_loop_inv [of K "[]" "constraints s" "st_rank s" h "problem_is_changed s"] inv
    by (auto simp: state_inv_def)
  let ?s = "s\<lparr>constraints := cs, st_rank := r, problem_is_changed := changed\<rparr>"
  have "st_update h s = Inr ?s" using u(1) by (simp add: st_update_def)
  moreover have "cache_inv K s \<longrightarrow> cache_inv K ?s"
    using u(5) by (cases changed) (auto intro: cache_inv_frame)
  ultimately show ?thesis
    using u stack_invD(5) [OF u(2)] survivors_refreshed(1) [OF u(3)] by (intro exI [of _ ?s]) (auto simp: state_inv_def)
qed

subsection \<open>Relaxation\<close>

lemma narrow_single [simp]: "narrow [p] c = [p]"
  using narrow_nonempty [of "[p]" c] by (simp add: narrow_def)

lemma prune_single: "(\<And>c. f [p] c = [p]) \<Longrightarrow> prune f [p] cs = [p]"
  by (induction cs) auto

lemma rank_leq_refl [simp]: "rank_leq r p p"
  by (simp add: rank_leq_def rank_compare_best_minus)

definition best_among :: "rank \<Rightarrow> op_stream \<Rightarrow> op_ptr \<Rightarrow> bool" where
  "best_among r ops p \<longleftrightarrow> p \<in> set ops \<and> (\<forall>q \<in> set ops. rank_leq r p q)"

lemma narrow_down_spec:
  "ops \<noteq> [] \<Longrightarrow> \<exists>p. narrow_down ops lower r = Inr p \<and> best_among r (prune narrow ops lower) p"
proof (induction ops lower r rule: narrow_down.induct)
  case (1 ops r)
  then show ?case using rank_best_of_optimal [of ops r] by (simp add: best_among_def)
next
  case (2 ops k c lower r)
  have ne: "narrow ops c \<noteq> []" using 2(3) by (rule narrow_nonempty)
  then consider (one) p where "narrow ops c = [p]" | (more) p q ps where "narrow ops c = p # q # ps"
    by (metis list.exhaust)
  then show ?case
  proof cases
    case one
    then show ?thesis using prune_single [of narrow p lower] by (simp add: best_among_def)
  next
    case more
    then show ?thesis using 2(2) by simp
  qed
qed

lemma get_best_from_stream_spec:
  assumes "ops \<noteq> []"
  shows "\<exists>p. get_best_from_stream ops lower r = Inr p \<and> best_among r (prune narrow ops lower) p"
proof -
  consider (one) p where "ops = [p]" | (more) p q ps where "ops = p # q # ps"
    using assms by (metis list.exhaust)
  then show ?thesis
  proof cases
    case one
    then show ?thesis using prune_single [of narrow p lower] by (simp add: best_among_def get_best_from_stream_def)
  next
    case more
    then show ?thesis using narrow_down_spec [OF assms] by (simp add: get_best_from_stream_def)
  qed
qed

lemma relax_loop_spec:
  assumes "\<forall>e \<in> set lower. blocked_ops (snd e) = []"
  shows "(relax_loop (rev cs) lower r = Inr None \<and> (\<forall>e \<in> set cs. blocked_ops (snd e) = []))
    \<or> (\<exists>p pre k c post. relax_loop (rev cs) lower r = Inr (Some p) \<and> cs = pre @ (k, c) # post \<and> blocked_ops c \<noteq> []
         \<and> (\<forall>e \<in> set post. blocked_ops (snd e) = []) \<and> best_among r (prune narrow (get_closest c) (post @ lower)) p)"
  using assms
proof (induction cs arbitrary: lower rule: rev_induct)
  case (snoc e cs)
  obtain k c where e: "e = (k, c)" by force
  show ?case
  proof (cases "get_closest c")
    case Nil
    then have "blocked_ops c = []" using get_closest_eq closest_in_nonempty by metis
    then have "\<forall>e \<in> set ((k, c) # lower). blocked_ops (snd e) = []" using snoc.prems by simp
    note IH = snoc.IH [OF this]
    have rel: "relax_loop (rev (cs @ [e])) lower r = relax_loop (rev cs) ((k, c) # lower) r"
      using Nil by (simp add: e)
    from IH show ?thesis
    proof (elim disjE exE conjE)
      fix p pre j d post
      assume some: "relax_loop (rev cs) ((k, c) # lower) r = Inr (Some p)" "cs = pre @ (j, d) # post" "blocked_ops d \<noteq> []"
        "\<forall>e \<in> set post. blocked_ops (snd e) = []"
        "best_among r (prune narrow (get_closest d) (post @ (k, c) # lower)) p"
      have "cs @ [e] = pre @ (j, d) # (post @ [e])" "\<forall>e \<in> set (post @ [e]). blocked_ops (snd e) = []"
        "best_among r (prune narrow (get_closest d) ((post @ [e]) @ lower)) p"
        using some \<open>blocked_ops c = []\<close> by (auto simp: e)
      then show ?thesis using some(1,3) unfolding rel by blast
    qed (use rel e \<open>blocked_ops c = []\<close> in simp)
  next
    case (Cons op ops)
    then have "blocked_ops c \<noteq> []" by (auto simp: get_closest_def)
    moreover obtain p where p: "get_best_from_stream (get_closest c) lower r = Inr p"
      "best_among r (prune narrow (get_closest c) lower) p"
      using get_best_from_stream_spec [of "get_closest c" lower r] Cons by auto
    then have "relax_loop (rev (cs @ [e])) lower r = Inr (Some p)" using Cons by (simp add: e)
    moreover have "cs @ [e] = cs @ (k, c) # []" by (simp add: e)
    moreover have "best_among r (prune narrow (get_closest c) ([] @ lower)) p" using p(2) by simp
    moreover have "\<forall>e \<in> set ([] :: (int \<times> constraint) list). blocked_ops (snd e) = []" by simp
    ultimately show ?thesis by blast
  qed
qed simp

lemma prune_narrow_subset: "set (prune narrow ops cs) \<subseteq> set ops"
proof (induction cs arbitrary: ops)
  case (Cons e cs)
  then show ?case using narrow_subset [of ops "snd e"] by (cases e) fastforce
qed simp

lemma prune_narrow_eq: "prune narrow ops cs = prune narrow_spec ops cs"
  by (induction cs arbitrary: ops) (auto simp: narrow_eq)

text \<open>
  The points with which an infeasible problem is solved: \<open>c\<close> is the first constraint that the
  points satisfying all the more important ones cannot meet; of these points it takes the
  closest to \<open>c\<close>, narrowed by the less important constraints in turn.
\<close>

definition relaxed_choice :: "heap \<Rightarrow> op_ptr set \<Rightarrow> (int \<times> constraint) list \<Rightarrow> rank \<Rightarrow> op_ptr \<Rightarrow> bool" where
  "relaxed_choice h K cs r p \<longleftrightarrow>
     (\<exists>pre k c post. cs = pre @ (k, c) # post
        \<and> feasible h K pre = set (blocked_ops c) \<and> blocked_ops c \<noteq> [] \<and> feasible h K (pre @ [(k, c)]) = {}
        \<and> best_among r (prune narrow_spec (closest_in c (blocked_ops c)) post) p)"

lemma relaxed_choice_known:
  assumes "relaxed_choice h K cs r p"
  shows "p \<in> K"
proof -
  obtain pre k c post where "cs = pre @ (k, c) # post" and r: "feasible h K pre = set (blocked_ops c)"
    "best_among r (prune narrow_spec (closest_in c (blocked_ops c)) post) p"
    using assms unfolding relaxed_choice_def by blast
  have "p \<in> set (closest_in c (blocked_ops c))"
    using r(2) prune_narrow_subset [of "closest_in c (blocked_ops c)" post] by (auto simp: best_among_def prune_narrow_eq)
  then have "p \<in> feasible h K pre" unfolding r(1) by (rule subsetD [OF closest_in_subset])
  then show ?thesis by (rule subsetD [OF survivors_subset])
qed

lemma relaxed_solution:
  assumes inv: "stack_inv K cs r" and none: "rank_to_stream r = []"
    and frame: "map (apsnd c_clear) cs = map (apsnd (refreshed h)) cs"
  shows "if K = {} then relax_loop (rev cs) [] r = Inr None
    else \<exists>p. relax_loop (rev cs) [] r = Inr (Some p) \<and> relaxed_choice h K cs r p"
proof -
  note I = stack_invD [OF inv]
  have empty: "stack_ok c_check blocked_set K cs {}" using I(3) none by simp
  have cover: "K = \<Union> (blocked_set ` set (map snd cs))" using stack_ok_cover [OF empty] by simp
  have check: "c_check d = satisfies h d" if "(j, d) \<in> set cs" for j d
  proof -
    have "\<forall>e \<in> set cs. apsnd c_clear e = apsnd (refreshed h) e" using frame by (simp only: map_eq_conv)
    from bspec [OF this that] have "c_clear d = refreshed h d" by simp
    then have "c_check (c_clear d) = c_check (refreshed h d)" by (rule arg_cong)
    then show ?thesis by (simp only: c_check_clear c_check_refreshed)
  qed
  have surv: "survivors c_check K xs = feasible h K xs" if "set xs \<subseteq> set cs" for xs
    using check that by (fastforce simp: survivors_def)
  consider (none) "relax_loop (rev cs) [] r = Inr None" "\<forall>e \<in> set cs. blocked_ops (snd e) = []"
    | (some) p pre k c post where "relax_loop (rev cs) [] r = Inr (Some p)" "cs = pre @ (k, c) # post" "blocked_ops c \<noteq> []"
      "\<forall>e \<in> set post. blocked_ops (snd e) = []" "best_among r (prune narrow (get_closest c) post) p"
    using relax_loop_spec [of "[]" cs r] by force
  then show ?thesis
  proof cases
    case none
    then have "K = {}" using cover by auto
    then show ?thesis using none by simp
  next
    case some
    let ?A = "survivors c_check K pre"
    have blk: "blocked_set c = {p \<in> ?A. \<not> c_check c p}" "stack_ok c_check blocked_set {p \<in> ?A. c_check c p} post {}"
      using empty by (simp_all add: some(2) stack_ok_append)
    have "{p \<in> ?A. c_check c p} = {}" using stack_ok_cover [OF blk(2)] some(4) by auto
    then have "?A = blocked_set c" "survivors c_check K (pre @ [(k, c)]) = {}"
      using blk(1) by (auto simp: survivors_def)
    then have "relaxed_choice h K cs r p"
      using surv [of pre] surv [of "pre @ [(k, c)]"] some(2,3,5)
      unfolding relaxed_choice_def get_closest_eq prune_narrow_eq by fastforce
    moreover have "K \<noteq> {}" using some(3) blk(1) survivors_subset [of c_check K pre] by auto
    ultimately show ?thesis using some(1) by simp
  qed
qed

lemma refreshed_idem:
  assumes "map (apsnd c_clear) cs' = map (apsnd (refreshed h)) cs"
  shows "map (apsnd c_clear) cs' = map (apsnd (refreshed h)) cs'"
proof -
  have idem: "refreshed h (refreshed h c) = refreshed h c" for c
    by (simp add: refreshed_def c_clear_def final_goal_def error_coef_def)
  have "map (apsnd (refreshed h)) cs' = map (apsnd (refreshed h)) (map (apsnd c_clear) cs')" by (auto simp: apsnd_def)
  also have "\<dots> = map (apsnd c_clear) cs'" unfolding assms by (auto simp: idem apsnd_def)
  finally show ?thesis by simp
qed

text \<open>One call of the solver: what it returns and the state it leaves.\<close>

lemma get_best_cases:
  assumes inv: "state_inv K s" and cache: "cache_inv K s"
  shows "\<exists>found s'. st_get_best_operating_point h s = Inr (found, s')
    \<and> state_inv K s' \<and> cache_inv K s' \<and> \<not> problem_is_changed s' \<and> best_operating_point_found s' = found
    \<and> map (apsnd c_clear) (constraints s') = map (apsnd (refreshed h)) (constraints s)
    \<and> rank_leq (st_rank s') = rank_leq (st_rank s)
    \<and> (case found of None \<Rightarrow> K = {} | Some p \<Rightarrow> p \<in> K)
    \<and> (feasible h K (constraints s) \<noteq> {} \<longrightarrow>
         (\<exists>p. found = Some p \<and> p \<in> feasible h K (constraints s)
            \<and> (\<forall>q \<in> feasible h K (constraints s). rank_leq (st_rank s) p q)))
    \<and> (problem_is_changed s \<and> feasible h K (constraints s) = {} \<longrightarrow>
         (if K = {} then found = None else \<exists>p. found = Some p \<and> relaxed_choice h K (constraints s') (st_rank s) p))"
proof -
  obtain t where t: "st_update h s = Inr t" "state_inv K t"
    "map (apsnd c_clear) (constraints t) = map (apsnd (refreshed h)) (constraints s)"
    "set (rank_to_stream (st_rank t)) = feasible h K (constraints s)"
    "rank_leq (st_rank t) = rank_leq (st_rank s)" "cache_inv K t" "problem_is_changed s \<longrightarrow> problem_is_changed t"
    using st_update_inv [OF inv, of h] cache by blast
  note I = stack_invD [OF t(2) [unfolded state_inv_def]]
  consider (cached) "\<not> problem_is_changed t"
    | (valid) p where "problem_is_changed t" "rank_best (st_rank t) = Some p"
    | (relax) "problem_is_changed t" "rank_best (st_rank t) = None" by fastforce
  then show ?thesis
  proof cases
    case cached
    then have "st_get_best_operating_point h s = Inr (best_operating_point_found t, t)"
      using t(1) by (simp add: st_get_best_operating_point_def)
    moreover have "\<exists>p. best_operating_point_found t = Some p \<and> p \<in> feasible h K (constraints s)
        \<and> (\<forall>q \<in> feasible h K (constraints s). rank_leq (st_rank s) p q)" if "feasible h K (constraints s) \<noteq> {}"
      using t(4-6) cached that by (auto simp: cache_inv_def)
    moreover have "case best_operating_point_found t of None \<Rightarrow> K = {} | Some p \<Rightarrow> p \<in> K"
      using t(6) cached by (simp add: cache_inv_def)
    ultimately show ?thesis using t cached by blast
  next
    case valid
    let ?s = "t\<lparr>problem_is_changed := False, best_operating_point_found := Some p\<rparr>"
    have "st_get_best_operating_point h s = Inr (Some p, ?s)"
      using t(1) valid by (simp add: st_get_best_operating_point_def)
    moreover have p: "p \<in> feasible h K (constraints s)" "\<forall>q \<in> feasible h K (constraints s). rank_leq (st_rank s) p q"
      using rk.best_Some [OF I(4) valid(2)] t(4,5) by auto
    moreover have K: "p \<in> K" by (rule subsetD [OF survivors_subset p(1)])
    moreover have "state_inv K ?s" "cache_inv K ?s" using t p K by (simp_all add: state_inv_def cache_inv_def)
    ultimately show ?thesis using t(3,5) by (intro exI [of _ "Some p"] exI [of _ ?s]) auto
  next
    case relax
    have empty: "rank_to_stream (st_rank t) = []" using rk.best_None [OF I(4)] relax(2) by simp
    note sol = relaxed_solution [OF t(2) [unfolded state_inv_def] empty refreshed_idem [OF t(3)]]
    obtain found where f: "relax_loop (rev (constraints t)) [] (st_rank t) = Inr found" using sol by (auto split: if_splits)
    let ?s = "t\<lparr>problem_is_changed := False, best_operating_point_found := found\<rparr>"
    have "st_get_best_operating_point h s = Inr (found, ?s)"
      using t(1) relax f by (simp add: st_get_best_operating_point_def)
    moreover have K: "case found of None \<Rightarrow> K = {} | Some p \<Rightarrow> p \<in> K"
      using sol f relaxed_choice_known by (auto split: if_splits option.splits)
    moreover have "state_inv K ?s" "cache_inv K ?s" using t empty K by (simp_all add: state_inv_def cache_inv_def)
    moreover have "relaxed_choice h K cs (st_rank t) p = relaxed_choice h K cs (st_rank s) p" for cs p
      using t(5) by (simp add: relaxed_choice_def best_among_def)
    moreover have "feasible h K (constraints s) = {}" using t(4) empty by simp
    ultimately show ?thesis using t(3,5) sol f by (intro exI [of _ found] exI [of _ ?s]) (auto split: if_splits)
  qed
qed

section \<open>Preservation of the invariant\<close>

lemma state_inv_init: "state_inv {} State_init" "cache_inv {} State_init"
  by (simp_all add: state_inv_def stack_inv_def State_init_def)

lemma c_wf_set_adaptor: "c_wf K c \<Longrightarrow> c_wf K (c_set_field_adaptor ka c)"
  by (simp add: c_wf_def c_set_field_adaptor_def)

lemma stack_ok_map:
  "(\<And>c. P (g c) = P c) \<Longrightarrow> (\<And>c. B (g c) = B c) \<Longrightarrow> stack_ok P B A (map (apsnd g) cs) R = stack_ok P B A cs R"
  by (induction cs arbitrary: A) (auto simp: apsnd_def)

lemma state_inv_set_adaptor: "state_inv K s \<Longrightarrow> state_inv K (st_set_knowledge_adaptor ka s)"
proof -
  assume inv: "state_inv K s"
  have "c_check (c_set_field_adaptor ka c) = c_check c" "blocked_ops (c_set_field_adaptor ka c) = blocked_ops c" for c
    by (simp_all add: c_set_field_adaptor_def c_check_def c_value_def fun_eq_iff)
  then show ?thesis
    using inv by (auto simp: state_inv_def stack_inv_def st_set_knowledge_adaptor_def c_wf_set_adaptor stack_ok_map comp_def)
qed

lemma state_inv_set_rank: "state_inv K s \<Longrightarrow> state_inv K (st_set_rank obj composer f fs s)"
proof -
  assume inv: "state_inv K s"
  let ?ops = "rank_to_stream (st_rank s)" and ?r = "Rank obj composer f fs"
  have "distinct ?ops" using inv rk.distinct_stream by (auto simp: state_inv_def stack_inv_def)
  then have "rank_wf (rank_add ?ops ?r)" "set (rank_to_stream (rank_add ?ops ?r)) = set ?ops"
    using rk.invar_add [OF rank_wf_new(1)] by (auto simp: rk.set_add)
  then show ?thesis using inv by (cases "?ops = []") (simp_all add: state_inv_def stack_inv_def st_set_rank_def Let_def)
qed

lemma cache_inv_set_rank: "cache_inv K s \<Longrightarrow> cache_inv K (st_set_rank obj composer f fs s)"
  by (simp add: st_set_rank_def Let_def cache_inv_def)

subsection \<open>Changes of the application knowledge\<close>

lemma c_add_all_frame: "c_add_all ops c = c\<lparr>knowledge_view := view_add_range ops (knowledge_view c)\<rparr>"
  by (induction ops arbitrary: c) (simp_all add: c_add_def)

lemma c_add_all_props [simp]: "c_check (c_add_all ops c) = c_check c" "blocked_ops (c_add_all ops c) = blocked_ops c"
  by (simp_all add: c_add_all_frame c_check_def c_value_def evaluate_op_def fun_eq_iff)

lemma c_wf_add_all: "c_wf K c \<Longrightarrow> distinct ops \<Longrightarrow> set ops \<inter> K = {} \<Longrightarrow> c_wf (K \<union> set ops) (c_add_all ops c)"
  by (auto simp: c_wf_def c_add_all_frame view_wf_add_range view_simps)

lemma c_remove_all_props:
  "c_wf K c \<Longrightarrow> c_wf (K - set ops) (c_remove_all ops c) \<and> blocked_set (c_remove_all ops c) = blocked_set c - set ops
     \<and> c_check (c_remove_all ops c) = c_check c"
proof (induction ops arbitrary: c K)
  case (Cons op ops)
  have "c_wf (K - {op}) (c_remove op c)" using Cons.prems
    by (simp add: c_wf_def c_remove_def view_wf_remove view_simps)
  moreover have "blocked_set (c_remove op c) = blocked_set c - {op}" "c_check (c_remove op c) = c_check c"
    using Cons.prems by (simp_all add: c_wf_def c_remove_def c_check_def c_value_def evaluate_op_def fun_eq_iff)
  moreover have "K - {op} - set ops = K - set (op # ops)" by auto
  ultimately show ?case using Cons.IH [of "K - {op}" "c_remove op c"] by auto
qed simp

lemma stack_ok_remove_all:
  "stack_wf K cs \<Longrightarrow> stack_ok c_check blocked_set A cs R \<Longrightarrow>
     stack_ok c_check blocked_set (A - set ops) (map (apsnd (c_remove_all ops)) cs) (R - set ops)"
proof (induction cs arbitrary: A)
  case (Cons e cs)
  obtain k c where e: "e = (k, c)" by force
  have "{p \<in> A - set ops. c_check c p} = {p \<in> A. c_check c p} - set ops" by auto
  then show ?case using Cons c_remove_all_props [of K c ops] by (auto simp: e)
qed simp

text \<open>A cascade of new points down the stack and into the rank.\<close>

lemma cascade_add_rank:
  assumes ok: "stack_ok c_check blocked_set A cs (set (rank_to_stream r))" and wf: "stack_wf K cs" "rank_wf r"
    and new: "distinct ops" "set ops \<inter> A = {}"
    and c: "cascade filter_add ops cs = (cs', out)"
  shows "stack_ok c_check blocked_set (A \<union> set ops) cs' (set (rank_to_stream (rank_add out r)))
    \<and> stack_wf K cs' \<and> rank_wf (rank_add out r) \<and> map (apsnd c_clear) cs' = map (apsnd c_clear) cs \<and> map fst cs' = map fst cs"
proof -
  note add = ch.cascade_add [OF c wf(1) ok]
  have "set (rank_to_stream r) \<subseteq> A" by (subst stack_ok_rest [OF ok]) (rule survivors_subset)
  moreover have "set out \<subseteq> set ops" "distinct out" using add new(1) by auto
  ultimately have "rank_wf (rank_add out r)" using rk.invar_add [OF wf(2), of out] new(2) by blast
  moreover have "set (rank_to_stream (rank_add out r)) = set (rank_to_stream r) \<union> set out"
    by (simp add: rk.set_add Un_commute)
  moreover have "stack_wf K cs'" "map (apsnd c_clear) cs' = map (apsnd c_clear) cs"
    "stack_ok c_check blocked_set (A \<union> set ops) cs' (set (rank_to_stream r) \<union> set out)"
    using add by blast+
  ultimately show ?thesis using map_apsnd_fst [of c_clear cs' c_clear cs] by simp
qed

lemma state_inv_add_points:
  assumes inv: "state_inv K s" and new: "distinct ops" "set ops \<inter> K = {}"
  shows "state_inv (K \<union> set ops) (st_add_operating_points ops s)"
proof -
  note I = stack_invD [OF inv [unfolded state_inv_def]]
  let ?v = "map (apsnd (c_add_all ops)) (constraints s)"
  obtain cs out where c: "cascade filter_add ops ?v = (cs, out)" by force
  have wf: "stack_wf (K \<union> set ops) ?v" using I(2) new c_wf_add_all by (auto simp: apsnd_def)
  have ok: "stack_ok c_check blocked_set K ?v (set (rank_to_stream (st_rank s)))"
    using I(3) by (simp add: stack_ok_map)
  show ?thesis
    using cascade_add_rank [OF ok wf I(4) new c] I(1) c
    by (simp add: state_inv_def stack_inv_def st_add_operating_points_def comp_def)
qed

lemma state_inv_remove_points:
  assumes inv: "state_inv K s"
  shows "state_inv (K - set ops) (st_remove_operating_points ops s)"
proof -
  note I = stack_invD [OF inv [unfolded state_inv_def]]
  have "stack_wf (K - set ops) (map (apsnd (c_remove_all ops)) (constraints s))"
    using I(2) c_remove_all_props by (auto simp: apsnd_def)
  then show ?thesis
    using stack_ok_remove_all [OF I(2,3)] I(1,4) rank_wf_remove [OF I(4), of ops]
    by (simp add: state_inv_def stack_inv_def st_remove_operating_points_def comp_def)
qed

text \<open>A stack that blocks nothing and receives nothing.\<close>

lemma stack_ok_cleared: "\<forall>e \<in> set cs. B (snd e) = {} \<Longrightarrow> stack_ok P B {} cs {}"
  by (induction cs) auto

lemma c_wf_set_clear: "distinct (kb_to_stream kb) \<Longrightarrow> c_wf (set (kb_to_stream kb)) (c_clear (c_set kb c))"
  by (simp add: c_wf_def c_set_def c_clear_def view_wf_add_range view_simps)

lemma state_inv_set_knowledge_base:
  assumes sorted: "sorted_wrt (<) (map fst (constraints s))" and kb: "kb_wf kb"
  shows "state_inv (set (kb_to_stream kb)) (st_set_knowledge_base kb s)"
proof -
  let ?v = "map (apsnd (\<lambda>c. c_clear (c_set kb c))) (constraints s)" and ?K = "set (kb_to_stream kb)"
  have d: "distinct (kb_to_stream kb)" using kb by (rule kb_wf_distinct)
  obtain cs out where c: "cascade filter_add (kb_to_stream kb) ?v = (cs, out)" by force
  have ok: "stack_ok c_check blocked_set {} ?v (set (rank_to_stream (rank_clear (st_rank s))))"
    by (simp add: stack_ok_cleared c_clear_def)
  have wf: "stack_wf ?K ?v" using c_wf_set_clear [OF d] by auto
  show ?thesis
    using cascade_add_rank [OF ok wf rank_clear_frame(3) d _ c] sorted c
    by (simp add: state_inv_def stack_inv_def st_set_knowledge_base_def comp_def)
qed

subsection \<open>Removing a constraint\<close>

lemma split_absent:
  assumes "priority \<notin> fst ` set cs"
  shows "cs = higher_constraints priority cs @ from_upper_bound priority cs"
    "from_lower_bound priority cs = from_upper_bound priority cs"
proof -
  have "dropWhile (\<lambda>e. fst e \<le> priority) cs = dropWhile (\<lambda>e. fst e < priority) cs"
    using assms by (intro dropWhile_cong) (auto simp: le_less)
  then show "cs = higher_constraints priority cs @ from_upper_bound priority cs"
    "from_lower_bound priority cs = from_upper_bound priority cs"
    by (simp_all add: higher_constraints_def from_upper_bound_def from_lower_bound_def)
qed

lemma split_present:
  "sorted_wrt (<) (map fst cs) \<Longrightarrow> map_of cs priority = Some c \<Longrightarrow>
     cs = higher_constraints priority cs @ (priority, c) # from_upper_bound priority cs
     \<and> from_lower_bound priority cs = (priority, c) # from_upper_bound priority cs"
proof (induction cs)
  case (Cons e cs)
  obtain k d where e: "e = (k, d)" by force
  show ?case
  proof (cases "k = priority")
    case True
    have "\<forall>f \<in> set cs. priority < fst f" using Cons.prems(1) e True by auto
    then have "dropWhile (\<lambda>e. fst e \<le> priority) cs = cs" by (cases cs) auto
    then show ?thesis
      using Cons.prems(2) True by (simp add: e higher_constraints_def from_upper_bound_def from_lower_bound_def)
  next
    case False
    then have c: "map_of cs priority = Some c" using Cons.prems(2) e by simp
    then have "priority \<in> fst ` set cs" by (metis domI dom_map_of_conv_image_fst)
    then have "k < priority" using Cons.prems(1) e by auto
    then show ?thesis
      using Cons.IH c Cons.prems(1) by (simp add: e higher_constraints_def from_upper_bound_def from_lower_bound_def)
  qed
qed simp

lemma state_inv_remove_constraint:
  assumes inv: "state_inv K s"
  shows "state_inv K (st_remove_constraint priority s)"
proof (cases "map_of (constraints s) priority")
  case None
  then show ?thesis using inv by (simp add: st_remove_constraint_def)
next
  case (Some c)
  note I = stack_invD [OF inv [unfolded state_inv_def]]
  define hi where "hi = higher_constraints priority (constraints s)"
  define lo where "lo = from_upper_bound priority (constraints s)"
  have cs: "constraints s = hi @ (priority, c) # lo"
    using split_present [OF I(1) Some] by (simp add: hi_def lo_def)
  let ?A = "survivors c_check K hi"
  have ok: "stack_ok c_check blocked_set K hi ?A" "blocked_set c = {p \<in> ?A. \<not> c_check c p}"
    "stack_ok c_check blocked_set {p \<in> ?A. c_check c p} lo (set (rank_to_stream (st_rank s)))"
    using I(3) by (simp_all add: cs stack_ok_append)
  have wf: "stack_wf K lo" "distinct (blocked_ops c)" "stack_wf K hi" using I(2) by (auto simp: cs c_wf_def)
  obtain lo' out where l: "cascade filter_add (blocked_ops c) lo = (lo', out)" by force
  have "set (blocked_ops c) \<inter> {p \<in> ?A. c_check c p} = {}" using ok(2) by auto
  note add = cascade_add_rank [OF ok(3) wf(1) I(4) wf(2) this l]
  have "{p \<in> ?A. c_check c p} \<union> set (blocked_ops c) = ?A" using ok(2) by auto
  then have "stack_inv K (hi @ lo') (rank_add out (st_rank s))"
    using add ok(1) wf(3) I(1) by (auto simp: stack_inv_def stack_ok_append cs sorted_wrt_append)
  moreover have "st_remove_constraint priority s =
      s\<lparr>constraints := hi @ lo', st_rank := rank_add out (st_rank s),
        problem_is_changed := problem_is_changed s \<or> blocked_ops c \<noteq> []\<rparr>"
    using Some l by (cases "blocked_ops c = []") (simp_all add: st_remove_constraint_def c_to_stream_def hi_def [symmetric] lo_def [symmetric])
  ultimately show ?thesis by (simp add: state_inv_def)
qed

lemma cache_inv_remove_constraint: "cache_inv K s \<Longrightarrow> cache_inv K (st_remove_constraint priority s)"
  by (auto simp: st_remove_constraint_def Let_def intro: cache_inv_frame split: option.splits prod.splits)

subsection \<open>Adding a constraint\<close>

lemma append_all_eq: "append_all cs ops = ops @ concat (map (\<lambda>e. blocked_ops (snd e)) cs)"
  by (induction cs arbitrary: ops) (auto simp: append_to_def)

text \<open>The streams of a stack that keeps the partition are disjoint and have no repetitions.\<close>

lemma distinct_stack:
  "stack_ok c_check blocked_set A cs R \<Longrightarrow> stack_wf K cs \<Longrightarrow>
     distinct (concat (map (\<lambda>e. blocked_ops (snd e)) cs)) \<and> R \<inter> set (concat (map (\<lambda>e. blocked_ops (snd e)) cs)) = {}"
proof (induction cs arbitrary: A)
  case (Cons e cs)
  obtain k c where e: "e = (k, c)" by force
  have B: "blocked_set c = {p \<in> A. \<not> c_check c p}" and rest: "stack_ok c_check blocked_set {p \<in> A. c_check c p} cs R"
    using Cons.prems(1) e by auto
  have "{p \<in> A. c_check c p} = R \<union> set (concat (map (\<lambda>e. blocked_ops (snd e)) cs))"
    using stack_ok_cover [OF rest] by simp
  then have "blocked_set c \<inter> (R \<union> set (concat (map (\<lambda>e. blocked_ops (snd e)) cs))) = {}"
    unfolding B by blast
  moreover have "distinct (blocked_ops c)" using Cons.prems(2) e by (simp add: c_wf_def)
  ultimately show ?case using Cons.IH [OF rest] Cons.prems(2) e by auto
qed simp

lemma filter_remove_disjoint: "set ops \<inter> blocked_set c = {} \<Longrightarrow> filter_remove ops c = (c, ops)"
  by (induction ops) auto

lemma cascade_remove_disjoint:
  "\<forall>e \<in> set cs. set ops \<inter> blocked_set (snd e) = {} \<Longrightarrow> cascade filter_remove ops cs = (cs, ops)"
  by (induction cs) (auto simp: filter_remove_disjoint)

lemma filter_remove_times_once:
  assumes "distinct ops" and "distinct (blocked_ops c)"
  shows "filter_remove_times (Suc n) ops c = filter_remove ops c"
proof -
  obtain c' out where f: "filter_remove ops c = (c', out)" by force
  have "set out \<inter> blocked_set c' = {}" using filter_remove_stream [OF f assms(2,1)] by auto
  then have "filter_remove_times n out c' = (c', out)" for n
    by (induction n) (simp_all add: filter_remove_disjoint)
  then show ?thesis by (simp add: f)
qed

lemma remove_from_lower_cascade:
  assumes "distinct ops" and "stack_wf K lower" and "\<forall>e \<in> set (tl lower). set ops \<inter> blocked_set (snd e) = {}"
  shows "remove_from_lower ops lower = cascade filter_remove ops lower"
proof (cases lower)
  case (Cons e rest)
  obtain k c where e: "e = (k, c)" by force
  obtain c' out where f: "filter_remove ops c = (c', out)" by force
  have d: "distinct (blocked_ops c)" using assms(2) by (simp add: Cons e c_wf_def)
  have "set out \<subseteq> set ops" using filter_remove_stream [OF f d assms(1)] by auto
  then have "cascade filter_remove out rest = (rest, out)"
    using assms(3) by (intro cascade_remove_disjoint) (auto simp: Cons)
  then show ?thesis using f filter_remove_times_once [OF assms(1) d] by (simp add: Cons e del: filter_remove_times.simps)
qed simp

lemma remove_from_lower_tl:
  assumes "remove_from_lower ops lower = (lower', out)" and "distinct ops" and "stack_wf K lower"
  shows "tl lower' = tl lower \<and> (\<forall>e \<in> set lower'. \<exists>d \<in> set lower. blocked_set (snd e) \<subseteq> blocked_set (snd d))
    \<and> map (apsnd c_clear) lower' = map (apsnd c_clear) lower"
proof (cases lower)
  case (Cons e rest)
  obtain k c where e: "e = (k, c)" by force
  obtain c' out' where f: "filter_remove ops c = (c', out')" by force
  have d: "distinct (blocked_ops c)" using assms(3) by (simp add: Cons e c_wf_def)
  have "lower' = (k, c') # rest"
    using assms(1) f filter_remove_times_once [OF assms(2) d] by (simp add: Cons e del: filter_remove_times.simps)
  moreover have "blocked_set c' \<subseteq> blocked_set c" "c_clear c' = c_clear c"
    using filter_remove_stream [OF f d assms(2)] by (auto simp: same_problem_iff)
  ultimately show ?thesis by (auto simp: Cons e)
qed (use assms in simp)

definition replaced_blocked :: "int \<Rightarrow> (int \<times> constraint) list \<Rightarrow> op_ptr set" where
  "replaced_blocked priority cs = (case map_of cs priority of None \<Rightarrow> {} | Some c \<Rightarrow> blocked_set c)"

text \<open>The parts of the stack around a priority, whether there is a constraint to replace or not.\<close>

lemma stack_around:
  assumes inv: "stack_inv K cs r" and hi: "hi = higher_constraints priority cs" and lo: "lo = from_upper_bound priority cs"
    and A: "A = survivors c_check K hi"
  shows "stack_ok c_check blocked_set K hi A" "stack_wf K hi" "stack_wf K lo"
    "replaced_blocked priority cs \<subseteq> A"
    "stack_ok c_check blocked_set (A - replaced_blocked priority cs) lo (set (rank_to_stream r))"
    "set (append_all (from_lower_bound priority cs) (rank_to_stream r)) = A"
    "distinct (append_all (from_lower_bound priority cs) (rank_to_stream r))"
    "sorted_wrt (<) (map fst (hi @ (priority, c) # lo))"
proof -
  note I = stack_invD [OF inv]
  have lt: "\<forall>e \<in> set hi. fst e < priority" by (auto simp: hi higher_constraints_def dest: set_takeWhileD)
  define mid where "mid = (case map_of cs priority of None \<Rightarrow> [] | Some c \<Rightarrow> [(priority, c)])"
  have cs: "cs = hi @ mid @ lo" and low: "from_lower_bound priority cs = mid @ lo"
    using split_present [OF I(1)] split_absent [of priority cs]
    by (auto simp: mid_def hi lo map_of_eq_None_iff split: option.splits)
  have rep: "replaced_blocked priority cs = set (concat (map (\<lambda>e. blocked_ops (snd e)) mid))"
    by (simp add: replaced_blocked_def mid_def split: option.splits)
  have ok: "stack_ok c_check blocked_set K hi A" "stack_ok c_check blocked_set A (mid @ lo) (set (rank_to_stream r))"
    using I(3) stack_ok_append [of c_check blocked_set K hi "mid @ lo"] by (simp_all add: cs A)
  then show "stack_ok c_check blocked_set K hi A" by simp
  show wf: "stack_wf K hi" "stack_wf K lo" using I(2) by (auto simp: cs)
  have cover: "A = set (rank_to_stream r) \<union> set (concat (map (\<lambda>e. blocked_ops (snd e)) (mid @ lo)))"
    using stack_ok_cover [OF ok(2)] by simp
  then show "set (append_all (from_lower_bound priority cs) (rank_to_stream r)) = A"
    by (simp add: append_all_eq low)
  have "stack_wf K (mid @ lo)" using I(2) by (auto simp: cs)
  then show "distinct (append_all (from_lower_bound priority cs) (rank_to_stream r))"
    using distinct_stack [OF ok(2)] rk.distinct_stream [OF I(4)] by (simp add: append_all_eq low)
  show "replaced_blocked priority cs \<subseteq> A" using cover by (auto simp: rep)
  show "stack_ok c_check blocked_set (A - replaced_blocked priority cs) lo (set (rank_to_stream r))"
  proof (cases "map_of cs priority")
    case (Some d)
    then have "{p \<in> A. c_check d p} = A - replaced_blocked priority cs" using ok(2) by (auto simp: replaced_blocked_def mid_def)
    then show ?thesis using ok(2) Some by (simp add: mid_def)
  qed (use ok(2) in \<open>simp add: replaced_blocked_def mid_def\<close>)
  have "\<forall>e \<in> set lo. priority < fst e"
  proof (cases "map_of cs priority")
    case None
    have "\<forall>e \<in> set lo. priority \<le> fst e"
    proof (cases lo)
      case (Cons e es)
      then have "\<not> fst e \<le> priority" using hd_dropWhile [of "\<lambda>e. fst e \<le> priority" cs] by (simp add: lo from_upper_bound_def)
      then show ?thesis using I(1) by (auto simp: cs Cons sorted_wrt_append)
    qed simp
    moreover have "priority \<notin> fst ` set lo" using None by (auto simp: cs map_of_eq_None_iff)
    ultimately show ?thesis by force
  next
    case (Some d)
    have "sorted_wrt (<) (map fst (hi @ mid @ lo))" using I(1) cs by simp
    then show ?thesis using Some by (simp add: mid_def sorted_wrt_append)
  qed
  moreover have "sorted_wrt (<) (map fst hi)" "sorted_wrt (<) (map fst lo)" using I(1) by (simp_all add: cs sorted_wrt_append)
  ultimately show "sorted_wrt (<) (map fst (hi @ (priority, c) # lo))"
    using lt by (force simp: sorted_wrt_append)
qed

lemma new_constraint_wf:
  assumes "kb_wf kb"
  shows "c_wf (set (kb_to_stream kb)) (new_constraint segment i sig g kb ka h)"
    and "blocked_ops (new_constraint segment i sig g kb ka h) = []"
  using kb_wf_distinct [OF assms]
  by (simp_all add: new_constraint_def c_wf_def c_set_field_adaptor_def c_set_def Constraint_def view_wf_add_range view_simps)

lemma st_add_constraint_eq:
  assumes "filter_initialize (append_all (from_lower_bound priority (constraints s)) (rank_to_stream (st_rank s)))
      (new_constraint segment i sig g kb ka h) = (c, filtered)"
    and "remove_from_lower filtered (from_upper_bound priority (constraints s)) = (lower, out)"
    and "stack_wf K (from_upper_bound priority (constraints s))"
  shows "st_add_constraint segment i sig g priority kb ka h s =
    s\<lparr>constraints := higher_constraints priority (constraints s) @ (priority, c) # lower,
      problem_is_changed := problem_is_changed s \<or> filtered \<noteq> [], st_rank := rank_remove out (st_rank s)\<rparr>"
proof (cases "filtered = []")
  case True
  have "remove_from_lower [] xs = (xs, [])" if "stack_wf K xs" for xs
    using remove_from_lower_cascade [of "[]" xs K] that by simp
  then have "lower = from_upper_bound priority (constraints s)" "out = []" using assms(2,3) True by simp_all
  then show ?thesis using assms(1) True by (simp add: st_add_constraint_def Let_def)
qed (use assms(1,2) in \<open>simp add: st_add_constraint_def Let_def\<close>)

lemma cache_inv_add_constraint:
  "cache_inv K s \<Longrightarrow> cache_inv K (st_add_constraint segment i sig g priority kb ka h s)"
  by (auto simp: st_add_constraint_def Let_def intro: cache_inv_frame split: prod.splits)

text \<open>The points a new constraint rejects, and what the loop over the lower constraints needs.\<close>

definition add_constraint_safe :: "constraint \<Rightarrow> int \<Rightarrow> (int \<times> constraint) list \<Rightarrow> bool" where
  "add_constraint_safe c priority cs \<longleftrightarrow>
     (\<forall>p \<in> replaced_blocked priority cs. \<not> c_check c p)
     \<and> (\<forall>e \<in> set (tl (from_upper_bound priority cs)). \<forall>p \<in> blocked_set (snd e). c_check c p)"

lemma state_inv_add_constraint_iff:
  assumes kb: "kb_wf kb" and inv: "state_inv (set (kb_to_stream kb)) s"
  shows "state_inv (set (kb_to_stream kb)) (st_add_constraint segment i sig g priority kb ka h s) \<longleftrightarrow>
    add_constraint_safe (new_constraint segment i sig g kb ka h) priority (constraints s)"
proof -
  define K where "K = set (kb_to_stream kb)"
  define hi where "hi = higher_constraints priority (constraints s)"
  define lo where "lo = from_upper_bound priority (constraints s)"
  define A where "A = survivors c_check K hi"
  define rep where "rep = replaced_blocked priority (constraints s)"
  let ?R = "set (rank_to_stream (st_rank s))" and ?n = "new_constraint segment i sig g kb ka h"
  note S = stack_around [OF inv [unfolded state_inv_def K_def [symmetric]] hi_def lo_def A_def, folded rep_def]
  have rwf: "rank_wf (st_rank s)" using inv by (simp add: state_inv_def stack_inv_def)
  obtain c filtered where fi: "filter_initialize (append_all (from_lower_bound priority (constraints s)) (rank_to_stream (st_rank s))) ?n
      = (c, filtered)" by force
  have c: "set filtered = {p \<in> A. \<not> c_check ?n p}" "distinct filtered" "blocked_set c = {p \<in> A. \<not> c_check c p}"
    "c_check c = c_check ?n" "c_wf K c"
    using filter_initialize_stream [OF fi] new_constraint_wf [OF kb, of segment i sig g ka h] S(6,7)
      same_problem_check(1) [of c ?n] c_wf_same_problem [of c ?n K] by (auto simp: K_def)
  obtain lo' out where rl: "remove_from_lower filtered lo = (lo', out)" by force
  note eq = st_add_constraint_eq [OF fi rl [unfolded lo_def] S(3) [unfolded lo_def], folded hi_def]
  have res: "state_inv K (st_add_constraint segment i sig g priority kb ka h s) \<longleftrightarrow>
      stack_inv K (hi @ (priority, c) # lo') (rank_remove out (st_rank s))"
    by (simp add: eq state_inv_def)
  have rank: "set (rank_to_stream (rank_remove out (st_rank s))) = ?R - set out" "rank_wf (rank_remove out (st_rank s))"
    using rank_wf_remove [OF rwf] by auto
  have split: "stack_ok c_check blocked_set K (hi @ (priority, c) # lo') (?R - set out) \<longleftrightarrow>
      stack_ok c_check blocked_set {p \<in> A. c_check ?n p} lo' (?R - set out)"
    using S(1) c(3,4) by (simp add: stack_ok_append A_def [symmetric])
  show ?thesis unfolding K_def [symmetric]
  proof
    assume safe: "add_constraint_safe ?n priority (constraints s)"
    have "\<forall>e \<in> set (tl lo). set filtered \<inter> blocked_set (snd e) = {}"
      using safe c(1) by (auto simp: add_constraint_safe_def lo_def)
    then have "cascade filter_remove filtered lo = (lo', out)"
      using remove_from_lower_cascade [OF c(2) S(3)] rl by simp
    note casc = ch.cascade_remove [OF this S(3,5) c(2)]
    have "A - rep - set filtered = {p \<in> A. c_check ?n p}"
      using safe c(1) S(4) by (auto simp: add_constraint_safe_def rep_def)
    then have ok: "stack_ok c_check blocked_set K (hi @ (priority, c) # lo') (?R - set out)"
      using casc split by simp
    have "map fst lo' = map fst lo" using casc map_apsnd_fst by blast
    then show "state_inv K (st_add_constraint segment i sig g priority kb ka h s)"
      using ok rank casc c(5) S(2) S(8) [of c] unfolding res stack_inv_def by auto
  next
    assume "state_inv K (st_add_constraint segment i sig g priority kb ka h s)"
    then have ok: "stack_ok c_check blocked_set {p \<in> A. c_check ?n p} lo' (?R - set out)"
      using split rank by (simp add: res stack_inv_def)
    note tl = remove_from_lower_tl [OF rl c(2) S(3)]
    have sub: "blocked_set (snd e) \<subseteq> A - rep" if "e \<in> set lo" for e
      using stack_ok_blocked_subset [OF S(5), of "fst e" "snd e"] that by simp
    have "{p \<in> A. c_check ?n p} \<subseteq> A - rep"
      using stack_ok_cover [OF ok] stack_ok_cover [OF S(5)] tl sub by fastforce
    moreover have "\<forall>p \<in> blocked_set (snd e). c_check ?n p" if "e \<in> set (tl lo)" for e
    proof -
      have "e \<in> set lo'" using that tl by (metis list.set_sel(2) tl_Nil empty_iff list.set(1))
      then show ?thesis using stack_ok_blocked_subset [OF ok, of "fst e" "snd e"] by auto
    qed
    ultimately show "add_constraint_safe ?n priority (constraints s)"
      using S(4) by (auto simp: add_constraint_safe_def rep_def [symmetric] lo_def [symmetric])
  qed
qed

lemma filter_initialize_frame: "filter_initialize ops c = (c', out) \<Longrightarrow> c_clear c' = c_clear c"
proof (induction ops arbitrary: c out)
  case (Cons op ops)
  have "c_clear (block_op op c) = c_clear c" by (simp add: c_clear_def block_op_def)
  then show ?case using Cons by (auto split: if_splits prod.splits)
qed simp

lemma filter_initialize_distinct:
  "filter_initialize ops c = (c', out) \<Longrightarrow> distinct ops \<Longrightarrow> distinct (blocked_ops c) \<Longrightarrow> distinct out"
  using filter_initialize_stream [of ops c c' out] by auto

lemma add_constraint_frames:
  assumes kb: "kb_wf kb" and inv: "state_inv K s"
  shows "map (apsnd c_clear) (constraints (st_add_constraint segment i sig g priority kb ka h s)) =
    map (apsnd c_clear) (higher_constraints priority (constraints s)
      @ (priority, new_constraint segment i sig g kb ka h) # from_upper_bound priority (constraints s))"
proof -
  note S = stack_around [OF inv [unfolded state_inv_def] refl refl refl, of priority]
  let ?n = "new_constraint segment i sig g kb ka h" and ?lo = "from_upper_bound priority (constraints s)"
  obtain c filtered where fi: "filter_initialize (append_all (from_lower_bound priority (constraints s)) (rank_to_stream (st_rank s))) ?n
      = (c, filtered)" by force
  obtain lo' out where rl: "remove_from_lower filtered ?lo = (lo', out)" by force
  have "distinct filtered"
    using filter_initialize_distinct [OF fi S(7)] new_constraint_wf(2) [OF kb, of segment i sig g ka h] by simp
  then show ?thesis
    using remove_from_lower_tl [OF rl _ S(3)] filter_initialize_frame [OF fi]
    by (simp add: st_add_constraint_eq [OF fi rl S(3)])
qed

lemma remove_constraint_frames:
  assumes inv: "state_inv K s"
  shows "map (apsnd c_clear) (constraints (st_remove_constraint priority s)) =
    map (apsnd c_clear) (filter (\<lambda>e. fst e \<noteq> priority) (constraints s))"
proof (cases "map_of (constraints s) priority")
  case None
  then have "\<forall>e \<in> set (constraints s). fst e \<noteq> priority" by (auto simp: map_of_eq_None_iff)
  then have "filter (\<lambda>e. fst e \<noteq> priority) (constraints s) = constraints s" by simp
  then show ?thesis using None by (simp add: st_remove_constraint_def)
next
  case (Some c)
  note I = stack_invD [OF inv [unfolded state_inv_def]]
  define hi where "hi = higher_constraints priority (constraints s)"
  define lo where "lo = from_upper_bound priority (constraints s)"
  have cs: "constraints s = hi @ (priority, c) # lo"
    using split_present [OF I(1) Some] by (simp add: hi_def lo_def)
  have flt: "filter (\<lambda>e. fst e \<noteq> priority) (constraints s) = hi @ lo"
  proof -
    have "\<forall>e \<in> set hi. fst e \<noteq> priority" "\<forall>e \<in> set lo. fst e \<noteq> priority"
      using I(1) by (auto simp: cs sorted_wrt_append)
    then show ?thesis by (simp add: cs filter_id_conv)
  qed
  obtain lo' out where l: "cascade filter_add (blocked_ops c) lo = (lo', out)" by force
  have "stack_wf K lo" "stack_ok c_check blocked_set {p \<in> survivors c_check K hi. c_check c p} lo (set (rank_to_stream (st_rank s)))"
    using I(2,3) by (simp_all add: cs stack_ok_append)
  from ch.cascade_add [OF l this] have "map (apsnd c_clear) lo' = map (apsnd c_clear) lo" by simp
  moreover have "constraints (st_remove_constraint priority s) = hi @ lo'"
    using Some l by (cases "blocked_ops c = []") (simp_all add: st_remove_constraint_def c_to_stream_def hi_def [symmetric] lo_def [symmetric])
  ultimately show ?thesis by (simp add: flt)
qed

text \<open>The partition is determined by the constraints, the blocked points set aside.\<close>

lemma stack_ok_unique:
  "map (apsnd c_clear) xs = map (apsnd c_clear) ys \<Longrightarrow> stack_ok c_check blocked_set A xs R \<Longrightarrow>
     stack_ok c_check blocked_set A ys S \<Longrightarrow> R = S \<and> map (\<lambda>e. blocked_set (snd e)) xs = map (\<lambda>e. blocked_set (snd e)) ys"
proof (induction xs ys arbitrary: A rule: list_induct2')
  case (4 x xs y ys)
  obtain k c l d where xy: "x = (k, c)" "y = (l, d)" by force
  have "c_check c = c_check d" using 4(2) xy c_check_clear by (metis apsnd_conv list.simps(9) list.inject prod.inject)
  then show ?case using 4(1) [of "{p \<in> A. c_check d p}"] 4(2-4) xy by simp
qed auto

section \<open>A sample problem\<close>

text \<open>
  The two sample operating points with three metrics, and constraints on the second and third metric. The
  goals are the cells 0, 1 and 2 of the store; the argument of \<open>sample_heap\<close> is the value of
  the second.
\<close>

definition sample_kb :: knowledge_base where
  "sample_kb = snd (kb_add (deref sample_q) (snd (kb_add (deref sample_p) Knowledge)))"

definition sample_heap :: "real \<Rightarrow> heap" where
  "sample_heap g = \<lparr>goals = (\<lambda>a. if a = 0 then 100 else if a = 1 then g else 5),
     monitors = (\<lambda>_. StatisticalProvider 0 0 1),
     adaptor_cells = (\<lambda>_. OneSigmaAdaptor METRICS 0 1 0), next_adaptor = 0\<rparr>"

definition sample_goal :: "nat \<Rightarrow> goal" where
  "sample_goal a = \<lparr>comparison_function = LESS, goal_value = a\<rparr>"

definition sample_add :: "nat \<Rightarrow> int \<Rightarrow> state \<Rightarrow> state" where
  "sample_add i priority =
     st_add_constraint METRICS i 0 (sample_goal i) priority sample_kb (KnowledgeAdaptor 1 3) (sample_heap 5)"

definition sample_unconstrained :: state where
  "sample_unconstrained = st_set_rank MINIMIZE SIMPLE (sample_field 0) [] (st_set_knowledge_base sample_kb State_init)"

definition sample_state :: state where
  "sample_state = sample_add 1 30 (sample_add 0 20 sample_unconstrained)"

lemma sample_stream: "kb_to_stream sample_kb = [sample_p, sample_q]"
  by code_simp

lemma kb_wf_sample: "kb_wf sample_kb"
  unfolding sample_kb_def by (intro kbs.invar_add kb_wf_init)

lemma state_inv_sample_add:
  assumes "state_inv (set (kb_to_stream sample_kb)) s"
    and "add_constraint_safe (new_constraint METRICS i 0 (sample_goal i) sample_kb (KnowledgeAdaptor 1 3) (sample_heap 5))
           priority (constraints s)"
  shows "state_inv (set (kb_to_stream sample_kb)) (sample_add i priority s)"
  unfolding sample_add_def using state_inv_add_constraint_iff [OF kb_wf_sample assms(1)] assms(2) by blast

lemma state_inv_unconstrained: "state_inv {sample_p, sample_q} sample_unconstrained"
proof -
  have "state_inv (set (kb_to_stream sample_kb)) sample_unconstrained"
    unfolding sample_unconstrained_def
    by (intro state_inv_set_rank state_inv_set_knowledge_base kb_wf_sample) (simp add: State_init_def)
  then show ?thesis by (simp add: sample_stream)
qed

lemma state_inv_sample: "state_inv {sample_p, sample_q} sample_state"
proof -
  have "state_inv (set (kb_to_stream sample_kb)) sample_state"
    unfolding sample_state_def
  proof (intro state_inv_sample_add)
    show "state_inv (set (kb_to_stream sample_kb)) sample_unconstrained"
      using state_inv_unconstrained by (simp add: sample_stream)
  qed (code_simp, code_simp)
  then show ?thesis by (simp add: sample_stream)
qed

lemma sample_changed: "problem_is_changed sample_state"
  by code_simp

lemma cache_inv_sample: "cache_inv {sample_p, sample_q} sample_state"
  using sample_changed by simp

lemma feasible_list: "feasible h (set ps) cs = set (filter (\<lambda>p. \<forall>e \<in> set cs. satisfies h (snd e) p) ps)"
  by (auto simp: survivors_def)

lemma feasible_sample: "feasible (sample_heap 5) {sample_p, sample_q} (constraints sample_state) = {sample_q}"
proof -
  have "filter (\<lambda>p. \<forall>e \<in> set (constraints sample_state). satisfies (sample_heap 5) (snd e) p) [sample_p, sample_q] = [sample_q]"
    by code_simp
  then show ?thesis using feasible_list [of "sample_heap 5" "[sample_p, sample_q]"] by simp
qed

section \<open>Properties\<close>

text \<open>
  C1: when some operating points of the knowledge satisfy all the constraints at the current
  goal values and error coefficients, the solver returns one of them that is best for the
  rank; this holds also when it answers from its cache, and the call keeps both invariants.
\<close>

theorem best_point_is_feasible_optimum:
  assumes "state_inv K s" and "cache_inv K s" and "feasible h K (constraints s) \<noteq> {}"
  shows "\<exists>p s'. st_get_best_operating_point h s = Inr (Some p, s') \<and> p \<in> feasible h K (constraints s)
    \<and> (\<forall>q \<in> feasible h K (constraints s). rank_leq (st_rank s) p q)
    \<and> state_inv K s' \<and> cache_inv K s'"
proof -
  obtain found s' where f: "st_get_best_operating_point h s = Inr (found, s')" "state_inv K s'" "cache_inv K s'"
    "\<exists>p. found = Some p \<and> p \<in> feasible h K (constraints s) \<and> (\<forall>q \<in> feasible h K (constraints s). rank_leq (st_rank s) p q)"
    using get_best_cases [OF assms(1,2), of h] assms(3) by (elim exE conjE) simp
  then show ?thesis by auto
qed

theorem best_point_is_feasible_optimum_witness:
  "\<exists>s'. st_get_best_operating_point (sample_heap 5) sample_state = Inr (Some sample_q, s')"
proof -
  have "feasible (sample_heap 5) {sample_p, sample_q} (constraints sample_state) \<noteq> {}"
    by (simp add: feasible_sample)
  from best_point_is_feasible_optimum [OF state_inv_sample cache_inv_sample this] show ?thesis
    by (auto simp: feasible_sample)
qed

text \<open>
  C3: when no operating point satisfies all the constraints and the problem has to be solved
  again, the solver finds the first constraint \<open>c\<close> that cannot be met together with the more
  important ones, and returns a point that satisfies all the more important ones and is as
  close to the goal of \<open>c\<close> as any other that does; ties are resolved by narrowing with the
  less important constraints and by the rank. Without operating points it returns none.
\<close>

theorem infeasible_problem_is_relaxed:
  assumes "state_inv K s" and "cache_inv K s" and "problem_is_changed s" and "feasible h K (constraints s) = {}"
  shows "\<exists>found s'. st_get_best_operating_point h s = Inr (found, s') \<and> (found = None \<longleftrightarrow> K = {})
    \<and> (\<forall>p. found = Some p \<longrightarrow> relaxed_choice h K (constraints s') (st_rank s) p
         \<and> (\<exists>pre k c post. constraints s' = pre @ (k, c) # post \<and> p \<in> feasible h K pre
              \<and> feasible h K (pre @ [(k, c)]) = {}
              \<and> (\<forall>q \<in> feasible h K pre. at_least (comparison_function (target_goal c)) (c_value c p) (c_value c q))))"
proof -
  obtain found s' where f: "st_get_best_operating_point h s = Inr (found, s')"
    "if K = {} then found = None else \<exists>p. found = Some p \<and> relaxed_choice h K (constraints s') (st_rank s) p"
    using get_best_cases [OF assms(1,2), of h] assms(3,4) by blast
  have "\<exists>pre k c post. constraints s' = pre @ (k, c) # post \<and> p \<in> feasible h K pre \<and> feasible h K (pre @ [(k, c)]) = {}
      \<and> (\<forall>q \<in> feasible h K pre. at_least (comparison_function (target_goal c)) (c_value c p) (c_value c q))"
    if choice: "relaxed_choice h K (constraints s') (st_rank s) p" for p
  proof -
    obtain pre k c post where r: "constraints s' = pre @ (k, c) # post" "feasible h K pre = set (blocked_ops c)"
      "feasible h K (pre @ [(k, c)]) = {}" "best_among (st_rank s) (prune narrow_spec (closest_in c (blocked_ops c)) post) p"
      using choice unfolding relaxed_choice_def by blast
    have "p \<in> set (closest_in c (blocked_ops c))"
      using r(4) prune_narrow_subset [of "closest_in c (blocked_ops c)" post] by (auto simp: best_among_def prune_narrow_eq)
    then have "p \<in> feasible h K pre"
      "\<forall>q \<in> feasible h K pre. at_least (comparison_function (target_goal c)) (c_value c p) (c_value c q)"
      unfolding r(2) by (auto simp: closest_in_def)
    then show ?thesis using r(1,3) by blast
  qed
  then show ?thesis using f by (auto split: if_splits)
qed

theorem infeasible_problem_is_relaxed_witness:
  "\<exists>p s'. st_get_best_operating_point (sample_heap 0) sample_state = Inr (Some p, s')
     \<and> relaxed_choice (sample_heap 0) {sample_p, sample_q} (constraints s') (st_rank sample_state) p"
proof -
  have "filter (\<lambda>p. \<forall>e \<in> set (constraints sample_state). satisfies (sample_heap 0) (snd e) p) [sample_p, sample_q] = []"
    by code_simp
  then have "feasible (sample_heap 0) {sample_p, sample_q} (constraints sample_state) = {}"
    using feasible_list [of "sample_heap 0" "[sample_p, sample_q]"] by simp
  from infeasible_problem_is_relaxed [OF state_inv_sample cache_inv_sample sample_changed this] show ?thesis
    by auto
qed

text \<open>
  C2: re-reading the goals and the coefficients never trips the internal assertion of the
  update; afterwards every constraint has the current goal value, blocks exactly the points it
  receives from the more important ones and does not accept, and the rank holds exactly the
  points that satisfy all of them.
\<close>

theorem update_restores_partition:
  assumes "state_inv K s"
  shows "\<exists>s'. st_update h s = Inr s' \<and> state_inv K s'
    \<and> set (rank_to_stream (st_rank s')) = feasible h K (constraints s)
    \<and> map (\<lambda>e. last_check_value (snd e)) (constraints s') = map (\<lambda>e. final_goal h (snd e)) (constraints s)"
proof -
  obtain s' where s': "st_update h s = Inr s'" "state_inv K s'" "set (rank_to_stream (st_rank s')) = feasible h K (constraints s)"
    "map (apsnd c_clear) (constraints s') = map (apsnd (refreshed h)) (constraints s)"
    using st_update_inv [OF assms, of h] by blast
  have "map (\<lambda>e. last_check_value (snd e)) (map (apsnd c_clear) (constraints s'))
      = map (\<lambda>e. last_check_value (snd e)) (map (apsnd (refreshed h)) (constraints s))"
    using s'(4) by simp
  then have "map (\<lambda>e. last_check_value (snd e)) (constraints s') = map (\<lambda>e. final_goal h (snd e)) (constraints s)"
    by (simp add: c_clear_def refreshed_def comp_def)
  then show ?thesis using s' by blast
qed

theorem update_restores_partition_witness:
  "\<exists>s'. st_update (sample_heap 5) sample_state = Inr s' \<and> set (rank_to_stream (st_rank s')) = {sample_q}"
  using update_restores_partition [OF state_inv_sample, of "sample_heap 5"] by (auto simp: feasible_sample)

text \<open>
  C6: adding a constraint keeps the partition of the knowledge exactly when no point blocked by
  a replaced constraint of the same priority is accepted by the new one, and no point blocked by
  a constraint beyond the first of the less important ones is rejected by it.
\<close>

theorem add_constraint_keeps_partition_iff:
  assumes "kb_wf kb" and "state_inv (set (kb_to_stream kb)) s"
  shows "state_inv (set (kb_to_stream kb)) (st_add_constraint segment i sig g priority kb ka h s) \<longleftrightarrow>
    add_constraint_safe (new_constraint segment i sig g kb ka h) priority (constraints s)"
  by (rule state_inv_add_constraint_iff [OF assms])

theorem add_constraint_keeps_partition_iff_witness:
  "state_inv {sample_p, sample_q} (sample_add 1 30 sample_unconstrained)
   \<and> \<not> state_inv {sample_p, sample_q} (sample_add 2 10 sample_state)"
proof -
  have stream: "set (kb_to_stream sample_kb) = {sample_p, sample_q}" by (simp add: sample_stream)
  note iff = add_constraint_keeps_partition_iff [OF kb_wf_sample, unfolded stream]
  have "add_constraint_safe (new_constraint METRICS 1 0 (sample_goal 1) sample_kb (KnowledgeAdaptor 1 3) (sample_heap 5)) 30
      (constraints sample_unconstrained)" by code_simp
  moreover have "\<not> add_constraint_safe (new_constraint METRICS 2 0 (sample_goal 2) sample_kb (KnowledgeAdaptor 1 3) (sample_heap 5)) 10
      (constraints sample_state)" by code_simp
  ultimately show ?thesis
    unfolding sample_add_def using iff [OF state_inv_unconstrained] iff [OF state_inv_sample] by blast
qed

text \<open>
  C5: the operations that change the application knowledge or the objective keep the partition,
  for the knowledge they leave: new points are blocked or ranked, removed points disappear from
  every constraint and from the rank, a replaced knowledge base is filtered anew, also by the
  sibling of a problem, and a removed constraint hands its points to the less important ones.
\<close>

theorem operations_keep_partition:
  assumes "state_inv K s" and "distinct ops" and "set ops \<inter> K = {}" and "kb_wf kb"
  shows "state_inv (K \<union> set ops) (st_add_operating_points ops s)
    \<and> state_inv (K - set gone) (st_remove_operating_points gone s)
    \<and> state_inv (set (kb_to_stream kb)) (st_set_knowledge_base kb s)
    \<and> state_inv (set (kb_to_stream kb)) (st_set_knowledge_base kb (st_create_sibling h s))
    \<and> state_inv K (st_remove_constraint priority s)
    \<and> state_inv K (st_set_rank obj composer f fs s)
    \<and> state_inv K (st_set_knowledge_adaptor ka s)"
proof -
  have sorted: "sorted_wrt (<) (map fst (constraints s))" using assms(1) by (simp add: state_inv_def stack_inv_def)
  have "map fst (constraints (st_create_sibling h s)) = map fst (constraints s)"
    by (simp add: st_create_sibling_def comp_def case_prod_beta)
  then show ?thesis
    using state_inv_add_points [OF assms(1-3)] state_inv_remove_points [OF assms(1)] sorted
      state_inv_set_knowledge_base [OF _ assms(4)] state_inv_remove_constraint [OF assms(1)]
      state_inv_set_rank [OF assms(1)] state_inv_set_adaptor [OF assms(1)] by simp
qed

theorem operations_keep_partition_witness:
  "state_inv {sample_p, sample_q, OpPtr 2 (sample_point 3 [0, 0, 0])}
     (st_add_operating_points [OpPtr 2 (sample_point 3 [0, 0, 0])] sample_state)
   \<and> state_inv {sample_q} (st_remove_operating_points [sample_p] sample_state)"
proof -
  have "set [OpPtr 2 (sample_point 3 [0, 0, 0])] \<inter> {sample_p, sample_q} = {}"
    by (simp add: sample_p_def sample_q_def)
  moreover have "sample_p \<noteq> sample_q" by (simp add: sample_p_def sample_q_def)
  ultimately show ?thesis
    using operations_keep_partition [OF state_inv_sample, of "[OpPtr 2 (sample_point 3 [0, 0, 0])]" sample_kb "[sample_p]"]
    by (simp add: kb_wf_sample insert_Diff_if insert_commute)
qed

text \<open>
  Removing a constraint that was added at an unused priority undoes it: the remaining
  constraints block the same points as before and the rank has the same points again.
\<close>

theorem add_remove_constraint_roundtrip:
  assumes "kb_wf kb" and "state_inv (set (kb_to_stream kb)) s" and "priority \<notin> fst ` set (constraints s)"
    and "add_constraint_safe (new_constraint segment i sig g kb ka h) priority (constraints s)"
    and "s' = st_remove_constraint priority (st_add_constraint segment i sig g priority kb ka h s)"
  shows "map (apsnd c_clear) (constraints s') = map (apsnd c_clear) (constraints s)
    \<and> map (\<lambda>e. blocked_set (snd e)) (constraints s') = map (\<lambda>e. blocked_set (snd e)) (constraints s)
    \<and> set (rank_to_stream (st_rank s')) = set (rank_to_stream (st_rank s))"
proof -
  let ?K = "set (kb_to_stream kb)" and ?t = "st_add_constraint segment i sig g priority kb ka h s"
  have t: "state_inv ?K ?t" using state_inv_add_constraint_iff [OF assms(1,2)] assms(4) by blast
  have s': "state_inv ?K s'" unfolding assms(5) by (rule state_inv_remove_constraint [OF t])
  let ?del = "filter (\<lambda>e. fst e \<noteq> priority)"
  have flt: "map (apsnd c_clear) (?del cs) = ?del (map (apsnd c_clear) cs)" for cs :: "(int \<times> constraint) list"
    by (simp add: filter_map comp_def)
  note absent = split_absent(1) [OF assms(3)]
  have "?del (map (apsnd c_clear) (constraints ?t)) =
      map (apsnd c_clear) (?del (higher_constraints priority (constraints s) @ from_upper_bound priority (constraints s)))"
    unfolding add_constraint_frames [OF assms(1,2)] by (simp add: flt)
  also have "\<dots> = map (apsnd c_clear) (?del (constraints s))" using absent by simp
  also have "?del (constraints s) = constraints s" using assms(3) by (auto simp: filter_id_conv)
  finally have frames: "map (apsnd c_clear) (constraints s') = map (apsnd c_clear) (constraints s)"
    unfolding assms(5) remove_constraint_frames [OF t] flt .
  then show ?thesis
    using stack_ok_unique [OF frames] s' assms(2) unfolding state_inv_def stack_inv_def by blast
qed

theorem add_remove_constraint_roundtrip_witness:
  "set (rank_to_stream (st_rank (st_remove_constraint 40 (sample_add 2 40 sample_state))))
     = set (rank_to_stream (st_rank sample_state))"
proof -
  have "40 \<notin> fst ` set (constraints sample_state)" by code_simp
  moreover have "add_constraint_safe (new_constraint METRICS 2 0 (sample_goal 2) sample_kb (KnowledgeAdaptor 1 3) (sample_heap 5)) 40
      (constraints sample_state)" by code_simp
  moreover have "state_inv (set (kb_to_stream sample_kb)) sample_state" using state_inv_sample by (simp add: sample_stream)
  ultimately show ?thesis
    using add_remove_constraint_roundtrip [OF kb_wf_sample _ _ _ refl] unfolding sample_add_def by blast
qed

text \<open>
  The loop of \<^verbatim>\<open>add_constraint\<close> leaves a point blocked twice when there are two less
  important constraints and the second blocks it. Relaxing the goal of that one then releases
  the point into the rank, and the solver returns it as the best valid point although it
  violates the most important constraint and another point satisfies all of them.
\<close>

theorem double_blocked_point_is_returned:
  "(\<exists>s'. st_get_best_operating_point (sample_heap 100) (sample_add 2 10 sample_state) = Inr (Some sample_p, s'))
   \<and> feasible (sample_heap 100) {sample_p, sample_q} (constraints (sample_add 2 10 sample_state)) = {sample_q}"
proof
  show "\<exists>s'. st_get_best_operating_point (sample_heap 100) (sample_add 2 10 sample_state) = Inr (Some sample_p, s')"
  proof -
    let ?r = "st_get_best_operating_point (sample_heap 100) (sample_add 2 10 sample_state)"
    have "map_sum id fst ?r = Inr (Some sample_p)" by code_simp
    then show ?thesis by (cases ?r) auto
  qed
  have "filter (\<lambda>p. \<forall>e \<in> set (constraints (sample_add 2 10 sample_state)). satisfies (sample_heap 100) (snd e) p)
      [sample_p, sample_q] = [sample_q]" by code_simp
  then show "feasible (sample_heap 100) {sample_p, sample_q} (constraints (sample_add 2 10 sample_state)) = {sample_q}"
    using feasible_list [of "sample_heap 100" "[sample_p, sample_q]"] by simp
qed

text \<open>A problem with a tie between two points that cannot meet the constraint.\<close>

definition sample_tie :: state where
  "sample_tie = st_add_constraint METRICS 1 0 (sample_goal 1) 10
     (snd (kb_add (sample_point 2 [2, 9, 1]) (snd (kb_add (sample_point 1 [1, 9, 9]) Knowledge))))
     (KnowledgeAdaptor 1 3) (sample_heap 5)
     (st_set_rank MINIMIZE SIMPLE (sample_field 0) []
       (st_set_knowledge_base (snd (kb_add (sample_point 2 [2, 9, 1]) (snd (kb_add (sample_point 1 [1, 9, 9]) Knowledge)))) State_init))"

definition sample_reversed :: "state result" where
  "sample_reversed = map_sum id (\<lambda>(found, s). st_set_rank MAXIMIZE SIMPLE (sample_field 0) [] s)
     (st_get_best_operating_point (sample_heap 5) sample_tie)"

text \<open>
  In an infeasible problem the cached solution is not recomputed when the rank is replaced:
  after the objective is reversed the solver still answers with the point the old objective
  preferred, while the same problem, marked as changed, gives the other point.
\<close>

theorem stale_relaxed_solution:
  "map_sum id (\<lambda>r. map_option addr (fst r)) (st_get_best_operating_point (sample_heap 5) sample_tie) = Inr (Some 0)
   \<and> map_sum id (\<lambda>r. map_option addr (fst r)) (bind_result sample_reversed (st_get_best_operating_point (sample_heap 5)))
       = Inr (Some 0)
   \<and> map_sum id (\<lambda>r. map_option addr (fst r)) (bind_result sample_reversed
         (\<lambda>s. st_get_best_operating_point (sample_heap 5) (s\<lparr>problem_is_changed := True\<rparr>))) = Inr (Some 1)"
  by (intro conjI; code_simp)

end
