(* ===== verification/Asrtm_Model.thy ===== *)
theory Asrtm_Model
  imports State_Model Agora_Message
begin

text \<open>
  The Application-Specific Run-Time Manager (\<^verbatim>\<open>asrtm.hpp\<close>). A manager owns the application
  knowledge, the adaptors of the run-time information and one optimisation problem for each
  state of the application, one of which is active. Every method locks the mutex of the manager,
  so an execution of the application thread and of the support thread is a sequence of calls;
  \<open>run_call\<close> executes one call and \<open>reachable\<close> are the stores and managers that sequences
  of calls lead to.

  The \<^verbatim>\<open>std::unordered_map\<close> of states is an association list; the iterator of the active state
  is the key it points to, \<open>None\<close> is the end iterator. Names of states are strings, the default
  of the template. Allocation never fails.
\<close>

section \<open>The manager\<close>

datatype ApplicationStatus = UNDEFINED | TUNED | DESIGN_SPACE_EXPLORATION | WITH_PREDICTION

record asrtm =
  application_knowledge :: knowledge_base
  runtime_information :: knowledge_adaptor
  monitor_handlers :: "nat list"
  application_optimizers :: "(string \<times> state) list"
  current_optimizer :: "string option"
  application_configuration :: "op_ptr option"
  proposed_best_configuration :: "op_ptr option"
  status :: ApplicationStatus

definition Asrtm :: "nat \<Rightarrow> nat \<Rightarrow> asrtm" where
  "Asrtm nr_knobs nr_metrics =
     \<lparr>application_knowledge = Knowledge, runtime_information = KnowledgeAdaptor nr_knobs nr_metrics,
      monitor_handlers = [], application_optimizers = [], current_optimizer = None,
      application_configuration = None, proposed_best_configuration = None, status = UNDEFINED\<rparr>"

subsection \<open>Application knowledge\<close>

definition as_add_operating_points :: "operating_point list \<Rightarrow> asrtm \<Rightarrow> nat \<times> asrtm" where
  "as_add_operating_points op_list a =
     (let (new_ops, kb) = collect_loop kb_add op_list (application_knowledge a)
      in (length new_ops,
          a\<lparr>application_knowledge := kb,
            application_optimizers := map (apsnd (st_add_operating_points new_ops)) (application_optimizers a)\<rparr>))"

definition as_remove_operating_points :: "segment list \<Rightarrow> asrtm \<Rightarrow> nat \<times> asrtm" where
  "as_remove_operating_points configuration_list a =
     (let (removed_ops, kb) = collect_loop kb_remove configuration_list (application_knowledge a)
      in (length removed_ops,
          a\<lparr>application_knowledge := kb,
            application_optimizers := map (apsnd (st_remove_operating_points removed_ops)) (application_optimizers a)\<rparr>))"

definition get_number_operating_points :: "asrtm \<Rightarrow> nat" where
  "get_number_operating_points a = kb_size (application_knowledge a)"

definition is_application_knowledge_empty :: "asrtm \<Rightarrow> bool" where
  "is_application_knowledge_empty a \<longleftrightarrow> kb_empty (application_knowledge a)"

definition in_design_space_exploration :: "asrtm \<Rightarrow> bool" where
  "in_design_space_exploration a \<longleftrightarrow> status a = DESIGN_SPACE_EXPLORATION \<or> status a = WITH_PREDICTION"

subsection \<open>States\<close>

definition state_find :: "string \<Rightarrow> asrtm \<Rightarrow> string option" where
  "state_find state_id a = (if map_of (application_optimizers a) state_id = None then None else Some state_id)"

definition as_create_new_state :: "string \<Rightarrow> asrtm \<Rightarrow> asrtm" where
  "as_create_new_state new_state_id a =
     (if state_find new_state_id a = None
      then let s = st_set_knowledge_adaptor (runtime_information a)
                     (st_set_knowledge_base (application_knowledge a) State_init)
           in a\<lparr>application_optimizers := application_optimizers a @ [(new_state_id, s)]\<rparr>
      else a)"

definition as_remove_state :: "string \<Rightarrow> asrtm \<Rightarrow> asrtm result" where
  "as_remove_state state_id a =
     (let state_it = state_find state_id a
      in guard_assert (state_it \<noteq> current_optimizer a) ''Error: attempt to delete the active state''
           (Inr (if state_it \<noteq> None
                 then a\<lparr>application_optimizers := filter (\<lambda>e. fst e \<noteq> state_id) (application_optimizers a)\<rparr>
                 else a)))"

definition as_change_active_state :: "string \<Rightarrow> asrtm \<Rightarrow> asrtm result" where
  "as_change_active_state state_id a =
     guard_assert (state_find state_id a \<noteq> None) ''Error: attempt to switch to a non-existent state''
       (Inr (a\<lparr>current_optimizer := state_find state_id a\<rparr>))"

definition which_active_state :: "asrtm \<Rightarrow> string result" where
  "which_active_state a =
     (case current_optimizer a of
        None \<Rightarrow> Inl (Assertion_failed ''Error: get the id of a non-existent state'')
      | Some i \<Rightarrow> Inr i)"

text \<open>\<^verbatim>\<open>current_optimizer->second\<close> and its update.\<close>

definition active_state :: "asrtm \<Rightarrow> state option" where
  "active_state a = Option.bind (current_optimizer a) (map_of (application_optimizers a))"

definition set_state :: "string \<Rightarrow> state \<Rightarrow> asrtm \<Rightarrow> asrtm" where
  "set_state i s a =
     a\<lparr>application_optimizers := map (\<lambda>e. if fst e = i then (i, s) else e) (application_optimizers a)\<rparr>"

definition with_active :: "string \<Rightarrow> (state \<Rightarrow> state) \<Rightarrow> asrtm \<Rightarrow> asrtm result" where
  "with_active msg f a =
     (case (current_optimizer a, active_state a) of
        (Some i, Some s) \<Rightarrow> Inr (set_state i (f s) a)
      | _ \<Rightarrow> Inl (Assertion_failed msg))"

definition as_add_constraint ::
    "OperatingPointSegments \<Rightarrow> nat \<Rightarrow> int \<Rightarrow> goal \<Rightarrow> int \<Rightarrow> heap \<Rightarrow> asrtm \<Rightarrow> asrtm result" where
  "as_add_constraint segment i sig g priority h a =
     with_active ''Error: AS-RTM attempt to add a Constraint when there is no active state''
       (st_add_constraint segment i sig g priority (application_knowledge a) (runtime_information a) h) a"

definition as_remove_constraint :: "int \<Rightarrow> asrtm \<Rightarrow> asrtm result" where
  "as_remove_constraint priority a =
     with_active ''Error: AS-RTM attempt to remove a Constraint when there is no active state''
       (st_remove_constraint priority) a"

definition as_set_rank :: "RankObjective \<Rightarrow> FieldComposer \<Rightarrow> op_field \<Rightarrow> op_field list \<Rightarrow> asrtm \<Rightarrow> asrtm result" where
  "as_set_rank obj composer f fs a =
     with_active ''Error: AS-RTM attempt to set the Rank when there is no active state''
       (st_set_rank obj composer f fs) a"

subsection \<open>Run-time information\<close>

definition as_add_runtime_knowledge ::
    "OperatingPointSegments \<Rightarrow> nat \<Rightarrow> nat \<Rightarrow> nat \<Rightarrow> heap \<Rightarrow> asrtm \<Rightarrow> heap \<times> asrtm" where
  "as_add_runtime_knowledge segment i n monitor_buffer h a =
     (let (h', ka) = ka_emplace segment i n monitor_buffer h (runtime_information a)
      in (h', a\<lparr>runtime_information := ka, monitor_handlers := monitor_handlers a @ [monitor_buffer],
                application_optimizers := map (apsnd (st_set_knowledge_adaptor ka)) (application_optimizers a)\<rparr>))"

text \<open>
  \<^verbatim>\<open>evaluate_error\<close> on a null operating point: an adaptor dereferences it only when its
  monitor has a full window.
\<close>

fun evaluate_error_null :: "nat option list \<Rightarrow> heap \<Rightarrow> heap result" where
  "evaluate_error_null [] h = Inr h"
| "evaluate_error_null (None # as) h = evaluate_error_null as h"
| "evaluate_error_null (Some a # as) h =
     (let b = ad_buffer (adaptor_cells h a);
          (observed_value, coefficient_is_valid, q) = monitor_utils_get AVERAGE (monitors h b)
      in if coefficient_is_valid then Inl (Undefined_behaviour ''null operating point'')
         else evaluate_error_null as (h\<lparr>monitors := (monitors h)(b := q)\<rparr>))"

definition as_evaluate_error :: "heap \<Rightarrow> asrtm \<Rightarrow> heap result" where
  "as_evaluate_error h a =
     (case application_configuration a of
        Some op \<Rightarrow> ka_evaluate_error op (runtime_information a) h
      | None \<Rightarrow> evaluate_error_null (adaptors (runtime_information a)) h)"

definition as_find_best_configuration :: "heap \<Rightarrow> asrtm \<Rightarrow> (heap \<times> asrtm) result" where
  "as_find_best_configuration h a =
     bind_result (if status a = TUNED then as_evaluate_error h a else Inr h)
       (\<lambda>h'. case (current_optimizer a, active_state a) of
                (Some i, Some s) \<Rightarrow>
                  bind_result (st_get_best_operating_point h' s)
                    (\<lambda>(found, s'). Inr (h', set_state i s' (a\<lparr>proposed_best_configuration := found\<rparr>)))
              | _ \<Rightarrow> Inr (h', a))"

definition as_get_best_configuration :: "asrtm \<Rightarrow> (segment \<times> bool \<times> asrtm) result" where
  "as_get_best_configuration a =
     (case proposed_best_configuration a of
        None \<Rightarrow> Inl (Assertion_failed ''Error: AS-RTM attempt to retrieve the best configuration from an empty state'')
      | Some proposed \<Rightarrow>
          if proposed_best_configuration a \<noteq> application_configuration a
          then Inr (software_knobs (deref proposed), True,
                    if status a \<noteq> DESIGN_SPACE_EXPLORATION then a\<lparr>status := UNDEFINED\<rparr> else a)
          else Inr (software_knobs (deref proposed), False, a))"

text \<open>The clock is read when each monitor is cleared: \<open>now i\<close> is its value for the i-th handler.\<close>

fun clear_monitors :: "(nat \<Rightarrow> nat) \<Rightarrow> nat \<Rightarrow> nat list \<Rightarrow> heap \<Rightarrow> heap" where
  "clear_monitors now i [] h = h"
| "clear_monitors now i (b # bs) h =
     clear_monitors now (Suc i) bs (h\<lparr>monitors := (monitors h)(b := monitor_clear (now i) (monitors h b))\<rparr>)"

definition as_configuration_applied :: "(nat \<Rightarrow> nat) \<Rightarrow> heap \<Rightarrow> asrtm \<Rightarrow> heap \<times> asrtm" where
  "as_configuration_applied now h a =
     (if application_configuration a \<noteq> proposed_best_configuration a \<and> status a \<noteq> DESIGN_SPACE_EXPLORATION
      then clear_monitors now 0 (monitor_handlers a) h else h,
      a\<lparr>application_configuration := proposed_best_configuration a,
        status := (if status a \<noteq> DESIGN_SPACE_EXPLORATION then TUNED else DESIGN_SPACE_EXPLORATION)\<rparr>)"

definition as_get_mean :: "OperatingPointSegments \<Rightarrow> nat \<Rightarrow> asrtm \<Rightarrow> real result" where
  "as_get_mean segment i a =
     (case application_configuration a of
        None \<Rightarrow> Inl (Assertion_failed ''Error: AS-RTM attempt to retrieve information from an empty application configutation'')
      | Some op \<Rightarrow>
          Inr (evaluator SIMPLE
                \<lparr>target_segment = segment, target_bound = LOWER, field_index = i, sigma = 0, coefficient = 1\<rparr> [] op))"

subsection \<open>Siblings and data features\<close>

text \<open>
  The comparison that should select the active state, \<^verbatim>\<open>state.first == result.first->first\<close>,
  compares the key of the new state with itself.
\<close>

fun sibling_loop :: "heap \<Rightarrow> (string \<times> state) list \<Rightarrow> (string \<times> state) list \<Rightarrow> string option
    \<Rightarrow> (string \<times> state) list \<times> string option" where
  "sibling_loop h [] cloned current = (cloned, current)"
| "sibling_loop h ((i, s) # rest) cloned current =
     (let key = i
      in sibling_loop h rest (cloned @ [(key, st_create_sibling h s)]) (if i = key then Some key else current))"

definition as_create_sibling :: "heap \<Rightarrow> asrtm \<Rightarrow> heap \<times> asrtm" where
  "as_create_sibling h a =
     (let cloned_manager = Asrtm 0 0;
          (optimizers, current) = sibling_loop h (application_optimizers a) [] None
      in (ka_reset (runtime_information a) h,
          cloned_manager\<lparr>application_optimizers := optimizers, current_optimizer := current,
                         runtime_information := runtime_information a, monitor_handlers := monitor_handlers a\<rparr>))"

definition as_restore_from_data_feature_switch :: "asrtm \<Rightarrow> asrtm" where
  "as_restore_from_data_feature_switch a =
     a\<lparr>status := (if status a \<noteq> DESIGN_SPACE_EXPLORATION then UNDEFINED else DESIGN_SPACE_EXPLORATION),
       application_configuration := None\<rparr>"

subsection \<open>Remote exploration\<close>

definition as_set_knowledge :: "knowledge_base \<Rightarrow> asrtm \<Rightarrow> asrtm" where
  "as_set_knowledge kb a =
     a\<lparr>application_knowledge := kb,
       application_optimizers := map (apsnd (st_set_knowledge_base kb)) (application_optimizers a)\<rparr>"

definition as_set_single_point :: "operating_point \<Rightarrow> asrtm \<Rightarrow> asrtm" where
  "as_set_single_point point a =
     (as_set_knowledge (snd (kb_add point (kb_clear (application_knowledge a)))) a)
       \<lparr>status := DESIGN_SPACE_EXPLORATION, proposed_best_configuration := None\<rparr>"

definition as_set_autotuner_in_dse :: "asrtm \<Rightarrow> asrtm" where
  "as_set_autotuner_in_dse a = a\<lparr>status := DESIGN_SPACE_EXPLORATION\<rparr>"

definition as_set_model :: "operating_point list \<Rightarrow> heap \<Rightarrow> asrtm \<Rightarrow> heap \<times> asrtm" where
  "as_set_model model h a =
     (ka_reset (runtime_information a) h,
      (as_set_knowledge (snd (collect_loop kb_add model (kb_clear (application_knowledge a)))) a)
        \<lparr>status := WITH_PREDICTION, proposed_best_configuration := None\<rparr>)"

text \<open>
  The support thread. The conversion of a payload to operating points is generated code, a
  parameter; the messages the thread receives until the client disconnects are a list, and so
  are the messages it sends. \<^verbatim>\<open>substr\<close> throws when the topic has no separator.
\<close>

definition last_component :: "string \<Rightarrow> string option" where
  "last_component t =
     (if CHR ''/'' \<in> set t then Some (CHR ''/'' # rev (takeWhile (\<lambda>c. c \<noteq> CHR ''/'') (rev t))) else None)"

definition welcome_message :: "string \<Rightarrow> string \<Rightarrow> string \<Rightarrow> message_model" where
  "welcome_message app_id my_client_id application_description =
     \<lparr>topic = MESSAGE_HEADER @ ''/'' @ app_id @ ''/welcome/'' @ my_client_id, payload = application_description\<rparr>"

definition handle_message ::
    "(string \<Rightarrow> operating_point list) \<Rightarrow> message_model \<Rightarrow> message_model \<Rightarrow> heap \<times> asrtm
     \<Rightarrow> (message_model list \<times> heap \<times> asrtm) result" where
  "handle_message get_op welcome msg = (\<lambda>(h, a).
     case last_component (topic msg) of
       None \<Rightarrow> Inl (Runtime_error ''std::out_of_range'')
     | Some message_type \<Rightarrow>
         if message_type = ''/explore'' then
           (case get_op (payload msg) of
              [] \<Rightarrow> Inl (Assertion_failed ''error: receiving an empty list of op from server'')
            | op # ops \<Rightarrow> Inr ([], h, as_set_single_point op a))
         else if message_type = ''/prediction'' then Inr ([], as_set_model (get_op (payload msg)) h a)
         else if message_type = ''/welcome'' then Inr ([welcome], h, a)
         else Inr ([], h, a))"

fun handler_loop ::
    "(string \<Rightarrow> operating_point list) \<Rightarrow> message_model \<Rightarrow> message_model list \<Rightarrow> heap \<times> asrtm
     \<Rightarrow> (message_model list \<times> heap \<times> asrtm) result" where
  "handler_loop get_op welcome [] st = Inr ([], st)"
| "handler_loop get_op welcome (msg # incoming) st =
     bind_result (handle_message get_op welcome msg st)
       (\<lambda>(sent, st'). bind_result (handler_loop get_op welcome incoming st')
          (\<lambda>(sent', st''). Inr (sent @ sent', st'')))"

definition subscriptions :: "string \<Rightarrow> string \<Rightarrow> string list" where
  "subscriptions app_id my_client_id =
     [MESSAGE_HEADER @ ''/'' @ app_id @ ''/'' @ my_client_id @ ''/#'',
      MESSAGE_HEADER @ ''/'' @ app_id @ ''/prediction'', MESSAGE_HEADER @ ''/welcome'']"

text \<open>
  The observation of the application, with the time of the system clock, in nanoseconds since
  the epoch, split into seconds and nanoseconds. The message with a delta carries no time.
\<close>

definition send_observation :: "string \<Rightarrow> string \<Rightarrow> int \<Rightarrow> string \<Rightarrow> message_model" where
  "send_observation app_id my_client_id now observation =
     (let sec_since_now = now div 1000000000; ns_since_sec = now - sec_since_now * 1000000000
      in \<lparr>topic = MESSAGE_HEADER @ ''/'' @ app_id @ ''/observation/'' @ my_client_id,
          payload = std_to_string sec_since_now @ ''@'' @ std_to_string ns_since_sec @ ''@'' @ observation\<rparr>)"

definition send_delta :: "string \<Rightarrow> string \<Rightarrow> string \<Rightarrow> message_model" where
  "send_delta app_id my_client_id message =
     \<lparr>topic = MESSAGE_HEADER @ ''/'' @ app_id @ ''/delta/'' @ my_client_id, payload = message\<rparr>"

text \<open>\<^verbatim>\<open>start_support_thread\<close> sets the status and runs the handler, which first announces itself.\<close>

definition local_application_handler ::
    "(string \<Rightarrow> operating_point list) \<Rightarrow> string \<Rightarrow> string \<Rightarrow> string \<Rightarrow> message_model list \<Rightarrow> heap \<times> asrtm
     \<Rightarrow> (string list \<times> message_model list \<times> heap \<times> asrtm) result" where
  "local_application_handler get_op app_id my_client_id application_description incoming st =
     (let welcome = welcome_message app_id my_client_id application_description
      in bind_result (handler_loop get_op welcome incoming st)
           (\<lambda>(sent, st'). Inr (subscriptions app_id my_client_id, welcome # sent, st')))"

definition start_support_thread :: "asrtm \<Rightarrow> asrtm" where
  "start_support_thread a = a\<lparr>status := DESIGN_SPACE_EXPLORATION\<rparr>"

section \<open>Executions\<close>

text \<open>
  The calls of the application thread and of the support thread, the new goal values and the
  observations that reach the monitors.
\<close>

datatype call =
    Add_operating_points "operating_point list"
  | Remove_operating_points "segment list"
  | Create_new_state string
  | Remove_state string
  | Change_active_state string
  | Add_constraint OperatingPointSegments nat int goal int
  | Remove_constraint int
  | Set_rank RankObjective FieldComposer op_field "op_field list"
  | Add_runtime_knowledge OperatingPointSegments nat nat nat
  | Find_best_configuration
  | Get_best_configuration
  | Configuration_applied "nat \<Rightarrow> nat"
  | Restore_from_data_feature_switch
  | Set_single_point operating_point
  | Set_autotuner_in_dse
  | Set_model "operating_point list"
  | Goal_set goal real
  | Monitor_push nat nat real

fun run_call :: "call \<Rightarrow> heap \<times> asrtm \<Rightarrow> (heap \<times> asrtm) result" where
  "run_call (Add_operating_points ops) (h, a) = Inr (h, snd (as_add_operating_points ops a))"
| "run_call (Remove_operating_points confs) (h, a) = Inr (h, snd (as_remove_operating_points confs a))"
| "run_call (Create_new_state i) (h, a) = Inr (h, as_create_new_state i a)"
| "run_call (Remove_state i) (h, a) = map_sum id (Pair h) (as_remove_state i a)"
| "run_call (Change_active_state i) (h, a) = map_sum id (Pair h) (as_change_active_state i a)"
| "run_call (Add_constraint seg i sig g priority) (h, a) = map_sum id (Pair h) (as_add_constraint seg i sig g priority h a)"
| "run_call (Remove_constraint priority) (h, a) = map_sum id (Pair h) (as_remove_constraint priority a)"
| "run_call (Set_rank obj composer f fs) (h, a) = map_sum id (Pair h) (as_set_rank obj composer f fs a)"
| "run_call (Add_runtime_knowledge seg i n b) (h, a) = Inr (as_add_runtime_knowledge seg i n b h a)"
| "run_call Find_best_configuration (h, a) = as_find_best_configuration h a"
| "run_call Get_best_configuration (h, a) = map_sum id (\<lambda>(conf, changed, a'). (h, a')) (as_get_best_configuration a)"
| "run_call (Configuration_applied now) (h, a) = Inr (as_configuration_applied now h a)"
| "run_call Restore_from_data_feature_switch (h, a) = Inr (h, as_restore_from_data_feature_switch a)"
| "run_call (Set_single_point op) (h, a) = Inr (h, as_set_single_point op a)"
| "run_call Set_autotuner_in_dse (h, a) = Inr (h, as_set_autotuner_in_dse a)"
| "run_call (Set_model ops) (h, a) = Inr (as_set_model ops h a)"
| "run_call (Goal_set g v) (h, a) = Inr (h\<lparr>goals := goal_set g v (goals h)\<rparr>, a)"
| "run_call (Monitor_push now b v) (h, a) =
     map_sum id (\<lambda>p. (h\<lparr>monitors := (monitors h)(b := p)\<rparr>, a)) (monitor_push now v (monitors h b))"

text \<open>
  What a caller has to respect: the inertia of an adaptor, a template argument, is positive, a
  constraint is added where \<^verbatim>\<open>add_constraint\<close> works (\<open>add_constraint_safe\<close>), and a
  configuration is reported as applied only when there is one to apply.
\<close>

fun admissible_call :: "call \<Rightarrow> heap \<times> asrtm \<Rightarrow> bool" where
  "admissible_call (Add_constraint seg i sig g priority) (h, a) \<longleftrightarrow>
     (case active_state a of
        None \<Rightarrow> True
      | Some s \<Rightarrow>
          add_constraint_safe (new_constraint seg i sig g (application_knowledge a) (runtime_information a) h) priority (constraints s))"
| "admissible_call (Add_runtime_knowledge seg i n b) (h, a) \<longleftrightarrow> 0 < n"
| "admissible_call (Configuration_applied now) (h, a) \<longleftrightarrow> proposed_best_configuration a \<noteq> None"
| "admissible_call _ _ \<longleftrightarrow> True"

inductive step :: "heap \<times> asrtm \<Rightarrow> call \<Rightarrow> heap \<times> asrtm \<Rightarrow> bool" where
  call: "admissible_call c st \<Longrightarrow> run_call c st = Inr st' \<Longrightarrow> step st c st'"

inductive_cases stepE: "step st c st'"

inductive reachable :: "heap \<times> asrtm \<Rightarrow> bool" where
  init: "reachable (h, Asrtm nr_knobs nr_metrics)"
| step: "reachable st \<Longrightarrow> step st c st' \<Longrightarrow> reachable st'"

text \<open>A sequence of calls, run as far as the caller respects its obligations.\<close>

fun run_calls :: "call list \<Rightarrow> heap \<times> asrtm \<Rightarrow> (heap \<times> asrtm) result" where
  "run_calls [] st = Inr st"
| "run_calls (c # cs) st =
     (if admissible_call c st then bind_result (run_call c st) (run_calls cs)
      else Inl (Undefined_behaviour ''obligation of the caller''))"

lemma run_calls_reachable: "reachable st \<Longrightarrow> run_calls cs st = Inr st' \<Longrightarrow> reachable st'"
proof (induction cs arbitrary: st)
  case (Cons c cs)
  then obtain st1 where "step st c st1" "run_calls cs st1 = Inr st'" by (auto split: if_splits intro: step.call)
  then show ?case using Cons.IH reachable.step [OF Cons.prems(1)] by blast
qed simp

section \<open>Invariant\<close>

abbreviation known :: "asrtm \<Rightarrow> op_ptr set" where
  "known a \<equiv> set (kb_to_stream (application_knowledge a))"

definition asrtm_inv :: "asrtm \<Rightarrow> bool" where
  "asrtm_inv a \<longleftrightarrow>
     kb_wf (application_knowledge a)
     \<and> distinct (map fst (application_optimizers a))
     \<and> (\<forall>e \<in> set (application_optimizers a). state_inv (known a) (snd e) \<and> cache_inv (known a) (snd e))
     \<and> (\<forall>i. current_optimizer a = Some i \<longrightarrow> i \<in> fst ` set (application_optimizers a))"

lemma asrtm_invD:
  assumes "asrtm_inv a"
  shows "kb_wf (application_knowledge a)" "distinct (map fst (application_optimizers a))"
    "(i, s) \<in> set (application_optimizers a) \<Longrightarrow> state_inv (known a) s \<and> cache_inv (known a) s"
    "current_optimizer a = Some i \<Longrightarrow> i \<in> fst ` set (application_optimizers a)"
  using assms by (auto simp: asrtm_inv_def)

lemma asrtm_inv_init: "asrtm_inv (Asrtm nr_knobs nr_metrics)"
  by (simp add: asrtm_inv_def Asrtm_def)

text \<open>Changes that touch neither the knowledge nor the states.\<close>

lemma asrtm_inv_frame:
  "asrtm_inv a \<Longrightarrow> application_knowledge b = application_knowledge a \<Longrightarrow>
     application_optimizers b = application_optimizers a \<Longrightarrow> current_optimizer b = current_optimizer a \<Longrightarrow> asrtm_inv b"
  by (simp add: asrtm_inv_def)

text \<open>A change of the knowledge together with all the states.\<close>

lemma asrtm_inv_map_states:
  assumes "asrtm_inv a" and "kb_wf kb"
    and "\<And>s. state_inv (known a) s \<Longrightarrow> cache_inv (known a) s \<Longrightarrow>
      state_inv (set (kb_to_stream kb)) (f s) \<and> cache_inv (set (kb_to_stream kb)) (f s)"
    and "application_knowledge b = kb" "application_optimizers b = map (apsnd f) (application_optimizers a)"
      "current_optimizer b = current_optimizer a"
  shows "asrtm_inv b"
  using assms(1) assms(3) unfolding asrtm_inv_def assms(4-6) using assms(2) by (auto simp: image_image)

lemma active_state_mem:
  assumes "asrtm_inv a" and "current_optimizer a = Some i"
  obtains s where "active_state a = Some s" "(i, s) \<in> set (application_optimizers a)"
proof -
  have "i \<in> fst ` set (application_optimizers a)" using asrtm_invD(4) [OF assms] .
  then obtain s where "map_of (application_optimizers a) i = Some s" by (metis domD dom_map_of_conv_image_fst)
  then show ?thesis using that map_of_SomeD assms(2) by (fastforce simp: active_state_def)
qed

lemma asrtm_inv_set_state:
  assumes "asrtm_inv a" and "state_inv (known a) s" and "cache_inv (known a) s"
  shows "asrtm_inv (set_state i s a)"
proof -
  have "map fst (application_optimizers (set_state i s a)) = map fst (application_optimizers a)"
    by (simp add: set_state_def comp_def if_distrib cong: if_cong)
  then have "distinct (map fst (application_optimizers (set_state i s a)))"
    "fst ` set (application_optimizers (set_state i s a)) = fst ` set (application_optimizers a)"
    using asrtm_invD(2) [OF assms(1)] by (simp, metis list.set_map)
  then show ?thesis using assms by (auto simp: asrtm_inv_def set_state_def)
qed

lemma asrtm_inv_with_active:
  assumes inv: "asrtm_inv a" and ok: "with_active msg f a = Inr b"
    and f: "\<And>s. active_state a = Some s \<Longrightarrow> state_inv (known a) s \<Longrightarrow> cache_inv (known a) s \<Longrightarrow>
      state_inv (known a) (f s) \<and> cache_inv (known a) (f s)"
  shows "asrtm_inv b"
proof -
  obtain i where i: "current_optimizer a = Some i" using ok by (auto simp: with_active_def split: option.splits)
  obtain s where s: "active_state a = Some s" "(i, s) \<in> set (application_optimizers a)"
    using active_state_mem [OF inv i] .
  have "b = set_state i (f s) a" using ok i s by (simp add: with_active_def)
  then show ?thesis using asrtm_inv_set_state [OF inv] f [OF s(1)] asrtm_invD(3) [OF inv s(2)] by simp
qed

lemma asrtm_inv_add_points: "asrtm_inv a \<Longrightarrow> asrtm_inv (snd (as_add_operating_points ops a))"
proof -
  assume inv: "asrtm_inv a"
  obtain new kb where c: "collect_loop kb_add ops (application_knowledge a) = (new, kb)" by force
  note st = kbs.add_list_stream [OF asrtm_invD(1) [OF inv] c]
  show ?thesis
    by (rule asrtm_inv_map_states [OF inv, where f = "st_add_operating_points new" and kb = kb])
       (use st c in \<open>auto simp: as_add_operating_points_def Let_def state_inv_add_points Int_commute st_add_operating_points_def
          split: prod.splits dest: state_inv_add_points [of _ _ new]\<close>)
qed

lemma asrtm_inv_remove_points: "asrtm_inv a \<Longrightarrow> asrtm_inv (snd (as_remove_operating_points confs a))"
proof -
  assume inv: "asrtm_inv a"
  obtain gone kb where c: "collect_loop kb_remove confs (application_knowledge a) = (gone, kb)" by force
  note st = kbs.remove_list_stream [OF asrtm_invD(1) [OF inv] c]
  have "cache_inv K (st_remove_operating_points gone s)" for K s by (simp add: st_remove_operating_points_def)
  then show ?thesis
    by (intro asrtm_inv_map_states [OF inv, where f = "st_remove_operating_points gone" and kb = kb])
       (use st c in \<open>auto simp: as_remove_operating_points_def state_inv_remove_points\<close>)
qed

lemma cache_inv_new_knowledge [simp]:
  "cache_inv K (st_set_knowledge_base kb s)" "cache_inv K (st_set_knowledge_adaptor ka s)" "cache_inv K (st_add_operating_points ops s)"
  by (simp_all add: st_set_knowledge_base_def st_set_knowledge_adaptor_def st_add_operating_points_def split: prod.splits)

lemma asrtm_inv_set_knowledge: "asrtm_inv a \<Longrightarrow> kb_wf kb \<Longrightarrow> asrtm_inv (as_set_knowledge kb a)"
proof -
  assume inv: "asrtm_inv a" and kb: "kb_wf kb"
  have "state_inv (set (kb_to_stream kb)) (st_set_knowledge_base kb s)" if "state_inv (known a) s" for s
    using that by (intro state_inv_set_knowledge_base [OF _ kb]) (simp add: state_inv_def stack_inv_def)
  then show ?thesis
    by (intro asrtm_inv_map_states [OF inv kb, where f = "st_set_knowledge_base kb"]) (auto simp: as_set_knowledge_def)
qed

lemma asrtm_inv_create_state: "asrtm_inv a \<Longrightarrow> asrtm_inv (as_create_new_state i a)"
proof -
  assume inv: "asrtm_inv a"
  have "state_inv (known a) (st_set_knowledge_base (application_knowledge a) State_init)"
    by (intro state_inv_set_knowledge_base asrtm_invD(1) [OF inv]) (simp add: State_init_def)
  then have "state_inv (known a) (st_set_knowledge_adaptor ka (st_set_knowledge_base (application_knowledge a) State_init))" for ka
    by (rule state_inv_set_adaptor)
  then show ?thesis
    using inv by (auto simp: as_create_new_state_def state_find_def asrtm_inv_def Let_def map_of_eq_None_iff)
qed

lemma asrtm_inv_remove_state:
  assumes inv: "asrtm_inv a" and ok: "as_remove_state i a = Inr b"
  shows "asrtm_inv b"
proof (cases "state_find i a")
  case None
  then show ?thesis using assms by (simp add: as_remove_state_def Let_def)
next
  case (Some j)
  then have j: "j = i" "current_optimizer a \<noteq> Some i"
    and b: "b = a\<lparr>application_optimizers := filter (\<lambda>e. fst e \<noteq> i) (application_optimizers a)\<rparr>"
    using ok by (auto simp: as_remove_state_def Let_def state_find_def split: if_splits)
  have "k \<in> fst ` {e \<in> set (application_optimizers a). fst e \<noteq> i}" if "current_optimizer a = Some k" for k
    using asrtm_invD(4) [OF inv that] that j(2) by auto
  then show ?thesis
    using inv by (auto simp: b asrtm_inv_def distinct_map_filter)
qed

lemma asrtm_inv_find_best:
  assumes inv: "asrtm_inv a" and ok: "as_find_best_configuration h a = Inr (h', b)"
  shows "asrtm_inv b"
proof (cases "current_optimizer a")
  case None
  then show ?thesis using ok inv by (auto simp: as_find_best_configuration_def)
next
  case (Some i)
  obtain s where s: "active_state a = Some s" "(i, s) \<in> set (application_optimizers a)"
    using active_state_mem [OF inv Some] .
  note S = asrtm_invD(3) [OF inv s(2)]
  obtain found s' where f: "st_get_best_operating_point h' s = Inr (found, s')" "state_inv (known a) s'" "cache_inv (known a) s'"
    using get_best_cases [OF conjunct1 [OF S] conjunct2 [OF S], of h'] by blast
  have "b = set_state i s' (a\<lparr>proposed_best_configuration := found\<rparr>)"
    using ok Some s(1) f(1) by (auto simp: as_find_best_configuration_def)
  moreover have "asrtm_inv (a\<lparr>proposed_best_configuration := found\<rparr>)"
    using inv by (rule asrtm_inv_frame) simp_all
  ultimately show ?thesis using asrtm_inv_set_state f(2,3) by simp
qed

lemma kb_wf_collect_add: "kb_wf kb \<Longrightarrow> kb_wf (snd (collect_loop kb_add ops kb))"
  using kbs.add_list_stream [of kb ops] by (metis prod.collapse)

text \<open>Every call keeps the invariant.\<close>

lemma step_inv:
  assumes "step (h, a) c (h', b)" and inv: "asrtm_inv a"
  shows "asrtm_inv b"
proof -
  have adm: "admissible_call c (h, a)" and run: "run_call c (h, a) = Inr (h', b)" using assms(1) by (auto elim: stepE)
  show ?thesis
  proof (cases c)
    case (Add_constraint seg i sig g priority)
    then have "as_add_constraint seg i sig g priority h a = Inr b" using run by (cases "as_add_constraint seg i sig g priority h a") auto
    then show ?thesis
      unfolding as_add_constraint_def
    proof (rule asrtm_inv_with_active [OF inv], intro conjI)
      fix s assume s: "active_state a = Some s" "state_inv (known a) s" "cache_inv (known a) s"
      then show "state_inv (known a) (st_add_constraint seg i sig g priority (application_knowledge a) (runtime_information a) h s)"
        using state_inv_add_constraint_iff [OF asrtm_invD(1) [OF inv]] adm Add_constraint by simp
    qed (rule cache_inv_add_constraint)
  next
    case (Remove_constraint priority)
    then have "as_remove_constraint priority a = Inr b" using run by (cases "as_remove_constraint priority a") auto
    then show ?thesis unfolding as_remove_constraint_def
      by (rule asrtm_inv_with_active [OF inv]) (simp add: state_inv_remove_constraint cache_inv_remove_constraint)
  next
    case (Set_rank obj composer f fs)
    then have "as_set_rank obj composer f fs a = Inr b" using run by (cases "as_set_rank obj composer f fs a") auto
    then show ?thesis unfolding as_set_rank_def
      by (rule asrtm_inv_with_active [OF inv]) (simp add: state_inv_set_rank cache_inv_set_rank)
  next
    case (Remove_state i)
    then have "as_remove_state i a = Inr b" using run by (cases "as_remove_state i a") auto
    then show ?thesis by (rule asrtm_inv_remove_state [OF inv])
  next
    case (Change_active_state i)
    then have "as_change_active_state i a = Inr b" using run by (cases "as_change_active_state i a") auto
    then have "b = a\<lparr>current_optimizer := Some i\<rparr>" "i \<in> fst ` set (application_optimizers a)"
      by (auto simp: as_change_active_state_def state_find_def map_of_eq_None_iff image_iff split: if_splits)
    then show ?thesis using inv by (simp add: asrtm_inv_def)
  next
    case (Add_runtime_knowledge seg i n m)
    then have "b = snd (as_add_runtime_knowledge seg i n m h a)" using run by simp
    then show ?thesis
      by (intro asrtm_inv_map_states [OF inv asrtm_invD(1) [OF inv],
            where f = "st_set_knowledge_adaptor (snd (ka_emplace seg i n m h (runtime_information a)))"])
         (auto simp: as_add_runtime_knowledge_def state_inv_set_adaptor split: prod.splits)
  next
    case (Set_single_point op)
    then have "b = as_set_single_point op a" using run by simp
    moreover have "kb_wf (snd (kb_add op (kb_clear (application_knowledge a))))"
      by (intro kbs.invar_add kb_wf_clear asrtm_invD(1) [OF inv])
    ultimately show ?thesis
      using asrtm_inv_frame [OF asrtm_inv_set_knowledge [OF inv]] by (simp add: as_set_single_point_def)
  next
    case (Set_model ops)
    then have "b = snd (as_set_model ops h a)" using run by simp
    moreover have "kb_wf (snd (collect_loop kb_add ops (kb_clear (application_knowledge a))))"
      by (intro kb_wf_collect_add kb_wf_clear asrtm_invD(1) [OF inv])
    ultimately show ?thesis
      using asrtm_inv_frame [OF asrtm_inv_set_knowledge [OF inv]] by (simp add: as_set_model_def)
  next
    case Get_best_configuration
    then have "\<exists>r. as_get_best_configuration a = Inr r \<and> b = snd (snd r)"
      using run by (cases "as_get_best_configuration a") auto
    then show ?thesis
      using inv by (auto simp: as_get_best_configuration_def split: option.splits if_splits intro: asrtm_inv_frame [OF inv])
  next
    case Find_best_configuration
    then show ?thesis using run asrtm_inv_find_best [OF inv] by simp
  next
    case (Monitor_push now m v)
    then show ?thesis using run inv by (cases "monitor_push now v (monitors h m)") auto
  qed (use run inv in \<open>auto simp: as_configuration_applied_def as_restore_from_data_feature_switch_def as_set_autotuner_in_dse_def
      intro: asrtm_inv_add_points asrtm_inv_remove_points asrtm_inv_create_state asrtm_inv_frame [OF inv]\<close>)
qed

lemma reachable_inv: "reachable st \<Longrightarrow> asrtm_inv (snd st)"
proof (induction rule: reachable.induct)
  case (init h nr_knobs nr_metrics)
  then show ?case by (simp add: asrtm_inv_init)
next
  case (step st c st')
  then show ?case using step_inv [of "fst st" "snd st" c "fst st'" "snd st'"] by simp
qed

subsection \<open>The adaptors in use\<close>

definition adaptor_ok :: "heap \<Rightarrow> nat \<Rightarrow> bool" where
  "adaptor_ok h x \<longleftrightarrow> x < next_adaptor h \<and> ew_wf (adaptor_cells h x) \<and> 0 < inertia (adaptor_cells h x)"

definition adaptors_ok :: "heap \<Rightarrow> asrtm \<Rightarrow> bool" where
  "adaptors_ok h a \<longleftrightarrow> (\<forall>x. Some x \<in> set (adaptors (runtime_information a)) \<longrightarrow> adaptor_ok h x)"

lemma adaptors_ok_frame:
  "adaptors_ok h a \<Longrightarrow> runtime_information b = runtime_information a \<Longrightarrow> (\<And>x. adaptor_ok h x \<Longrightarrow> adaptor_ok h' x)
   \<Longrightarrow> adaptors_ok h' b"
  by (simp add: adaptors_ok_def)

lemma adaptor_evaluate_error_ok:
  assumes "ew_wf c" and "0 < inertia c"
  shows "\<exists>c' p'. adaptor_evaluate_error op c p = Inr (c', p') \<and> ew_wf c' \<and> inertia c' = inertia c"
proof -
  obtain v valid q where comp: "adaptor_compute c op p = (v, valid, q)" by (metis prod_cases3)
  obtain c' where st: "store_coefficient 0 v c = Inr c'" using store_coefficient_total [OF assms] by blast
  then have "ew_wf c'" "inertia c' = inertia c"
    using store_coefficient_contents [OF assms(1) st] store_coefficient_frame(1) [OF st] by simp_all
  then show ?thesis using comp st assms by (cases valid) (auto simp: adaptor_evaluate_error_def)
qed

lemma evaluate_error_loop_ok:
  assumes "\<forall>x. Some x \<in> set as \<longrightarrow> adaptor_ok h x"
  shows "\<exists>h'. evaluate_error_loop op as h = Inr h' \<and> (\<forall>x. adaptor_ok h x \<longrightarrow> adaptor_ok h' x)"
  using assms
proof (induction op as h rule: evaluate_error_loop.induct)
  case (3 op a as h)
  let ?c = "adaptor_cells h a"
  obtain c' p' where e: "adaptor_evaluate_error op ?c (monitors h (ad_buffer ?c)) = Inr (c', p')"
    "ew_wf c'" "inertia c' = inertia ?c"
    using adaptor_evaluate_error_ok 3(2) by (metis adaptor_ok_def list.set_intros(1))
  let ?h = "h\<lparr>adaptor_cells := (adaptor_cells h)(a := c'), monitors := (monitors h)(ad_buffer ?c := p')\<rparr>"
  have step: "adaptor_ok ?h x" if "adaptor_ok h x" for x using that e(2,3) by (auto simp: adaptor_ok_def)
  have "\<forall>x. Some x \<in> set as \<longrightarrow> adaptor_ok ?h x" using 3(2) step by simp
  from 3(1) [OF refl e(1) refl this] show ?case using e(1) step by (auto simp: Let_def)
qed auto

lemma reset_loop_ok: "adaptor_ok h x \<Longrightarrow> adaptor_ok (reset_loop as h) x"
proof (induction as h rule: reset_loop.induct)
  case (3 a as h)
  have "inertia (clear_observations c) = inertia c" for c by (simp add: clear_observations_def)
  then have "adaptor_ok (h\<lparr>adaptor_cells := (adaptor_cells h)(a := clear_observations (adaptor_cells h a))\<rparr>) x"
    using 3(2) by (auto simp: adaptor_ok_def)
  then show ?case using 3(1) by simp
qed auto

lemma clear_monitors_ok [simp]: "adaptor_ok (clear_monitors now i bs h) x = adaptor_ok h x"
  by (induction now i bs h rule: clear_monitors.induct) (auto simp: adaptor_ok_def)

lemma emplace_ok:
  assumes "adaptors_ok h a" and "0 < n" and "ka_emplace seg i n m h (runtime_information a) = (h', ka)"
  shows "\<forall>x. Some x \<in> set (adaptors ka) \<longrightarrow> adaptor_ok h' x"
proof -
  have *: "Some x \<in> set (xs[k := Some y]) \<Longrightarrow> x = y \<or> Some x \<in> set xs" for x y k and xs :: "nat option list"
    using set_update_subset_insert [of xs k "Some y"] by auto
  show ?thesis
    using assms * by (fastforce simp: adaptors_ok_def adaptor_ok_def ka_emplace_def Let_def OneSigmaAdaptor_def ew_wf_def)
qed

text \<open>The whole invariant of an execution.\<close>

definition run_inv :: "heap \<times> asrtm \<Rightarrow> bool" where
  "run_inv st \<longleftrightarrow> asrtm_inv (snd st) \<and> adaptors_ok (fst st) (snd st)
     \<and> (status (snd st) = TUNED \<longrightarrow> application_configuration (snd st) \<noteq> None)"

lemma with_active_frame:
  "with_active msg f a = Inr b \<Longrightarrow> runtime_information b = runtime_information a \<and> status b = status a
     \<and> application_configuration b = application_configuration a \<and> proposed_best_configuration b = proposed_best_configuration a"
  by (auto simp: with_active_def set_state_def split: option.splits)

lemma map_sum_Inr: "map_sum f g r = Inr y \<longleftrightarrow> (\<exists>x. r = Inr x \<and> y = g x)"
  by (cases r) auto

text \<open>Evaluating the run-time information and solving never fail.\<close>

lemma find_best_total:
  assumes inv: "run_inv (h, a)"
  shows "\<exists>h' b. as_find_best_configuration h a = Inr (h', b) \<and> (\<forall>x. adaptor_ok h x \<longrightarrow> adaptor_ok h' x)
    \<and> (status a \<noteq> TUNED \<longrightarrow> h' = h)
    \<and> runtime_information b = runtime_information a \<and> status b = status a \<and> application_configuration b = application_configuration a
    \<and> (\<forall>s. active_state a = Some s \<longrightarrow>
         (\<exists>s'. st_get_best_operating_point h' s = Inr (proposed_best_configuration b, s')))"
proof -
  have A: "asrtm_inv a" using inv by (simp add: run_inv_def)
  obtain h' where h': "(if status a = TUNED then as_evaluate_error h a else Inr h) = Inr h'"
    "\<forall>x. adaptor_ok h x \<longrightarrow> adaptor_ok h' x" "status a \<noteq> TUNED \<longrightarrow> h' = h"
  proof (cases "status a = TUNED")
    case True
    then obtain op where "application_configuration a = Some op" using inv by (auto simp: run_inv_def)
    moreover obtain h' where "ka_evaluate_error op (runtime_information a) h = Inr h'" "\<forall>x. adaptor_ok h x \<longrightarrow> adaptor_ok h' x"
      using evaluate_error_loop_ok [of "adaptors (runtime_information a)" h op] inv
      by (auto simp: run_inv_def adaptors_ok_def ka_evaluate_error_def)
    ultimately show ?thesis using that True by (simp add: as_evaluate_error_def)
  qed (use that in simp)
  show ?thesis
  proof (cases "current_optimizer a")
    case None
    then show ?thesis using h' by (simp add: as_find_best_configuration_def active_state_def)
  next
    case (Some i)
    obtain s where s: "active_state a = Some s" "(i, s) \<in> set (application_optimizers a)"
      using active_state_mem [OF A Some] .
    note S = asrtm_invD(3) [OF A s(2)]
    obtain found s' where "st_get_best_operating_point h' s = Inr (found, s')"
      using get_best_cases [OF conjunct1 [OF S] conjunct2 [OF S], of h'] by blast
    then show ?thesis using h' Some s(1) by (simp add: as_find_best_configuration_def set_state_def)
  qed
qed

lemma run_inv_init: "run_inv (h, Asrtm nr_knobs nr_metrics)"
  by (simp add: run_inv_def asrtm_inv_init) (simp add: Asrtm_def adaptors_ok_def KnowledgeAdaptor_def)

text \<open>Calls that leave the store, the adaptors and the configuration of the application alone.\<close>

lemma run_inv_frame:
  assumes "run_inv (h, a)" and "asrtm_inv b" and "runtime_information b = runtime_information a"
    and "status b = TUNED \<longrightarrow> application_configuration b \<noteq> None" and "\<And>x. adaptor_ok h x \<Longrightarrow> adaptor_ok h' x"
  shows "run_inv (h', b)"
  using assms adaptors_ok_frame [of h a b h'] by (simp add: run_inv_def)

lemmas call_defs = as_add_operating_points_def as_remove_operating_points_def as_create_new_state_def
  as_remove_state_def as_change_active_state_def as_add_constraint_def as_remove_constraint_def as_set_rank_def Let_def
  as_restore_from_data_feature_switch_def as_set_single_point_def as_set_knowledge_def as_set_autotuner_in_dse_def

lemma step_run_inv:
  assumes st: "step (h, a) c (h', b)" and inv: "run_inv (h, a)"
  shows "run_inv (h', b)"
proof -
  have adm: "admissible_call c (h, a)" and run: "run_call c (h, a) = Inr (h', b)" using st by (auto elim: stepE)
  have tuned: "status a = TUNED \<Longrightarrow> application_configuration a \<noteq> None" and A: "asrtm_inv b"
    using inv step_inv [OF st] by (auto simp: run_inv_def)
  show ?thesis
  proof (cases c)
    case Find_best_configuration
    then show ?thesis using find_best_total [OF inv] run tuned by (auto intro!: run_inv_frame [OF inv A])
  next
    case (Add_runtime_knowledge seg i n m)
    obtain h1 ka where e: "ka_emplace seg i n m h (runtime_information a) = (h1, ka)" by force
    then have "h' = h1" "runtime_information b = ka" "status b = status a" "application_configuration b = application_configuration a"
      using run Add_runtime_knowledge by (auto simp: as_add_runtime_knowledge_def)
    then show ?thesis
      using emplace_ok [OF _ _ e] inv adm A tuned Add_runtime_knowledge by (auto simp: run_inv_def adaptors_ok_def)
  next
    case Get_best_configuration
    then have "h' = h" "b = a \<or> b = a\<lparr>status := UNDEFINED\<rparr>"
      using run by (auto simp: map_sum_Inr as_get_best_configuration_def split: option.splits if_splits)
    then show ?thesis using tuned by (intro run_inv_frame [OF inv A]) auto
  next
    case (Configuration_applied now)
    then show ?thesis
      by (intro run_inv_frame [OF inv A]) (use run adm in \<open>auto simp: as_configuration_applied_def split: if_splits\<close>)
  next
    case (Set_model ops)
    then show ?thesis
      by (intro run_inv_frame [OF inv A])
         (use run in \<open>auto simp: as_set_model_def as_set_knowledge_def ka_reset_def reset_loop_ok\<close>)
  next
    case (Monitor_push now m v)
    then show ?thesis
      by (intro run_inv_frame [OF inv A]) (use run tuned in \<open>auto simp: map_sum_Inr adaptor_ok_def\<close>)
  next
    case (Goal_set g v)
    then show ?thesis
      by (intro run_inv_frame [OF inv A]) (use run tuned in \<open>auto simp: adaptor_ok_def\<close>)
  qed (intro run_inv_frame [OF inv A]; use run tuned in \<open>auto simp: map_sum_Inr call_defs dest!: with_active_frame
      split: prod.splits if_splits\<close>)+
qed

lemma reachable_run_inv: "reachable st \<Longrightarrow> run_inv st"
proof (induction rule: reachable.induct)
  case (init h nr_knobs nr_metrics)
  then show ?case by (rule run_inv_init)
next
  case (step st c st')
  then show ?case using step_run_inv [of "fst st" "snd st" c "fst st'" "snd st'"] by simp
qed

subsection \<open>Siblings\<close>

lemma sibling_loop_eq:
  "sibling_loop h opts cloned current =
     (cloned @ map (apsnd (st_create_sibling h)) opts, if opts = [] then current else Some (fst (last opts)))"
  by (induction opts arbitrary: cloned current) (auto simp: apsnd_def)

lemma state_inv_sibling:
  assumes "sorted_wrt (<) (map fst (constraints s))"
  shows "state_inv {} (st_create_sibling h s)" "cache_inv K (st_create_sibling h s)"
proof -
  let ?cs = "map (\<lambda>(priority, c). (priority, c_create_sibling h c)) (constraints s)"
  have "c_wf {} (c_create_sibling h c)" "blocked_ops (c_create_sibling h c) = []" for c
    by (simp_all add: c_create_sibling_def Constraint_def c_wf_def)
  then have "stack_wf {} ?cs" "\<forall>e \<in> set ?cs. blocked_set (snd e) = {}" by auto
  moreover have "map fst ?cs = map fst (constraints s)" by (simp add: comp_def case_prod_beta)
  ultimately show "state_inv {} (st_create_sibling h s)" "cache_inv K (st_create_sibling h s)"
    using assms stack_ok_cleared [of ?cs blocked_set c_check]
    by (simp_all add: state_inv_def stack_inv_def st_create_sibling_def State_init_def del: map_map)
qed

lemma asrtm_inv_sibling:
  assumes "asrtm_inv a"
  shows "asrtm_inv (snd (as_create_sibling h a))"
proof -
  have "state_inv {} (st_create_sibling h s)" if "state_inv (known a) s" for s
    using that by (intro state_inv_sibling(1)) (simp add: state_inv_def stack_inv_def)
  moreover have "cache_inv K (st_create_sibling h s)" for K s
    by (simp add: st_create_sibling_def State_init_def)
  moreover have "fst (last opts) \<in> fst ` set opts" if "opts \<noteq> []" for opts :: "(string \<times> state) list" using that by simp
  ultimately show ?thesis
    using assms by (auto simp: asrtm_inv_def as_create_sibling_def sibling_loop_eq Asrtm_def image_image)
qed

subsection \<open>Models\<close>

abbreviation configurations_differ :: "operating_point list \<Rightarrow> bool" where
  "configurations_differ ops \<equiv> sorted_wrt (\<lambda>p q. \<not> segment_eq (software_knobs p) (software_knobs q)) ops"

lemma collect_add_all:
  assumes "kb_wf kb" and "\<forall>op \<in> set ops. kb_find (software_knobs op) kb = None" and "configurations_differ ops"
  shows "map deref (kb_to_stream (snd (collect_loop kb_add ops kb))) = map deref (kb_to_stream kb) @ ops"
  using assms
proof (induction ops arbitrary: kb)
  case (Cons op ops)
  obtain r kb1 where a: "kb_add op kb = (r, kb1)" by force
  have r: "r = Some (OpPtr (next_addr kb) op)" using a Cons.prems(2) by (auto simp: kb_add_def Let_def)
  have kb1: "kb_wf kb1" "kb_to_stream kb1 = kb_to_stream kb @ [OpPtr (next_addr kb) op]"
    using kb_add_cases [OF Cons.prems(1) a] r by auto
  have "kb_find (software_knobs q) kb1 = None" if "q \<in> set ops" for q
  proof -
    have "\<not> segment_eq (software_knobs op) (software_knobs q)" using Cons.prems(3) that by simp
    then show ?thesis
      using kb_find_None [OF kb1(1)] kb_find_None [OF Cons.prems(1)] Cons.prems(2) that kb1(2) by auto
  qed
  then show ?case using Cons.IH [OF kb1(1)] Cons.prems(3) kb1(2) by (auto simp: a split: prod.splits)
qed simp

section \<open>A sample execution\<close>

definition sample_calls :: "call list" where
  "sample_calls =
     [Add_operating_points [deref sample_p, deref sample_q], Create_new_state ''s'', Change_active_state ''s'',
      Set_rank MINIMIZE SIMPLE (sample_field 0) [], Add_constraint METRICS 1 0 (sample_goal 1) 30]"

definition sample_run :: "heap \<times> asrtm" where
  "sample_run = projr (run_calls sample_calls (sample_heap 5, Asrtm 1 3))"

lemma sample_run_ok: "run_calls sample_calls (sample_heap 5, Asrtm 1 3) = Inr sample_run"
proof -
  have "isl (run_calls sample_calls (sample_heap 5, Asrtm 1 3)) = False" by code_simp
  then show ?thesis by (simp add: sample_run_def)
qed

lemma reachable_sample: "reachable (fst sample_run, snd sample_run)"
  using run_calls_reachable [OF reachable.init sample_run_ok] by simp

lemma sample_run_active: "active_state (snd sample_run) \<noteq> None" "known (snd sample_run) = {sample_p, sample_q}"
proof -
  have "map_option (\<lambda>_. ()) (active_state (snd sample_run)) = Some ()" by code_simp
  then show "active_state (snd sample_run) \<noteq> None" by auto
  have "kb_to_stream (application_knowledge (snd sample_run)) = [sample_p, sample_q]" by code_simp
  then show "known (snd sample_run) = {sample_p, sample_q}" by simp
qed

section \<open>Properties\<close>

lemma active_state_inv:
  assumes "asrtm_inv a" and "active_state a = Some s"
  shows "state_inv (known a) s" "cache_inv (known a) s"
proof -
  obtain i where "(i, s) \<in> set (application_optimizers a)"
    using assms(2) by (auto simp: active_state_def bind_eq_Some_conv dest: map_of_SomeD)
  then show "state_inv (known a) s" "cache_inv (known a) s" using asrtm_invD(3) [OF assms(1)] by auto
qed





text \<open>
  A manager in design space exploration stays there whatever the application and the
  support thread call, until a model arrives; the model moves it to the state with a
  prediction, and only then can it become tuned.
\<close>

theorem exploration_left_only_by_model:
  assumes "step (h, a) c (h', b)" and "status a = DESIGN_SPACE_EXPLORATION"
  shows "status b = (case c of Set_model ops \<Rightarrow> WITH_PREDICTION | _ \<Rightarrow> DESIGN_SPACE_EXPLORATION)"
proof -
  have run: "run_call c (h, a) = Inr (h', b)" using assms(1) by (auto elim: stepE)
  have find: "status d = status a" if "as_find_best_configuration h a = Inr (g, d)" for g d
    using that by (cases "current_optimizer a"; cases "active_state a")
      (auto simp: as_find_best_configuration_def set_state_def)
  show ?thesis
  proof (cases c)
    case Find_best_configuration
    then show ?thesis using run find assms(2) by simp
  next
    case Get_best_configuration
    then show ?thesis
      using run assms(2) by (auto simp: map_sum_Inr as_get_best_configuration_def split: option.splits if_splits)
  next
    case (Add_runtime_knowledge seg i n m)
    then show ?thesis using run assms(2) by (auto simp: as_add_runtime_knowledge_def split: prod.splits)
  next
    case (Set_model ops)
    then show ?thesis using run by (auto simp: as_set_model_def)
  next
    case (Configuration_applied now)
    then show ?thesis using run assms(2) by (auto simp: as_configuration_applied_def)
  qed (use run assms(2) in \<open>auto simp: map_sum_Inr call_defs dest!: with_active_frame split: prod.splits if_splits\<close>)
qed

theorem exploration_left_only_by_model_witness:
  "\<exists>b. step (sample_heap 5, start_support_thread (Asrtm 1 3)) (Set_model [deref sample_p]) (sample_heap 5, b)
     \<and> status b = WITH_PREDICTION"
proof -
  let ?a = "start_support_thread (Asrtm 1 3)"
  have "reset_loop (replicate n None) h = h" for n h by (induction n) simp_all
  then have "fst (as_set_model [deref sample_p] (sample_heap 5) ?a) = sample_heap 5"
    by (simp add: as_set_model_def start_support_thread_def Asrtm_def ka_reset_def KnowledgeAdaptor_def)
  then have "step (sample_heap 5, ?a) (Set_model [deref sample_p]) (sample_heap 5, snd (as_set_model [deref sample_p] (sample_heap 5) ?a))"
    by (intro step.call) (simp_all add: prod_eq_iff)
  moreover from exploration_left_only_by_model [OF this] have
    "status (snd (as_set_model [deref sample_p] (sample_heap 5) ?a)) = WITH_PREDICTION"
    by (simp add: start_support_thread_def)
  ultimately show ?thesis by blast
qed

text \<open>
  A configuration to explore that arrives between the request of the application and the
  retrieval of the result makes the retrieval fail its assertion, although both threads lock
  the manager in every call.
\<close>

theorem exploration_races_with_retrieval:
  "\<exists>st1 st2. step sample_run Find_best_configuration st1 \<and> isl (as_get_best_configuration (snd st1)) = False
     \<and> step st1 (Set_single_point (deref sample_p)) st2
     \<and> as_get_best_configuration (snd st2) =
         Inl (Assertion_failed ''Error: AS-RTM attempt to retrieve the best configuration from an empty state'')"
proof -
  have "known (snd sample_run) \<noteq> {}" by (simp add: sample_run_active(2))
  obtain h1 b s where f: "as_find_best_configuration (fst sample_run) (snd sample_run) = Inr (h1, b)"
    "active_state (snd sample_run) = Some s"
    "\<exists>s'. st_get_best_operating_point h1 s = Inr (proposed_best_configuration b, s')"
    using find_best_total [OF reachable_run_inv [OF reachable_sample]] sample_run_active(1) by (metis option.exhaust)
  have "asrtm_inv (snd sample_run)" using reachable_inv [OF reachable_sample] by simp
  then have "case proposed_best_configuration b of None \<Rightarrow> known (snd sample_run) = {} | Some p \<Rightarrow> p \<in> known (snd sample_run)"
    using get_best_cases [OF active_state_inv [OF _ f(2)], of h1] f(3) by auto
  then have "\<not> isl (as_get_best_configuration b)"
    using \<open>known (snd sample_run) \<noteq> {}\<close> by (auto simp: as_get_best_configuration_def split: option.splits)
  moreover have "step sample_run Find_best_configuration (h1, b)"
  proof (rule step.call)
    show "run_call Find_best_configuration sample_run = Inr (h1, b)"
      using f(1) run_call.simps(10) [of "fst sample_run" "snd sample_run"] by (simp only: prod.collapse)
  qed simp
  moreover have "step (h1, b) (Set_single_point (deref sample_p)) (h1, as_set_single_point (deref sample_p) b)"
    by (rule step.call) simp_all
  moreover have "proposed_best_configuration (as_set_single_point (deref sample_p) b) = None"
    by (simp add: as_set_single_point_def)
  ultimately show ?thesis
    by (intro exI [of _ "(h1, b)"] exI [of _ "(h1, as_set_single_point (deref sample_p) b)"])
       (auto simp: as_get_best_configuration_def)
qed

text \<open>
  A model whose configurations are pairwise different becomes the application knowledge,
  in every state, and each state is solvable again: the partition holds for the new knowledge.
\<close>

theorem prediction_installs_model:
  assumes "asrtm_inv a" and "configurations_differ model" and "as_set_model model h a = (h', b)"
  shows "map deref (kb_to_stream (application_knowledge b)) = model \<and> asrtm_inv b
    \<and> status b = WITH_PREDICTION \<and> proposed_best_configuration b = None
    \<and> map fst (application_optimizers b) = map fst (application_optimizers a)"
proof -
  have wf: "kb_wf (kb_clear (application_knowledge a))" using kb_wf_clear [OF asrtm_invD(1) [OF assms(1)]] .
  let ?kb = "snd (collect_loop kb_add model (kb_clear (application_knowledge a)))"
  have "\<forall>op \<in> set model. kb_find (software_knobs op) (kb_clear (application_knowledge a)) = None"
    using kb_find_None [OF wf] by simp
  from collect_add_all [OF wf this assms(2)] have "map deref (kb_to_stream ?kb) = model" by simp
  moreover have b: "b = (as_set_knowledge ?kb a)\<lparr>status := WITH_PREDICTION, proposed_best_configuration := None\<rparr>"
    using assms(3) by (simp add: as_set_model_def)
  moreover have "asrtm_inv b"
    unfolding b using asrtm_inv_frame [OF asrtm_inv_set_knowledge [OF assms(1) kb_wf_collect_add [OF wf]]] by simp
  ultimately show ?thesis by (simp add: as_set_knowledge_def)
qed

theorem prediction_installs_model_witness:
  "map deref (kb_to_stream (application_knowledge (snd (as_set_model [deref sample_q] (fst sample_run) (snd sample_run)))))
     = [deref sample_q]"
proof -
  have "asrtm_inv (snd sample_run)" using reachable_inv [OF reachable_sample] by simp
  from prediction_installs_model [OF this _ prod.collapse [symmetric], of "[deref sample_q]" "fst sample_run"]
  show ?thesis by simp
qed

text \<open>The messages the support thread can handle, for a converter of payloads.\<close>

definition well_formed_message :: "(string \<Rightarrow> operating_point list) \<Rightarrow> message_model \<Rightarrow> bool" where
  "well_formed_message get_op msg \<longleftrightarrow>
     (case last_component (topic msg) of
        None \<Rightarrow> False
      | Some message_type \<Rightarrow> message_type = ''/explore'' \<longrightarrow> get_op (payload msg) \<noteq> [])"

lemma handle_message_ok:
  assumes "well_formed_message get_op msg" and "asrtm_inv a"
  shows "\<exists>h' b. handle_message get_op welcome msg (h, a) =
      Inr (if last_component (topic msg) = Some ''/welcome'' then [welcome] else [], h', b) \<and> asrtm_inv b"
proof -
  obtain t where t: "last_component (topic msg) = Some t"
    using assms(1) by (auto simp: well_formed_message_def split: option.splits)
  consider (explore) op ops where "t = ''/explore''" "get_op (payload msg) = op # ops" | (model) "t = ''/prediction''"
    | (other) "t \<noteq> ''/explore''" "t \<noteq> ''/prediction''"
    using assms(1) t by (cases "get_op (payload msg)") (auto simp: well_formed_message_def)
  then show ?thesis
  proof cases
    case explore
    have "asrtm_inv (as_set_single_point op a)"
      using step_inv [OF step.call, of "Set_single_point op" h a h] assms(2) by simp
    then show ?thesis using t explore by (simp add: handle_message_def)
  next
    case model
    obtain h' b where b: "as_set_model (get_op (payload msg)) h a = (h', b)" by force
    then have "asrtm_inv b" using step_inv [OF step.call, of "Set_model (get_op (payload msg))" h a h'] assms(2) by simp
    then show ?thesis using t model b by (simp add: handle_message_def)
  next
    case other
    then show ?thesis using t assms(2) by (simp add: handle_message_def)
  qed
qed

text \<open>
  C8: the support thread processes every sequence of well-formed messages to the end, keeps the
  invariant of the manager, and sends its welcome message once for itself and once for every
  server that announces itself, and nothing else.
\<close>

theorem support_thread_handles_messages:
  assumes "\<forall>msg \<in> set incoming. well_formed_message get_op msg" and "asrtm_inv a"
  shows "\<exists>h' b. local_application_handler get_op app_id cid description incoming (h, a) =
      Inr (subscriptions app_id cid,
           replicate (Suc (length (filter (\<lambda>msg. last_component (topic msg) = Some ''/welcome'') incoming)))
             (welcome_message app_id cid description), h', b)
    \<and> asrtm_inv b"
proof -
  let ?w = "welcome_message app_id cid description"
  have "\<exists>h' b. handler_loop get_op ?w incoming (h, a) =
      Inr (replicate (length (filter (\<lambda>msg. last_component (topic msg) = Some ''/welcome'') incoming)) ?w, h', b) \<and> asrtm_inv b"
    using assms
  proof (induction incoming arbitrary: h a)
    case (Cons msg incoming)
    obtain h1 a1 where one: "handle_message get_op ?w msg (h, a) =
        Inr (if last_component (topic msg) = Some ''/welcome'' then [?w] else [], h1, a1)" "asrtm_inv a1"
      using handle_message_ok [of get_op msg a ?w h] Cons.prems by auto
    obtain h2 a2 where "handler_loop get_op ?w incoming (h1, a1) =
        Inr (replicate (length (filter (\<lambda>msg. last_component (topic msg) = Some ''/welcome'') incoming)) ?w, h2, a2)" "asrtm_inv a2"
      using Cons.IH [of a1 h1] Cons.prems(1) one(2) by auto
    then show ?case using one(1) by simp
  qed simp
  then show ?thesis by (auto simp: local_application_handler_def Let_def)
qed

theorem support_thread_handles_messages_witness:
  "\<exists>h' b. local_application_handler (\<lambda>s. [sample_point 1 [1]]) ''app'' ''c1'' ''d''
      [\<lparr>topic = ''margot/app/c1/explore'', payload = ''x''\<rparr>, \<lparr>topic = ''margot/welcome'', payload = []\<rparr>] (sample_heap 5, Asrtm 1 1)
    = Inr (subscriptions ''app'' ''c1'', [welcome_message ''app'' ''c1'' ''d'', welcome_message ''app'' ''c1'' ''d''], h', b)"
proof -
  let ?in = "[\<lparr>topic = ''margot/app/c1/explore'', payload = ''x''\<rparr>, \<lparr>topic = ''margot/welcome'', payload = []\<rparr>]"
  have "\<forall>msg \<in> set ?in. well_formed_message (\<lambda>s. [sample_point 1 [1]]) msg"
    by (simp add: well_formed_message_def last_component_def)
  from support_thread_handles_messages [OF this asrtm_inv_init [of 1 1], of "''app''" "''c1''" "''d''" "sample_heap 5"] show ?thesis
    by (auto simp: last_component_def numeral_2_eq_2)
qed

text \<open>
  A sibling starts without application knowledge, in the invariant, with the same states;
  its active state is the last one of the container, whichever was active in the original.
\<close>

theorem sibling_activates_last_state:
  assumes "asrtm_inv a" and "as_create_sibling h a = (h', b)"
  shows "asrtm_inv b \<and> known b = {} \<and> map fst (application_optimizers b) = map fst (application_optimizers a)
    \<and> current_optimizer b = (if application_optimizers a = [] then None else Some (fst (last (application_optimizers a))))"
  using asrtm_inv_sibling [OF assms(1), of h] assms(2)
  by (auto simp: as_create_sibling_def sibling_loop_eq Asrtm_def)

theorem sibling_activates_last_state_witness:
  "\<exists>st. run_calls [Create_new_state ''a'', Create_new_state ''b'', Change_active_state ''a''] (sample_heap 5, Asrtm 1 1) = Inr st
     \<and> current_optimizer (snd st) = Some ''a''
     \<and> current_optimizer (snd (as_create_sibling (fst st) (snd st))) = Some ''b''"
proof -
  let ?r = "run_calls [Create_new_state ''a'', Create_new_state ''b'', Change_active_state ''a''] (sample_heap 5, Asrtm 1 1)"
  have r: "map_sum (\<lambda>_. ()) (\<lambda>st. (map fst (application_optimizers (snd st)), current_optimizer (snd st))) ?r
      = Inr ([''a'', ''b''], Some ''a'')" by code_simp
  then obtain st where st: "?r = Inr st" "map fst (application_optimizers (snd st)) = [''a'', ''b'']"
    "current_optimizer (snd st) = Some ''a''" by (cases ?r) auto
  have "asrtm_inv (snd st)" using reachable_inv [OF run_calls_reachable [OF reachable.init st(1)]] .
  from sibling_activates_last_state [OF this prod.collapse [symmetric], of "fst st"] st(2)
  have "current_optimizer (snd (as_create_sibling (fst st) (snd st))) = Some ''b''"
    by (auto simp: last_map [symmetric] map_eq_Cons_conv)
  with st show ?thesis by blast
qed

end
