(* ===== verification/Agora_Main.thy ===== *)
theory Agora_Main
  imports Agora_Pool Agora_Launcher Asrtm_Model
begin

text \<open>
  The main program of the server (\<^verbatim>\<open>server/src/main.cpp\<close>) after the parsing of the command line: the
  checks of the options and the start of the connection, the storage, the launchers and the workers. What
  the broker delivers for a subscription is a parameter with the laws of the locale \<open>mqtt_broker\<close>.
\<close>

section \<open>Options\<close>

datatype LogLevel = DISABLED | WARNING | INFO | PEDANTIC | DEBUG

record application_options =
  min_log_level :: string
  storage_implementation :: string
  mqtt_implementation :: string
  opt_storage_address :: path
  opt_broker_url :: string
  opt_broker_username :: string
  opt_broker_password :: string
  opt_broker_certificate :: string
  opt_client_certificate :: string
  opt_client_key :: string
  mqtt_qos :: int
  workspace_dir :: path
  plugin_dir :: path
  models_dir :: path
  number_of_threads :: int

definition resolve_log_level :: "string \<Rightarrow> LogLevel result" where
  "resolve_log_level log_level =
     (case map_of [(''disabled'', DISABLED), (''info'', INFO), (''debug'', DEBUG), (''pedantic'', PEDANTIC), (''warning'', WARNING)] log_level of
        Some l \<Rightarrow> Inr l
      | None \<Rightarrow> Inl (Runtime_error (''Invalid log level '' @ in_quotes log_level @ '', should be one of [disabled, warning, info, pedantic, debug]'')))"

definition resolve_storage_implementation :: "string \<Rightarrow> unit result" where
  "resolve_storage_implementation s =
     (if s = ''csv'' then Inr () else Inl (Runtime_error (''Invalid storage implementation '' @ in_quotes s @ '', should be one of [csv]'')))"

definition resolve_mqtt_implementation :: "string \<Rightarrow> unit result" where
  "resolve_mqtt_implementation s =
     (if s = ''paho'' then Inr () else Inl (Runtime_error (''Invalid MQTT implementation '' @ in_quotes s @ '', should be one of [paho]'')))"

section \<open>The start of the server\<close>

definition server_subscriptions :: "string list" where
  "server_subscriptions = [MESSAGE_HEADER @ ''/+/welcome/#'', MESSAGE_HEADER @ ''/+/observation/#'', MESSAGE_HEADER @ ''/+/kia/#'',
     MESSAGE_HEADER @ ''/system/#'']"

fun subscribe_all :: "'n paho \<Rightarrow> string list \<Rightarrow> 'n PahoClient \<Rightarrow> 'n PahoClient result" where
  "subscribe_all lib [] c = Inr c"
| "subscribe_all lib (t # ts) c = bind_result (paho_subscribe lib t c) (subscribe_all lib ts)"

text \<open>
  The process exits with a failure, or it serves with a connection, the configurations of storage and
  launchers, and the workers that the main thread waits for.
\<close>

datatype 'n main_outcome = EXIT_FAILURE | Serving "'n PahoClient" storage_config launcher_configuration waiting_pool

definition agora_main ::
    "'n paho \<Rightarrow> host \<Rightarrow> (path \<Rightarrow> disk \<Rightarrow> disk) \<Rightarrow> application_options \<Rightarrow> string \<Rightarrow> 'n \<Rightarrow> disk \<Rightarrow> 'n main_outcome result" where
  "agora_main lib os create_directories opts thread_id n d =
     bind_result (resolve_log_level (min_log_level opts)) (\<lambda>level.
     bind_result (resolve_mqtt_implementation (mqtt_implementation opts)) (\<lambda>_.
     bind_result (resolve_storage_implementation (storage_implementation opts)) (\<lambda>_.
       if mqtt_qos opts < 0 \<or> mqtt_qos opts > 2 then Inr EXIT_FAILURE
       else if number_of_threads opts < 0 then Inr EXIT_FAILURE
       else bind_result
              (connect_client lib
                 (set_paho_handler_properties ''agora'' (opt_broker_url opts) (nat (mqtt_qos opts)) (opt_broker_username opts)
                    (opt_broker_password opts) (opt_broker_certificate opts) (opt_client_certificate opts) (opt_client_key opts))
                 thread_id n) (\<lambda>c1.
            bind_result (subscribe_all lib server_subscriptions c1) (\<lambda>c2.
            bind_result (paho_send lib \<lparr>topic = MESSAGE_HEADER @ ''/welcome'', payload = []\<rparr> c2) (\<lambda>c3.
            bind_result (LauncherConfiguration os (plugin_dir opts) (workspace_dir opts) ''plugin_config.env'' ''plugin_start.sh''
                           (create_directories (workspace_dir opts) d)) (\<lambda>launchers.
              Inr (Serving c3
                     \<lparr>csv_storage_root_path = opt_storage_address opts, csv_separator = CHR '','', model_storage_root_path = models_dir opts\<rparr>
                     launchers (start_workers (nat (number_of_threads opts)))))))))))"

section \<open>What the broker delivers\<close>

definition plain_level :: "string \<Rightarrow> bool" where
  "plain_level s \<longleftrightarrow> set s \<inter> set ''/+#'' = {}"

definition ends_level :: "string \<Rightarrow> bool" where
  "ends_level r \<longleftrightarrow> r = [] \<or> hd r = CHR ''/''"

text \<open>The topics \<open>h/a/k\<close> and below for a level \<open>a\<close>, and the topics \<open>h/k\<close> and below.\<close>

definition below_any :: "string \<Rightarrow> string \<Rightarrow> string \<Rightarrow> bool" where
  "below_any h k t \<longleftrightarrow> (\<exists>a r. t = h @ ''/'' @ a @ ''/'' @ k @ r \<and> CHR ''/'' \<notin> set a \<and> ends_level r)"

definition below :: "string \<Rightarrow> string \<Rightarrow> string \<Rightarrow> bool" where
  "below h k t \<longleftrightarrow> (\<exists>r. t = h @ ''/'' @ k @ r \<and> ends_level r)"

locale mqtt_broker =
  fixes matches :: "string \<Rightarrow> string \<Rightarrow> bool"
  assumes single_level: "plain_level h \<Longrightarrow> plain_level k \<Longrightarrow> matches (h @ ''/+/'' @ k @ ''/#'') t \<longleftrightarrow> below_any h k t"
    and all_levels: "plain_level h \<Longrightarrow> plain_level k \<Longrightarrow> matches (h @ ''/'' @ k @ ''/#'') t \<longleftrightarrow> below h k t"
begin

lemma delivered_iff:
  "(\<exists>f \<in> set server_subscriptions. matches f t) \<longleftrightarrow>
    below_any MESSAGE_HEADER ''welcome'' t \<or> below_any MESSAGE_HEADER ''observation'' t \<or> below_any MESSAGE_HEADER ''kia'' t
    \<or> below MESSAGE_HEADER ''system'' t"
proof -
  have h: "plain_level MESSAGE_HEADER" "plain_level ''welcome''" "plain_level ''observation''" "plain_level ''kia''" "plain_level ''system''"
    by (simp_all add: plain_level_def MESSAGE_HEADER_def)
  show ?thesis
    using single_level [OF h(1,2), of t] single_level [OF h(1,3), of t] single_level [OF h(1,4), of t] all_levels [OF h(1,5), of t]
    by (simp add: server_subscriptions_def)
qed

end

section \<open>The standard's matching of topics\<close>

fun level_matches :: "string list \<Rightarrow> string list \<Rightarrow> bool" where
  "level_matches [] ts \<longleftrightarrow> ts = []"
| "level_matches (f # fs) ts \<longleftrightarrow>
     (if f = ''#'' then True
      else case ts of [] \<Rightarrow> False | t # ts' \<Rightarrow> (f = ''+'' \<or> f = t) \<and> level_matches fs ts')"

definition topic_matches :: "string \<Rightarrow> string \<Rightarrow> bool" where
  "topic_matches f t = level_matches (split_any_of f ''/'') (split_any_of t ''/'')"

lemma any_split_nonempty [simp]: "split_any_of t ''/'' \<noteq> []"
  by (induction t) (auto split: list.splits)

lemma split_Cons:
  "split_any_of t ''/'' = x # xs \<Longrightarrow>
    CHR ''/'' \<notin> set x \<and> (case xs of [] \<Rightarrow> t = x | y # ys \<Rightarrow> \<exists>t'. t = x @ CHR ''/'' # t' \<and> split_any_of t' ''/'' = xs)"
proof (induction t arbitrary: x xs)
  case (Cons c t)
  show ?case
  proof (cases "c = CHR ''/''")
    case True
    obtain y ys where y: "split_any_of t ''/'' = y # ys" by (cases "split_any_of t ''/''") simp_all
    with Cons.prems True have "x = []" "xs = y # ys" by simp_all
    with y True show ?thesis by simp
  next
    case False
    then obtain x' where "split_any_of t ''/'' = x' # xs" "x = c # x'"
      using Cons.prems by (cases "split_any_of t ''/''") auto
    with Cons.IH [of x' xs] False show ?thesis by (cases xs) auto
  qed
qed simp

lemma split_slash: "CHR ''/'' \<notin> set x \<Longrightarrow> split_any_of (x @ CHR ''/'' # y) ''/'' = x # split_any_of y ''/''"
  by (rule split_any_of_at) auto

lemma split_level:
  assumes "CHR ''/'' \<notin> set k"
  shows "(\<exists>ks. split_any_of t ''/'' = k # ks) \<longleftrightarrow> (\<exists>r. t = k @ r \<and> ends_level r)"
proof
  assume "\<exists>ks. split_any_of t ''/'' = k # ks"
  then obtain ks where "split_any_of t ''/'' = k # ks" by blast
  from split_Cons [OF this] show "\<exists>r. t = k @ r \<and> ends_level r"
    by (cases ks) (auto simp: ends_level_def)
next
  assume "\<exists>r. t = k @ r \<and> ends_level r"
  then obtain r where r: "t = k @ r" "ends_level r" by blast
  then show "\<exists>ks. split_any_of t ''/'' = k # ks"
    using assms split_slash [OF assms] by (cases r) (auto simp: ends_level_def split_any_of_none)
qed

lemma below_any_iff:
  assumes "CHR ''/'' \<notin> set h" and "CHR ''/'' \<notin> set k"
  shows "below_any h k t \<longleftrightarrow> (\<exists>a ks. split_any_of t ''/'' = h # a # k # ks)"
proof
  assume "below_any h k t"
  then obtain a r where t: "t = h @ CHR ''/'' # a @ CHR ''/'' # k @ r" "CHR ''/'' \<notin> set a" "ends_level r"
    by (auto simp: below_any_def)
  then obtain ks where "split_any_of (k @ r) ''/'' = k # ks" using split_level [OF assms(2)] by blast
  with t show "\<exists>a ks. split_any_of t ''/'' = h # a # k # ks"
    using split_slash [OF assms(1)] split_slash [OF t(2)] by auto
next
  assume "\<exists>a ks. split_any_of t ''/'' = h # a # k # ks"
  then obtain a ks where "split_any_of t ''/'' = h # a # k # ks" by blast
  from split_Cons [OF this] obtain t1 where t1: "t = h @ CHR ''/'' # t1" "split_any_of t1 ''/'' = a # k # ks" by auto
  from split_Cons [OF t1(2)] obtain t2 where t2: "t1 = a @ CHR ''/'' # t2" "CHR ''/'' \<notin> set a" "split_any_of t2 ''/'' = k # ks" by auto
  with split_level [OF assms(2)] obtain r where "t2 = k @ r" "ends_level r" by blast
  with t1 t2 show "below_any h k t" by (auto simp: below_any_def)
qed

lemma below_iff:
  assumes "CHR ''/'' \<notin> set h" and "CHR ''/'' \<notin> set k"
  shows "below h k t \<longleftrightarrow> (\<exists>ks. split_any_of t ''/'' = h # k # ks)"
proof
  assume "below h k t"
  then obtain r where t: "t = h @ CHR ''/'' # k @ r" "ends_level r" by (auto simp: below_def)
  then obtain ks where "split_any_of (k @ r) ''/'' = k # ks" using split_level [OF assms(2)] by blast
  with t show "\<exists>ks. split_any_of t ''/'' = h # k # ks" using split_slash [OF assms(1)] by auto
next
  assume "\<exists>ks. split_any_of t ''/'' = h # k # ks"
  then obtain ks where "split_any_of t ''/'' = h # k # ks" by blast
  from split_Cons [OF this] obtain t1 where t1: "t = h @ CHR ''/'' # t1" "split_any_of t1 ''/'' = k # ks" by auto
  with split_level [OF assms(2)] obtain r where "t1 = k @ r" "ends_level r" by blast
  with t1 show "below h k t" by (auto simp: below_def)
qed

interpretation standard: mqtt_broker topic_matches
proof
  fix h k t :: string
  assume h: "plain_level h" and k: "plain_level k"
  then have slash: "CHR ''/'' \<notin> set h" "CHR ''/'' \<notin> set k" and special: "h \<noteq> ''#''" "h \<noteq> ''+''" "k \<noteq> ''#''" "k \<noteq> ''+''"
    by (auto simp: plain_level_def)
  have "split_any_of (h @ ''/+/'' @ k @ ''/#'') ''/'' = [h, ''+'', k, ''#'']"
    using split_slash [OF slash(1)] split_slash [of "''+''" "k @ ''/#''"] split_slash [OF slash(2), of "''#''"] by simp
  then have "topic_matches (h @ ''/+/'' @ k @ ''/#'') t \<longleftrightarrow> (\<exists>a ks. split_any_of t ''/'' = h # a # k # ks)"
    using special by (auto simp: topic_matches_def split: list.splits)
  then show "topic_matches (h @ ''/+/'' @ k @ ''/#'') t \<longleftrightarrow> below_any h k t"
    using below_any_iff [OF slash] by simp
  have "split_any_of (h @ ''/'' @ k @ ''/#'') ''/'' = [h, k, ''#'']"
    using split_slash [OF slash(1)] split_slash [OF slash(2), of "''#''"] by simp
  then have "topic_matches (h @ ''/'' @ k @ ''/#'') t \<longleftrightarrow> (\<exists>ks. split_any_of t ''/'' = h # k # ks)"
    using special by (auto simp: topic_matches_def split: list.splits)
  then show "topic_matches (h @ ''/'' @ k @ ''/#'') t \<longleftrightarrow> below h k t"
    using below_iff [OF slash] by simp
qed

section \<open>Messages to and from the server\<close>

lemma header_level: "CHR ''/'' \<notin> set MESSAGE_HEADER" "CHR ''/'' \<notin> set ''welcome''" "CHR ''/'' \<notin> set ''observation''"
  "CHR ''/'' \<notin> set ''kia''" "CHR ''/'' \<notin> set ''system''" "CHR ''/'' \<notin> set ''prediction''"
  by (simp_all add: MESSAGE_HEADER_def)

lemma split_topic:
  "split_any_of (MESSAGE_HEADER @ ''/'' @ t) ''/'' = MESSAGE_HEADER # split_any_of t ''/''"
  "CHR ''/'' \<notin> set x \<Longrightarrow> split_any_of (x @ ''/'' @ t) ''/'' = x # split_any_of t ''/''"
  "CHR ''/'' \<notin> set x \<Longrightarrow> split_any_of x ''/'' = [x]"
  using split_slash [OF header_level(1)] split_slash by (simp_all add: split_any_of_none)

text \<open>What arrives, in terms of the levels of the topic.\<close>

lemma delivered_levels:
  assumes "mqtt_broker matches" and "split_any_of t ''/'' = MESSAGE_HEADER # x # xs"
  shows "(\<exists>f \<in> set server_subscriptions. matches f t) \<longleftrightarrow>
    x = ''system'' \<or> (\<exists>k \<in> {''welcome'', ''observation'', ''kia''}. \<exists>ks. xs = k # ks)"
  unfolding mqtt_broker.delivered_iff [OF assms(1)] below_any_iff [OF header_level(1,2)] below_any_iff [OF header_level(1,3)]
    below_any_iff [OF header_level(1,4)] below_iff [OF header_level(1,5)] assms(2)
  by auto

lemma aid_not_system: "aid_str a \<noteq> ''system''"
proof
  assume "aid_str a = ''system''"
  moreover have "CHR ''^'' \<in> set (aid_str a)" by (simp add: aid_str_def)
  ultimately show False by simp
qed


text \<open>
  C31: the goodbye of a server ends the other servers on the same broker. A server calls itself \<^verbatim>\<open>agora\<close> in the
  topic of its goodbye and of its last will; each server is subscribed to the goodbyes of all clients, and the
  worker that takes this one throws while it looks for an application, a version and a block in the name.
\<close>

theorem goodbye_of_a_server_ends_the_others:
  assumes "tokenizer split" and "mqtt_broker matches" and "agora_main lib os mkdirs opts thread_id n d = Inr (Serving c st launchers workers)"
    and "CHR ''/'' \<notin> set thread_id" and "set (client_id c) \<subseteq> set topic_accepted_characters"
  shows "(\<exists>f \<in> set server_subscriptions. matches f (goodbye_topic c))
    \<and> worker_task split sv blank tid (\<lparr>topic = goodbye_topic c, payload = goodbye_payload\<rparr> # others) srv = Inl (Runtime_error ''std::out_of_range'')"
proof -
  obtain c1 c2 cfg where c1: "connect_client lib cfg thread_id n = Inr c1" "app_identifier cfg = ''agora''"
    and c2: "subscribe_all lib server_subscriptions c1 = Inr c2" "paho_send lib \<lparr>topic = MESSAGE_HEADER @ ''/welcome'', payload = []\<rparr> c2 = Inr c"
    using assms(3) by (auto simp: agora_main_def set_paho_handler_properties_def split: if_splits)
  have "client_id c' = client_id b \<and> goodbye_topic c' = goodbye_topic b" if "subscribe_all lib ts b = Inr c'" for ts b c'
    using that by (induction ts arbitrary: b) (auto simp: paho_subscribe_def split: if_splits)
  with c2 have c: "client_id c = client_id c1" "goodbye_topic c = goodbye_topic c1"
    by (auto simp: paho_send_def split: if_splits)
  note facts = connect_clientE [OF c1(1)]
  have goodbye: "goodbye_topic c = MESSAGE_HEADER @ ''/'' @ ''agora'' @ ''/'' @ ''kia'' @ ''/'' @ client_id c"
    using facts(5) c1(2) c by simp
  have free: "CHR ''/'' \<notin> set (client_id c)" using escape_client_id_free [OF assms(4)] facts(1) c(1) by simp
  have agora: "CHR ''/'' \<notin> set ''agora''" "CHR ''^'' \<notin> set ''agora''" by simp_all
  have "split_any_of (goodbye_topic c) ''/'' = MESSAGE_HEADER # ''agora'' # [''kia'', client_id c]"
    unfolding goodbye by (simp_all only: split_topic agora header_level free not_False_eq_True)
  from delivered_levels [OF assms(2) this] have delivered: "\<exists>f \<in> set server_subscriptions. matches f (goodbye_topic c)" by simp
  have "set ''agora'' \<subseteq> set topic_accepted_characters" by (simp add: topic_accepted_characters_def)
  from kia_topic_accepted [OF this assms(5)] have "accepted \<lparr>topic = goodbye_topic c, payload = goodbye_payload\<rparr>"
    using goodbye_payload_accepted unfolding goodbye by (simp add: accepted_def)
  with malformed_topic_ends_server [OF assms(1) agora(2,1) free, of "''kia''" sv blank tid goodbye_payload others srv]
  have "worker_task split sv blank tid (\<lparr>topic = goodbye_topic c, payload = goodbye_payload\<rparr> # others) srv = Inl (Runtime_error ''std::out_of_range'')"
    unfolding goodbye by simp
  with delivered show ?thesis ..
qed

section \<open>An instance\<close>

definition sample_options :: application_options where
  "sample_options = \<lparr>min_log_level = ''info'', storage_implementation = ''csv'', mqtt_implementation = ''paho'', opt_storage_address = [''data''],
     opt_broker_url = ''127.0.0.1:1883'', opt_broker_username = [], opt_broker_password = [], opt_broker_certificate = [],
     opt_client_certificate = [], opt_client_key = [], mqtt_qos = 2, workspace_dir = [''workspace''], plugin_dir = [''plugins''],
     models_dir = [''models''], number_of_threads = 3\<rparr>"


theorem goodbye_of_a_server_ends_the_others_witness:
  "\<exists>c st launchers workers. agora_main sample_paho sample_host (\<lambda>p d. d) sample_options ''140'' [] sample_disk = Inr (Serving c st launchers workers)
    \<and> topic_matches (MESSAGE_HEADER @ ''/+/kia/#'') (goodbye_topic c)
    \<and> worker_task split_any_of sample_services sample_block ''1'' [\<lparr>topic = goodbye_topic c, payload = goodbye_payload\<rparr>]
        \<lparr>apps = [], srv_storage = False, srv_sent = []\<rparr> = Inl (Runtime_error ''std::out_of_range'')"
proof -
  obtain c st launchers workers where main:
      "agora_main sample_paho sample_host (\<lambda>p d. d) sample_options ''140'' [] sample_disk = Inr (Serving c st launchers workers)"
    and cid: "client_id c = ''140''" and goodbye: "goodbye_topic c = ''margot/agora/kia/140''"
    by (simp add: agora_main_def sample_options_def resolve_log_level_def resolve_mqtt_implementation_def
        resolve_storage_implementation_def connect_client_def checked_def sample_paho_def Let_def escape_client_id_def
        server_subscriptions_def paho_subscribe_def paho_send_def LauncherConfiguration_def sample_host_def
        set_paho_handler_properties_def MESSAGE_HEADER_def)
  have "set (client_id c) \<subseteq> set topic_accepted_characters" by (simp add: cid topic_accepted_characters_def)
  note ends = goodbye_of_a_server_ends_the_others [OF sp.tokenizer_axioms standard.mqtt_broker_axioms main _ this,
      where sv = sample_services and blank = sample_block and tid = "''1''" and others = "[]" and srv = "\<lparr>apps = [], srv_storage = False, srv_sent = []\<rparr>"]
  have "topic_matches (MESSAGE_HEADER @ ''/+/kia/#'') (goodbye_topic c)"
    by (simp add: goodbye topic_matches_def MESSAGE_HEADER_def)
  with main ends show ?thesis by (intro exI [of _ c] exI [of _ st] exI [of _ launchers] exI [of _ workers]) simp
qed

end
