(* ===== verification/Data_Features.thy ===== *)
theory Data_Features
  imports Margot_Prelude
begin

text \<open>
  The comparison of data features (\<^verbatim>\<open>data_features.hpp\<close>), with which the data-aware manager
  selects the cluster of an input: admissibility, squared distance, normalisation and the two
  selectors. A feature is a non-empty array of numbers, here a list of reals. The division of
  the normalisation can be \<open>0 / 0\<close>; the coordinate is then not a number, \<open>None\<close>, and so is
  every sum with it, and every comparison with it is false.
\<close>

section \<open>Operations\<close>

datatype FeatureComparison = F_LESS_OR_EQUAL | F_GREATER_OR_EQUAL | DONT_CARE

datatype FeatureDistanceType = EUCLIDEAN | NORMALIZED

type_synonym feature = "real list"

definition dont_care :: "real \<Rightarrow> real \<Rightarrow> bool" where
  "dont_care a b \<longleftrightarrow> True"

fun cf_proxy :: "FeatureComparison \<Rightarrow> real \<Rightarrow> real \<Rightarrow> bool" where
  "cf_proxy F_LESS_OR_EQUAL a b \<longleftrightarrow> a \<le> b"
| "cf_proxy F_GREATER_OR_EQUAL a b \<longleftrightarrow> a \<ge> b"
| "cf_proxy DONT_CARE a b \<longleftrightarrow> dont_care a b"

fun data_features_admissible :: "FeatureComparison list \<Rightarrow> feature \<Rightarrow> feature \<Rightarrow> bool" where
  "data_features_admissible [] f1 f2 \<longleftrightarrow> True"
| "data_features_admissible [cf] f1 f2 \<longleftrightarrow> cf_proxy cf (f1 ! (length f1 - 1)) (f2 ! (length f1 - 1))"
| "data_features_admissible (cf # cfs) f1 f2 \<longleftrightarrow>
     cf_proxy cf (f1 ! (length f1 - (length cfs + 1))) (f2 ! (length f1 - (length cfs + 1)))
     \<and> data_features_admissible cfs f1 f2"

fun data_features_distance :: "nat \<Rightarrow> feature \<Rightarrow> feature \<Rightarrow> real" where
  "data_features_distance 0 origin target =
     (let distance = origin ! 0 - target ! 0 in distance * distance)"
| "data_features_distance (Suc index) origin target =
     (let distance = origin ! Suc index - target ! Suc index
      in distance * distance + data_features_distance index origin target)"

text \<open>The three coordinates of an axis after the normalisation.\<close>

definition normalize_axis :: "real \<Rightarrow> real \<Rightarrow> real \<Rightarrow> (real \<times> real \<times> real) option" where
  "normalize_axis origin f1 f2 =
     (let coord_min = min (min origin f1) f2; coord_max = max (max origin f1) f2;
          coord_width = coord_max - coord_min
      in if coord_width = 0 then None
         else Some ((origin - coord_min) / coord_width, (f1 - coord_min) / coord_width, (f2 - coord_min) / coord_width))"

text \<open>The squared distances of the two features from the origin, after the normalisation of every axis.\<close>

fun normalized_distances :: "nat \<Rightarrow> feature \<Rightarrow> feature \<Rightarrow> feature \<Rightarrow> (real \<times> real) option" where
  "normalized_distances 0 origin f1 f2 =
     map_option (\<lambda>(n, n1, n2). ((n - n1) * (n - n1), (n - n2) * (n - n2))) (normalize_axis (origin ! 0) (f1 ! 0) (f2 ! 0))"
| "normalized_distances (Suc index) origin f1 f2 =
     (case (normalize_axis (origin ! Suc index) (f1 ! Suc index) (f2 ! Suc index), normalized_distances index origin f1 f2) of
        (Some (n, n1, n2), Some (d1, d2)) \<Rightarrow> Some ((n - n1) * (n - n1) + d1, (n - n2) * (n - n2) + d2)
      | _ \<Rightarrow> None)"

text \<open>The selectors return whether the target replaces the best found so far.\<close>

fun data_feature_selector ::
    "FeatureDistanceType \<Rightarrow> FeatureComparison list \<Rightarrow> feature \<Rightarrow> feature \<Rightarrow> feature \<Rightarrow> bool" where
  "data_feature_selector EUCLIDEAN cfs origin best target \<longleftrightarrow>
     (let is_best_valid = data_features_admissible cfs best origin;
          is_target_valid = data_features_admissible cfs target origin
      in if is_best_valid \<and> \<not> is_target_valid then False
         else if \<not> is_best_valid \<and> is_target_valid then True
         else data_features_distance (length origin - 1) origin target < data_features_distance (length origin - 1) origin best)"
| "data_feature_selector NORMALIZED cfs origin best target \<longleftrightarrow>
     (let is_best_valid = data_features_admissible cfs best origin;
          is_target_valid = data_features_admissible cfs target origin
      in if is_best_valid \<and> \<not> is_target_valid then False
         else if \<not> is_best_valid \<and> is_target_valid then True
         else case normalized_distances (length origin - 1) origin best target of
                Some (distance_best, distance_target) \<Rightarrow> distance_target < distance_best
              | None \<Rightarrow> False)"

text \<open>The loop of \<^verbatim>\<open>select_feature_cluster\<close> over the features of the clusters from the second on.\<close>

function select_loop :: "(feature \<Rightarrow> feature \<Rightarrow> bool) \<Rightarrow> feature list \<Rightarrow> nat \<Rightarrow> nat \<Rightarrow> nat" where
  "select_loop replaces fs best it =
     (if it < length fs
      then select_loop replaces fs (if replaces (fs ! best) (fs ! it) then it else best) (Suc it)
      else best)"
  by pat_completeness auto
termination
  by (relation "measure (\<lambda>(replaces, fs, best, it). length fs - it)") auto

section \<open>Reference definitions\<close>

lemma admissible_iff:
  "length cfs \<le> length f1 \<Longrightarrow>
     data_features_admissible cfs f1 f2 \<longleftrightarrow>
     (\<forall>i < length cfs. cf_proxy (cfs ! i) (f1 ! (length f1 - length cfs + i)) (f2 ! (length f1 - length cfs + i)))"
proof (induction cfs f1 f2 rule: data_features_admissible.induct)
  case (3 cf c cfs f1 f2)
  let ?k = "length f1 - length (cf # c # cfs)"
  have k: "length f1 - length (c # cfs) = Suc ?k" using 3(2) by simp
  have "data_features_admissible (c # cfs) f1 f2 \<longleftrightarrow>
      (\<forall>i < length (c # cfs). cf_proxy ((c # cfs) ! i) (f1 ! (Suc ?k + i)) (f2 ! (Suc ?k + i)))"
    using 3 unfolding k by simp
  then have "data_features_admissible (cf # c # cfs) f1 f2 \<longleftrightarrow> cf_proxy cf (f1 ! ?k) (f2 ! ?k)
      \<and> (\<forall>i < length (c # cfs). cf_proxy ((cf # c # cfs) ! Suc i) (f1 ! (?k + Suc i)) (f2 ! (?k + Suc i)))"
    by simp
  then show ?case by (simp only: length_Cons All_less_Suc2 nth_Cons_0 add_0_right)
qed auto

lemma distance_sum: "data_features_distance n origin target = (\<Sum>i \<le> n. (origin ! i - target ! i)\<^sup>2)"
  by (induction n) (simp_all add: Let_def power2_eq_square)

text \<open>The order in which the euclidean selector prefers features.\<close>

definition prefers :: "FeatureComparison list \<Rightarrow> feature \<Rightarrow> feature \<Rightarrow> feature \<Rightarrow> bool" where
  "prefers cfs origin f g \<longleftrightarrow>
     (data_features_admissible cfs f origin \<and> \<not> data_features_admissible cfs g origin)
     \<or> ((data_features_admissible cfs f origin \<longleftrightarrow> data_features_admissible cfs g origin)
        \<and> data_features_distance (length origin - 1) origin f < data_features_distance (length origin - 1) origin g)"

lemma euclidean_prefers: "data_feature_selector EUCLIDEAN cfs origin best target = prefers cfs origin target best"
  by (auto simp: prefers_def Let_def)

lemma prefers_negtrans: "\<not> prefers cfs origin f g \<Longrightarrow> \<not> prefers cfs origin g k \<Longrightarrow> \<not> prefers cfs origin f k"
  by (auto simp: prefers_def)

lemma prefers_trans: "prefers cfs origin f g \<Longrightarrow> prefers cfs origin g k \<Longrightarrow> prefers cfs origin f k"
  by (auto simp: prefers_def)

lemma prefers_irrefl [simp]: "\<not> prefers cfs origin f f"
  by (simp add: prefers_def)

declare select_loop.simps [simp del]

text \<open>The loop finds the first element that no other is preferred to.\<close>

lemma select_loop_best:
  assumes "best < it" and "it \<le> length fs"
    and "\<forall>j < it. \<not> prefers cfs origin (fs ! j) (fs ! best)" and "\<forall>j < best. prefers cfs origin (fs ! best) (fs ! j)"
    and "r = select_loop (\<lambda>b t. prefers cfs origin t b) fs best it"
  shows "r < length fs \<and> (\<forall>j < length fs. \<not> prefers cfs origin (fs ! j) (fs ! r))
    \<and> (\<forall>j < r. prefers cfs origin (fs ! r) (fs ! j))"
  using assms
proof (induction "length fs - it" arbitrary: best it)
  case 0
  then show ?case by (simp add: select_loop.simps)
next
  case (Suc n)
  then have it: "it < length fs" "n = length fs - Suc it" by simp_all
  let ?P = "prefers cfs origin"
  show ?case
  proof (cases "?P (fs ! it) (fs ! best)")
    case True
    have "\<not> ?P (fs ! j) (fs ! it)" if "j < Suc it" for j
      using that Suc.prems(3) True prefers_trans [of cfs origin "fs ! j" "fs ! it" "fs ! best"]
      by (cases "j = it") (auto simp: less_Suc_eq)
    moreover have "?P (fs ! it) (fs ! j)" if "j < it" for j
      using that Suc.prems(3) True prefers_negtrans [of cfs origin "fs ! it" "fs ! j" "fs ! best"] by blast
    ultimately show ?thesis
      using Suc.hyps(1) [OF it(2), of it] Suc.prems(5) True it(1)
      by (simp add: select_loop.simps [of _ _ best it])
  next
    case False
    then have "\<forall>j < Suc it. \<not> ?P (fs ! j) (fs ! best)" using Suc.prems(3) by (auto simp: less_Suc_eq)
    then show ?thesis
      using Suc.hyps(1) [OF it(2), of best] Suc.prems(1,4,5) False it(1)
      by (simp add: select_loop.simps [of _ _ best it])
  qed
qed

section \<open>Properties\<close>

text \<open>
  The selection by euclidean distance returns an admissible cluster if there is one, and
  then one with the smallest distance from the input among the admissible ones; without an
  admissible cluster it returns one with the smallest distance among all; of equally good
  clusters it returns the first.
\<close>

theorem euclidean_selection_is_closest:
  assumes "fs \<noteq> []" and "r = select_loop (data_feature_selector EUCLIDEAN cfs origin) fs 0 1"
    and "adm = (\<lambda>j. data_features_admissible cfs (fs ! j) origin)"
    and "sqd = (\<lambda>j. \<Sum>i \<le> length origin - 1. (origin ! i - fs ! j ! i)\<^sup>2)"
  shows "r < length fs
    \<and> (\<forall>j < length fs. adm j \<longrightarrow> adm r \<and> sqd r \<le> sqd j)
    \<and> ((\<forall>j < length fs. \<not> adm j) \<longrightarrow> (\<forall>j < length fs. sqd r \<le> sqd j))
    \<and> (\<forall>j < r. adm j = adm r \<longrightarrow> sqd r < sqd j)"
proof -
  have sel: "data_feature_selector EUCLIDEAN cfs origin = (\<lambda>b t. prefers cfs origin t b)"
    by (intro ext euclidean_prefers)
  have "0 < (1::nat)" "1 \<le> length fs" using assms(1) by (simp_all add: Suc_le_eq)
  from select_loop_best [OF this _ _ assms(2) [unfolded sel], simplified]
  have r: "r < length fs" "\<forall>j < length fs. \<not> prefers cfs origin (fs ! j) (fs ! r)"
    "\<forall>j < r. prefers cfs origin (fs ! r) (fs ! j)" by auto
  have sqd: "sqd j = data_features_distance (length origin - 1) origin (fs ! j)" for j
    by (simp add: assms(4) distance_sum)
  show ?thesis using r by (auto simp: prefers_def assms(3) sqd not_less)
qed

theorem euclidean_selection_is_closest_witness:
  "select_loop (data_feature_selector EUCLIDEAN [F_LESS_OR_EQUAL] [5]) [[9], [4], [1]] 0 1 = 1"
proof -
  let ?fs = "[[9], [4], [1]] :: real list list"
  define r where "r = select_loop (data_feature_selector EUCLIDEAN [F_LESS_OR_EQUAL] [5]) ?fs 0 1"
  have "?fs \<noteq> []" by simp
  from euclidean_selection_is_closest [OF this r_def refl refl]
  have "r < 3" "data_features_admissible [F_LESS_OR_EQUAL] (?fs ! r) [5]"
    "(\<Sum>i \<le> length [5 :: real] - 1. ([5] ! i - ?fs ! r ! i)\<^sup>2) \<le> (\<Sum>i \<le> length [5 :: real] - 1. ([5] ! i - ?fs ! 1 ! i)\<^sup>2)"
    by auto
  then have "r = 1" by (cases r; cases "r - 1") (auto simp: numeral_3_eq_3 less_Suc_eq)
  then show ?thesis by (simp add: r_def)
qed

text \<open>
  The normalised selection does not replace the best found so far when the input and both
  clusters agree on some axis, whatever the distances: the width of that axis is zero and the
  comparison of the distances involves a value that is not a number.
\<close>

theorem normalized_selection_ignores_closer:
  assumes "i < length origin" and "best ! i = origin ! i" and "target ! i = origin ! i"
    and "data_features_admissible cfs best origin = data_features_admissible cfs target origin"
  shows "\<not> data_feature_selector NORMALIZED cfs origin best target"
proof -
  have "normalized_distances n origin best target = None" if "i \<le> n" for n
    using that
  proof (induction n)
    case 0
    then show ?case using assms(2,3) by (simp add: normalize_axis_def)
  next
    case (Suc n)
    then show ?case
      using assms(2,3) by (cases "i = Suc n") (auto simp: normalize_axis_def le_Suc_eq split: option.splits)
  qed
  then have "normalized_distances (length origin - 1) origin best target = None" using assms(1) by simp
  then show ?thesis using assms(4) by (simp add: Let_def)
qed

theorem normalized_selection_ignores_closer_witness:
  "select_loop (data_feature_selector NORMALIZED [DONT_CARE, DONT_CARE] [1, 5]) [[9, 5], [1, 5]] 0 1 = 0"
proof -
  have "\<not> data_feature_selector NORMALIZED [DONT_CARE, DONT_CARE] [1, 5] [9, 5] [1, 5]"
    by (rule normalized_selection_ignores_closer [of 1]) (simp_all add: dont_care_def)
  then show ?thesis by (simp add: select_loop.simps)
qed

end
