(* ===== verification/Da_Asrtm_Model.thy ===== *)
theory Da_Asrtm_Model
  imports Asrtm_Model Data_Features
begin

text \<open>
  The data-aware manager (\<^verbatim>\<open>da_asrtm.hpp\<close>): one run-time manager for each cluster of input
  features, one of which is active. The \<^verbatim>\<open>std::deque\<close> of managers is a list and the iterator of
  the active one is its position, \<open>None\<close> is the end iterator. Methods that concern the
  application knowledge go to the active manager, those that define the problem go to all of
  them. Feature values are real numbers.
\<close>

section \<open>Operations\<close>

record da_asrtm =
  managers :: "(feature \<times> asrtm) list"
  active_manager :: "nat option"

definition DataAwareAsrtm :: da_asrtm where
  "DataAwareAsrtm = \<lparr>managers = [], active_manager = None\<rparr>"

text \<open>The position of the first manager with a key.\<close>

fun position_of :: "feature \<Rightarrow> (feature \<times> asrtm) list \<Rightarrow> nat option" where
  "position_of key [] = None"
| "position_of key (e # es) = (if fst e = key then Some 0 else map_option Suc (position_of key es))"

definition add_feature_cluster :: "nat \<Rightarrow> nat \<Rightarrow> feature \<Rightarrow> heap \<Rightarrow> da_asrtm \<Rightarrow> (heap \<times> da_asrtm) result" where
  "add_feature_cluster nr_knobs nr_metrics key h d =
     (case managers d of
        [] \<Rightarrow> Inr (h, d\<lparr>managers := [(key, Asrtm nr_knobs nr_metrics)], active_manager := Some 0\<rparr>)
      | first # _ \<Rightarrow>
          (case active_manager d of
             None \<Rightarrow> Inl (Undefined_behaviour ''the end iterator is dereferenced'')
           | Some i \<Rightarrow>
               let key_actual_cluster = fst (managers d ! i);
                   (h', sibling) = as_create_sibling h (snd first);
                   ms = managers d @ [(key, sibling)]
               in Inr (h', d\<lparr>managers := ms, active_manager := position_of key_actual_cluster ms\<rparr>)))"

definition select_feature_cluster ::
    "FeatureDistanceType \<Rightarrow> FeatureComparison list \<Rightarrow> feature \<Rightarrow> da_asrtm \<Rightarrow> da_asrtm result" where
  "select_feature_cluster distance_type cfs key d =
     (if managers d = [] then Inl (Undefined_behaviour ''the successor of the end iterator is taken'')
      else let i = select_loop (data_feature_selector distance_type cfs key) (map fst (managers d)) 0 1;
               (f, a) = managers d ! i
           in Inr (if active_manager d \<noteq> Some i
                   then d\<lparr>active_manager := Some i, managers := (managers d)[i := (f, as_restore_from_data_feature_switch a)]\<rparr>
                   else d))"

text \<open>
  Erasing an element of a deque invalidates the end iterator, unless the element is the first
  and not the only one; the code goes on comparing with the iterator it took before. The key of
  the active manager is never saved: \<^verbatim>\<open>active_manager != active_manager\<close> is false.
\<close>

definition remove_feature_cluster :: "feature \<Rightarrow> da_asrtm \<Rightarrow> da_asrtm result" where
  "remove_feature_cluster key d =
     (case position_of key (managers d) of
        None \<Rightarrow> Inr (d\<lparr>active_manager := None\<rparr>)
      | Some i \<Rightarrow>
          guard_assert (active_manager d \<noteq> Some i) ''Error: attempting to delete the active cluster''
            (if i = 0 \<and> 1 < length (managers d)
             then Inr (d\<lparr>managers := tl (managers d), active_manager := position_of key (tl (managers d))\<rparr>)
             else Inl (Undefined_behaviour ''an invalidated iterator is used'')))"

definition get_selected_feature :: "nat \<Rightarrow> da_asrtm \<Rightarrow> real" where
  "get_selected_feature index d = (case active_manager d of Some i \<Rightarrow> fst (managers d ! i) ! index | None \<Rightarrow> 0)"

subsection \<open>Forwarded methods\<close>

definition forward_active :: "string \<Rightarrow> (asrtm \<Rightarrow> 'r result) \<Rightarrow> da_asrtm \<Rightarrow> 'r result" where
  "forward_active msg f d =
     (case active_manager d of None \<Rightarrow> Inl (Assertion_failed msg) | Some i \<Rightarrow> f (snd (managers d ! i)))"

definition set_active_manager :: "asrtm \<Rightarrow> da_asrtm \<Rightarrow> da_asrtm" where
  "set_active_manager a d =
     (case active_manager d of
        None \<Rightarrow> d
      | Some i \<Rightarrow> d\<lparr>managers := (managers d)[i := (fst (managers d ! i), a)]\<rparr>)"

fun for_each :: "(heap \<Rightarrow> asrtm \<Rightarrow> (heap \<times> asrtm) result) \<Rightarrow> heap \<Rightarrow> (feature \<times> asrtm) list
    \<Rightarrow> (heap \<times> (feature \<times> asrtm) list) result" where
  "for_each f h [] = Inr (h, [])"
| "for_each f h ((k, a) # ms) =
     bind_result (f h a) (\<lambda>(h', a').
       bind_result (for_each f h' ms) (\<lambda>(h'', ms'). Inr (h'', (k, a') # ms')))"

definition forward_all :: "(heap \<Rightarrow> asrtm \<Rightarrow> (heap \<times> asrtm) result) \<Rightarrow> heap \<Rightarrow> da_asrtm \<Rightarrow> (heap \<times> da_asrtm) result" where
  "forward_all f h d = bind_result (for_each f h (managers d)) (\<lambda>(h', ms). Inr (h', d\<lparr>managers := ms\<rparr>))"

definition da_add_operating_points :: "operating_point list \<Rightarrow> da_asrtm \<Rightarrow> (nat \<times> da_asrtm) result" where
  "da_add_operating_points op_list d =
     forward_active ''Error: attempt to add Operating Points to a non-existent Asrtm''
       (\<lambda>a. let (n, a') = as_add_operating_points op_list a in Inr (n, set_active_manager a' d)) d"

definition da_remove_operating_points :: "segment list \<Rightarrow> da_asrtm \<Rightarrow> (nat \<times> da_asrtm) result" where
  "da_remove_operating_points configuration_list d =
     forward_active ''Error: attempt to remove Operating Points to a non-existent Asrtm''
       (\<lambda>a. let (n, a') = as_remove_operating_points configuration_list a in Inr (n, set_active_manager a' d)) d"

definition da_get_number_operating_points :: "da_asrtm \<Rightarrow> nat result" where
  "da_get_number_operating_points d =
     forward_active ''Error: attempt to query the number of Operating Points to a non-existent Asrtm''
       (\<lambda>a. Inr (get_number_operating_points a)) d"

definition da_is_application_knowledge_empty :: "da_asrtm \<Rightarrow> bool" where
  "da_is_application_knowledge_empty d =
     (case active_manager d of Some i \<Rightarrow> is_application_knowledge_empty (snd (managers d ! i)) | None \<Rightarrow> True)"

definition da_in_design_space_exploration :: "da_asrtm \<Rightarrow> bool" where
  "da_in_design_space_exploration d =
     (case active_manager d of Some i \<Rightarrow> in_design_space_exploration (snd (managers d ! i)) | None \<Rightarrow> True)"

definition da_create_new_state :: "string \<Rightarrow> heap \<Rightarrow> da_asrtm \<Rightarrow> (heap \<times> da_asrtm) result" where
  "da_create_new_state i = forward_all (\<lambda>h a. Inr (h, as_create_new_state i a))"

definition da_remove_state :: "string \<Rightarrow> heap \<Rightarrow> da_asrtm \<Rightarrow> (heap \<times> da_asrtm) result" where
  "da_remove_state i = forward_all (\<lambda>h a. map_sum id (Pair h) (as_remove_state i a))"

definition da_change_active_state :: "string \<Rightarrow> heap \<Rightarrow> da_asrtm \<Rightarrow> (heap \<times> da_asrtm) result" where
  "da_change_active_state i = forward_all (\<lambda>h a. map_sum id (Pair h) (as_change_active_state i a))"

definition da_which_active_state :: "da_asrtm \<Rightarrow> string result" where
  "da_which_active_state d =
     forward_active ''Error: attempt to query the active state in a non-existent Asrtm'' which_active_state d"

definition da_add_runtime_knowledge ::
    "OperatingPointSegments \<Rightarrow> nat \<Rightarrow> nat \<Rightarrow> nat \<Rightarrow> heap \<Rightarrow> da_asrtm \<Rightarrow> (heap \<times> da_asrtm) result" where
  "da_add_runtime_knowledge segment i n monitor_buffer =
     forward_all (\<lambda>h a. Inr (as_add_runtime_knowledge segment i n monitor_buffer h a))"

definition da_find_best_configuration :: "heap \<Rightarrow> da_asrtm \<Rightarrow> (heap \<times> da_asrtm) result" where
  "da_find_best_configuration h d =
     forward_active ''Error: attempt to find the best configuration from a non-existent Asrtm''
       (\<lambda>a. map_sum id (\<lambda>(h', a'). (h', set_active_manager a' d)) (as_find_best_configuration h a)) d"

definition da_get_best_configuration :: "da_asrtm \<Rightarrow> (segment \<times> bool \<times> da_asrtm) result" where
  "da_get_best_configuration d =
     forward_active ''Error: attempt to get the best configuration from a non-existent Asrtm''
       (\<lambda>a. map_sum id (\<lambda>(conf, changed, a'). (conf, changed, set_active_manager a' d)) (as_get_best_configuration a)) d"

definition da_configuration_applied :: "(nat \<Rightarrow> nat) \<Rightarrow> heap \<Rightarrow> da_asrtm \<Rightarrow> (heap \<times> da_asrtm) result" where
  "da_configuration_applied now h d =
     forward_active ''Error: attempt to notify a non-existent Asrtm''
       (\<lambda>a. let (h', a') = as_configuration_applied now h a in Inr (h', set_active_manager a' d)) d"

definition da_get_mean :: "OperatingPointSegments \<Rightarrow> nat \<Rightarrow> da_asrtm \<Rightarrow> real result" where
  "da_get_mean segment i d =
     forward_active ''Error: attempt to get the expected value from a non-existent Asrtm'' (as_get_mean segment i) d"

definition da_add_constraint ::
    "OperatingPointSegments \<Rightarrow> nat \<Rightarrow> int \<Rightarrow> goal \<Rightarrow> int \<Rightarrow> heap \<Rightarrow> da_asrtm \<Rightarrow> (heap \<times> da_asrtm) result" where
  "da_add_constraint segment i sig g priority =
     forward_all (\<lambda>h a. map_sum id (Pair h) (as_add_constraint segment i sig g priority h a))"

definition da_remove_constraint :: "int \<Rightarrow> heap \<Rightarrow> da_asrtm \<Rightarrow> (heap \<times> da_asrtm) result" where
  "da_remove_constraint priority = forward_all (\<lambda>h a. map_sum id (Pair h) (as_remove_constraint priority a))"

definition da_set_rank ::
    "RankObjective \<Rightarrow> FieldComposer \<Rightarrow> op_field \<Rightarrow> op_field list \<Rightarrow> heap \<Rightarrow> da_asrtm \<Rightarrow> (heap \<times> da_asrtm) result" where
  "da_set_rank obj composer f fs = forward_all (\<lambda>h a. map_sum id (Pair h) (as_set_rank obj composer f fs a))"

subsection \<open>Remote exploration\<close>

definition da_start_support_thread :: "da_asrtm \<Rightarrow> da_asrtm" where
  "da_start_support_thread d = d\<lparr>managers := map (apsnd as_set_autotuner_in_dse) (managers d)\<rparr>"

text \<open>The managers for the clusters of a model, each a sibling of the reference manager.\<close>

fun model_managers :: "asrtm \<Rightarrow> (feature \<times> operating_point list) list \<Rightarrow> heap \<Rightarrow> heap \<times> (feature \<times> asrtm) list" where
  "model_managers reference [] h = (h, [])"
| "model_managers reference ((key, ops) # model) h =
     (let (h1, sibling) = as_create_sibling h reference;
          (h2, a) = as_set_model ops h1 sibling;
          (h3, ms) = model_managers reference model h2
      in (h3, (key, a) # ms))"

definition da_explore :: "(feature \<times> operating_point list) list \<Rightarrow> da_asrtm \<Rightarrow> da_asrtm result" where
  "da_explore ops d =
     (case ops of
        [] \<Rightarrow> Inl (Assertion_failed ''Error: received an empty Operating Points container'')
      | (key, []) # _ \<Rightarrow> Inl (Assertion_failed ''Error: received an empty Operating Points container'')
      | (key, op # _) # _ \<Rightarrow>
          guard_assert (managers d \<noteq> []) ''Error: unable to explore a configuration without AS-RTM''
            (Inr (d\<lparr>managers := map (apsnd (as_set_single_point op)) (managers d)\<rparr>)))"

definition da_prediction :: "(feature \<times> operating_point list) list \<Rightarrow> heap \<Rightarrow> da_asrtm \<Rightarrow> (heap \<times> da_asrtm) result" where
  "da_prediction model h d =
     (case managers d of
        [] \<Rightarrow> Inl (Assertion_failed ''Error: unable to set the model without AS-RTM'')
      | first # _ \<Rightarrow>
          let (h1, reference_manager) = as_create_sibling h (snd first);
              (h2, ms) = model_managers reference_manager model h1
          in Inr (h2, d\<lparr>managers := ms, active_manager := (if ms = [] then None else Some 0)\<rparr>))"

definition da_handle_message ::
    "(string \<Rightarrow> (feature \<times> operating_point list) list) \<Rightarrow> message_model \<Rightarrow> message_model \<Rightarrow> heap \<times> da_asrtm
     \<Rightarrow> (message_model list \<times> heap \<times> da_asrtm) result" where
  "da_handle_message get_op welcome msg = (\<lambda>(h, d).
     case last_component (topic msg) of
       None \<Rightarrow> Inl (Runtime_error ''std::out_of_range'')
     | Some message_type \<Rightarrow>
         if message_type = ''/explore'' then map_sum id (\<lambda>d'. ([], h, d')) (da_explore (get_op (payload msg)) d)
         else if message_type = ''/prediction'' then map_sum id (Pair []) (da_prediction (get_op (payload msg)) h d)
         else if message_type = ''/welcome'' then Inr ([welcome], h, d)
         else Inr ([], h, d))"

section \<open>Invariant\<close>

definition da_inv :: "da_asrtm \<Rightarrow> bool" where
  "da_inv d \<longleftrightarrow> (\<forall>e \<in> set (managers d). asrtm_inv (snd e)) \<and> (\<forall>i. active_manager d = Some i \<longrightarrow> i < length (managers d))"

lemma da_inv_init: "da_inv DataAwareAsrtm"
  by (simp add: da_inv_def DataAwareAsrtm_def)

lemma position_of_less: "position_of key ms = Some i \<Longrightarrow> i < length ms \<and> fst (ms ! i) = key"
  by (induction ms arbitrary: i) (auto split: if_splits)

lemma position_of_None: "position_of key ms = None \<longleftrightarrow> key \<notin> fst ` set ms"
  by (induction ms) auto

lemma da_inv_update: "da_inv d \<Longrightarrow> asrtm_inv a \<Longrightarrow> da_inv (d\<lparr>managers := (managers d)[i := (f, a)]\<rparr>)"
  using set_update_subset_insert [of "managers d" i "(f, a)"] by (fastforce simp: da_inv_def)

lemma da_inv_set_active: "da_inv d \<Longrightarrow> asrtm_inv a \<Longrightarrow> da_inv (set_active_manager a d)"
  by (simp add: set_active_manager_def da_inv_update split: option.splits)

text \<open>What holds of every manager after a method holds of all of them after the loop.\<close>

lemma for_each_inv:
  assumes "\<And>h a h' a'. asrtm_inv a \<Longrightarrow> f h a = Inr (h', a') \<Longrightarrow> asrtm_inv a'"
  shows "for_each f h ms = Inr (h', ms') \<Longrightarrow> \<forall>e \<in> set ms. asrtm_inv (snd e) \<Longrightarrow>
    (\<forall>e \<in> set ms'. asrtm_inv (snd e)) \<and> map fst ms' = map fst ms"
proof (induction ms arbitrary: h ms')
  case (Cons e ms)
  obtain k a where e: "e = (k, a)" by force
  obtain h1 a1 ms1 where "f h a = Inr (h1, a1)" "for_each f h1 ms = Inr (h', ms1)" "ms' = (k, a1) # ms1"
    using Cons.prems(1) by (auto simp: e)
  then show ?case using Cons.IH Cons.prems(2) assms e by auto
qed simp

lemma forward_all_inv:
  assumes "da_inv d" and "forward_all f h d = Inr (h', d')"
    and "\<And>h a h' a'. asrtm_inv a \<Longrightarrow> f h a = Inr (h', a') \<Longrightarrow> asrtm_inv a'"
  shows "da_inv d' \<and> map fst (managers d') = map fst (managers d) \<and> active_manager d' = active_manager d"
proof -
  obtain ms where ms: "for_each f h (managers d) = Inr (h', ms)" "d' = d\<lparr>managers := ms\<rparr>"
    using assms(2) by (auto simp: forward_all_def)
  have inv: "\<forall>e \<in> set (managers d). asrtm_inv (snd e)" using assms(1) by (simp add: da_inv_def)
  have each: "(\<forall>e \<in> set ms. asrtm_inv (snd e)) \<and> map fst ms = map fst (managers d)"
    by (rule for_each_inv [OF _ ms(1) inv]) (rule assms(3))
  have "length ms = length (managers d)" using each by (metis length_map)
  then show ?thesis using each assms(1) by (simp add: da_inv_def ms(2))
qed

lemma asrtm_inv_call:
  "asrtm_inv a \<Longrightarrow> admissible_call c (h, a) \<Longrightarrow> run_call c (h, a) = Inr (h', b) \<Longrightarrow> asrtm_inv b"
  using step_inv [OF step.call] by blast

lemma asrtm_inv_restore: "asrtm_inv a \<Longrightarrow> asrtm_inv (as_restore_from_data_feature_switch a)"
  using asrtm_inv_call [of a Restore_from_data_feature_switch] by simp

lemma model_managers_inv:
  assumes "asrtm_inv reference"
  shows "model_managers reference model h = (h', ms) \<Longrightarrow> \<forall>e \<in> set model. configurations_differ (snd e) \<Longrightarrow>
    map fst ms = map fst model
    \<and> map (\<lambda>e. map deref (kb_to_stream (application_knowledge (snd e)))) ms = map snd model
    \<and> (\<forall>e \<in> set ms. asrtm_inv (snd e) \<and> status (snd e) = WITH_PREDICTION
         \<and> map fst (application_optimizers (snd e)) = map fst (application_optimizers reference))"
proof (induction model arbitrary: h ms)
  case (Cons e model)
  obtain key ops where e: "e = (key, ops)" by force
  obtain h1 sib where s: "as_create_sibling h reference = (h1, sib)" by force
  obtain h2 a where a: "as_set_model ops h1 sib = (h2, a)" by force
  obtain ms1 where r: "model_managers reference model h2 = (h', ms1)" "ms = (key, a) # ms1"
    using Cons.prems(1) by (auto simp: e s a split: prod.splits)
  have sib: "asrtm_inv sib" "map fst (application_optimizers sib) = map fst (application_optimizers reference)"
    using asrtm_inv_sibling [OF assms, of h] s by (auto simp: as_create_sibling_def sibling_loop_eq)
  have kb: "kb_wf (kb_clear (application_knowledge sib))" using kb_wf_clear asrtm_invD(1) [OF sib(1)] by blast
  have "\<forall>op \<in> set ops. kb_find (software_knobs op) (kb_clear (application_knowledge sib)) = None"
    using kb_find_None [OF kb] by simp
  from collect_add_all [OF kb this] have "map deref (kb_to_stream (application_knowledge a)) = ops"
    using a Cons.prems(2) by (auto simp: e as_set_model_def as_set_knowledge_def)
  moreover have "asrtm_inv a" using asrtm_inv_call [OF sib(1), of "Set_model ops" h1 h2 a] a by simp
  moreover have "status a = WITH_PREDICTION" "map fst (application_optimizers a) = map fst (application_optimizers reference)"
    using a sib(2) by (auto simp: as_set_model_def as_set_knowledge_def)
  ultimately show ?case using Cons.IH [OF r(1)] Cons.prems(2) by (simp add: r(2) e)
qed simp

section \<open>Properties\<close>

text \<open>
  Selecting the cluster for an input activates an admissible cluster closest to it, keeps
  the other managers, and a manager that becomes active has forgotten the configuration of the
  application, so that no stale observation is attributed to it.
\<close>

theorem select_feature_cluster_activates_closest:
  assumes "da_inv d" and "managers d \<noteq> []"
  shows "\<exists>i d'. select_feature_cluster EUCLIDEAN cfs key d = Inr d' \<and> active_manager d' = Some i \<and> da_inv d'
    \<and> map fst (managers d') = map fst (managers d)
    \<and> (\<forall>j < length (managers d). \<not> prefers cfs key (fst (managers d ! j)) (fst (managers d ! i)))
    \<and> (active_manager d \<noteq> Some i \<longrightarrow>
         application_configuration (snd (managers d' ! i)) = None \<and> status (snd (managers d' ! i)) \<noteq> TUNED)"
proof -
  let ?fs = "map fst (managers d)"
  define i where "i = select_loop (data_feature_selector EUCLIDEAN cfs key) ?fs 0 1"
  have sel: "data_feature_selector EUCLIDEAN cfs key = (\<lambda>b t. prefers cfs key t b)" by (intro ext euclidean_prefers)
  have "0 < (1::nat)" "1 \<le> length ?fs" using assms(2) by (simp_all add: Suc_le_eq)
  from select_loop_best [OF this _ _ i_def [unfolded sel], simplified]
  have i: "i < length (managers d)" "\<forall>j < length (managers d). \<not> prefers cfs key (fst (managers d ! j)) (fst (managers d ! i))"
    by auto
  obtain f a where fa: "managers d ! i = (f, a)" by force
  have "asrtm_inv a" using assms(1) i(1) fa by (metis da_inv_def nth_mem snd_conv)
  then have inv: "da_inv (d\<lparr>managers := (managers d)[i := (f, as_restore_from_data_feature_switch a)]\<rparr>)"
    by (intro da_inv_update assms(1) asrtm_inv_restore)
  define d' where "d' = (if active_manager d \<noteq> Some i
    then d\<lparr>active_manager := Some i, managers := (managers d)[i := (f, as_restore_from_data_feature_switch a)]\<rparr> else d)"
  have "select_feature_cluster EUCLIDEAN cfs key d = Inr d'"
    using assms(2) fa unfolding select_feature_cluster_def i_def [symmetric] Let_def d'_def by simp
  moreover have "da_inv d'" using inv assms(1) i(1) by (simp add: d'_def da_inv_def)
  moreover have "map fst (managers d') = map fst (managers d)"
    using fa i(1) by (simp add: d'_def map_update) (metis fst_conv list_update_id nth_map)
  moreover have "active_manager d' = Some i" by (auto simp: d'_def)
  moreover have "active_manager d \<noteq> Some i \<longrightarrow>
      application_configuration (snd (managers d' ! i)) = None \<and> status (snd (managers d' ! i)) \<noteq> TUNED"
    using i(1) by (simp add: d'_def as_restore_from_data_feature_switch_def)
  ultimately show ?thesis using i(2) by blast
qed

definition sample_clusters :: da_asrtm where
  "sample_clusters = \<lparr>managers = [([9], Asrtm 1 3), ([4], snd sample_run), ([1], Asrtm 1 3)], active_manager = Some 0\<rparr>"

lemma da_inv_sample: "da_inv sample_clusters"
  using reachable_inv [OF reachable_sample] by (auto simp: da_inv_def sample_clusters_def asrtm_inv_init)

theorem select_feature_cluster_activates_closest_witness:
  "\<exists>d'. select_feature_cluster EUCLIDEAN [F_LESS_OR_EQUAL] [5] sample_clusters = Inr d' \<and> active_manager d' = Some 1 \<and> da_inv d'"
proof -
  have "managers sample_clusters \<noteq> []" by (simp add: sample_clusters_def)
  from select_feature_cluster_activates_closest [OF da_inv_sample this, of "[F_LESS_OR_EQUAL]" "[5]"]
  obtain i d' where d: "select_feature_cluster EUCLIDEAN [F_LESS_OR_EQUAL] [5] sample_clusters = Inr d'"
    "active_manager d' = Some i" "da_inv d'" "map fst (managers d') = [[9], [4], [1]]"
    "\<forall>j < 3. \<not> prefers [F_LESS_OR_EQUAL] [5] (fst (managers sample_clusters ! j)) (fst (managers sample_clusters ! i))"
    by (auto simp: sample_clusters_def)
  have "i < 3" using d(2-4) by (metis da_inv_def length_Cons length_map list.size(3) numeral_3_eq_3)
  then have "i = 1"
    using d(5) [rule_format, of 1] by (auto simp: sample_clusters_def prefers_def numeral_3_eq_3 less_Suc_eq)
  with d show ?thesis by blast
qed

text \<open>
  A prediction replaces the clusters by those of the model; every new manager holds exactly
  the operating points of its cluster, keeps the invariant and has the states of the manager
  that the first cluster had, and the first of them is active.
\<close>

theorem da_prediction_installs_clusters:
  assumes "da_inv d" and "managers d \<noteq> []" and "\<forall>e \<in> set model. configurations_differ (snd e)"
  shows "\<exists>h' d'. da_prediction model h d = Inr (h', d') \<and> da_inv d' \<and> map fst (managers d') = map fst model
    \<and> map (\<lambda>e. map deref (kb_to_stream (application_knowledge (snd e)))) (managers d') = map snd model
    \<and> (\<forall>e \<in> set (managers d'). map fst (application_optimizers (snd e)) = map fst (application_optimizers (snd (hd (managers d)))))
    \<and> (active_manager d' = None \<longleftrightarrow> model = [])"
proof -
  obtain first rest where m: "managers d = first # rest" using assms(2) by (cases "managers d") auto
  obtain h1 ref where r: "as_create_sibling h (snd first) = (h1, ref)" by force
  obtain h2 ms where ms: "model_managers ref model h1 = (h2, ms)" by force
  have "asrtm_inv (snd first)" using assms(1) m by (simp add: da_inv_def)
  then have ref: "asrtm_inv ref" "map fst (application_optimizers ref) = map fst (application_optimizers (snd first))"
    using asrtm_inv_sibling [of "snd first" h] r by (auto simp: as_create_sibling_def sibling_loop_eq)
  note M = model_managers_inv [OF ref(1) ms assms(3)]
  have "length ms = length model" using M by (metis length_map)
  moreover have "da_prediction model h d = Inr (h2, d\<lparr>managers := ms, active_manager := (if ms = [] then None else Some 0)\<rparr>)"
    by (simp add: da_prediction_def m r ms)
  ultimately show ?thesis using M ref(2) by (auto simp: da_inv_def m)
qed

theorem da_prediction_installs_clusters_witness:
  "\<exists>h' d'. da_prediction [([2], [deref sample_p]), ([3], [deref sample_q])] (sample_heap 5) sample_clusters = Inr (h', d')
     \<and> map fst (managers d') = [[2], [3]] \<and> da_inv d'"
proof -
  have "\<forall>e \<in> set [([2 :: real], [deref sample_p]), ([3], [deref sample_q])]. configurations_differ (snd e)" by simp
  moreover have "managers sample_clusters \<noteq> []" by (simp add: sample_clusters_def)
  ultimately show ?thesis
    using da_prediction_installs_clusters [OF da_inv_sample, of "[([2], [deref sample_p]), ([3], [deref sample_q])]" "sample_heap 5"]
    by auto
qed

text \<open>
  Removing a cluster leaves no cluster active although another one was, when the keys are
  different, so the next request of the application fails its assertion.
\<close>

theorem remove_feature_cluster_loses_active:
  assumes "remove_feature_cluster key d = Inr d'" and "distinct (map fst (managers d))"
  shows "active_manager d' = None \<and> (\<exists>msg. da_find_best_configuration h d' = Inl (Assertion_failed msg))"
proof -
  have "active_manager d' = None"
  proof (cases "position_of key (managers d)")
    case None
    then show ?thesis using assms(1) by (auto simp: remove_feature_cluster_def)
  next
    case (Some i)
    then have d': "i = 0" "d' = d\<lparr>managers := tl (managers d), active_manager := position_of key (tl (managers d))\<rparr>"
      "managers d \<noteq> []"
      using assms(1) by (auto simp: remove_feature_cluster_def split: if_splits)
    obtain e es where m: "managers d = e # es" using d'(3) by (cases "managers d") auto
    have "fst e = key" using position_of_less [OF Some] d'(1) m by simp
    then have "key \<notin> fst ` set es" using assms(2) m by auto
    then show ?thesis using d'(2) m position_of_None by simp
  qed
  then show ?thesis by (simp add: da_find_best_configuration_def forward_active_def)
qed

theorem remove_feature_cluster_loses_active_witness:
  "\<exists>d'. remove_feature_cluster [9] (sample_clusters\<lparr>active_manager := Some 1\<rparr>) = Inr d' \<and> active_manager d' = None"
proof -
  let ?d = "sample_clusters\<lparr>active_manager := Some 1\<rparr>"
  have "\<exists>d'. remove_feature_cluster [9] ?d = Inr d'" by (simp add: remove_feature_cluster_def sample_clusters_def)
  then obtain d' where d': "remove_feature_cluster [9] ?d = Inr d'" by blast
  have "distinct (map fst (managers ?d))" by (simp add: sample_clusters_def)
  from remove_feature_cluster_loses_active [OF d' this] d' show ?thesis by blast
qed

end
