(* ===== verification/Heel_Knowledge.thy ===== *)
theory Heel_Knowledge
  imports Heel_Sort Heel_Data Da_Asrtm_Model
begin

text \<open>
  The knowledge of an application in the generated code (\<^verbatim>\<open>generator_cpp_knowledge_src.cpp\<close>): the
  generator sorts the operating points of a block by their features and writes the statements that add
  a cluster, select it, and add its points. The theorems say how the text is made of groups, and what
  the statements do to the data-aware manager of the library.
\<close>

section \<open>The generated text\<close>

text \<open>\<^verbatim>\<open>join\<close> of \<^verbatim>\<open>generator_utils.hpp\<close>.\<close>

definition join :: "string \<Rightarrow> ('a \<Rightarrow> string) \<Rightarrow> 'a list \<Rightarrow> string" where
  "join sep f xs = (case xs of [] \<Rightarrow> [] | x # rest \<Rightarrow> f x @ foldl (\<lambda>partial_result e. partial_result @ sep @ f e) [] rest)"

definition feature_key :: "operating_point_model \<Rightarrow> string" where
  "feature_key op = join '','' value_mean (op_features op)"

abbreviation newline :: string where "newline \<equiv> [CHR 0x0A]"
abbreviation tab :: string where "tab \<equiv> [CHR 0x09]"
abbreviation in_quotation :: "string \<Rightarrow> string" where "in_quotation s \<equiv> [CHR 0x22] @ s @ [CHR 0x22]"

definition cluster_code :: "string \<Rightarrow> string" where
  "cluster_code key = tab @ ''manager.add_feature_cluster({{'' @ key @ ''}});'' @ newline
     @ tab @ ''manager.select_feature_cluster({{'' @ key @ ''}});'' @ newline"

definition begin_code :: "block_model \<Rightarrow> string" where
  "begin_code blk = tab @ ''manager.add_operating_points(std::vector<margot::'' @ block_id blk @ ''::operating_point_type>({'' @ newline"

definition end_code :: string where
  "end_code = tab @ ''}));'' @ newline"

definition knob_code :: "block_model \<Rightarrow> knob_model \<times> operating_point_value \<Rightarrow> string" where
  "knob_code blk kv = (case kv of (knob, v) \<Rightarrow>
     if knob_type knob \<noteq> ''string'' then value_mean v
     else ''margot::'' @ block_id blk @ ''::knob_'' @ knob_name knob @ ''_to_val('' @ in_quotation (value_mean v) @ '')'')"

definition metric_code :: "block_model \<Rightarrow> metric_model \<times> operating_point_value \<Rightarrow> string" where
  "metric_code blk mv = (case mv of (metric, v) \<Rightarrow>
     let metric_is_distribution = (\<exists>m \<in> set (block_metrics blk). distribution m);
         stdv = (if \<not> distribution metric \<and> metric_is_distribution then ''0'' else value_standard_deviation v)
     in if metric_is_distribution
        then ''margot::'' @ block_id blk @ ''::metrics_type('' @ value_mean v @ '','' @ stdv @ '')'' else value_mean v)"

text \<open>A point with fewer values than the block has knobs or metrics is read out of range.\<close>

definition point_code :: "block_model \<Rightarrow> operating_point_model \<Rightarrow> string result" where
  "point_code blk op =
     (if length (op_knobs op) < length (block_knobs blk) \<or> length (op_metrics op) < length (block_metrics blk)
      then Inl (Undefined_behaviour ''vector index out of range'')
      else Inr (tab @ tab @ ''{ // new operating point'' @ newline
        @ tab @ tab @ tab @ ''{ // software knobs '' @ newline @ tab @ tab @ tab @ tab
        @ join '', '' (knob_code blk) (zip (block_knobs blk) (op_knobs op)) @ newline
        @ tab @ tab @ tab @ ''},'' @ newline
        @ tab @ tab @ tab @ ''{ // extra-functional properties '' @ newline @ tab @ tab @ tab @ tab
        @ join '', '' (metric_code blk) (zip (block_metrics blk) (op_metrics op)) @ newline
        @ tab @ tab @ tab @ ''}'' @ newline @ tab @ tab @ ''},'' @ newline))"

text \<open>The loop over the sorted points, with the current cluster and the flag of the first iteration.\<close>

fun emit_points :: "block_model \<Rightarrow> string \<Rightarrow> bool \<Rightarrow> operating_point_model list \<Rightarrow> string result" where
  "emit_points blk current_cluster first_iteration [] = Inr []"
| "emit_points blk current_cluster first_iteration (op # ops) =
     (let is_feature_cluster_different = (feature_key op \<noteq> current_cluster);
          is_with_features = (feature_fields (block_features blk) \<noteq> []);
          change_cluster = (is_with_features \<and> is_feature_cluster_different);
          add_op_begin = (first_iteration \<or> is_feature_cluster_different);
          add_op_end = (is_feature_cluster_different \<and> is_with_features \<and> \<not> first_iteration);
          current = (if is_feature_cluster_different then feature_key op else current_cluster)
      in bind_result (point_code blk op) (\<lambda>point.
         bind_result (emit_points blk current False ops) (\<lambda>rest.
           Inr ((if add_op_end then end_code else []) @ (if change_cluster then cluster_code current else [])
                @ (if add_op_begin then begin_code blk else []) @ point @ rest))))"

definition knowledge_function :: "block_model \<Rightarrow> string result" where
  "knowledge_function blk =
     bind_result (std_sort (name_less feature_key) (block_ops blk)) (\<lambda>ops.
       if block_knobs blk = [] then Inr []
       else let is_with_features = (feature_fields (block_features blk) \<noteq> []);
                fake_cluster = join '','' (\<lambda>f. ''1'') (feature_fields (block_features blk))
            in bind_result
                 (if is_with_features \<and> ops = [] then Inr (cluster_code fake_cluster)
                  else if ops \<noteq> [] then bind_result (emit_points blk [] True ops) (\<lambda>body. Inr (body @ end_code @ newline @ newline))
                  else Inr [])
                 (\<lambda>body. Inr (''void margot::add_application_knowledge(margot::'' @ block_id blk @ ''::manager_type& manager) {'' @ newline
                    @ body @ ''}'' @ newline)))"

definition knowledge_content :: "application_model \<Rightarrow> string result" where
  "knowledge_content app = bind_result (traverse knowledge_function (application_blocks app)) (\<lambda>cs. Inr (concat cs))"

section \<open>Groups\<close>

text \<open>The keys of adjacent points, and the points with a key.\<close>

definition group_keys :: "operating_point_model list \<Rightarrow> string list" where
  "group_keys ops = remdups_adj (map feature_key ops)"

definition group_of :: "operating_point_model list \<Rightarrow> string \<Rightarrow> operating_point_model list" where
  "group_of ops key = filter (\<lambda>op. feature_key op = key) ops"

definition points_code :: "block_model \<Rightarrow> operating_point_model list \<Rightarrow> string" where
  "points_code blk ops = concat (map (\<lambda>op. projr (point_code blk op)) ops)"

definition group_code :: "block_model \<Rightarrow> operating_point_model list \<Rightarrow> string \<Rightarrow> string" where
  "group_code blk ops key = cluster_code key @ begin_code blk @ points_code blk (group_of ops key) @ end_code"

definition complete_point :: "block_model \<Rightarrow> operating_point_model \<Rightarrow> bool" where
  "complete_point blk op \<longleftrightarrow> length (op_knobs op) = length (block_knobs blk) \<and> length (op_metrics op) = length (block_metrics blk)
     \<and> feature_key op \<noteq> []"


fun groups :: "operating_point_model list \<Rightarrow> (string \<times> operating_point_model list) list" where
  "groups [] = []"
| "groups (op # ops) =
     (case groups ops of
        [] \<Rightarrow> [(feature_key op, [op])]
      | (k, g) # gs \<Rightarrow> if k = feature_key op then (k, op # g) # gs else (feature_key op, [op]) # (k, g) # gs)"

lemma groups_keys: "map fst (groups ops) = group_keys ops"
proof (induction ops)
  case (Cons op ops)
  then show ?case
    by (cases ops) (auto simp: group_keys_def split: list.splits prod.splits)
qed (simp add: group_keys_def)

lemma keys_bound: "sorted (map feature_key ops) \<Longrightarrow> k \<in> set (group_keys ops) \<Longrightarrow> (\<And>op. op \<in> set ops \<Longrightarrow> l \<le> feature_key op) \<Longrightarrow> l \<le> k"
  by (auto simp: group_keys_def)

lemma groups_sorted:
  "sorted (map feature_key ops) \<Longrightarrow> groups ops = map (\<lambda>k. (k, group_of ops k)) (group_keys ops) \<and> distinct (group_keys ops)"
proof (induction ops)
  case (Cons op ops)
  let ?k = "feature_key op"
  have IH: "groups ops = map (\<lambda>k. (k, group_of ops k)) (group_keys ops)" "distinct (group_keys ops)"
    using Cons by simp_all
  show ?case
  proof (cases "group_keys ops")
    case Nil
    then have "ops = []" by (simp add: group_keys_def)
    then show ?thesis by (simp add: group_keys_def group_of_def)
  next
    case (Cons k ks)
    then obtain op' ops' where ops: "ops = op' # ops'" "k = feature_key op'"
      by (cases ops) (auto simp: group_keys_def dest: arg_cong [of _ _ hd])
    have keys: "group_keys (op # ops) = (if k = ?k then k # ks else ?k # k # ks)"
      using Cons ops by (auto simp: group_keys_def)
    have le: "\<forall>o' \<in> set ops. ?k \<le> feature_key o'" "\<forall>o' \<in> set ops. k \<le> feature_key o'"
      using Cons.prems ops by auto
    show ?thesis
    proof (cases "k = ?k")
      case True
      have "?k \<notin> set ks" using IH(2) Cons True by simp
      then show ?thesis using IH Cons keys True by (auto simp: group_of_def)
    next
      case False
      then have "?k < k" using le(1) ops by (auto simp: order_le_less)
      then have "\<forall>o' \<in> set ops. feature_key o' \<noteq> ?k" using le(2) by force
      moreover from this have "?k \<notin> set (group_keys ops)" by (auto simp: group_keys_def)
      ultimately show ?thesis using IH Cons keys False by (auto simp: group_of_def filter_empty_conv)
    qed
  qed
qed (simp add: group_keys_def)

section \<open>The text as groups\<close>

lemma emit_points_groups:
  assumes "feature_fields (block_features blk) \<noteq> []"
  shows "\<forall>op \<in> set ops. complete_point blk op \<Longrightarrow> emit_points blk current False ops =
    Inr (case groups ops of
           [] \<Rightarrow> []
         | (k, g) # gs \<Rightarrow> (if k = current then [] else end_code @ cluster_code k @ begin_code blk) @ points_code blk g
             @ concat (map (\<lambda>(k, g). end_code @ cluster_code k @ begin_code blk @ points_code blk g) gs))"
proof (induction ops arbitrary: current)
  case (Cons op ops)
  then obtain p where p: "point_code blk op = Inr p" by (auto simp: complete_point_def point_code_def)
  have "\<forall>op \<in> set ops. complete_point blk op" using Cons.prems by simp
  note IH = Cons.IH [OF this]
  show ?case
    by (cases "groups ops") (auto simp: Let_def p IH assms points_code_def split: if_splits)
qed simp

lemma emit_points_code:
  assumes "feature_fields (block_features blk) \<noteq> []" and "\<forall>op \<in> set ops. complete_point blk op" and "ops \<noteq> []"
  shows "\<exists>body. emit_points blk [] True ops = Inr body
    \<and> body @ end_code = concat (map (\<lambda>(k, g). cluster_code k @ begin_code blk @ points_code blk g @ end_code) (groups ops))"
proof -
  obtain op ops' where ops: "ops = op # ops'" using assms(3) by (cases ops) auto
  obtain p where p: "point_code blk op = Inr p" "feature_key op \<noteq> []"
    using assms(2) ops by (auto simp: complete_point_def point_code_def)
  have shift: "concat (map (\<lambda>(k, g). end_code @ f k g) gs) @ end_code = end_code @ concat (map (\<lambda>(k, g). f k g @ end_code) gs)" for f :: "string \<Rightarrow> operating_point_model list \<Rightarrow> string" and gs
    by (induction gs) auto
  show ?thesis
    using assms ops p emit_points_groups [OF assms(1), of ops' "feature_key op"]
    by (cases "groups ops'")
      (auto simp: Let_def points_code_def shift [of "\<lambda>k g. cluster_code k @ begin_code blk @ concat (map (\<lambda>op. projr (point_code blk op)) g)", simplified])
qed

text \<open>
  C29: the generated function has one block of statements for each combination of features. When the
  operating points of a block with features are complete, the text is the concatenation of the codes
  of the groups, in the order of the keys; a group adds and selects its cluster and then adds exactly
  the points with these features, so that every point of the description is added once.
\<close>

theorem knowledge_code_is_grouped:
  assumes "feature_fields (block_features blk) \<noteq> []" and "block_knobs blk \<noteq> []" and "block_ops blk \<noteq> []"
    and "\<forall>op \<in> set (block_ops blk). complete_point blk op"
  shows "\<exists>ops. mset ops = mset (block_ops blk) \<and> sorted (map feature_key ops)
    \<and> distinct (group_keys ops) \<and> set (group_keys ops) = feature_key ` set (block_ops blk)
    \<and> knowledge_function blk =
        Inr (''void margot::add_application_knowledge(margot::'' @ block_id blk @ ''::manager_type& manager) {'' @ newline
          @ concat (map (group_code blk ops) (group_keys ops)) @ newline @ newline @ ''}'' @ newline)"
proof -
  obtain ops where ops: "std_sort (name_less feature_key) (block_ops blk) = Inr ops" "sorted (map feature_key ops)"
      "mset ops = mset (block_ops blk)"
    by (rule by_name.std_sort_succeeds [of "block_ops blk" feature_key]) auto
  then have set_ops: "set ops = set (block_ops blk)" by (metis set_mset_mset)
  with assms(3) have "ops \<noteq> []" by auto
  then obtain body where "emit_points blk [] True ops = Inr body"
      "body @ end_code = concat (map (\<lambda>(k, g). cluster_code k @ begin_code blk @ points_code blk g @ end_code) (groups ops))"
    using emit_points_code [OF assms(1), of ops] assms(4) set_ops by auto
  moreover note groups_sorted [OF ops(2)]
  moreover have "concat (map (group_code blk ops) (group_keys ops)) =
      concat (map (\<lambda>(k, g). cluster_code k @ begin_code blk @ points_code blk g @ end_code) (map (\<lambda>k. (k, group_of ops k)) (group_keys ops)))"
    by (simp add: group_code_def [abs_def] o_def)
  moreover have "set (group_keys ops) = feature_key ` set (block_ops blk)" by (simp add: group_keys_def set_ops)
  ultimately show ?thesis
    using ops assms(1,2) \<open>ops \<noteq> []\<close>
    by (intro exI [of _ ops]) (simp add: knowledge_function_def Let_def)
qed

section \<open>The statements in the manager\<close>

text \<open>
  What the statements of a group do when the application starts: the literals are the values of the
  features and the points of the group.
\<close>

fun add_knowledge :: "FeatureDistanceType \<Rightarrow> FeatureComparison list \<Rightarrow> nat \<Rightarrow> nat \<Rightarrow> (feature \<times> operating_point list) list
    \<Rightarrow> heap \<Rightarrow> da_asrtm \<Rightarrow> (heap \<times> da_asrtm) result" where
  "add_knowledge dt cfs nr_knobs nr_metrics [] h d = Inr (h, d)"
| "add_knowledge dt cfs nr_knobs nr_metrics ((f, ops) # gs) h d =
     bind_result (add_feature_cluster nr_knobs nr_metrics f h d) (\<lambda>(h1, d1).
     bind_result (select_feature_cluster dt cfs f d1) (\<lambda>d2.
     bind_result (da_add_operating_points ops d2) (\<lambda>(n, d3). add_knowledge dt cfs nr_knobs nr_metrics gs h1 d3)))"

lemma position_of_distinct:
  "distinct (map fst ms) \<Longrightarrow> i < length ms \<Longrightarrow> position_of (fst (ms ! i)) (ms @ ns) = Some i"
proof (induction ms arbitrary: i)
  case (Cons m ms)
  then have "fst (ms ! j) \<noteq> fst m" if "j < length ms" for j
    using that Cons.prems by (metis distinct.simps(2) length_map list.simps(9) nth_map nth_mem)
  with Cons show ?case by (cases i) auto
qed simp

lemma sibling_knowledge: "application_knowledge (snd (as_create_sibling h a)) = Knowledge"
  by (simp add: as_create_sibling_def Let_def Asrtm_def split: prod.splits)

definition fresh_cluster :: "da_asrtm \<Rightarrow> bool" where
  "fresh_cluster d \<longleftrightarrow> distinct (map fst (managers d)) \<and> (case active_manager d of None \<Rightarrow> managers d = [] | Some i \<Rightarrow> i < length (managers d))"

lemma add_cluster_appends:
  assumes "fresh_cluster d"
  shows "\<exists>h1 s i. add_feature_cluster nr_knobs nr_metrics f h d = Inr (h1, \<lparr>managers = managers d @ [(f, s)], active_manager = Some i\<rparr>)
    \<and> i < length (managers d @ [(f, s)]) \<and> application_knowledge s = Knowledge"
proof (cases "managers d")
  case Nil
  then show ?thesis by (cases d) (simp add: add_feature_cluster_def Asrtm_def)
next
  case (Cons m ms)
  then obtain i where i: "active_manager d = Some i" "i < length (managers d)"
    using assms by (auto simp: fresh_cluster_def split: option.splits)
  obtain h1 s where s: "as_create_sibling h (snd m) = (h1, s)" by (cases "as_create_sibling h (snd m)")
  have "position_of (fst (managers d ! i)) (managers d @ [(f, s)]) = Some i"
    using assms i(2) by (intro position_of_distinct) (simp add: fresh_cluster_def)
  then show ?thesis
    using Cons i s sibling_knowledge [of h "snd m"] by (cases d) (simp add: add_feature_cluster_def Let_def)
qed

lemma add_points_to_selected:
  assumes "active_manager d = Some i" and "i < length (managers d)"
  shows "\<exists>n a. da_add_operating_points ops d = Inr (n, d\<lparr>managers := (managers d)[i := (fst (managers d ! i), a)]\<rparr>)
    \<and> application_knowledge a = snd (collect_loop kb_add ops (application_knowledge (snd (managers d ! i))))"
proof -
  let ?a = "snd (managers d ! i)"
  obtain new kb where "collect_loop kb_add ops (application_knowledge ?a) = (new, kb)" by force
  then show ?thesis
    using assms
    by (intro exI [of _ "length new"] exI [of _ "?a\<lparr>application_knowledge := kb,
          application_optimizers := map (apsnd (st_add_operating_points new)) (application_optimizers ?a)\<rparr>"])
      (simp add: da_add_operating_points_def forward_active_def set_active_manager_def as_add_operating_points_def)
qed

lemma select_keeps_knowledge:
  assumes "i = select_loop (data_feature_selector dt cfs f) (map fst (managers d)) 0 1" and "i < length (managers d)"
  shows "\<exists>a. select_feature_cluster dt cfs f d =
      Inr \<lparr>managers = (managers d)[i := (fst (managers d ! i), a)], active_manager = Some i\<rparr>
    \<and> application_knowledge a = application_knowledge (snd (managers d ! i))"
proof (cases "active_manager d = Some i")
  case True
  then show ?thesis
    using assms by (cases d) (auto simp: select_feature_cluster_def Let_def split: prod.splits intro!: exI [of _ "snd (managers d ! i)"])
next
  case False
  then show ?thesis
    using assms by (cases d) (auto simp: select_feature_cluster_def Let_def as_restore_from_data_feature_switch_def split: prod.splits)
qed

lemma add_group:
  assumes "fresh_cluster d" and "\<And>s. select_loop (data_feature_selector dt cfs f) (map fst (managers d @ [(f, s)])) 0 1 = k"
    and "k \<le> length (managers d)"
  shows "\<exists>h1 s a. add_knowledge dt cfs nr_knobs nr_metrics ((f, ops) # gs) h d =
      add_knowledge dt cfs nr_knobs nr_metrics gs h1
        \<lparr>managers = (managers d @ [(f, s)])[k := (fst ((managers d @ [(f, s)]) ! k), a)], active_manager = Some k\<rparr>
    \<and> application_knowledge s = Knowledge
    \<and> application_knowledge a = snd (collect_loop kb_add ops (application_knowledge (snd ((managers d @ [(f, s)]) ! k))))"
proof -
  obtain h1 s i where s: "add_feature_cluster nr_knobs nr_metrics f h d = Inr (h1, \<lparr>managers = managers d @ [(f, s)], active_manager = Some i\<rparr>)"
      "application_knowledge s = Knowledge"
    using add_cluster_appends [OF assms(1)] by blast
  let ?d = "\<lparr>managers = managers d @ [(f, s)], active_manager = Some i\<rparr>" and ?ms = "managers d @ [(f, s)]"
  obtain b where b: "select_feature_cluster dt cfs f ?d = Inr \<lparr>managers = ?ms[k := (fst (?ms ! k), b)], active_manager = Some k\<rparr>"
      "application_knowledge b = application_knowledge (snd (?ms ! k))"
    using select_keeps_knowledge [of k dt cfs f ?d] assms(2,3) by auto
  obtain n a where "da_add_operating_points ops \<lparr>managers = ?ms[k := (fst (?ms ! k), b)], active_manager = Some k\<rparr>
      = Inr (n, \<lparr>managers = ?ms[k := (fst (?ms ! k), a)], active_manager = Some k\<rparr>)"
      "application_knowledge a = snd (collect_loop kb_add ops (application_knowledge b))"
    using add_points_to_selected [of "\<lparr>managers = ?ms[k := (fst (?ms ! k), b)], active_manager = Some k\<rparr>" k ops] assms(3) by auto
  then show ?thesis using s b by (intro exI [of _ h1] exI [of _ s] exI [of _ a]) simp
qed

lemma prefers_itself:
  assumes "length g = length f" and "f \<noteq> []" and "length cfs \<le> length f" and "g \<noteq> f"
  shows "prefers cfs f f g"
proof -
  have "cf_proxy c x x" for c x by (cases c) (simp_all add: dont_care_def)
  then have "data_features_admissible cfs f f" using assms(3) by (simp add: admissible_iff)
  moreover from assms(1,4) obtain j where j: "j < length f" "f ! j \<noteq> g ! j" by (metis nth_equalityI)
  have "(\<Sum>i \<le> length f - 1. (f ! i - g ! i)\<^sup>2) > 0"
    using j assms(2) by (intro sum_pos2 [of _ j]) auto
  then have "data_features_distance (length f - 1) f f < data_features_distance (length f - 1) f g"
    by (simp add: distance_sum)
  ultimately show ?thesis by (auto simp: prefers_def)
qed

lemma new_cluster_selected:
  assumes "\<forall>g \<in> set fs. length g = length f \<and> g \<noteq> f" and "f \<noteq> []" and "length cfs \<le> length f"
  shows "select_loop (data_feature_selector EUCLIDEAN cfs f) (fs @ [f]) 0 1 = length fs"
proof -
  define r where "r = select_loop (data_feature_selector EUCLIDEAN cfs f) (fs @ [f]) 0 1"
  have sel: "data_feature_selector EUCLIDEAN cfs f = (\<lambda>b t. prefers cfs f t b)"
    by (intro ext euclidean_prefers)
  have "(0::nat) < 1" "1 \<le> length (fs @ [f])" by simp_all
  from select_loop_best [OF this _ _ r_def [unfolded sel]]
  have r: "r < length (fs @ [f])" "\<forall>j < length (fs @ [f]). \<not> prefers cfs f ((fs @ [f]) ! j) ((fs @ [f]) ! r)" by simp_all
  have "\<not> r < length fs"
  proof
    assume "r < length fs"
    then have "prefers cfs f f (fs ! r)" using assms by (intro prefers_itself) auto
    with r(2) \<open>r < length fs\<close> show False by (metis length_append_singleton lessI nth_append nth_append_length)
  qed
  with r(1) show ?thesis by (simp add: r_def)
qed

abbreviation cluster_knowledge :: "da_asrtm \<Rightarrow> (feature \<times> knowledge_base) list" where
  "cluster_knowledge d \<equiv> map (\<lambda>(f, a). (f, application_knowledge a)) (managers d)"

lemma add_knowledge_appends:
  assumes "distinct (map fst (managers d) @ map fst gs)" and "fresh_cluster d"
    and "\<forall>f \<in> set (map fst (managers d) @ map fst gs). length f = n" and "n > 0" and "length cfs \<le> n"
  shows "\<exists>h' d'. add_knowledge EUCLIDEAN cfs nr_knobs nr_metrics gs h d = Inr (h', d')
    \<and> cluster_knowledge d' = cluster_knowledge d @ map (\<lambda>(f, ops). (f, snd (collect_loop kb_add ops Knowledge))) gs"
  using assms(1-3)
proof (induction gs arbitrary: h d)
  case (Cons fo gs)
  obtain f ops where fo: "fo = (f, ops)" by (cases fo)
  have "select_loop (data_feature_selector EUCLIDEAN cfs f) (map fst (managers d @ [(f, s)])) 0 1 = length (managers d)" for s
    using new_cluster_selected [of "map fst (managers d)" f cfs] Cons.prems assms(4,5) fo by auto
  from add_group [OF Cons.prems(2) this, of nr_knobs nr_metrics ops gs h]
  obtain h1 a where a: "add_knowledge EUCLIDEAN cfs nr_knobs nr_metrics ((f, ops) # gs) h d =
      add_knowledge EUCLIDEAN cfs nr_knobs nr_metrics gs h1 \<lparr>managers = managers d @ [(f, a)], active_manager = Some (length (managers d))\<rparr>"
      "application_knowledge a = snd (collect_loop kb_add ops Knowledge)"
    by (auto simp: nth_append)
  then show ?case
    using Cons.IH [of "\<lparr>managers = managers d @ [(f, a)], active_manager = Some (length (managers d))\<rparr>" h1] Cons.prems fo
    by (auto simp: fresh_cluster_def)
qed simp


lemma normalized_undefined: "j \<le> n \<Longrightarrow> normalize_axis (x ! j) (y ! j) (z ! j) = None \<Longrightarrow> normalized_distances n x y z = None"
proof (induction n)
  case (Suc n)
  then show ?case by (cases "j = Suc n") (auto split: option.splits prod.splits)
qed simp

text \<open>
  With the normalised distance the points may end in the wrong cluster. When two groups agree in
  one of their features, the normalisation divides zero by zero, the comparison of the distances is
  false, and the selection after the creation of the second cluster keeps the first one: it receives the
  points of both groups, and the second cluster stays empty.
\<close>

theorem normalized_distance_misplaces_knowledge:
  assumes "length f = length g" and "j < length g" and "f ! j = g ! j" and "f \<noteq> g" and "data_features_admissible cfs f g"
  shows "\<exists>h' d'. add_knowledge NORMALIZED cfs nr_knobs nr_metrics [(f, ops1), (g, ops2)] h DataAwareAsrtm = Inr (h', d')
    \<and> map (\<lambda>(f, a). (f, application_knowledge a)) (managers d') =
        [(f, snd (collect_loop kb_add ops2 (snd (collect_loop kb_add ops1 Knowledge)))), (g, Knowledge)]"
proof -
  have one: "select_loop sel [f] 0 1 = 0" for sel by (simp add: select_loop.simps)
  have "fresh_cluster DataAwareAsrtm" by (simp add: fresh_cluster_def DataAwareAsrtm_def)
  from add_group [OF this, where dt = NORMALIZED and cfs = cfs and f = f and k = 0 and ops = ops1 and gs = "[(g, ops2)]" and h = h
      and nr_knobs = nr_knobs and nr_metrics = nr_metrics] one
  obtain h1 a where a: "add_knowledge NORMALIZED cfs nr_knobs nr_metrics [(f, ops1), (g, ops2)] h DataAwareAsrtm =
      add_knowledge NORMALIZED cfs nr_knobs nr_metrics [(g, ops2)] h1 \<lparr>managers = [(f, a)], active_manager = Some 0\<rparr>"
      "application_knowledge a = snd (collect_loop kb_add ops1 Knowledge)"
    by (auto simp: DataAwareAsrtm_def)
  let ?d = "\<lparr>managers = [(f, a)], active_manager = Some 0\<rparr>"
  have "j \<le> length g - 1" "normalize_axis (g ! j) (f ! j) (g ! j) = None"
    using assms(2,3) by (simp_all add: normalize_axis_def Let_def)
  then have "normalized_distances (length g - 1) g f g = None" by (rule normalized_undefined)
  then have "\<not> data_feature_selector NORMALIZED cfs g f g" using assms(5) by (simp add: Let_def)
  then have two: "select_loop (data_feature_selector NORMALIZED cfs g) [f, g] 0 1 = 0" by (simp add: select_loop.simps)
  have "fresh_cluster ?d" by (simp add: fresh_cluster_def)
  from add_group [OF this, where dt = NORMALIZED and cfs = cfs and f = g and k = 0 and ops = ops2 and gs = "[]" and h = h1
      and nr_knobs = nr_knobs and nr_metrics = nr_metrics] two
  show ?thesis using a by auto
qed

section \<open>Instances\<close>

definition sample_value :: "string \<Rightarrow> operating_point_value" where
  "sample_value s = \<lparr>value_mean = s, value_standard_deviation = []\<rparr>"

definition sample_op :: "string \<Rightarrow> string \<Rightarrow> operating_point_model" where
  "sample_op f k = \<lparr>op_features = [sample_value f], op_knobs = [sample_value k], op_metrics = []\<rparr>"

definition clustered_block :: "operating_point_model list \<Rightarrow> block_model" where
  "clustered_block ops = \<lparr>block_id = ''foo'', block_monitors = [],
     block_knobs = [\<lparr>knob_name = ''k'', knob_type = ''int'', knob_values = [''1'', ''2'']\<rparr>], knobs_segment_type = ''int'',
     block_metrics = [], metrics_segment_type = ''float'',
     block_features = \<lparr>distance_type = Features_EUCLIDEAN, features_type = ''int'',
       feature_fields = [\<lparr>feature_name = ''size'', feature_type = ''int'', feature_comparison = Distance_DONT_CARE\<rparr>]\<rparr>,
     block_agora = \<lparr>url = [], username = [], password = [], qos = [], broker_ca = [], client_cert = [], client_key = [],
       number_configurations_per_iteration = [], number_observations_per_configuration = [], max_number_iteration = [],
       doe_plugin = [], clustering_plugin = [], doe_parameters = [], clustering_parameters = []\<rparr>,
     block_states = [], block_ops = ops\<rparr>"

theorem knowledge_code_is_grouped_witness:
  "\<exists>ops. mset ops = {#sample_op ''7'' ''1'', sample_op ''5'' ''1'', sample_op ''7'' ''2''#} \<and> distinct (group_keys ops)
    \<and> set (group_keys ops) = {''5'', ''7''}
    \<and> knowledge_function (clustered_block [sample_op ''7'' ''1'', sample_op ''5'' ''1'', sample_op ''7'' ''2'']) =
        Inr (''void margot::add_application_knowledge(margot::foo::manager_type& manager) {'' @ newline
          @ concat (map (group_code (clustered_block [sample_op ''7'' ''1'', sample_op ''5'' ''1'', sample_op ''7'' ''2'']) ops) (group_keys ops))
          @ newline @ newline @ ''}'' @ newline)"
proof -
  let ?blk = "clustered_block [sample_op ''7'' ''1'', sample_op ''5'' ''1'', sample_op ''7'' ''2'']"
  have keys: "feature_key (sample_op f k) = f" for f k
    by (simp add: feature_key_def sample_op_def sample_value_def join_def)
  have complete: "\<forall>op \<in> set (block_ops ?blk). complete_point ?blk op"
    by (simp add: clustered_block_def complete_point_def keys) (simp add: sample_op_def)
  have parts: "feature_fields (block_features ?blk) \<noteq> []" "block_knobs ?blk \<noteq> []" "block_ops ?blk \<noteq> []" "block_id ?blk = ''foo''"
      "block_ops ?blk = [sample_op ''7'' ''1'', sample_op ''5'' ''1'', sample_op ''7'' ''2'']"
    by (simp_all add: clustered_block_def)
  show ?thesis
    using knowledge_code_is_grouped [OF parts(1-3) complete] unfolding parts(4,5)
    by (elim exE, intro exI, elim conjE) (simp add: keys insert_commute)
qed


theorem normalized_distance_misplaces_knowledge_witness:
  "\<exists>h' d'. add_knowledge NORMALIZED [DONT_CARE, DONT_CARE] 1 3 [([1, 5], [sample_point 1 [1]]), ([2, 5], [sample_point 2 [4]])]
      (sample_heap 5) DataAwareAsrtm = Inr (h', d')
    \<and> map (\<lambda>(f, a). (f, application_knowledge a)) (managers d') =
        [([1, 5], snd (collect_loop kb_add [sample_point 2 [4]] (snd (collect_loop kb_add [sample_point 1 [1]] Knowledge)))), ([2, 5], Knowledge)]"
  by (rule normalized_distance_misplaces_knowledge [of _ _ 1]) (simp_all add: dont_care_def)

end
