(* ===== verification/Heel_Managers.thy ===== *)
theory Heel_Managers
  imports Heel_Knowledge Heel_Workspace Agora_Storage
begin

text \<open>
  The code that the generator writes for the manager of a block: its goals and members
  (\<^verbatim>\<open>generator_cpp_managers_hdr.cpp\<close>), its constructor (\<^verbatim>\<open>generator_cpp_managers_src.cpp\<close>), the states
  (\<^verbatim>\<open>cpp_state_emitter.cpp\<close>), and the names of the goals in the header of the log file
  (\<^verbatim>\<open>generator_cpp_margot_src.cpp\<close>).
\<close>

section \<open>Names of the library\<close>

fun cpp_features_distance :: "features_distance_type \<Rightarrow> string result" where
  "cpp_features_distance Features_EUCLIDEAN = Inr ''margot::FeatureDistanceType::EUCLIDEAN''"
| "cpp_features_distance Features_NORMALIZED = Inr ''margot::FeatureDistanceType::NORMALIZED''"
| "cpp_features_distance Features_NONE = Inl (Runtime_error ''cpp enum:: unknown feature distance type'')"

fun cpp_distance_comparison :: "distance_comparison_type \<Rightarrow> string result" where
  "cpp_distance_comparison Distance_LESS_OR_EQUAL = Inr ''margot::FeatureComparison::LESS_OR_EQUAL''"
| "cpp_distance_comparison Distance_GREATER_OR_EQUAL = Inr ''margot::FeatureComparison::GREATER_OR_EQUAL''"
| "cpp_distance_comparison Distance_DONT_CARE = Inr ''margot::FeatureComparison::DONT_CARE''"

fun cpp_rank_direction :: "rank_direction \<Rightarrow> string result" where
  "cpp_rank_direction Direction_MINIMIZE = Inr ''margot::RankObjective::MINIMIZE''"
| "cpp_rank_direction Direction_MAXIMIZE = Inr ''margot::RankObjective::MAXIMIZE''"
| "cpp_rank_direction Direction_NONE = Inl (Runtime_error ''cpp enum:: unknown rank direction type'')"

fun cpp_rank_type :: "rank_type \<Rightarrow> string result" where
  "cpp_rank_type Rank_SIMPLE = Inr ''margot::FieldComposer::SIMPLE''"
| "cpp_rank_type Rank_GEOMETRIC = Inr ''margot::FieldComposer::GEOMETRIC''"
| "cpp_rank_type Rank_LINEAR = Inr ''margot::FieldComposer::LINEAR''"
| "cpp_rank_type Rank_NONE = Inl (Runtime_error ''cpp enum:: unknown rank type'')"

fun cpp_subject_kind :: "subject_kind \<Rightarrow> string result" where
  "cpp_subject_kind METRIC = Inr ''margot::OperatingPointSegments::METRICS''"
| "cpp_subject_kind KNOB = Inr ''margot::OperatingPointSegments::SOFTWARE_KNOBS''"
| "cpp_subject_kind UNKNOWN = Inl (Runtime_error ''cpp enum:: unknown subject kind'')"

fun cpp_goal_comparison :: "goal_comparison \<Rightarrow> string result" where
  "cpp_goal_comparison Goal_LESS_OR_EQUAL = Inr ''margot::ComparisonFunctions::LESS_OR_EQUAL''"
| "cpp_goal_comparison Goal_GREATER_OR_EQUAL = Inr ''margot::ComparisonFunctions::GREATER_OR_EQUAL''"
| "cpp_goal_comparison Goal_GREATER = Inr ''margot::ComparisonFunctions::GREATER''"
| "cpp_goal_comparison Goal_LESS = Inr ''margot::ComparisonFunctions::LESS''"

definition generate_field_getter :: "subject_kind \<Rightarrow> string \<Rightarrow> string \<Rightarrow> string" where
  "generate_field_getter kind field_name blk_name =
     (let section_name = (if kind = METRIC then ''metric'' else ''knob'')
      in ''static_cast<size_t>(margot::'' @ blk_name @ ''::'' @ section_name @ ''::'' @ field_name @ '')'')"

definition generate_goal_identifier :: "string \<Rightarrow> nat \<Rightarrow> string" where
  "generate_goal_identifier st_name i = st_name @ ''_constraint_'' @ std_to_string (int i)"

text \<open>\<^verbatim>\<open>join\<close> with a functor that may throw, and \<^verbatim>\<open>append\<close>, which indents the lines of a content.\<close>

definition join_result :: "string \<Rightarrow> ('a \<Rightarrow> string result) \<Rightarrow> 'a list \<Rightarrow> string result" where
  "join_result sep f xs = bind_result (traverse f xs) (\<lambda>ss. Inr (join sep id ss))"

definition append_content :: "string \<Rightarrow> string \<Rightarrow> string" where
  "append_content line_prefix source = concat (map (\<lambda>line. line_prefix @ line @ newline) (getlines (CHR 0x0A) source))"

section \<open>The states\<close>

definition rank_field_code :: "string \<Rightarrow> rank_field_model \<Rightarrow> string result" where
  "rank_field_code blk_name r =
     bind_result (cpp_subject_kind (rank_field_kind r)) (\<lambda>kind.
       Inr (''margot::OPField<'' @ kind @ '',BoundType::LOWER,''
         @ generate_field_getter (rank_field_kind r) (rank_field_name r) blk_name @ '',0>''))"

definition rank_code :: "string \<Rightarrow> state_model \<Rightarrow> string result" where
  "rank_code blk_name s =
     (if direction s = Direction_NONE then Inr []
      else bind_result (cpp_rank_direction (direction s)) (\<lambda>d.
           bind_result (cpp_rank_type (combination s)) (\<lambda>t.
           bind_result (join_result '','' (rank_field_code blk_name) (rank_fields s)) (\<lambda>fs.
             Inr (''manager.set_rank<'' @ d @ '','' @ t @ '','' @ fs @ ''>('' @ join '','' rank_coefficient (rank_fields s) @ '');'' @ newline)))))"

text \<open>The counter is part of the loop, which never changes it.\<close>

fun constraints_code :: "string \<Rightarrow> string \<Rightarrow> nat \<Rightarrow> constraint_model list \<Rightarrow> string result" where
  "constraints_code blk_name st_name constraint_counter [] = Inr []"
| "constraints_code blk_name st_name constraint_counter (c # cs) =
     bind_result (cpp_subject_kind (constraint_kind c)) (\<lambda>kind.
     bind_result (constraints_code blk_name st_name constraint_counter cs) (\<lambda>rest.
       Inr (''manager.add_constraint<'' @ kind @ '','' @ generate_field_getter (constraint_kind c) (constraint_subject c) blk_name
         @ '','' @ confidence c @ ''>(goals.'' @ generate_goal_identifier st_name constraint_counter @ '',''
         @ std_to_string (int constraint_counter) @ '');'' @ newline @ rest)))"

definition state_code :: "string \<Rightarrow> state_model \<Rightarrow> string result" where
  "state_code blk_name s =
     bind_result (rank_code blk_name s) (\<lambda>rank.
     bind_result (constraints_code blk_name (state_name s) 0 (state_constraints s)) (\<lambda>cs.
       Inr (''// initialization code for state <--{'' @ state_name s @ ''}-->'' @ newline
         @ ''manager.create_new_state('' @ in_quotation (state_name s) @ '');'' @ newline
         @ ''manager.change_active_state('' @ in_quotation (state_name s) @ '');'' @ newline @ rank @ cs)))"

section \<open>The constructor\<close>

definition monitor_initializer :: "monitor_model \<Rightarrow> string" where
  "monitor_initializer m =
     (if list_all (\<lambda>p. param_type p \<noteq> VARIABLE) (initialization_parameters m)
      then ''{'' @ join '','' param_content (initialization_parameters m) @ ''}'' else ''{}'')"

definition runtime_knowledge_code :: "string \<Rightarrow> metric_model \<Rightarrow> string" where
  "runtime_knowledge_code blk_name m =
     (if metric_model.inertia m > 0
      then tab @ ''manager.add_runtime_knowledge<margot::OperatingPointSegments::METRICS,''
        @ generate_field_getter METRIC (metric_name m) blk_name @ '','' @ std_to_string (int (metric_model.inertia m))
        @ ''>(monitors.'' @ observed_by m @ '');'' @ newline
      else [])"

definition support_thread_code :: "application_model \<Rightarrow> string \<Rightarrow> block_model \<Rightarrow> string" where
  "support_thread_code app app_description blk =
     (let ag = block_agora blk; sep = [CHR 0x22] @ '','' @ [CHR 0x22]
      in if agora_empty ag then []
         else tab @ ''manager.start_support_thread<margot::'' @ block_id blk @ ''::operating_point_parser>('' @ [CHR 0x22]
           @ application_name app @ ''^'' @ application_version app @ ''^'' @ block_id blk @ sep @ url ag
           @ sep @ username ag @ sep @ password ag @ [CHR 0x22] @ '','' @ qos ag @ '','' @ [CHR 0x22] @ embed_description app_description
           @ sep @ broker_ca ag @ sep @ client_cert ag @ sep @ client_key ag @ [CHR 0x22] @ '');'' @ newline)"

definition manager_constructor :: "application_model \<Rightarrow> string \<Rightarrow> block_model \<Rightarrow> string result" where
  "manager_constructor app app_description blk =
     (let goal_values = concat (map (\<lambda>s. map constraint_value (state_constraints s)) (block_states blk));
          preamble = ''margot::'' @ block_id blk @ ''::data::data(void):monitors({'' @ join '','' monitor_initializer (block_monitors blk)
            @ ''}),goals({'' @ join '','' (\<lambda>v. ''{'' @ v @ ''}'') goal_values @ ''}) {'' @ newline
      in bind_result
           (if block_knobs blk = [] then Inr []
            else bind_result (traverse (state_code (block_id blk)) (block_states blk)) (\<lambda>states.
              Inr (tab @ ''margot::add_application_knowledge(manager);'' @ newline
                @ concat (map (runtime_knowledge_code (block_id blk)) (block_metrics blk))
                @ concat (map (append_content tab) states) @ support_thread_code app app_description blk)))
           (\<lambda>body. Inr (preamble @ body @ ''}'' @ newline @ newline)))"

definition managers_cpp_content :: "application_model \<Rightarrow> string \<Rightarrow> string result" where
  "managers_cpp_content app app_description =
     bind_result (traverse (manager_constructor app app_description) (application_blocks app)) (\<lambda>cs. Inr (concat cs))"

section \<open>The members\<close>

text \<open>The type and the name of each goal; this counter does not change either.\<close>

fun goal_members_of :: "block_model \<Rightarrow> string \<Rightarrow> nat \<Rightarrow> constraint_model list \<Rightarrow> (string \<times> string) list result" where
  "goal_members_of blk st_name counter [] = Inr []"
| "goal_members_of blk st_name counter (c # cs) =
     bind_result
       (case constraint_kind c of
          METRIC \<Rightarrow> Inr (metrics_segment_type blk)
        | KNOB \<Rightarrow> Inr (knobs_segment_type blk)
        | UNKNOWN \<Rightarrow> Inl (Runtime_error ''manager generators: unknown constraint kind'')) (\<lambda>t.
     bind_result (cpp_goal_comparison (cfun c)) (\<lambda>f.
     bind_result (goal_members_of blk st_name counter cs) (\<lambda>ms.
       Inr ((t @ '','' @ f, generate_goal_identifier st_name counter) # ms))))"

definition goal_members :: "block_model \<Rightarrow> (string \<times> string) list result" where
  "goal_members blk =
     bind_result (traverse (\<lambda>s. goal_members_of blk (state_name s) 0 (state_constraints s)) (block_states blk)) (\<lambda>ms. Inr (concat ms))"

definition goals_struct :: "block_model \<Rightarrow> string result" where
  "goals_struct blk =
     bind_result (goal_members blk) (\<lambda>ms.
       Inr (tab @ ''struct goals_type {'' @ newline
         @ concat (map (\<lambda>(t, i). tab @ tab @ ''margot::Goal<'' @ t @ ''> '' @ i @ '';'' @ newline) ms)
         @ tab @ ''};'' @ newline @ newline))"

definition knob_member :: "knob_model \<Rightarrow> string" where
  "knob_member k = tab @ tab @ (if take 6 (knob_type k) = ''string'' then ''std::'' else []) @ knob_type k @ '' '' @ knob_name k @ '';'' @ newline"

definition knobs_struct :: "block_model \<Rightarrow> string" where
  "knobs_struct blk = tab @ ''struct knobs_type {'' @ newline @ concat (map knob_member (block_knobs blk)) @ tab @ ''};'' @ newline @ newline"

definition features_struct :: "block_model \<Rightarrow> string" where
  "features_struct blk = tab @ ''struct features_type {'' @ newline
     @ concat (map (\<lambda>f. tab @ tab @ feature_type f @ '' '' @ feature_name f @ '';'' @ newline) (feature_fields (block_features blk)))
     @ tab @ ''};'' @ newline @ newline"

text \<open>The identifiers of goals in the header of the log file.\<close>

definition logged_goals :: "block_model \<Rightarrow> string list" where
  "logged_goals blk =
     concat (map (\<lambda>s. map (generate_goal_identifier (state_name s)) [0..<length (state_constraints s)]) (block_states blk))"

definition log_header_code :: "block_model \<Rightarrow> string" where
  "log_header_code blk =
     tab @ ''c.log_file << '' @ in_quotation ''timestamp'' @ '' ''
     @ concat (map (\<lambda>m. concat (map (\<lambda>s. ''<< '' @ in_quotation ('',monitor_'' @ monitor_name m @ ''_'' @ s) @ '' '') (requested_statistics m)))
         (block_monitors blk))
     @ (if block_knobs blk = [] then []
        else concat (map (\<lambda>m. ''<< '' @ in_quotation ('',metric_'' @ metric_name m) @ '' '') (block_metrics blk))
          @ concat (map (\<lambda>f. ''<< '' @ in_quotation ('',feature_'' @ feature_name f) @ '' '') (feature_fields (block_features blk)))
          @ concat (map (\<lambda>k. ''<< '' @ in_quotation ('',knob_'' @ knob_name k) @ '' '') (block_knobs blk))
          @ concat (map (\<lambda>g. ''<< '' @ in_quotation ('','' @ g) @ '' '') (logged_goals blk)))
     @ ''<< std::endl;'' @ newline"

section \<open>When the generation succeeds\<close>

lemma bind_result_Inl [simp]: "isl (bind_result r f) \<longleftrightarrow> isl r \<or> (\<exists>x. r = Inr x \<and> isl (f x))"
  by (cases r) auto

lemma traverse_isl_iff: "isl (traverse f xs) \<longleftrightarrow> (\<exists>x \<in> set xs. isl (f x))"
proof (induction xs)
  case (Cons x xs)
  then show ?case by (cases "f x") auto
qed simp

lemma known_kind:
  assumes "subject_kind_of ms ks n = Some k"
  shows "\<not> isl (cpp_subject_kind k)" "k \<noteq> UNKNOWN"
  using assms by (auto simp: subject_kind_of_def split: if_splits)

lemma constraints_code_isl: "isl (constraints_code b n i cs) \<longleftrightarrow> (\<exists>c \<in> set cs. isl (cpp_subject_kind (constraint_kind c)))"
proof (induction cs)
  case (Cons c cs)
  then show ?case by (cases "cpp_subject_kind (constraint_kind c)") auto
qed simp

lemma rank_code_isl:
  "isl (rank_code b s) \<longleftrightarrow> direction s \<noteq> Direction_NONE \<and>
     (combination s = Rank_NONE \<or> (\<exists>r \<in> set (rank_fields s). isl (cpp_subject_kind (rank_field_kind r))))"
  by (cases "direction s"; cases "combination s") (auto simp: rank_code_def join_result_def rank_field_code_def traverse_isl_iff)

lemma state_code_isl:
  assumes "state_ok ms ks s"
  shows "isl (state_code b s) \<longleftrightarrow> direction s \<noteq> Direction_NONE \<and> combination s = Rank_NONE"
proof -
  have "\<not> isl (cpp_subject_kind (rank_field_kind r))" if "r \<in> set (rank_fields s)" for r
    using assms that by (auto simp: state_ok_def dest: known_kind)
  moreover have "\<not> isl (cpp_subject_kind (constraint_kind c))" if "c \<in> set (state_constraints s)" for c
    using assms that by (auto simp: state_ok_def dest: known_kind)
  ultimately show ?thesis
    by (auto simp: state_code_def rank_code_isl constraints_code_isl)
qed

text \<open>
  A validated block is not always a block that code can be generated for. The constructor of its manager
  fails, with an exception that ends the generator, exactly when the block has knobs and one of its states
  has a direction without a combination of fields, which the validation only excludes for ranks with fields.
\<close>

theorem constructor_fails_on_incomplete_rank:
  assumes "block_ok table blk"
  shows "isl (manager_constructor app app_description blk) \<longleftrightarrow>
    block_knobs blk \<noteq> [] \<and> (\<exists>s \<in> set (block_states blk). direction s \<noteq> Direction_NONE \<and> combination s = Rank_NONE)"
proof -
  have "isl (state_code (block_id blk) s) \<longleftrightarrow> direction s \<noteq> Direction_NONE \<and> combination s = Rank_NONE"
    if "s \<in> set (block_states blk)" for s
    using assms that by (intro state_code_isl) (auto simp: block_ok_def)
  then show ?thesis
    by (auto simp: manager_constructor_def Let_def traverse_isl_iff)
qed

section \<open>The goals of a state\<close>

lemma goal_members_names: "goal_members_of blk n i cs = Inr ms \<Longrightarrow> map snd ms = replicate (length cs) (generate_goal_identifier n i)"
  by (induction cs arbitrary: ms) auto

lemma goal_members_all:
  assumes "goal_members blk = Inr ms"
  shows "map snd ms = concat (map (\<lambda>s. replicate (length (state_constraints s)) (generate_goal_identifier (state_name s) 0)) (block_states blk))"
proof -
  obtain mss where mss: "list_all2 (\<lambda>s ms. goal_members_of blk (state_name s) 0 (state_constraints s) = Inr ms) (block_states blk) mss"
      "ms = concat mss"
    using assms by (auto simp: goal_members_def traverse_eq_Inr)
  from mss(1) have "map snd (concat mss) =
      concat (map (\<lambda>s. replicate (length (state_constraints s)) (generate_goal_identifier (state_name s) 0)) (block_states blk))"
    by (induction rule: list_all2_induct) (simp_all add: goal_members_names)
  with mss(2) show ?thesis by simp
qed

lemma distinct_concat_part: "distinct (concat (map f xs)) \<Longrightarrow> x \<in> set xs \<Longrightarrow> distinct (f x)"
  by (induction xs) auto

lemma goal_identifier_eq: "generate_goal_identifier a i = generate_goal_identifier b i \<longleftrightarrow> a = b"
  by (simp add: generate_goal_identifier_def)

text \<open>
  The generated members fit together only for states with at most one constraint. The counter of the
  constraints is never increased, so that every goal of a state is declared with the same name, while the
  log refers to one name per constraint. With distinct states, the declared names are distinct and include
  the logged ones exactly when no state has two constraints; otherwise the generated class does not compile.
\<close>

theorem goals_fit_only_single_constraints:
  assumes "goal_members blk = Inr ms" and "distinct (map state_name (block_states blk))"
  shows "distinct (map snd ms) \<and> set (logged_goals blk) \<subseteq> set (map snd ms) \<longleftrightarrow>
    (\<forall>s \<in> set (block_states blk). length (state_constraints s) \<le> 1)"
proof
  assume "\<forall>s \<in> set (block_states blk). length (state_constraints s) \<le> 1"
  with assms(2) have "distinct (concat (map (\<lambda>s. replicate (length (state_constraints s)) (generate_goal_identifier (state_name s) 0)) ss))
      \<and> concat (map (\<lambda>s. map (generate_goal_identifier (state_name s)) [0..<length (state_constraints s)]) ss)
        = concat (map (\<lambda>s. replicate (length (state_constraints s)) (generate_goal_identifier (state_name s) 0)) ss)"
    if "set ss \<subseteq> set (block_states blk)" "distinct (map state_name ss)" for ss
    using that
  proof (induction ss)
    case (Cons s ss)
    then have "length (state_constraints s) = 0 \<or> length (state_constraints s) = 1" by (auto simp: le_Suc_eq)
    with Cons show ?case by (auto simp: goal_identifier_eq)
  qed simp
  from this [OF order_refl assms(2)] show "distinct (map snd ms) \<and> set (logged_goals blk) \<subseteq> set (map snd ms)"
    by (simp only: goal_members_all [OF assms(1)] logged_goals_def order_refl simp_thms)
next
  assume "distinct (map snd ms) \<and> set (logged_goals blk) \<subseteq> set (map snd ms)"
  then have d: "distinct (concat (map (\<lambda>s. replicate (length (state_constraints s)) (generate_goal_identifier (state_name s) 0)) (block_states blk)))"
    by (simp only: goal_members_all [OF assms(1)])
  have single: "n \<le> 1" if "distinct (replicate n x)" for n and x :: string
  proof (cases n)
    case (Suc k)
    with that show ?thesis by (cases k) simp_all
  qed simp
  have "distinct (replicate (length (state_constraints s)) (generate_goal_identifier (state_name s) 0))" if "s \<in> set (block_states blk)" for s
    using d that by (rule distinct_concat_part)
  then show "\<forall>s \<in> set (block_states blk). length (state_constraints s) \<le> 1" by (intro ballI) (rule single)
qed

section \<open>Instances\<close>

definition sample_constraint :: "string \<Rightarrow> constraint_model" where
  "sample_constraint n = \<lparr>constraint_subject = n, cfun = Goal_LESS, constraint_value = ''2'', constraint_kind = KNOB, confidence = ''0''\<rparr>"

definition state_with :: "rank_direction \<Rightarrow> constraint_model list \<Rightarrow> state_model" where
  "state_with d cs = \<lparr>state_name = ''s'', direction = d, combination = Rank_NONE, rank_fields = [], state_constraints = cs\<rparr>"

definition stated_block :: "state_model \<Rightarrow> block_model" where
  "stated_block s = (clustered_block [])\<lparr>block_knobs := [\<lparr>knob_name = ''k'', knob_type = ''int32_t'', knob_values = [''1'', ''2'']\<rparr>],
     knobs_segment_type := ''int32_t'', block_features := \<lparr>distance_type = Features_NONE, features_type = [], feature_fields = []\<rparr>,
     block_metrics := [\<lparr>metric_name = ''time'', metric_type = ''float'', distribution = False, prediction_plugin = [], observed_by = [],
       inertia = 0, prediction_parameters = []\<rparr>], block_states := [s]\<rparr>"

theorem goals_fit_only_single_constraints_witness:
  "\<exists>ms. goal_members (stated_block (state_with Direction_NONE [sample_constraint ''k'', sample_constraint ''k''])) = Inr ms
    \<and> length ms = 2
    \<and> \<not> (distinct (map snd ms) \<and> set (logged_goals (stated_block (state_with Direction_NONE [sample_constraint ''k'', sample_constraint ''k'']))) \<subseteq> set (map snd ms))"
proof -
  let ?blk = "stated_block (state_with Direction_NONE [sample_constraint ''k'', sample_constraint ''k''])"
  obtain ms where ms: "goal_members ?blk = Inr ms" "length ms = 2"
    by (simp add: goal_members_def stated_block_def state_with_def sample_constraint_def)
  have states: "block_states ?blk = [state_with Direction_NONE [sample_constraint ''k'', sample_constraint ''k'']]" by (simp add: stated_block_def)
  then have "distinct (map state_name (block_states ?blk))" by simp
  from goals_fit_only_single_constraints [OF ms(1) this] ms show ?thesis
    by (intro exI [of _ ms]) (simp add: states, simp add: state_with_def)
qed

theorem constructor_fails_on_incomplete_rank_witness:
  "block_ok known_monitors (stated_block (state_with Direction_MINIMIZE []))
    \<and> isl (manager_constructor (sample_description [''k''] [''s'']) [] (stated_block (state_with Direction_MINIMIZE [])))
    \<and> \<not> isl (manager_constructor (sample_description [''k''] [''s'']) [] (stated_block (state_with Direction_NONE [])))"
proof -
  have identifiers: "is_valid_identifier ''foo''" "is_valid_identifier ''k''" "is_valid_identifier ''time''" "is_valid_identifier ''s''"
      "''int32_t'' \<in> set numeric_types" "''float'' \<in> set numeric_types"
    by code_simp+
  have ok: "block_ok known_monitors (stated_block (state_with d []))" for d
    by (simp add: block_ok_def stated_block_def clustered_block_def state_with_def knob_ok_def metric_ok_def features_ok_def
        agora_ok_def agora_empty_def state_ok_def segments_ok_def type_fits_def identifiers)
  show ?thesis
    using ok [of Direction_MINIMIZE] constructor_fails_on_incomplete_rank [OF ok [of Direction_MINIMIZE]]
      constructor_fails_on_incomplete_rank [OF ok [of Direction_NONE]]
    by (simp add: stated_block_def clustered_block_def state_with_def)
qed

end
