(* ===== verification/Spec2Isabelle.thy ===== *)
theory Spec2Isabelle
  imports Heel_Range System_Monitor Energy_Monitor Device_Monitor Agora_Json Agora_Main Heel_Managers
begin

text \<open>
  A verification development of the mARGOt autotuning framework.

  \<^bold>\<open>The program.\<close> An application links the library under \<^verbatim>\<open>src/margot\<close>. It keeps a list of operating
  points, each a configuration of software knobs with the metrics expected for it, observes the
  application through monitors, and proposes the best configuration for the constraints and the
  objective function in force. The clients may learn their operating points online: the server
  under \<^verbatim>\<open>src/agora\<close> receives the description of an application, hands out configurations to
  explore, collects observations, runs plugins that build models, and broadcasts the predicted
  operating points. The generator under \<^verbatim>\<open>src/heel\<close> reads the description of an application and
  writes the code that glues it to the library.

  \<^bold>\<open>The library, \<^verbatim>\<open>src/margot/include/margot\<close>.\<close>
  \<^item> \<open>Margot_Prelude\<close>: results with errors, and generic facts on lists and folds.
  \<^item> \<open>Operating_Point\<close>: \<^verbatim>\<open>basic_information_block.hpp\<close>, \<^verbatim>\<open>operating_point_segment.hpp\<close>, \<^verbatim>\<open>operating_point.hpp\<close>,
    \<^verbatim>\<open>hash.hpp\<close>. A pointer to an operating point is its address with the point.
  \<^item> \<open>Circular_Buffer\<close>, \<open>Statistical_Provider\<close>, \<open>Goal_Model\<close>: the window of observations refines the
    list of the last observations, the cached statistics equal the statistics of the window, the
    goals are references into a store.
  \<^item> \<open>Interval_Monitor\<close>, \<open>System_Monitor\<close>, \<open>Energy_Monitor\<close>, \<open>Device_Monitor\<close>: the monitors of \<^verbatim>\<open>src/margot/src\<close>
    as records that extend their base class. The locale \<open>interval_monitor\<close> gives the observations after any
    sequence of starts and stops, and the time, throughput, CPU, energy and collector monitors
    interpret it. The energy of an interval is exact although the counters wrap around, the
    usage of the system loses most of what it reads, and no event of PAPI is ever registered.
  \<^item> \<open>Op_View\<close>, \<open>Rank_Model\<close>, \<open>Knowledge_Base\<close>: the multimap of a constraint, the objective function and
    the map from configurations to operating points, with the round trip of adding and removing.
  \<^item> \<open>Field_Adaptor\<close>: the error coefficients that scale the expectations to the observations.
  \<^item> \<open>Constraint_Model\<close>, \<open>Constraint_Stack\<close>, \<open>State_Model\<close>: the constraints ordered by priority, each of
    which blocks the points it excludes, and the solver. The invariant is that the blocked
    points and the points of the rank partition the knowledge; the main theorems are that an update
    restores it after any change of a goal or a coefficient, that the solver returns an optimal
    feasible point, and that it relaxes the least important constraints first otherwise.
  \<^item> \<open>Asrtm_Model\<close>: the manager of \<^verbatim>\<open>asrtm.hpp\<close> with its states, its cycle of find, get and apply, its status
    machine and the support thread, as calls in any order.
  \<^item> \<open>Data_Features\<close>, \<open>Da_Asrtm_Model\<close>: the selection of the feature cluster closest to the input and
    the data-aware manager that forwards its calls to one manager per cluster.

  \<^bold>\<open>The server, \<^verbatim>\<open>src/agora\<close>.\<close>
  \<^item> \<open>Std_Strings\<close>: the conversions between numbers and strings of the C++ library.
  \<^item> \<open>Agora_Message\<close>: messages, identifiers of applications, kinds of messages, the sanitizer.
  \<^item> \<open>Agora_Queue\<close>: the job queue with its condition variable, first in first out and with no lost
    wake-up in every interleaving.
  \<^item> \<open>Heel_Data\<close>, \<open>Agora_Models\<close>, \<open>Agora_Plugins\<close>: the description of an application, the design of
    experiments, the clusters, the predictions and the environment of the plugins.
  \<^item> \<open>Agora_Handler\<close>, \<open>Agora_Protocol\<close>: the state machine of one application
    (\<^verbatim>\<open>application_handler.cpp\<close>); an observation is a sequence of critical sections that other threads
    interleave. The invariant says which statuses can be seen between critical sections; an
    observation settles in a prediction, an exploration or an error when the plugins end.
  \<^item> \<open>Agora_Worker\<close>: the registry of applications and the dispatch of the messages.
  \<^item> \<open>Agora_Storage\<close>, \<open>Agora_Storage_Laws\<close>, \<open>Agora_Stored_Description\<close>: the tables of the CSV storage
    (\<^verbatim>\<open>csv_fs_*.cpp\<close>, \<^verbatim>\<open>fs_*.cpp\<close>) in a file system, as services of the handler; what the server loads of
    what it stored, the log of the observations, and the erasing of one application.
  \<^item> \<open>Agora_Mqtt\<close>: the client of the broker (\<^verbatim>\<open>paho_remote_handler.cpp\<close>), with the end of a session by goodbye or
    last will, and a lost connection, which nobody notices.
  \<^item> \<open>Agora_Pool\<close>: the workers as threads on one inbox; a request to shut down reaches all of them in every
    interleaving, and the main thread that waits for them may miss the last one.
  \<^item> \<open>Agora_Launcher\<close>: the workspaces and the processes of the plugins (\<^verbatim>\<open>launcher.cpp\<close>), as services of the
    handler; a plugin that fails ends the server.
  \<^item> \<open>Agora_Recovery\<close>: a server that is started again on the storage of the previous one resumes with its
    predictions or with its exploration.
  \<^item> \<open>Agora_Main\<close>: the start of the server (\<^verbatim>\<open>main.cpp\<close>) and what the broker delivers for its
    subscriptions: the messages of its clients, none of its own answers, and the goodbyes of other servers,
    which end it.
  \<^item> This theory: what the clients send arrives at the server, and what the server sends at the clients.

  \<^bold>\<open>The generator, \<^verbatim>\<open>src/heel\<close>.\<close>
  \<^item> \<open>Heel_Types\<close>, \<open>Heel_Sort\<close>: the names of types and their order (\<^verbatim>\<open>typer.cpp\<close>), and sorting with a
    comparison that may throw.
  \<^item> \<open>Heel_Monitors\<close>, \<open>Heel_Validate\<close>, \<open>Heel_Wellformed\<close>: the table of the monitors and the validation
    (\<^verbatim>\<open>model_*.cpp\<close>). A description that passes is well formed; some duplicated names pass as well.
  \<^item> \<open>Heel_Tree\<close>: the interface to the property trees of Boost with their laws, and a concrete tree.
  \<^item> \<open>Heel_Parser\<close>, \<open>Heel_Range\<close>, \<open>Heel_Composer\<close>: the parsers and the composers of a description, and
    the ranges of values, with the bounds under which the loop over a range ends.
  \<^item> \<open>Heel_Roundtrip\<close>: a composed description is parsed back up to the function \<open>canon_application\<close>, for any
    property tree with the laws.
  \<^item> \<open>Heel_Workspace\<close>: the driver (\<^verbatim>\<open>workspace.cpp\<close>) and the description as a string literal.
  \<^item> \<open>Heel_Knowledge\<close>: the operating points in the generated code, grouped by their features, and what the
    generated statements do to the data-aware manager of the library.
  \<^item> \<open>Heel_Managers\<close>: the generated members and the constructor of a manager, with its states and goals;
    when the generation fails, and when the members fit together.
  \<^item> \<open>Server_Description\<close>, \<open>Agora_Json\<close>: the parts together. A description that the generator validated is
    the description the server works with, and the documents of the server hold for the parser of
    the client the numbers the server meant.

  \<^bold>\<open>Abstractions.\<close> Arithmetic on \<^verbatim>\<open>float\<close> and \<^verbatim>\<open>double\<close> is real arithmetic. Containers with an unspecified
  order are lists in insertion order with distinct keys. Allocation never fails. A method
  that holds a mutex from its first to its last statement is one atomic step; where a mutex is
  released the steps are interleaved. The clock readings are arguments. \<^verbatim>\<open>assert\<close>, exceptions and
  undefined behaviour are the error values of the result type. Code that is not part of the
  repository is a parameter: the splitter of \<^verbatim>\<open>boost\<close> with the laws of the locale \<open>tokenizer\<close>, the
  conversion of a payload to operating points, which is generated, and the external plugins. The
  Paho library is the record \<open>paho\<close> and the operating system under the launcher the record \<open>host\<close>;
  what the broker delivers has the laws of the locale \<open>mqtt_broker\<close>. The storage is operations of
  the record \<open>services\<close>, which \<open>csv_services\<close> instantiates; the reader of CSV text is a parameter with
  the laws of the locale \<open>csv_library\<close>, the file system a map from paths to contents. The property
  trees, casts and trimming of Boost are the record \<open>boost\<close> with the laws of the locale
  \<open>property_tree\<close>, and printing and reading JSON are function arguments. What a monitor reads from the
  kernel, from libsensors, from the collector or from PAPI is an argument of its methods. No
  definition uses fuel: the loops recurse on their data, the loops of the design of experiments,
  of the phases of an observation and over the lines of a file have termination proofs by a
  measure, the loops that look for the packages and the cores of a processor are partial functions
  without a result in an endless file system, and the loop over a range of values, which may not end
  either, is one whose missing result is the exhaustion of the memory. Characters are compared as
  in ASCII.

  \<^bold>\<open>Not modelled.\<close> Debug output, loggers, command lines, the release of the libraries by destructors,
  and the text of the generated declarations, of the functions \<^verbatim>\<open>update\<close>, \<^verbatim>\<open>log\<close> and those of the
  monitors. \<^verbatim>\<open>csv.hpp\<close> is vendored third-party code: its reader is the parameter above.
\<close>

section \<open>Clients and server\<close>

text \<open>
  C13: the messages of a client reach the method of its application handler that they are meant
  for, whatever splitter of strings is used: the announcement registers the client, and an
  observation arrives with the seconds and nanoseconds of the client's clock and the very
  payload of the application. The identifier must be free of separators, the observation free
  of the separator of its fields, and the messages free of characters that are not accepted.
\<close>

theorem client_messages_reach_handler:
  assumes "tokenizer split" and "plain_id a" and "CHR ''/'' \<notin> set cid" and "CHR ''@'' \<notin> set obs"
    and "0 \<le> now" and "now < 2 ^ 63"
    and "accepted (welcome_message (aid_str a) cid info)" and "accepted (send_observation (aid_str a) cid now obs)"
  shows "handle_incoming_message split sv blank tid (whitelist (welcome_message (aid_str a) cid info)) srv =
      bind_result (with_handler blank a (welcome_client sv cid info) srv) (\<lambda>srv'. Inr (False, srv'))
    \<and> handle_incoming_message split sv blank tid (whitelist (send_observation (aid_str a) cid now obs)) srv =
      bind_result (with_handler blank a
        (process_observation sv cid (now div 1000000000) (now mod 1000000000) obs) srv) (\<lambda>srv'. Inr (False, srv'))"
proof (rule conjI)
  let ?s = "now div 1000000000" and ?n = "now mod 1000000000"
  have w: "welcome_message (aid_str a) cid info =
      \<lparr>topic = MESSAGE_HEADER @ ''/'' @ aid_str a @ ''/'' @ ''welcome'' @ ''/'' @ cid, payload = info\<rparr>"
    by (simp add: welcome_message_def)
  have "now - ?s * 1000000000 = ?n" by (simp add: minus_div_mult_eq_mod)
  then have o: "send_observation (aid_str a) cid now obs =
      \<lparr>topic = MESSAGE_HEADER @ ''/'' @ aid_str a @ ''/'' @ ''observation'' @ ''/'' @ cid,
       payload = std_to_string ?s @ ''@'' @ std_to_string ?n @ ''@'' @ obs\<rparr>"
    by (simp add: send_observation_def Let_def)
  show "handle_incoming_message split sv blank tid (whitelist (welcome_message (aid_str a) cid info)) srv =
      bind_result (with_handler blank a (welcome_client sv cid info) srv) (\<lambda>srv'. Inr (False, srv'))"
    using client_message_dispatch(1) [OF assms(1,2,3), of "''welcome''"] assms(7) unfolding w by blast
  have "std_stol (std_to_string ?s) = Inr ?s" "std_stol (std_to_string ?n) = Inr ?n"
    using assms(5,6) by (auto intro!: sto_to_string)
  then have "handle_observation split sv blank cid a (std_to_string ?s @ ''@'' @ std_to_string ?n @ ''@'' @ obs) srv =
      with_handler blank a (process_observation sv cid ?s ?n obs) srv"
    using observation_tokens [OF assms(1,4)] by (simp add: handle_observation_def)
  then show "handle_incoming_message split sv blank tid (whitelist (send_observation (aid_str a) cid now obs)) srv =
      bind_result (with_handler blank a (process_observation sv cid ?s ?n obs) srv) (\<lambda>srv'. Inr (False, srv'))"
    using client_message_dispatch(3) [OF assms(1,2,3), of "''observation''"] assms(8) unfolding o by metis
qed

definition sample_id :: application_id where
  "sample_id = \<lparr>app_name = ''a'', version = ''1'', block_name = ''b''\<rparr>"

theorem client_messages_reach_handler_witness:
  "\<forall>srv. handle_incoming_message split_any_of sample_services sample_block ''0''
      (whitelist (send_observation ''a^1^b'' ''c1'' 5000000007 ''{}'')) srv =
    bind_result (with_handler sample_block sample_id (process_observation sample_services ''c1'' 5 7 ''{}'') srv)
      (\<lambda>srv'. Inr (False, srv'))"
proof
  fix srv :: "bool server"
  have i: "aid_str sample_id = ''a^1^b''" "plain_id sample_id"
    by (simp_all add: aid_str_def plain_id_def sample_id_def)
  have acc: "accepted (welcome_message ''a^1^b'' ''c1'' ''{}'')" "accepted (send_observation ''a^1^b'' ''c1'' 5000000007 ''{}'')"
    by code_simp+
  show "handle_incoming_message split_any_of sample_services sample_block ''0''
      (whitelist (send_observation ''a^1^b'' ''c1'' 5000000007 ''{}'')) srv =
    bind_result (with_handler sample_block sample_id (process_observation sample_services ''c1'' 5 7 ''{}'') srv)
      (\<lambda>srv'. Inr (False, srv'))"
    using client_messages_reach_handler [OF sp.tokenizer_axioms i(2), of "''c1''" "''{}''" 5000000007 "''{}''" sample_services sample_block "''0''" srv] acc
    by (simp add: i(1))
qed



end
